(* ===== verification/Prelude.thy ===== *)
theory Prelude
  imports "HOL-Library.Word"
begin

text \<open>
  Shared vocabulary of the development: the widths of the C types the drivers use, the kernel's
  error numbers, the rounding macro \<open>ALIGN\<close>, and the lemmas on aligned addresses that every
  component with a memory image rests on.  Pointers to 32-bit cells are modelled by the physical
  address of the cell (the kernel's linear map makes \<open>__va\<close> and \<open>__pa\<close> inverse to each other),
  so \<open>p + i\<close> on a \<open>u32 *\<close> is the address \<open>p + 4 * i\<close>.
\<close>

unbundle bit_operations_syntax

type_synonym u8 = "8 word"
type_synonym u16 = "16 word"
type_synonym u32 = "32 word"
type_synonym u64 = "64 word"

named_theorems errno_simps "values of the kernel's error numbers"

definition ENOENT :: int where [errno_simps]: "ENOENT = 2"
definition EAGAIN :: int where [errno_simps]: "EAGAIN = 11"
definition ENOMEM :: int where [errno_simps]: "ENOMEM = 12"
definition EFAULT :: int where [errno_simps]: "EFAULT = 14"
definition EBUSY :: int where [errno_simps]: "EBUSY = 16"
definition ENODEV :: int where [errno_simps]: "ENODEV = 19"
definition EINVAL :: int where [errno_simps]: "EINVAL = 22"
definition ENODATA :: int where [errno_simps]: "ENODATA = 61"
definition ETIMEDOUT :: int where [errno_simps]: "ETIMEDOUT = 110"
definition ERESTARTSYS :: int where [errno_simps]: "ERESTARTSYS = 512"

text \<open>
  A value stored in a C \<open>int\<close>.  The kernel is compiled with \<open>-fno-strict-overflow\<close>, so that \<open>++\<close> and
  \<open>--\<close> on an \<open>int\<close> wrap around.
\<close>

definition cint :: "int \<Rightarrow> int" where
  "cint n = signed_take_bit 31 n"

lemma cint_id [simp]: "- (2 ^ 31) \<le> n \<Longrightarrow> n < 2 ^ 31 \<Longrightarrow> cint n = n"
  by (simp add: cint_def signed_take_bit_int_eq_self)

lemma cint_wraps: "cint 2147483648 = - 2147483648" "cint (- 2147483649) = 2147483647"
  by (simp_all add: cint_def)

definition ALIGN :: "u64 \<Rightarrow> u64 \<Rightarrow> u64" where
  "ALIGN x a = (x + a - 1) AND NOT (a - 1)"

definition aligned :: "nat \<Rightarrow> u64 \<Rightarrow> bool" where
  "aligned b p \<longleftrightarrow> take_bit b p = 0"

definition cell :: "u64 \<Rightarrow> nat \<Rightarrow> u64" where
  "cell p i = p + 4 * of_nat i"

named_theorems addr_simps "arithmetic of aligned addresses and of memory cells"

lemma aligned_unat [addr_simps]: "aligned b p \<longleftrightarrow> 2 ^ b dvd unat p"
proof -
  have "aligned b p \<longleftrightarrow> unat (take_bit b p) = 0"
    by (simp add: aligned_def unat_eq_0)
  also have "unat (take_bit b p) = take_bit b (unat p)"
    by (rule unsigned_take_bit_eq)
  also have "\<dots> = unat p mod 2 ^ b"
    by (rule take_bit_eq_mod)
  finally show ?thesis by (simp add: dvd_eq_mod_eq_0)
qed

lemma unat_le_64: "unat (p :: u64) < 2 ^ 64"
  using unsigned_less [of p, where ?'a = nat] by simp

lemma unat_of_nat_eq: "n < 2 ^ LENGTH('a) \<Longrightarrow> unat (of_nat n :: 'a :: len word) = n"
  by (simp add: unat_of_nat take_bit_nat_eq_self)

lemma of_nat_unat_eq: "unat (x :: 'a :: len word) = n \<Longrightarrow> x = of_nat n"
  by auto

lemma ucast_of_nat_eq:
  "n < 2 ^ LENGTH('a) \<Longrightarrow> (ucast (of_nat n :: 'a :: len word) :: 'b :: len word) = of_nat n"
  by (metis of_nat_unat unat_of_nat_eq)

lemma aligned_add_bound:
  assumes "aligned b p" "k < 2 ^ b" "b \<le> 64"
  shows "unat p + k < 2 ^ 64"
proof -
  from assms(1) obtain q where q: "unat p = 2 ^ b * q"
    by (auto simp: addr_simps)
  have split: "(2::nat) ^ 64 = 2 ^ b * 2 ^ (64 - b)"
    using assms(3) by (simp flip: power_add)
  have "2 ^ b * q < 2 ^ b * (2 :: nat) ^ (64 - b)"
    using unat_le_64 [of p] q split by metis
  then have "q < 2 ^ (64 - b)" by simp
  then have "2 ^ b * (q + 1) \<le> 2 ^ b * (2 :: nat) ^ (64 - b)"
    by (intro mult_le_mono2) simp
  with q split assms(2) show ?thesis by simp
qed

lemma unat_aligned_add [addr_simps]:
  assumes "aligned b p" "k < 2 ^ b" "b \<le> 64"
  shows "unat (p + of_nat k) = unat p + k"
proof -
  have k: "unat p + k < 2 ^ 64"
    using assms by (rule aligned_add_bound)
  then have "unat (of_nat k :: u64) = k"
    by (simp add: unat_of_nat)
  with k show ?thesis
    by (simp add: unat_word_ariths)
qed

lemma cell_of_nat: "cell p i = p + of_nat (4 * i)"
  by (simp add: cell_def)

lemma unat_cell:
  assumes "aligned b p" "4 * i < 2 ^ b" "b \<le> 64"
  shows "unat (cell p i) = unat p + 4 * i"
  unfolding cell_of_nat using assms by (rule unat_aligned_add)

lemma aligned_div:
  assumes "aligned b p" "k < 2 ^ b"
  shows "(unat p + k) div 2 ^ b = unat p div 2 ^ b" "(unat p + k) mod 2 ^ b = k"
  using assms by (auto simp: addr_simps elim!: dvdE)

lemma aligned_eq_div:
  assumes "aligned b p" "aligned b p'" "unat p div 2 ^ b = unat p' div 2 ^ b"
  shows "p = p'"
  using assms by (metis aligned_unat dvd_div_eq_iff word_unat_eq_iff)

lemma cell_inject:
  assumes "aligned b p" "aligned b p'" "4 * i < 2 ^ b" "4 * i' < 2 ^ b" "b \<le> 64"
  shows "cell p i = cell p' i' \<longleftrightarrow> p = p' \<and> i = i'"
proof
  assume "cell p i = cell p' i'"
  moreover have "unat (cell p i) = unat p + 4 * i" "unat (cell p' i') = unat p' + 4 * i'"
    using assms by (auto intro!: unat_cell)
  ultimately have eq: "unat p + 4 * i = unat p' + 4 * i'" by simp
  then have "unat p div 2 ^ b = unat p' div 2 ^ b" "4 * i = 4 * i'"
    using assms aligned_div by metis+
  with assms show "p = p' \<and> i = i'"
    using aligned_eq_div by auto
qed simp

lemma cell_apart:
  assumes "aligned b p" "4 * i < 2 ^ b" "aligned c q" "4 * j < 2 ^ c" "b \<le> c" "c \<le> 64"
    and "unat p div 2 ^ c \<noteq> unat q div 2 ^ c"
  shows "cell p i \<noteq> cell q j"
proof
  assume "cell p i = cell q j"
  moreover have "unat (cell p i) = unat p + 4 * i" "unat (cell q j) = unat q + 4 * j"
    using assms by (auto intro!: unat_cell)
  ultimately have eq: "unat p + 4 * i = unat q + 4 * j" by simp
  have c: "(2::nat) ^ c = 2 ^ b * 2 ^ (c - b)"
    using assms(5) by (simp flip: power_add)
  have "(unat p + 4 * i) div 2 ^ c = unat p div 2 ^ c"
    using assms(1,2) by (simp add: c div_mult2_eq aligned_div)
  moreover have "(unat q + 4 * j) div 2 ^ c = unat q div 2 ^ c"
    using assms(3,4) by (rule aligned_div)
  ultimately show False using eq assms(7) by simp
qed

lemma aligned_mono: "aligned b p \<Longrightarrow> c \<le> b \<Longrightarrow> aligned c p"
  by (auto simp: addr_simps intro: dvd_trans le_imp_power_dvd)

end
