(* ===== verification/Mmio.thy ===== *)
theory Mmio
  imports Prelude "HOL-Library.Monad_Syntax"
begin

text \<open>
  Register accesses, shared by the IOMMU and the VE driver.  A driver run is described by its
  trace: the register writes and reads, the reads of \<open>jiffies\<close>, the delays, the lock operations and
  the calls of registered callbacks, in program order.  The device is a parameter: \<open>reg\<close> gives the
  value that reading a register returns after a given trace, \<open>clock\<close> the number of ticks since
  boot (\<open>jiffies\<close> is that number at the width of \<open>unsigned long\<close>), \<open>msecs_to_jiffies\<close> the kernel's
  conversion.  A loop that polls a register is a partial function: \<open>None\<close> is a run that never
  returns.
\<close>

datatype lock = iommu_lock | dt_lock

datatype ev =
    Wr u32 u32
  | Rd u32
  | Jiffies
  | Udelay
  | Lock lock
  | Unlock lock
  | Callback nat

type_synonym trace = "ev list"

record hw =
  reg :: "trace \<Rightarrow> u32 \<Rightarrow> u32"
  clock :: "trace \<Rightarrow> nat"
  msecs_to_jiffies :: "nat \<Rightarrow> nat"

definition sunxi_iommu_write :: "u32 \<Rightarrow> u32 \<Rightarrow> trace \<Rightarrow> trace" where
  "sunxi_iommu_write offset val t = t @ [Wr offset val]"

definition sunxi_iommu_read :: "hw \<Rightarrow> u32 \<Rightarrow> trace \<Rightarrow> u32 \<times> trace" where
  "sunxi_iommu_read hw offset t = (reg hw t offset, t @ [Rd offset])"

definition jiffies :: "hw \<Rightarrow> trace \<Rightarrow> u64 \<times> trace" where
  "jiffies hw t = (of_nat (clock hw t), t @ [Jiffies])"

definition time_after :: "u64 \<Rightarrow> u64 \<Rightarrow> bool" where
  "time_after a b \<longleftrightarrow> sint (b - a) < 0"

section \<open>Polling\<close>

partial_function (option) wait_loop ::
  "hw \<Rightarrow> u32 \<Rightarrow> u32 \<Rightarrow> u64 \<Rightarrow> trace \<Rightarrow> (int \<times> trace) option" where
  "wait_loop hw offset m timeout t =
     (let (c, t) = sunxi_iommu_read hw offset t in
      if c AND m \<noteq> 0 then
        let (j, t) = jiffies hw t in
        if time_after j timeout then
          let (c, t) = sunxi_iommu_read hw offset t
          in Some (if c AND m = 0 then 0 else - ETIMEDOUT, t)
        else wait_loop hw offset m timeout (t @ [Udelay])
      else Some (0, t))"

definition sunxi_wait_when :: "hw \<Rightarrow> u32 \<Rightarrow> u32 \<Rightarrow> nat \<Rightarrow> trace \<Rightarrow> (int \<times> trace) option" where
  "sunxi_wait_when hw offset m ms t =
     (let (j, t) = jiffies hw t
      in wait_loop hw offset m (j + of_nat (msecs_to_jiffies hw ms) + 1) t)"

text \<open>
  The macro of the v2 driver has the same text but is used with conditions over several registers,
  so its condition is a parameter: it may read registers and returns its truth value.
\<close>

partial_function (option) wait_loop_v2 ::
  "hw \<Rightarrow> (trace \<Rightarrow> bool \<times> trace) \<Rightarrow> u64 \<Rightarrow> trace \<Rightarrow> (int \<times> trace) option" where
  "wait_loop_v2 hw COND timeout t =
     (let (c, t) = COND t in
      if c then
        let (j, t) = jiffies hw t in
        if time_after j timeout then
          let (c, t) = COND t
          in Some (if \<not> c then 0 else - ETIMEDOUT, t)
        else wait_loop_v2 hw COND timeout (t @ [Udelay])
      else Some (0, t))"

definition sunxi_wait_when_v2 ::
  "hw \<Rightarrow> (trace \<Rightarrow> bool \<times> trace) \<Rightarrow> nat \<Rightarrow> trace \<Rightarrow> (int \<times> trace) option" where
  "sunxi_wait_when_v2 hw COND ms t =
     (let (j, t) = jiffies hw t
      in wait_loop_v2 hw COND (j + of_nat (msecs_to_jiffies hw ms) + 1) t)"

partial_function (option) spin_while :: "hw \<Rightarrow> u32 \<Rightarrow> u32 \<Rightarrow> trace \<Rightarrow> trace option" where
  "spin_while hw offset m t =
     (let (c, t) = sunxi_iommu_read hw offset t in
      if c AND m \<noteq> 0 then spin_while hw offset m t else Some t)"

section \<open>The clock\<close>

text \<open>
  What a driver relies on of the clock: it does not run backwards, one step of the driver takes
  less than a day of ticks, and every \<open>K\<close> microsecond delays are at least one tick.
\<close>

definition clock_ok :: "hw \<Rightarrow> nat \<Rightarrow> bool" where
  "clock_ok hw K \<longleftrightarrow> 0 < K \<and>
     (\<forall>t e. clock hw t \<le> clock hw (t @ [e]) \<and> clock hw (t @ [e]) \<le> clock hw t + 2 ^ 32) \<and>
     (\<forall>t u. clock hw t + length (filter (\<lambda>e. e = Udelay) u) div K \<le> clock hw (t @ u))"

lemma time_after_nat:
  assumes "a < b + 2 ^ 63" "b < a + 2 ^ 63"
  shows "time_after (of_nat a) (of_nat b) \<longleftrightarrow> b < a"
proof -
  have diff: "(of_nat b - of_nat a :: u64) = of_int (int b - int a)" by simp
  have "sint (of_int (int b - int a) :: u64) = int b - int a"
    using assms by (simp add: sint_sbintrunc' signed_take_bit_int_eq_self del: of_int_diff)
  then show ?thesis unfolding time_after_def diff by auto
qed

definition poll_events :: "u32 \<Rightarrow> ev set" where
  "poll_events offset = {Rd offset, Jiffies, Udelay}"

definition polled :: "hw \<Rightarrow> u32 \<Rightarrow> u32 \<Rightarrow> int \<Rightarrow> trace \<Rightarrow> trace \<Rightarrow> bool" where
  "polled hw offset m r t t' \<longleftrightarrow>
     (\<exists>w. t' = t @ w @ [Rd offset] \<and> set w \<subseteq> poll_events offset \<and>
        r = (if reg hw (t @ w) offset AND m = 0 then 0 else - ETIMEDOUT))"

lemma clock_okD:
  assumes "clock_ok hw K"
  shows "0 < K" "clock hw t \<le> clock hw (t @ [e])" "clock hw (t @ [e]) \<le> clock hw t + 2 ^ 32"
    "clock hw t + length (filter (\<lambda>e. e = Udelay) u) div K \<le> clock hw (t @ u)"
  using assms unfolding clock_ok_def by blast+

lemma clock_mono: "clock_ok hw K \<Longrightarrow> clock hw t \<le> clock hw (t @ u)"
  using clock_okD(4) [of hw K t u] by simp

text \<open>
  Every polling loop of the drivers is the same loop over a condition that only reads registers.
  The locale states that once: what the condition may do, and the equation of the loop.
\<close>

definition poll_any :: "u32 set \<Rightarrow> ev set" where
  "poll_any R = Rd ` R \<union> {Jiffies, Udelay}"

definition cond_polled :: "(trace \<Rightarrow> bool \<times> trace) \<Rightarrow> u32 set \<Rightarrow> int \<Rightarrow> trace \<Rightarrow> trace \<Rightarrow> bool" where
  "cond_polled c R r t t' \<longleftrightarrow>
     (\<exists>w. t' = snd (c (t @ w)) \<and> set w \<subseteq> poll_any R \<and> r = (if fst (c (t @ w)) then - ETIMEDOUT else 0))"

definition reads_only :: "(trace \<Rightarrow> bool \<times> trace) \<Rightarrow> u32 set \<Rightarrow> bool" where
  "reads_only c R \<longleftrightarrow> (\<forall>t. \<exists>w. snd (c t) = t @ w \<and> length w \<le> 4 \<and> set w \<subseteq> Rd ` R)"

lemma cond_polled_append:
  assumes "cond_polled c R r (t @ w) t'" "set w \<subseteq> poll_any R"
  shows "cond_polled c R r t t'"
proof -
  from assms(1) obtain x where "t' = snd (c (t @ (w @ x)))" "set x \<subseteq> poll_any R"
    "r = (if fst (c (t @ (w @ x))) then - ETIMEDOUT else 0)"
    unfolding cond_polled_def by auto
  with assms(2) show ?thesis unfolding cond_polled_def by (intro exI [of _ "w @ x"]) simp
qed

lemma clock_reads:
  assumes "clock_ok hw K" shows "clock hw (t @ w) \<le> clock hw t + length w * 2 ^ 32"
proof (induction w rule: rev_induct)
  case (snoc e w)
  with clock_okD(3) [OF assms, of "t @ w" e] show ?case by simp
qed simp

lemma reads_onlyE:
  assumes "reads_only c R"
  obtains w where "c t = (fst (c t), t @ w)" "length w \<le> 4" "set w \<subseteq> poll_any R" "set w \<subseteq> Rd ` R"
    "filter (\<lambda>e. e = Udelay) w = []"
proof -
  obtain w where w: "snd (c t) = t @ w" "length w \<le> 4" "set w \<subseteq> Rd ` R" using assms unfolding reads_only_def by blast
  then have "filter (\<lambda>e. e = Udelay) w = []" by (auto simp: filter_empty_conv)
  with w show thesis by (intro that [of w]) (auto simp: poll_any_def prod_eq_iff)
qed

locale polling =
  fixes hw :: hw and cond :: "trace \<Rightarrow> bool \<times> trace" and R :: "u32 set"
    and loop :: "u64 \<Rightarrow> trace \<Rightarrow> (int \<times> trace) option"
  assumes cond_reads: "reads_only cond R"
    and loop_eq: "loop timeout t =
      (let (c, t) = cond t in
       if c then
         let (j, t) = jiffies hw t in
         if time_after j timeout then
           let (c, t) = cond t in Some (if \<not> c then 0 else - ETIMEDOUT, t)
         else loop timeout (t @ [Udelay])
       else Some (0, t))"
begin

lemma loop_returns:
  assumes ok: "clock_ok hw K" and T: "T < clock hw t0 + 2 ^ 62"
    and "clock hw (t0 @ u) \<le> T + 2 ^ 36"
  shows "\<exists>r t'. loop (of_nat T) (t0 @ u) = Some (r, t') \<and> cond_polled cond R r (t0 @ u) t'"
  using assms(3)
proof (induction "(T + 1) * K - length (filter (\<lambda>e. e = Udelay) u)" arbitrary: u rule: less_induct)
  case less
  let ?t = "t0 @ u" and ?n = "length (filter (\<lambda>e. e = Udelay) u)"
  obtain w where w: "cond ?t = (fst (cond ?t), ?t @ w)" "length w \<le> 4" "set w \<subseteq> poll_any R"
    "filter (\<lambda>e. e = Udelay) w = []"
    using reads_onlyE [OF cond_reads, of ?t] by metis
  let ?t1 = "?t @ w"
  have "length w * 2 ^ 32 \<le> 4 * (2::nat) ^ 32" using w(2) by (rule mult_le_mono1)
  then have c1: "clock hw ?t1 \<le> T + 2 ^ 36 + 2 ^ 34" "clock hw t0 \<le> clock hw ?t1"
    using clock_reads [OF ok, of ?t w] less.prems clock_mono [OF ok, of t0 "u @ w"] by auto
  have after: "time_after (of_nat (clock hw ?t1)) (of_nat T) \<longleftrightarrow> T < clock hw ?t1"
    using c1 T by (intro time_after_nat) auto
  consider (clear) "\<not> fst (cond ?t)" | (late) "fst (cond ?t)" "T < clock hw ?t1"
    | (again) "fst (cond ?t)" "clock hw ?t1 \<le> T" by fastforce
  then show ?case
  proof cases
    case clear
    then have "loop (of_nat T) ?t = Some (0, snd (cond (?t @ [])))"
      by (subst loop_eq) (simp add: case_prod_unfold)
    moreover have "0 = (if fst (cond (?t @ [])) then - ETIMEDOUT else 0)" using clear by simp
    ultimately show ?thesis unfolding cond_polled_def by (metis empty_subsetI list.set(1))
  next
    case late
    have "loop (of_nat T) ?t = Some (if fst (cond (?t @ w @ [Jiffies])) then - ETIMEDOUT else 0, snd (cond (?t @ w @ [Jiffies])))"
      using late after w(1) by (subst loop_eq) (simp add: jiffies_def case_prod_unfold)
    moreover have "set (w @ [Jiffies]) \<subseteq> poll_any R" using w(3) by (auto simp: poll_any_def)
    ultimately show ?thesis unfolding cond_polled_def by blast
  next
    case again
    define u' where "u' = u @ w @ [Jiffies, Udelay]"
    have step: "loop (of_nat T) ?t = loop (of_nat T) (t0 @ u')"
      using again after w(1) by (subst loop_eq) (simp add: jiffies_def u'_def case_prod_unfold)
    have "clock hw (t0 @ u') \<le> clock hw ?t1 + 2 ^ 32 + 2 ^ 32"
      using clock_okD(3) [OF ok, of ?t1 Jiffies] clock_okD(3) [OF ok, of "?t1 @ [Jiffies]" Udelay]
      by (simp add: u'_def)
    then have pre: "clock hw (t0 @ u') \<le> T + 2 ^ 36" using again by simp
    have "?n div K \<le> clock hw ?t1" using clock_okD(4) [OF ok, of t0 "u @ w"] w(4) by simp
    then have "?n div K < T + 1" using again by simp
    then have "?n < (T + 1) * K" using clock_okD(1) [OF ok] by (simp add: div_less_iff_less_mult)
    then have "(T + 1) * K - length (filter (\<lambda>e. e = Udelay) u') < (T + 1) * K - ?n"
      using w(4) by (simp add: u'_def)
    from less.hyps [OF this pre] obtain r t' where "loop (of_nat T) ?t = Some (r, t')"
      "cond_polled cond R r (?t @ w @ [Jiffies, Udelay]) t'"
      unfolding step by (auto simp: u'_def)
    moreover have "set (w @ [Jiffies, Udelay]) \<subseteq> poll_any R" using w(3) by (auto simp: poll_any_def)
    ultimately show ?thesis using cond_polled_append by blast
  qed
qed

lemma wait_returns:
  assumes "clock_ok hw K" "msecs_to_jiffies hw ms < 2 ^ 61"
  shows "\<exists>r t'. (let (j, t) = jiffies hw t in loop (j + of_nat (msecs_to_jiffies hw ms) + 1) t) = Some (r, t') \<and>
    cond_polled cond R r t t'"
proof -
  let ?T = "clock hw t + msecs_to_jiffies hw ms + 1"
  have "clock hw (t @ [Jiffies]) \<le> ?T + 2 ^ 36" using clock_okD(3) [OF assms(1), of t Jiffies] by simp
  moreover have "?T < clock hw t + 2 ^ 62" using assms(2) by simp
  ultimately obtain r t' where "loop (of_nat ?T) (t @ [Jiffies]) = Some (r, t')"
    "cond_polled cond R r (t @ [Jiffies]) t'"
    using loop_returns [OF assms(1)] by blast
  moreover have "(of_nat ?T :: u64) = of_nat (clock hw t) + of_nat (msecs_to_jiffies hw ms) + 1" by simp
  ultimately show ?thesis
    using cond_polled_append [of cond R r t "[Jiffies]" t']
    by (simp add: jiffies_def poll_any_def add.assoc add.commute [of 1])
qed

end

definition reg_busy :: "hw \<Rightarrow> u32 \<Rightarrow> u32 \<Rightarrow> trace \<Rightarrow> bool \<times> trace" where
  "reg_busy hw offset m t = (let (c, t) = sunxi_iommu_read hw offset t in (c AND m \<noteq> 0, t))"

lemma reg_busy_reads: "reads_only (reg_busy hw offset m) {offset}"
  by (auto simp: reads_only_def reg_busy_def sunxi_iommu_read_def)

interpretation one: polling hw "reg_busy hw offset m" "{offset}" "wait_loop hw offset m" for hw offset m
  by (unfold_locales, rule reg_busy_reads, subst wait_loop.simps)
    (simp add: reg_busy_def case_prod_unfold Let_def)

lemma wait_when_v2_returns:
  assumes "clock_ok hw K" "msecs_to_jiffies hw ms < 2 ^ 61" "reads_only c R"
  shows "\<exists>r t'. sunxi_wait_when_v2 hw c ms t = Some (r, t') \<and> cond_polled c R r t t'"
proof -
  have "polling hw c R (wait_loop_v2 hw c)"
    by (unfold_locales, rule assms(3)) (subst wait_loop_v2.simps, simp)
  from polling.wait_returns [OF this assms(1,2)] show ?thesis by (simp add: sunxi_wait_when_v2_def)
qed

lemma cond_polled_one: "cond_polled (reg_busy hw offset m) {offset} r t t' \<Longrightarrow> polled hw offset m r t t'"
  by (fastforce simp: cond_polled_def polled_def reg_busy_def sunxi_iommu_read_def poll_any_def poll_events_def)

lemma wait_when_returns:
  assumes "clock_ok hw K" "msecs_to_jiffies hw ms < 2 ^ 61"
  shows "\<exists>r t'. sunxi_wait_when hw offset m ms t = Some (r, t') \<and> polled hw offset m r t t'"
  using one.wait_returns [OF assms, of t offset m] cond_polled_one by (fastforce simp: sunxi_wait_when_def)

end
