(* ===== verification/Pgtable.thy ===== *)
theory Pgtable
  imports Prelude
begin

text \<open>
  The page-table controller, \<open>sunxi-iommu-pgtable.h\<close> and \<open>sunxi-iommu-pgtable.c\<close>.  The two table
  formats that the configuration selects (\<open>AW_IOMMU_PGTABLE_V1\<close> with 32-bit input addresses and
  1 MB directory entries, \<open>AW_IOMMU_PGTABLE_V2\<close> with 34-bit input addresses and 4 MB entries) are
  the two values of \<open>pgver\<close>, and every macro and function takes the version.  The tables live in
  a memory of 32-bit cells; \<open>kmem_cache_zalloc\<close> is a parameter \<open>zalloc\<close>, a function of the objects
  of the cache that are in use.  Cache maintenance (\<open>dma_sync_single_for_*\<close>) and \<open>WARN_ON\<close> do not
  change the state of the model: the device is taken to see the memory that the CPU wrote.
\<close>

section \<open>Geometry\<close>

datatype pgver = AW_IOMMU_PGTABLE_V1 | AW_IOMMU_PGTABLE_V2

definition SUNXI_PHYS_OFFSET :: u64 where
  "SUNXI_PHYS_OFFSET = 0x40000000"

fun IOMMU_VA_BITS :: "pgver \<Rightarrow> nat" where
  "IOMMU_VA_BITS AW_IOMMU_PGTABLE_V1 = 32"
| "IOMMU_VA_BITS AW_IOMMU_PGTABLE_V2 = 34"

fun IOMMU_PD_SHIFT :: "pgver \<Rightarrow> nat" where
  "IOMMU_PD_SHIFT AW_IOMMU_PGTABLE_V1 = 20"
| "IOMMU_PD_SHIFT AW_IOMMU_PGTABLE_V2 = 22"

definition IOMMU_PT_SHIFT :: nat where
  "IOMMU_PT_SHIFT = 12"

definition IOMMU_PT_MASK :: u64 where
  "IOMMU_PT_MASK = NOT (push_bit IOMMU_PT_SHIFT 1 - 1)"

definition SPAGE_SIZE :: u64 where
  "SPAGE_SIZE = push_bit IOMMU_PT_SHIFT 1"

definition SPD_SIZE :: "pgver \<Rightarrow> u64" where
  "SPD_SIZE v = push_bit (IOMMU_PD_SHIFT v) 1"

definition SPAGE_ALIGN :: "u64 \<Rightarrow> u64" where
  "SPAGE_ALIGN addr = ALIGN addr SPAGE_SIZE"

definition NUM_ENTRIES_PDE :: "pgver \<Rightarrow> u64" where
  "NUM_ENTRIES_PDE v = push_bit (IOMMU_VA_BITS v - IOMMU_PD_SHIFT v) 1"

definition NUM_ENTRIES_PTE :: "pgver \<Rightarrow> u64" where
  "NUM_ENTRIES_PTE v = push_bit (IOMMU_PD_SHIFT v - IOMMU_PT_SHIFT) 1"

definition PD_SIZE :: "pgver \<Rightarrow> u64" where
  "PD_SIZE v = NUM_ENTRIES_PDE v * 4"

definition PT_SIZE :: "pgver \<Rightarrow> u64" where
  "PT_SIZE v = NUM_ENTRIES_PTE v * 4"

definition PAGE_OFFSET_MASK :: u64 where
  "PAGE_OFFSET_MASK = push_bit IOMMU_PT_SHIFT 1 - 1"

definition IOPTE_BASE_MASK :: "pgver \<Rightarrow> u64" where
  "IOPTE_BASE_MASK v = NOT (PT_SIZE v - 1)"

definition IOPDE_INDEX :: "pgver \<Rightarrow> u64 \<Rightarrow> u64" where
  "IOPDE_INDEX v va = drop_bit (IOMMU_PD_SHIFT v) va AND (NUM_ENTRIES_PDE v - 1)"

definition IOPTE_INDEX :: "pgver \<Rightarrow> u64 \<Rightarrow> u64" where
  "IOPTE_INDEX v va = drop_bit IOMMU_PT_SHIFT va AND (NUM_ENTRIES_PTE v - 1)"

definition IOVA_PAGE_OFT :: "u64 \<Rightarrow> u64" where
  "IOVA_PAGE_OFT va = va AND PAGE_OFFSET_MASK"

section \<open>Entries\<close>

definition DENT_VALID :: u64 where
  "DENT_VALID = 0x01"

definition IS_VALID :: "u32 \<Rightarrow> bool" where
  "IS_VALID x \<longleftrightarrow> x AND 0x03 = ucast DENT_VALID"

definition SUNXI_PTE_PAGE_WRITABLE :: u32 where
  "SUNXI_PTE_PAGE_WRITABLE = push_bit 3 1"

definition SUNXI_PTE_PAGE_READABLE :: u32 where
  "SUNXI_PTE_PAGE_READABLE = push_bit 2 1"

definition SUNXI_PTE_PAGE_VALID :: u32 where
  "SUNXI_PTE_PAGE_VALID = push_bit 1 1"

definition IOMMU_READ :: u32 where
  "IOMMU_READ = 1"

definition IOMMU_WRITE :: u32 where
  "IOMMU_WRITE = 2"

definition iommu_phy_to_cpu_phy :: "pgver \<Rightarrow> u64 \<Rightarrow> u64" where
  "iommu_phy_to_cpu_phy v iommu_phy =
     (if iommu_phy < SUNXI_PHYS_OFFSET then iommu_phy + push_bit (IOMMU_VA_BITS v) 1
      else iommu_phy)"

definition cpu_phy_to_iommu_phy :: "pgver \<Rightarrow> u64 \<Rightarrow> u64" where
  "cpu_phy_to_iommu_phy v cpu_phy =
     (if cpu_phy > push_bit (IOMMU_VA_BITS v) 1 then cpu_phy - push_bit (IOMMU_VA_BITS v) 1
      else cpu_phy)"

text \<open>
  \<open>DENT_ADDR_HIGH_MASK\<close> and \<open>SUNXI_PTE_PAGE_ADDR_HIGH_MASK\<close> are both \<open>0x3 << 8\<close> and exist in the
  second format only: bits 8 and 9 of an entry hold bits 32 and 33 of the address.
\<close>

definition ADDR_HIGH_MASK :: u64 where
  "ADDR_HIGH_MASK = push_bit 8 0x3"

definition entry_high :: "pgver \<Rightarrow> u64 \<Rightarrow> u64" where
  "entry_high v a =
     (case v of AW_IOMMU_PGTABLE_V1 \<Rightarrow> 0
      | AW_IOMMU_PGTABLE_V2 \<Rightarrow> push_bit 8 (drop_bit 32 a) AND ADDR_HIGH_MASK)"

definition high_bits :: "pgver \<Rightarrow> u32 \<Rightarrow> u64" where
  "high_bits v ent =
     (case v of AW_IOMMU_PGTABLE_V1 \<Rightarrow> 0
      | AW_IOMMU_PGTABLE_V2 \<Rightarrow> push_bit 32 (ucast (drop_bit 8 (ent AND ucast ADDR_HIGH_MASK))))"

definition IOPTE_TO_PFN :: "pgver \<Rightarrow> u32 \<Rightarrow> u64" where
  "IOPTE_TO_PFN v ent = (ucast ent AND IOMMU_PT_MASK) OR high_bits v ent"

definition iopde_offset :: "pgver \<Rightarrow> u64 \<Rightarrow> u64 \<Rightarrow> u64" where
  "iopde_offset v iopd iova = iopd + 4 * IOPDE_INDEX v iova"

definition iopte_base :: "pgver \<Rightarrow> u32 \<Rightarrow> u64" where
  "iopte_base v ent =
     iommu_phy_to_cpu_phy v ((ucast ent AND IOPTE_BASE_MASK v) OR high_bits v ent)"

definition iopte_offset :: "pgver \<Rightarrow> u32 \<Rightarrow> u64 \<Rightarrow> u64" where
  "iopte_offset v ent iova = iopte_base v ent + 4 * IOPTE_INDEX v iova"

definition mk_dent :: "pgver \<Rightarrow> u64 \<Rightarrow> u32" where
  "mk_dent v pent = ucast (cpu_phy_to_iommu_phy v pent OR DENT_VALID) OR ucast (entry_high v pent)"

definition pte_flags :: "u32 \<Rightarrow> u32" where
  "pte_flags prot =
     (if prot AND IOMMU_READ \<noteq> 0 then SUNXI_PTE_PAGE_READABLE else 0) OR
     (if prot AND IOMMU_WRITE \<noteq> 0 then SUNXI_PTE_PAGE_WRITABLE else 0)"

definition sunxi_mk_pte :: "pgver \<Rightarrow> u64 \<Rightarrow> u32 \<Rightarrow> u32" where
  "sunxi_mk_pte v page prot =
     (let flags = pte_flags prot;
          page = page AND IOMMU_PT_MASK;
          high_addr = ucast (entry_high v page)
      in ucast page OR high_addr OR flags OR SUNXI_PTE_PAGE_VALID)"

section \<open>State and operations\<close>

record pgtable_state =
  mem :: "u64 \<Rightarrow> u32"
  iopte_live :: "u64 list"

type_synonym slab = "u64 list \<Rightarrow> u64 option"

primrec memset0 :: "nat \<Rightarrow> u64 \<Rightarrow> (u64 \<Rightarrow> u32) \<Rightarrow> (u64 \<Rightarrow> u32)" where
  "memset0 0 p m = m"
| "memset0 (Suc n) p m = memset0 n (p + 4) (m(p := 0))"

definition sunxi_alloc_iopte ::
  "pgver \<Rightarrow> slab \<Rightarrow> u64 \<Rightarrow> u32 \<Rightarrow> pgtable_state \<Rightarrow> bool \<times> pgtable_state" where
  "sunxi_alloc_iopte v zalloc sent prot s =
     (case zalloc (iopte_live s) of
        None \<Rightarrow> (False, s)
      | Some pent \<Rightarrow>
          (True, s\<lparr>mem := (memset0 (unat (NUM_ENTRIES_PTE v)) pent (mem s))(sent := mk_dent v pent),
                   iopte_live := pent # iopte_live s\<rparr>))"

definition sunxi_free_iopte :: "u64 \<Rightarrow> pgtable_state \<Rightarrow> pgtable_state" where
  "sunxi_free_iopte pent s = s\<lparr>iopte_live := remove1 pent (iopte_live s)\<rparr>"

partial_function (option) sunxi_pgtable_prepare_l1_tables ::
  "pgver \<Rightarrow> slab \<Rightarrow> u64 \<Rightarrow> u64 \<Rightarrow> u64 \<Rightarrow> u32 \<Rightarrow> pgtable_state \<Rightarrow> (int \<times> pgtable_state) option"
where
  "sunxi_pgtable_prepare_l1_tables v zalloc pgtable iova_start iova_end prot s =
     (if iova_start \<le> iova_end then
        let dent = iopde_offset v pgtable iova_start in
        if IS_VALID (mem s dent) then
          sunxi_pgtable_prepare_l1_tables v zalloc pgtable (iova_start + SPD_SIZE v) iova_end prot s
        else
          let (ok, s') = sunxi_alloc_iopte v zalloc dent prot s in
          if \<not> ok then Some (- ENOMEM, s')
          else sunxi_pgtable_prepare_l1_tables v zalloc pgtable (iova_start + SPD_SIZE v)
                 iova_end prot s'
      else Some (0, s))"

primrec write_ptes :: "nat \<Rightarrow> nat \<Rightarrow> u64 \<Rightarrow> u32 \<Rightarrow> (u64 \<Rightarrow> u32) \<Rightarrow> (u64 \<Rightarrow> u32)" where
  "write_ptes 0 i pent pent_val m = m"
| "write_ptes (Suc n) i pent pent_val m =
     write_ptes n (Suc i) (pent + 4) pent_val
       (m(pent := pent_val + ucast SPAGE_SIZE * of_nat i))"

definition iova_tail :: "pgver \<Rightarrow> u64 \<Rightarrow> u64 \<Rightarrow> u32 \<times> u32" where
  "iova_tail v iova_start iova_end =
     (let iova_tail_count = (ucast (NUM_ENTRIES_PTE v - IOPTE_INDEX v iova_start) :: u32);
          iova_tail_size = iova_tail_count * ucast SPAGE_SIZE
      in if iova_start + ucast iova_tail_size > iova_end then
           let iova_tail_size = ucast (iova_end - iova_start)
           in (iova_tail_size div ucast SPAGE_SIZE, iova_tail_size)
         else (iova_tail_count, iova_tail_size))"

partial_function (option) prepare_l2_loop ::
  "pgver \<Rightarrow> u64 \<Rightarrow> u64 \<Rightarrow> u64 \<Rightarrow> u64 \<Rightarrow> u32 \<Rightarrow> pgtable_state \<Rightarrow> pgtable_state option" where
  "prepare_l2_loop v pgtable iova_start iova_end paddr_start prot s =
     (if iova_start < iova_end then
        let (iova_tail_count, iova_tail_size) = iova_tail v iova_start iova_end;
            dent = iopde_offset v pgtable iova_start;
            pent = iopte_offset v (mem s dent) iova_start;
            pent_val = sunxi_mk_pte v paddr_start prot
        in prepare_l2_loop v pgtable (iova_start + ucast iova_tail_size) iova_end
             (paddr_start + ucast iova_tail_size) prot
             (s\<lparr>mem := write_ptes (unat iova_tail_count) 0 pent pent_val (mem s)\<rparr>)
      else Some s)"

definition sunxi_pgtable_prepare_l2_tables ::
  "pgver \<Rightarrow> u64 \<Rightarrow> u64 \<Rightarrow> u64 \<Rightarrow> u64 \<Rightarrow> u32 \<Rightarrow> pgtable_state \<Rightarrow> (int \<times> pgtable_state) option"
where
  "sunxi_pgtable_prepare_l2_tables v pgtable iova_start iova_end paddr prot s =
     map_option (\<lambda>s'. (0, s'))
       (prepare_l2_loop v pgtable iova_start iova_end
          (cpu_phy_to_iommu_phy v paddr AND IOMMU_PT_MASK) prot s)"

definition sunxi_pgtable_delete_l2_tables ::
  "pgver \<Rightarrow> u64 \<Rightarrow> u64 \<Rightarrow> u64 \<Rightarrow> pgtable_state \<Rightarrow> int \<times> pgtable_state" where
  "sunxi_pgtable_delete_l2_tables v pgtable iova_start iova_end s =
     (let (iova_tail_count, iova_tail_size) = iova_tail v iova_start iova_end;
          dent = iopde_offset v pgtable iova_start
      in if \<not> IS_VALID (mem s dent) then (- EINVAL, s)
         else
           let pent = iopte_offset v (mem s dent) iova_start;
               s1 = s\<lparr>mem := memset0 (unat iova_tail_count) pent (mem s)\<rparr>;
               s2 = (if iova_tail_size = ucast (SPD_SIZE v)
                     then sunxi_free_iopte pent (s1\<lparr>mem := (mem s1)(dent := 0)\<rparr>)
                     else s1)
           in (uint iova_tail_size, s2))"

definition sunxi_pgtable_iova_to_phys :: "pgver \<Rightarrow> u64 \<Rightarrow> u64 \<Rightarrow> pgtable_state \<Rightarrow> u64" where
  "sunxi_pgtable_iova_to_phys v pgtable iova s =
     (let dent = iopde_offset v pgtable iova in
      if IS_VALID (mem s dent) then
        let pent = iopte_offset v (mem s dent) iova in
        if mem s pent \<noteq> 0
        then iommu_phy_to_cpu_phy v (IOPTE_TO_PFN v (mem s pent) + IOVA_PAGE_OFT iova)
        else 0
      else 0)"

definition sunxi_pgtable_invalid_helper :: "pgver \<Rightarrow> u64 \<Rightarrow> u64 \<Rightarrow> pgtable_state \<Rightarrow> int" where
  "sunxi_pgtable_invalid_helper v pgtable iova s =
     (let dte_addr = iopde_offset v pgtable iova in
      if mem s dte_addr AND 0x3 \<noteq> 0x1 then 1
      else
        let pte_addr = iopte_offset v (mem s dte_addr) iova in
        if mem s pte_addr AND 0x2 = 0 then 1 else 0)"

definition clear_step :: "pgver \<Rightarrow> u64 \<Rightarrow> nat \<Rightarrow> pgtable_state \<Rightarrow> pgtable_state" where
  "clear_step v pgtable i s =
     (let dent = pgtable + 4 * of_nat i;
          iova = push_bit (IOMMU_PD_SHIFT v) (of_nat i)
      in if IS_VALID (mem s dent) then
           let pent = iopte_offset v (mem s dent) iova;
               m1 = memset0 (unat (NUM_ENTRIES_PTE v)) pent (mem s);
               m2 = m1(dent := 0)
           in sunxi_free_iopte pent (s\<lparr>mem := m2\<rparr>)
         else s)"

definition sunxi_pgtable_clear :: "pgver \<Rightarrow> u64 \<Rightarrow> pgtable_state \<Rightarrow> pgtable_state" where
  "sunxi_pgtable_clear v pgtable s = fold (clear_step v pgtable) [0..<unat (NUM_ENTRIES_PDE v)] s"

end
