(* ===== verification/Iommu_V1.thy ===== *)
theory Iommu_V1
  imports Mmio Pgtable
begin

text \<open>
  The driver \<open>sunxi-iommu-v1.c\<close>, part one: the register interface, initialisation and TLB
  maintenance, mapping and unmapping, domains, client devices and the interrupt handler.  The
  build for Linux 6.1 and later is modelled (\<open>SEPERATE_DOMAIN_API\<close>, \<open>COOKIE_HANDLE_BY_CORE\<close> and
  \<open>GROUP_NOTIFIER_DEPRECATED\<close> defined).  A result \<open>None\<close> is a run that polls forever, reads outside
  an array or dereferences a null or freed pointer.
\<close>

section \<open>Registers\<close>

named_theorems v1_regs "register offsets of the IOMMU"

definition IOMMU_VERSION_REG :: u32 where [v1_regs]: "IOMMU_VERSION_REG = 0x0000"
definition IOMMU_RESET_REG :: u32 where [v1_regs]: "IOMMU_RESET_REG = 0x0010"
definition IOMMU_ENABLE_REG :: u32 where [v1_regs]: "IOMMU_ENABLE_REG = 0x0020"
definition IOMMU_BYPASS_REG :: u32 where [v1_regs]: "IOMMU_BYPASS_REG = 0x0030"
definition IOMMU_AUTO_GATING_REG :: u32 where [v1_regs]: "IOMMU_AUTO_GATING_REG = 0x0040"
definition IOMMU_TTB_REG :: u32 where [v1_regs]: "IOMMU_TTB_REG = 0x0050"
definition IOMMU_TLB_PREFETCH_REG :: u32 where [v1_regs]: "IOMMU_TLB_PREFETCH_REG = 0x0070"
definition IOMMU_TLB_FLUSH_ENABLE_REG :: u32 where [v1_regs]: "IOMMU_TLB_FLUSH_ENABLE_REG = 0x0080"
definition IOMMU_TLB_IVLD_MODE_SEL_REG :: u32 where [v1_regs]: "IOMMU_TLB_IVLD_MODE_SEL_REG = 0x0084"
definition IOMMU_TLB_IVLD_START_ADDR_REG :: u32 where [v1_regs]: "IOMMU_TLB_IVLD_START_ADDR_REG = 0x0088"
definition IOMMU_TLB_IVLD_END_ADDR_REG :: u32 where [v1_regs]: "IOMMU_TLB_IVLD_END_ADDR_REG = 0x008C"
definition IOMMU_TLB_IVLD_ADDR_REG :: u32 where [v1_regs]: "IOMMU_TLB_IVLD_ADDR_REG = 0x0090"
definition IOMMU_TLB_IVLD_ADDR_MASK_REG :: u32 where [v1_regs]: "IOMMU_TLB_IVLD_ADDR_MASK_REG = 0x0094"
definition IOMMU_TLB_IVLD_ENABLE_REG :: u32 where [v1_regs]: "IOMMU_TLB_IVLD_ENABLE_REG = 0x0098"
definition IOMMU_PC_IVLD_MODE_SEL_REG :: u32 where [v1_regs]: "IOMMU_PC_IVLD_MODE_SEL_REG = 0x009C"
definition IOMMU_PC_IVLD_ADDR_REG :: u32 where [v1_regs]: "IOMMU_PC_IVLD_ADDR_REG = 0x00A0"
definition IOMMU_PC_IVLD_START_ADDR_REG :: u32 where [v1_regs]: "IOMMU_PC_IVLD_START_ADDR_REG = 0x00A4"
definition IOMMU_PC_IVLD_ENABLE_REG :: u32 where [v1_regs]: "IOMMU_PC_IVLD_ENABLE_REG = 0x00A8"
definition IOMMU_PC_IVLD_END_ADDR_REG :: u32 where [v1_regs]: "IOMMU_PC_IVLD_END_ADDR_REG = 0x00AC"
definition IOMMU_INT_ENABLE_REG :: u32 where [v1_regs]: "IOMMU_INT_ENABLE_REG = 0x0100"
definition IOMMU_INT_CLR_REG :: u32 where [v1_regs]: "IOMMU_INT_CLR_REG = 0x0104"
definition IOMMU_INT_STA_REG :: u32 where [v1_regs]: "IOMMU_INT_STA_REG = 0x0108"
definition IOMMU_L1PG_INT_REG :: u32 where [v1_regs]: "IOMMU_L1PG_INT_REG = 0x0180"
definition IOMMU_L2PG_INT_REG :: u32 where [v1_regs]: "IOMMU_L2PG_INT_REG = 0x0184"
definition IOMMU_VA_REG :: u32 where [v1_regs]: "IOMMU_VA_REG = 0x0190"
definition IOMMU_VA_DATA_REG :: u32 where [v1_regs]: "IOMMU_VA_DATA_REG = 0x0194"
definition IOMMU_VA_CONFIG_REG :: u32 where [v1_regs]: "IOMMU_VA_CONFIG_REG = 0x0198"
definition IOMMU_PMU_ENABLE_REG :: u32 where [v1_regs]: "IOMMU_PMU_ENABLE_REG = 0x0200"
definition IOMMU_PMU_CLR_REG :: u32 where [v1_regs]: "IOMMU_PMU_CLR_REG = 0x0210"

text \<open>
  The registers that exist once per micro TLB: index 7 is the first-level walk (or the macro TLB),
  index 8 the second-level walk (or the page-walk cache).
\<close>

definition IOMMU_INT_ERR_ADDR_REG :: "nat \<Rightarrow> u32" where
  "IOMMU_INT_ERR_ADDR_REG i = [0x0110, 0x0114, 0x0118, 0x011C, 0x0120, 0x0124, 0x0128, 0x0130, 0x0134] ! i"

definition IOMMU_INT_ERR_DATA_REG :: "nat \<Rightarrow> u32" where
  "IOMMU_INT_ERR_DATA_REG i = [0x0150, 0x0154, 0x0158, 0x015C, 0x0160, 0x0164, 0x0168, 0x0170, 0x0174] ! i"

definition IOMMU_PMU_ACCESS_LOW_REG :: "nat \<Rightarrow> u32" where
  "IOMMU_PMU_ACCESS_LOW_REG i =
     [0x0230, 0x0240, 0x0250, 0x0260, 0x0270, 0x0280, 0x0290, 0x02D0, 0x02E0] ! i"

definition IOMMU_PMU_ACCESS_HIGH_REG :: "nat \<Rightarrow> u32" where
  "IOMMU_PMU_ACCESS_HIGH_REG i =
     [0x0234, 0x0244, 0x0254, 0x0264, 0x0274, 0x0284, 0x0294, 0x02D4, 0x02E4] ! i"

definition IOMMU_PMU_HIT_LOW_REG :: "nat \<Rightarrow> u32" where
  "IOMMU_PMU_HIT_LOW_REG i =
     [0x0238, 0x0248, 0x0258, 0x0268, 0x0278, 0x0288, 0x0298, 0x02D8, 0x02E8] ! i"

definition IOMMU_PMU_HIT_HIGH_REG :: "nat \<Rightarrow> u32" where
  "IOMMU_PMU_HIT_HIGH_REG i =
     [0x023C, 0x024C, 0x025C, 0x026C, 0x027C, 0x028C, 0x029C, 0x02DC, 0x02EC] ! i"

definition IOMMU_PMU_TL_LOW_REG :: "nat \<Rightarrow> u32" where
  "IOMMU_PMU_TL_LOW_REG i = [0x0300, 0x0310, 0x0320, 0x0330, 0x0340, 0x0350, 0x0360] ! i"

definition IOMMU_PMU_TL_HIGH_REG :: "nat \<Rightarrow> u32" where
  "IOMMU_PMU_TL_HIGH_REG i = [0x0304, 0x0314, 0x0324, 0x0334, 0x0344, 0x0354, 0x0364] ! i"

definition IOMMU_PMU_ML_REG :: "nat \<Rightarrow> u32" where
  "IOMMU_PMU_ML_REG i = [0x0308, 0x0318, 0x0328, 0x0338, 0x0348, 0x0358, 0x0368] ! i"

definition IOMMU_ENABLE :: u32 where
  "IOMMU_ENABLE = 0x1"

definition DEFAULT_BYPASS_VALUE :: u32 where
  "DEFAULT_BYPASS_VALUE = 0x7f"

definition master_id_bitmap :: "u32 list" where
  "master_id_bitmap = [0x1, 0x2, 0x4, 0x8, 0x10, 0x20, 0x40]"

definition IOMMU_VERSION_V11 :: u32 where "IOMMU_VERSION_V11 = 0x11"
definition IOMMU_VERSION_V12 :: u32 where "IOMMU_VERSION_V12 = 0x12"
definition IOMMU_VERSION_V13 :: u32 where "IOMMU_VERSION_V13 = 0x13"
definition IOMMU_VERSION_V14 :: u32 where "IOMMU_VERSION_V14 = 0x14"

lemmas v1_versions = IOMMU_VERSION_V11_def IOMMU_VERSION_V12_def IOMMU_VERSION_V13_def IOMMU_VERSION_V14_def

section \<open>State\<close>

record plat_data =
  version :: u32
  tlb_prefetch :: u32
  tlb_invalid_mode :: u32
  ptw_invalid_mode :: u32
  master :: "string option list"

record iommu_domain =
  pgtable :: u64
  sg_buffer :: u64

record owner =
  owner_tlbid :: u32
  owner_flag :: bool

record v1_state =
  io :: trace
  plat :: plat_data
  bypass :: u32
  iommu_hw_init_flag :: bool
  domains :: "u64 \<rightharpoonup> iommu_domain"
  global_sunxi_iommu_domain :: "u64 option"
  pgt :: pgtable_state
  fault_notify_cbs :: "nat option list"
  dev_priv :: "nat \<rightharpoonup> owner"

section \<open>Masters\<close>

definition sunxi_iommu_register_fault_cb :: "nat \<Rightarrow> u32 \<Rightarrow> v1_state \<Rightarrow> v1_state option" where
  "sunxi_iommu_register_fault_cb cb master_id s =
     (if unat master_id < length (fault_notify_cbs s)
      then Some (s\<lparr>fault_notify_cbs := (fault_notify_cbs s)[unat master_id := Some cb]\<rparr>)
      else None)"

definition sunxi_reset_device_iommu :: "hw \<Rightarrow> u32 \<Rightarrow> trace \<Rightarrow> trace" where
  "sunxi_reset_device_iommu hw master_id t =
     (let b = push_bit (unat master_id) 1;
          (regval, t) = sunxi_iommu_read hw IOMMU_RESET_REG t;
          t = sunxi_iommu_write IOMMU_RESET_REG (regval AND NOT b) t;
          (regval, t) = sunxi_iommu_read hw IOMMU_RESET_REG t
      in if regval AND b = 0 then sunxi_iommu_write IOMMU_RESET_REG (regval OR b) t else t)"

definition sunxi_enable_device_iommu :: "u32 \<Rightarrow> bool \<Rightarrow> v1_state \<Rightarrow> v1_state option" where
  "sunxi_enable_device_iommu master_id flag s =
     (if unat master_id < length master_id_bitmap then
        let b = master_id_bitmap ! unat master_id;
            bp = (if flag then bypass s AND NOT b else bypass s OR b);
            t = io s @ [Lock iommu_lock];
            t = sunxi_iommu_write IOMMU_BYPASS_REG bp t;
            t = t @ [Unlock iommu_lock]
        in Some (s\<lparr>bypass := bp, io := t\<rparr>)
      else None)"

section \<open>Initialisation and TLB maintenance\<close>

definition sunxi_tlb_flush :: "hw \<Rightarrow> trace \<Rightarrow> (int \<times> trace) option" where
  "sunxi_tlb_flush hw t =
     (let t = sunxi_iommu_write IOMMU_TLB_FLUSH_ENABLE_REG 0x0003007f t
      in sunxi_wait_when hw IOMMU_TLB_FLUSH_ENABLE_REG 0xffffffff 2 t)"

definition sunxi_iommu_hw_init :: "hw \<Rightarrow> u64 \<Rightarrow> v1_state \<Rightarrow> (int \<times> v1_state) option" where
  "sunxi_iommu_hw_init hw input_domain s = do {
     sunxi_domain \<leftarrow> domains s input_domain;
     let t = io s @ [Lock iommu_lock];
     let t = sunxi_iommu_write IOMMU_TTB_REG (ucast (pgtable sunxi_domain)) t;
     let t = sunxi_iommu_write IOMMU_TLB_PREFETCH_REG (tlb_prefetch (plat s)) t;
     let t = (if version (plat s) \<ge> IOMMU_VERSION_V12
              then sunxi_iommu_write IOMMU_TLB_IVLD_MODE_SEL_REG (tlb_invalid_mode (plat s)) t else t);
     let t = (if version (plat s) \<ge> IOMMU_VERSION_V14
              then sunxi_iommu_write IOMMU_PC_IVLD_MODE_SEL_REG (ptw_invalid_mode (plat s)) t else t);
     let t = sunxi_iommu_write IOMMU_INT_ENABLE_REG 0x3003f t;
     let t = sunxi_iommu_write IOMMU_BYPASS_REG (bypass s) t;
     (ret, t) \<leftarrow> sunxi_tlb_flush hw t;
     if ret \<noteq> 0 then Some (ret, s\<lparr>io := t @ [Unlock iommu_lock]\<rparr>)
     else
       let t = sunxi_iommu_write IOMMU_AUTO_GATING_REG 0x1 t;
           t = sunxi_iommu_write IOMMU_ENABLE_REG IOMMU_ENABLE t;
           (iommu_enable, t) = sunxi_iommu_read hw IOMMU_ENABLE_REG t;
           (iommu_enable, t) = (if iommu_enable \<noteq> 0x1 then sunxi_iommu_read hw IOMMU_ENABLE_REG t
                                else (iommu_enable, t))
       in if iommu_enable \<noteq> 0x1 then Some (- ENODEV, s\<lparr>io := t @ [Unlock iommu_lock]\<rparr>)
          else Some (0, s\<lparr>io := t @ [Unlock iommu_lock], iommu_hw_init_flag := True\<rparr>)
   }"

definition sunxi_tlb_invalid ::
  "hw \<Rightarrow> plat_data \<Rightarrow> u64 \<Rightarrow> u64 \<Rightarrow> trace \<Rightarrow> (int \<times> trace) option" where
  "sunxi_tlb_invalid hw p iova iova_mask t = do {
     let t = t @ [Lock iommu_lock];
     let t = (if version p \<ge> IOMMU_VERSION_V12 then
                sunxi_iommu_write IOMMU_TLB_IVLD_END_ADDR_REG (ucast iova_mask)
                  (sunxi_iommu_write IOMMU_TLB_IVLD_START_ADDR_REG (ucast iova) t)
              else
                sunxi_iommu_write IOMMU_TLB_IVLD_ADDR_MASK_REG (ucast iova_mask)
                  (sunxi_iommu_write IOMMU_TLB_IVLD_ADDR_REG (ucast iova) t));
     let t = sunxi_iommu_write IOMMU_TLB_IVLD_ENABLE_REG 0x1 t;
     (ret, t) \<leftarrow> sunxi_wait_when hw IOMMU_TLB_IVLD_ENABLE_REG 0x1 2 t;
     Some (ret, t @ [Unlock iommu_lock])
   }"

definition sunxi_ptw_cache_invalid ::
  "hw \<Rightarrow> plat_data \<Rightarrow> u64 \<Rightarrow> u64 \<Rightarrow> trace \<Rightarrow> (int \<times> trace) option" where
  "sunxi_ptw_cache_invalid hw p iova_start iova_end t = do {
     let t = t @ [Lock iommu_lock];
     let t = (if version p \<ge> IOMMU_VERSION_V14 then
                sunxi_iommu_write IOMMU_PC_IVLD_END_ADDR_REG (ucast iova_end)
                  (sunxi_iommu_write IOMMU_PC_IVLD_START_ADDR_REG (ucast iova_start) t)
              else sunxi_iommu_write IOMMU_PC_IVLD_ADDR_REG (ucast iova_start) t);
     let t = sunxi_iommu_write IOMMU_PC_IVLD_ENABLE_REG 0x1 t;
     (ret, t) \<leftarrow> sunxi_wait_when hw IOMMU_PC_IVLD_ENABLE_REG 0x1 2 t;
     Some (ret, t @ [Unlock iommu_lock])
   }"

text \<open>
  A sequence of calls whose results the caller ignores.
\<close>

fun calls :: "(trace \<Rightarrow> (int \<times> trace) option) list \<Rightarrow> trace \<Rightarrow> trace option" where
  "calls [] t = Some t"
| "calls (f # fs) t = do { (r, t) \<leftarrow> f t; calls fs t }"

definition pt_mask32 :: u64 where
  "pt_mask32 = ucast (ucast IOMMU_PT_MASK :: u32)"

definition sunxi_zap_tlb :: "pgver \<Rightarrow> hw \<Rightarrow> plat_data \<Rightarrow> u64 \<Rightarrow> u64 \<Rightarrow> trace \<Rightarrow> trace option" where
  "sunxi_zap_tlb v hw p iova sz =
     (if version p \<le> IOMMU_VERSION_V11 then calls
        [sunxi_tlb_invalid hw p iova pt_mask32,
         sunxi_tlb_invalid hw p (iova + SPAGE_SIZE) pt_mask32,
         sunxi_tlb_invalid hw p (iova + sz) pt_mask32,
         sunxi_tlb_invalid hw p (iova + sz + SPAGE_SIZE) pt_mask32,
         sunxi_ptw_cache_invalid hw p iova 0,
         sunxi_ptw_cache_invalid hw p (iova + SPD_SIZE v) 0,
         sunxi_ptw_cache_invalid hw p (iova + sz) 0,
         sunxi_ptw_cache_invalid hw p (iova + sz + SPD_SIZE v) 0]
      else if version p \<le> IOMMU_VERSION_V13 then calls
        [sunxi_tlb_invalid hw p iova (iova + 2 * SPAGE_SIZE),
         sunxi_tlb_invalid hw p (iova + sz - SPAGE_SIZE) (iova + sz + 8 * SPAGE_SIZE),
         sunxi_ptw_cache_invalid hw p iova 0,
         sunxi_ptw_cache_invalid hw p (iova + sz) 0,
         sunxi_ptw_cache_invalid hw p (iova + SPD_SIZE v) 0,
         sunxi_ptw_cache_invalid hw p (iova + sz + SPD_SIZE v) 0,
         sunxi_ptw_cache_invalid hw p (iova + sz + 2 * SPD_SIZE v) 0]
      else calls
        [sunxi_tlb_invalid hw p iova (iova + 2 * SPAGE_SIZE),
         sunxi_tlb_invalid hw p (iova + sz - SPAGE_SIZE) (iova + sz + 8 * SPAGE_SIZE),
         sunxi_ptw_cache_invalid hw p iova (iova + SPD_SIZE v),
         sunxi_ptw_cache_invalid hw p (iova + sz - SPD_SIZE v) (iova + sz)])"

section \<open>Mapping\<close>

definition sunxi_iommu_map ::
  "pgver \<Rightarrow> slab \<Rightarrow> u64 \<Rightarrow> u64 \<Rightarrow> u64 \<Rightarrow> u64 \<Rightarrow> u32 \<Rightarrow> v1_state \<Rightarrow> (int \<times> u64 option \<times> v1_state) option"
where
  "sunxi_iommu_map v zalloc domain iova paddr sz prot s = do {
     sunxi_domain \<leftarrow> domains s domain;
     let iova_start = iova AND IOMMU_PT_MASK;
     let iova_end = SPAGE_ALIGN (iova + sz);
     let t = io s @ [Lock dt_lock];
     (ret, g) \<leftarrow> sunxi_pgtable_prepare_l1_tables v zalloc (pgtable sunxi_domain) iova_start iova_end prot (pgt s);
     if ret \<noteq> 0 then Some (- ENOMEM, None, s\<lparr>pgt := g, io := t @ [Unlock dt_lock]\<rparr>)
     else do {
       (r, g) \<leftarrow> sunxi_pgtable_prepare_l2_tables v (pgtable sunxi_domain) iova_start iova_end paddr prot g;
       Some (0, Some sz, s\<lparr>pgt := g, io := t @ [Unlock dt_lock]\<rparr>)
     }
   }"

record iotlb_gather =
  gather_start :: u64
  gather_end :: u64

text \<open>
  The loop of \<open>sunxi_iommu_unmap\<close>.  The result of \<open>sunxi_pgtable_delete_l2_tables\<close> is an \<open>int\<close> that
  is stored in a \<open>u32\<close>, so an error is added to the address as a large unsigned number.
\<close>

partial_function (option) unmap_loop ::
  "pgver \<Rightarrow> hw \<Rightarrow> plat_data \<Rightarrow> u64 \<Rightarrow> u64 \<Rightarrow> u64 \<Rightarrow> pgtable_state \<Rightarrow> trace \<Rightarrow> (pgtable_state \<times> trace) option"
where
  "unmap_loop v hw p pgd iova_start iova_end g t =
     (if iova_start < iova_end then
        let (ret, g) = sunxi_pgtable_delete_l2_tables v pgd iova_start iova_end g;
            iova_tail_size = (of_int ret :: u32)
        in if version p < IOMMU_VERSION_V14 then do {
             (r, t) \<leftarrow> sunxi_ptw_cache_invalid hw p iova_start 0 t;
             unmap_loop v hw p pgd (iova_start + ucast iova_tail_size) iova_end g t
           }
           else unmap_loop v hw p pgd (iova_start + ucast iova_tail_size) iova_end g t
      else Some (g, t))"

definition sunxi_iommu_unmap ::
  "pgver \<Rightarrow> hw \<Rightarrow> u64 \<Rightarrow> u64 \<Rightarrow> u64 \<Rightarrow> iotlb_gather \<Rightarrow> v1_state \<Rightarrow> (u64 \<times> iotlb_gather \<times> v1_state) option"
where
  "sunxi_iommu_unmap v hw domain iova sz gather s = do {
     sunxi_domain \<leftarrow> domains s domain;
     let iova_start = iova AND IOMMU_PT_MASK;
     let iova_end = SPAGE_ALIGN (iova + sz);
     let gather = (if gather_start gather > iova_start then gather\<lparr>gather_start := iova_start\<rparr> else gather);
     let gather = (if gather_end gather < iova_end then gather\<lparr>gather_end := iova_end\<rparr> else gather);
     let t = io s @ [Lock dt_lock];
     t \<leftarrow> calls (if version (plat s) \<ge> IOMMU_VERSION_V12
                 then [sunxi_tlb_invalid hw (plat s) iova_start iova_end] else []) t;
     t \<leftarrow> calls (if version (plat s) \<ge> IOMMU_VERSION_V14
                 then [sunxi_ptw_cache_invalid hw (plat s) iova_start iova_end] else []) t;
     (g, t) \<leftarrow> unmap_loop v hw (plat s) (pgtable sunxi_domain) iova_start iova_end (pgt s) t;
     Some (sz, gather, s\<lparr>pgt := g, io := t @ [Unlock dt_lock]\<rparr>)
   }"

definition sunxi_iommu_iotlb_sync_map ::
  "pgver \<Rightarrow> hw \<Rightarrow> u64 \<Rightarrow> u64 \<Rightarrow> v1_state \<Rightarrow> (int \<times> v1_state) option" where
  "sunxi_iommu_iotlb_sync_map v hw iova sz s = do {
     t \<leftarrow> sunxi_zap_tlb v hw (plat s) iova sz (io s @ [Lock dt_lock]);
     Some (0, s\<lparr>io := t @ [Unlock dt_lock]\<rparr>)
   }"

definition sunxi_iommu_iotlb_sync ::
  "pgver \<Rightarrow> hw \<Rightarrow> iotlb_gather \<Rightarrow> v1_state \<Rightarrow> v1_state option" where
  "sunxi_iommu_iotlb_sync v hw gather s =
     (if version (plat s) \<ge> IOMMU_VERSION_V14 then Some s
      else do {
        t \<leftarrow> sunxi_zap_tlb v hw (plat s) (gather_start gather) (gather_end gather - gather_start gather)
              (io s @ [Lock dt_lock]);
        Some (s\<lparr>io := t @ [Unlock dt_lock]\<rparr>)
      })"

definition sunxi_iommu_iova_to_phys :: "pgver \<Rightarrow> u64 \<Rightarrow> u64 \<Rightarrow> v1_state \<Rightarrow> (u64 \<times> v1_state) option" where
  "sunxi_iommu_iova_to_phys v domain iova s = do {
     sunxi_domain \<leftarrow> domains s domain;
     Some (sunxi_pgtable_iova_to_phys v (pgtable sunxi_domain) iova (pgt s),
           s\<lparr>io := io s @ [Lock dt_lock, Unlock dt_lock]\<rparr>)
   }"

section \<open>Domains and client devices\<close>

datatype domain_type = IOMMU_DOMAIN_DMA | IOMMU_DOMAIN_UNMANAGED | IOMMU_DOMAIN_OTHER

text \<open>
  The outcomes of the allocations of one call: the address of the object, or \<open>None\<close>.
  \<open>sunxi_pgtable_alloc\<close> returns zeroed pages.
\<close>

record domain_allocs =
  alloc_domain :: "u64 option"
  alloc_pgd :: "u64 option"
  alloc_sg :: "u64 option"

definition sunxi_pgtable_alloc :: "pgver \<Rightarrow> domain_allocs \<Rightarrow> pgtable_state \<Rightarrow> u64 option \<times> pgtable_state" where
  "sunxi_pgtable_alloc v a g =
     (case alloc_pgd a of
        None \<Rightarrow> (None, g)
      | Some p \<Rightarrow> (Some p, g\<lparr>mem := memset0 (unat (NUM_ENTRIES_PDE v)) p (mem g)\<rparr>))"

definition sunxi_iommu_domain_alloc ::
  "pgver \<Rightarrow> hw \<Rightarrow> domain_allocs \<Rightarrow> domain_type \<Rightarrow> v1_state \<Rightarrow> (u64 option \<times> v1_state) option" where
  "sunxi_iommu_domain_alloc v hw a ty s =
     (if ty = IOMMU_DOMAIN_OTHER then Some (None, s)
      else case global_sunxi_iommu_domain s of
        Some d \<Rightarrow> Some (Some d, s)
      | None \<Rightarrow>
        (case alloc_domain a of
           None \<Rightarrow> Some (None, s)
         | Some d \<Rightarrow>
           let (pg, g) = sunxi_pgtable_alloc v a (pgt s) in
           case pg of
             None \<Rightarrow> Some (None, s)
           | Some pgd \<Rightarrow>
             (case alloc_sg a of
                None \<Rightarrow> Some (None, s\<lparr>pgt := g\<rparr>)
              | Some sg \<Rightarrow>
                let s = s\<lparr>pgt := g,
                          domains := (domains s)(d \<mapsto> \<lparr>pgtable = pgd, sg_buffer = sg\<rparr>),
                          global_sunxi_iommu_domain := Some d\<rparr>
                in if \<not> iommu_hw_init_flag s then do {
                     (ret, s) \<leftarrow> sunxi_iommu_hw_init hw d s;
                     Some (Some d, s)
                   }
                   else Some (Some d, s))))"

definition sunxi_iommu_domain_free :: "pgver \<Rightarrow> hw \<Rightarrow> u64 \<Rightarrow> v1_state \<Rightarrow> v1_state option" where
  "sunxi_iommu_domain_free v hw domain s = do {
     sunxi_domain \<leftarrow> domains s domain;
     let t = io s @ [Lock dt_lock];
     let g = sunxi_pgtable_clear v (pgtable sunxi_domain) (pgt s);
     (ret, t) \<leftarrow> sunxi_tlb_flush hw t;
     Some (s\<lparr>pgt := g, io := t @ [Unlock dt_lock], domains := (domains s)(domain := None)\<rparr>)
   }"

definition sunxi_iommu_attach_dev :: "u64 \<Rightarrow> nat \<Rightarrow> int" where
  "sunxi_iommu_attach_dev domain dev = 0"

definition sunxi_iommu_probe_device_finalize :: "nat \<Rightarrow> v1_state \<Rightarrow> v1_state option" where
  "sunxi_iommu_probe_device_finalize dev s = do {
     owner \<leftarrow> dev_priv s dev;
     sunxi_enable_device_iommu (owner_tlbid owner) (owner_flag owner) s
   }"

definition sunxi_iommu_probe_device :: "nat \<Rightarrow> v1_state \<Rightarrow> int" where
  "sunxi_iommu_probe_device dev s = (if dev_priv s dev = None then - ENODEV else 0)"

definition sunxi_iommu_release_device :: "nat \<Rightarrow> v1_state \<Rightarrow> v1_state option" where
  "sunxi_iommu_release_device dev s =
     (case dev_priv s dev of
        None \<Rightarrow> Some s
      | Some owner \<Rightarrow> do {
          s \<leftarrow> sunxi_enable_device_iommu (owner_tlbid owner) False s;
          Some (s\<lparr>dev_priv := (dev_priv s)(dev := None)\<rparr>)
        })"

definition sunxi_iommu_of_xlate ::
  "bool \<Rightarrow> bool \<Rightarrow> bool \<Rightarrow> nat \<Rightarrow> u32 \<Rightarrow> u32 \<Rightarrow> v1_state \<Rightarrow> int \<times> v1_state" where
  "sunxi_iommu_of_xlate sysmmu data kzalloc_ok dev arg0 arg1 s =
     (if \<not> sysmmu then (- ENODEV, s)
      else if \<not> data then (- ENODEV, s)
      else if dev_priv s dev = None then
        if \<not> kzalloc_ok then (- ENOMEM, s)
        else (0, s\<lparr>dev_priv := (dev_priv s)(dev \<mapsto>
                \<lparr>owner_tlbid = arg0, owner_flag = (arg1 \<noteq> 0)\<rparr>)\<rparr>)
      else (0, s))"

section \<open>Test accesses\<close>

definition sunxi_set_debug_mode :: "trace \<Rightarrow> trace" where
  "sunxi_set_debug_mode = sunxi_iommu_write IOMMU_VA_CONFIG_REG 0x80000000"

definition sunxi_set_prefetch_mode :: "trace \<Rightarrow> trace" where
  "sunxi_set_prefetch_mode = sunxi_iommu_write IOMMU_VA_CONFIG_REG 0x00000000"

definition sunxi_iova_test_write :: "hw \<Rightarrow> u64 \<Rightarrow> u32 \<Rightarrow> trace \<Rightarrow> (int \<times> trace) option" where
  "sunxi_iova_test_write hw iova val t =
     (let t = sunxi_iommu_write IOMMU_VA_REG (ucast iova) t;
          t = sunxi_iommu_write IOMMU_VA_DATA_REG val t;
          t = sunxi_iommu_write IOMMU_VA_CONFIG_REG 0x80000100 t;
          t = sunxi_iommu_write IOMMU_VA_CONFIG_REG 0x80000101 t
      in sunxi_wait_when hw IOMMU_VA_CONFIG_REG 0x1 1 t)"

definition sunxi_iova_test_read :: "hw \<Rightarrow> u64 \<Rightarrow> trace \<Rightarrow> (u32 \<times> trace) option" where
  "sunxi_iova_test_read hw iova t = do {
     let t = sunxi_iommu_write IOMMU_VA_REG (ucast iova) t;
     let t = sunxi_iommu_write IOMMU_VA_CONFIG_REG 0x80000000 t;
     let t = sunxi_iommu_write IOMMU_VA_CONFIG_REG 0x80000001 t;
     (retval, t) \<leftarrow> sunxi_wait_when hw IOMMU_VA_CONFIG_REG 0x1 1 t;
     if retval \<noteq> 0 then Some (0, t)
     else Some (sunxi_iommu_read hw IOMMU_VA_DATA_REG t)
   }"

section \<open>The interrupt handler\<close>

definition ffs32 :: "u32 \<Rightarrow> nat option" where
  "ffs32 w = find (\<lambda>i. bit w i) [0..<32]"

text \<open>
  The chain of tests of the status register: the first micro TLB in ascending order that reported
  an invalid access, then the first-level, then the second-level walk.
\<close>

definition fault_source :: "u32 \<Rightarrow> nat option" where
  "fault_source inter_status_reg =
     (case find (\<lambda>i. inter_status_reg AND push_bit i 1 \<noteq> 0) [0..<7] of
        Some i \<Rightarrow> Some i
      | None \<Rightarrow>
          if inter_status_reg AND 0x10000 \<noteq> 0 then Some 7
          else if inter_status_reg AND 0x20000 \<noteq> 0 then Some 8 else None)"

definition irq_fault_regs :: "hw \<Rightarrow> u32 \<Rightarrow> trace \<Rightarrow> u32 \<times> u32 \<times> trace" where
  "irq_fault_regs hw inter_status_reg t =
     (case fault_source inter_status_reg of
        None \<Rightarrow> (0, 0, t)
      | Some i \<Rightarrow>
          let (addr_reg, t) = sunxi_iommu_read hw (IOMMU_INT_ERR_ADDR_REG i) t;
              (data_reg, t) = sunxi_iommu_read hw (IOMMU_INT_ERR_DATA_REG i) t
          in (addr_reg, data_reg, t))"

definition irq_notify :: "u32 \<Rightarrow> v1_state \<Rightarrow> trace \<Rightarrow> trace option" where
  "irq_notify int_masterid_bitmap s t =
     (if int_masterid_bitmap AND 0x80000000 = 0 then do {
        d \<leftarrow> global_sunxi_iommu_domain s;
        dom \<leftarrow> domains s d;
        master_id \<leftarrow> ffs32 (int_masterid_bitmap AND 0xffff);
        if master_id < length (master (plat s)) \<and> master_id < length (fault_notify_cbs s) then
          Some (case fault_notify_cbs s ! master_id of None \<Rightarrow> t | Some cb \<Rightarrow> t @ [Callback cb])
        else None
      }
      else Some t)"

definition irq_invalid_tlb :: "hw \<Rightarrow> plat_data \<Rightarrow> u32 \<Rightarrow> trace \<Rightarrow> trace option" where
  "irq_invalid_tlb hw p addr_reg t = do {
     t \<leftarrow> (if version p \<le> IOMMU_VERSION_V11 then do {
             let t = sunxi_iommu_write IOMMU_TLB_IVLD_ADDR_REG addr_reg t;
             let t = sunxi_iommu_write IOMMU_TLB_IVLD_ADDR_MASK_REG (ucast IOMMU_PT_MASK) t;
             let t = sunxi_iommu_write IOMMU_TLB_IVLD_ENABLE_REG 0x1 t;
             t \<leftarrow> spin_while hw IOMMU_TLB_IVLD_ENABLE_REG 0x1 t;
             let t = sunxi_iommu_write IOMMU_TLB_IVLD_ADDR_REG (addr_reg + 0x2000) t;
             Some (sunxi_iommu_write IOMMU_TLB_IVLD_ADDR_MASK_REG (ucast IOMMU_PT_MASK) t)
           }
           else
             let t = sunxi_iommu_write IOMMU_TLB_IVLD_START_ADDR_REG addr_reg t
             in Some (sunxi_iommu_write IOMMU_TLB_IVLD_END_ADDR_REG
                        (ucast (ucast addr_reg + 4 * SPAGE_SIZE)) t));
     let t = sunxi_iommu_write IOMMU_TLB_IVLD_ENABLE_REG 0x1 t;
     spin_while hw IOMMU_TLB_IVLD_ENABLE_REG 0x1 t
   }"

definition irq_invalid_ptw :: "pgver \<Rightarrow> hw \<Rightarrow> plat_data \<Rightarrow> u32 \<Rightarrow> trace \<Rightarrow> trace option" where
  "irq_invalid_ptw v hw p addr_reg t = do {
     t \<leftarrow> (if version p \<le> IOMMU_VERSION_V13 then do {
             let t = sunxi_iommu_write IOMMU_PC_IVLD_ADDR_REG addr_reg t;
             let t = sunxi_iommu_write IOMMU_PC_IVLD_ENABLE_REG 0x1 t;
             t \<leftarrow> spin_while hw IOMMU_PC_IVLD_ENABLE_REG 0x1 t;
             Some (sunxi_iommu_write IOMMU_PC_IVLD_ADDR_REG (addr_reg + 0x200000) t)
           }
           else
             let t = sunxi_iommu_write IOMMU_PC_IVLD_START_ADDR_REG addr_reg t
             in Some (sunxi_iommu_write IOMMU_PC_IVLD_END_ADDR_REG
                        (ucast (ucast addr_reg + 2 * SPD_SIZE v)) t));
     let t = sunxi_iommu_write IOMMU_PC_IVLD_ENABLE_REG 0x1 t;
     spin_while hw IOMMU_PC_IVLD_ENABLE_REG 0x1 t
   }"

definition sunxi_iommu_irq :: "pgver \<Rightarrow> hw \<Rightarrow> v1_state \<Rightarrow> v1_state option" where
  "sunxi_iommu_irq v hw s = do {
     let t = io s @ [Lock iommu_lock];
     let (r, t) = sunxi_iommu_read hw IOMMU_INT_STA_REG t;
     let inter_status_reg = r AND 0x3ffff;
     let (l1_pgint_reg, t) = sunxi_iommu_read hw IOMMU_L1PG_INT_REG t;
     let (l2_pgint_reg, t) = sunxi_iommu_read hw IOMMU_L2PG_INT_REG t;
     let int_masterid_bitmap = inter_status_reg OR l1_pgint_reg OR l2_pgint_reg;
     let (addr_reg, data_reg, t) = irq_fault_regs hw inter_status_reg t;
     t \<leftarrow> irq_notify int_masterid_bitmap s t;
     t \<leftarrow> irq_invalid_tlb hw (plat s) addr_reg t;
     t \<leftarrow> irq_invalid_ptw v hw (plat s) addr_reg t;
     let t = sunxi_iommu_write IOMMU_INT_CLR_REG inter_status_reg t;
     let inter_status_reg = (inter_status_reg OR (l1_pgint_reg OR l2_pgint_reg)) AND 0xffff;
     let t = sunxi_iommu_write IOMMU_RESET_REG (NOT inter_status_reg) t;
     let t = sunxi_iommu_write IOMMU_RESET_REG 0xffffffff t;
     Some (s\<lparr>io := t @ [Unlock iommu_lock]\<rparr>)
   }"

end
