(* ===== verification/Iommu_Tlb.thy ===== *)
theory Iommu_Tlb
  imports Iommu_V1
begin

text \<open>
  The register sequences of the driver.  Under \<open>hw_ok\<close> (a clock that advances) every operation that
  polls the device returns, and its trace is known exactly up to the polling.  \<open>lock_run\<close> checks the
  lock operations of a trace: taking a lock that is held is a self-deadlock, releasing one that is
  not held is an error; \<open>guarded\<close> asks that the registers are written under \<open>iommu_lock\<close> only.
\<close>

definition hw_ok :: "hw \<Rightarrow> bool" where
  "hw_ok hw \<longleftrightarrow> (\<exists>K. clock_ok hw K) \<and> (\<forall>ms \<le> 2. msecs_to_jiffies hw ms < 2 ^ 61)"

lemma wait_ok:
  assumes "hw_ok hw" "ms \<le> 2"
  obtains r t' where "sunxi_wait_when hw offset m ms t = Some (r, t')" "polled hw offset m r t t'"
  using assms wait_when_returns unfolding hw_ok_def by blast

section \<open>Locks\<close>

fun lock_run :: "lock set \<Rightarrow> trace \<Rightarrow> lock set option" where
  "lock_run H [] = Some H"
| "lock_run H (Lock l # t) = (if l \<in> H then None else lock_run (insert l H) t)"
| "lock_run H (Unlock l # t) = (if l \<in> H then lock_run (H - {l}) t else None)"
| "lock_run H (e # t) = lock_run H t"

fun guarded :: "lock set \<Rightarrow> trace \<Rightarrow> bool" where
  "guarded H [] = True"
| "guarded H (Lock l # t) = guarded (insert l H) t"
| "guarded H (Unlock l # t) = guarded (H - {l}) t"
| "guarded H (Wr a b # t) = (iommu_lock \<in> H \<and> guarded H t)"
| "guarded H (e # t) = guarded H t"

definition quiet :: "ev \<Rightarrow> bool" where
  "quiet e \<longleftrightarrow> (case e of Lock _ \<Rightarrow> False | Unlock _ \<Rightarrow> False | _ \<Rightarrow> True)"

lemma lock_run_append:
  "lock_run H (a @ b) = (case lock_run H a of None \<Rightarrow> None | Some H' \<Rightarrow> lock_run H' b)"
  by (induction H a rule: lock_run.induct) auto

lemma lock_run_quiet: "\<forall>e \<in> set w. quiet e \<Longrightarrow> lock_run H w = Some H"
  by (induction H w rule: lock_run.induct) (auto simp: quiet_def)

lemma guarded_append:
  "lock_run H a = Some H' \<Longrightarrow> guarded H (a @ b) \<longleftrightarrow> guarded H a \<and> guarded H' b"
  by (induction H a rule: lock_run.induct) (auto split: if_splits)

lemma guarded_held: "iommu_lock \<in> H \<Longrightarrow> \<forall>e \<in> set w. quiet e \<Longrightarrow> guarded H w"
  by (induction H w rule: guarded.induct) (auto simp: quiet_def)

text \<open>
  \<open>section_of l w t t'\<close>: the trace \<open>t\<close> was extended by a critical section of the lock \<open>l\<close>.
\<close>

definition critical :: "lock \<Rightarrow> trace \<Rightarrow> trace \<Rightarrow> trace \<Rightarrow> bool" where
  "critical l w t t' \<longleftrightarrow> t' = t @ [Lock l] @ w @ [Unlock l] \<and> (\<forall>e \<in> set w. quiet e)"

lemma critical_runs:
  assumes "critical iommu_lock w t t'" "lock_run {} t = Some H" "iommu_lock \<notin> H" "guarded {} t"
  shows "lock_run {} t' = Some H" "guarded {} t'"
  using assms lock_run_quiet [of w "insert iommu_lock H"] guarded_held [of "insert iommu_lock H" w]
  by (auto simp: critical_def lock_run_append guarded_append)

lemma polled_quiet: "polled hw offset m r t t' \<Longrightarrow>
  \<exists>w. t' = t @ w \<and> (\<forall>e \<in> set w. quiet e) \<and> w \<noteq> [] \<and> set w \<subseteq> poll_events offset"
  unfolding polled_def poll_events_def quiet_def by fastforce

section \<open>TLB and page-walk cache\<close>

definition tlb_cmds :: "plat_data \<Rightarrow> u64 \<Rightarrow> u64 \<Rightarrow> trace" where
  "tlb_cmds p iova iova_mask =
     (if version p \<ge> IOMMU_VERSION_V12
      then [Wr IOMMU_TLB_IVLD_START_ADDR_REG (ucast iova), Wr IOMMU_TLB_IVLD_END_ADDR_REG (ucast iova_mask)]
      else [Wr IOMMU_TLB_IVLD_ADDR_REG (ucast iova), Wr IOMMU_TLB_IVLD_ADDR_MASK_REG (ucast iova_mask)]) @
     [Wr IOMMU_TLB_IVLD_ENABLE_REG 1]"

definition ptw_cmds :: "plat_data \<Rightarrow> u64 \<Rightarrow> u64 \<Rightarrow> trace" where
  "ptw_cmds p iova_start iova_end =
     (if version p \<ge> IOMMU_VERSION_V14
      then [Wr IOMMU_PC_IVLD_START_ADDR_REG (ucast iova_start), Wr IOMMU_PC_IVLD_END_ADDR_REG (ucast iova_end)]
      else [Wr IOMMU_PC_IVLD_ADDR_REG (ucast iova_start)]) @
     [Wr IOMMU_PC_IVLD_ENABLE_REG 1]"

lemma cmds_quiet: "\<forall>e \<in> set (tlb_cmds p a b). quiet e" "\<forall>e \<in> set (ptw_cmds p a b). quiet e"
  by (auto simp: tlb_cmds_def ptw_cmds_def quiet_def)

lemma tlb_invalid_trace:
  assumes "hw_ok hw"
  obtains r t' where "sunxi_tlb_invalid hw p a b t = Some (r, t' @ [Unlock iommu_lock])"
    "polled hw IOMMU_TLB_IVLD_ENABLE_REG 1 r (t @ [Lock iommu_lock] @ tlb_cmds p a b) t'"
proof -
  obtain r t' where w: "sunxi_wait_when hw IOMMU_TLB_IVLD_ENABLE_REG 1 2 (t @ [Lock iommu_lock] @ tlb_cmds p a b) = Some (r, t')"
    "polled hw IOMMU_TLB_IVLD_ENABLE_REG 1 r (t @ [Lock iommu_lock] @ tlb_cmds p a b) t'"
    using wait_ok [OF assms order_refl] .
  then have "sunxi_tlb_invalid hw p a b t = Some (r, t' @ [Unlock iommu_lock])"
    by (auto simp: sunxi_tlb_invalid_def tlb_cmds_def sunxi_iommu_write_def Let_def split: if_splits)
  then show thesis using w(2) by (rule that)
qed

lemma ptw_invalid_trace:
  assumes "hw_ok hw"
  obtains r t' where "sunxi_ptw_cache_invalid hw p a b t = Some (r, t' @ [Unlock iommu_lock])"
    "polled hw IOMMU_PC_IVLD_ENABLE_REG 1 r (t @ [Lock iommu_lock] @ ptw_cmds p a b) t'"
proof -
  obtain r t' where w: "sunxi_wait_when hw IOMMU_PC_IVLD_ENABLE_REG 1 2 (t @ [Lock iommu_lock] @ ptw_cmds p a b) = Some (r, t')"
    "polled hw IOMMU_PC_IVLD_ENABLE_REG 1 r (t @ [Lock iommu_lock] @ ptw_cmds p a b) t'"
    using wait_ok [OF assms order_refl] .
  then have "sunxi_ptw_cache_invalid hw p a b t = Some (r, t' @ [Unlock iommu_lock])"
    by (auto simp: sunxi_ptw_cache_invalid_def ptw_cmds_def sunxi_iommu_write_def Let_def split: if_splits)
  then show thesis using w(2) by (rule that)
qed

lemma polled_critical:
  assumes "polled hw offset m r (t @ [Lock l] @ c) t'" "\<forall>e \<in> set c. quiet e"
  obtains w where "critical l (c @ w) t (t' @ [Unlock l])"
proof -
  obtain w where "t' = t @ [Lock l] @ c @ w" "\<forall>e \<in> set w. quiet e"
    using polled_quiet [OF assms(1)] by auto
  with assms(2) have "critical l (c @ w) t (t' @ [Unlock l])" by (auto simp: critical_def)
  then show thesis by (rule that)
qed

lemma tlb_invalid_critical:
  assumes "hw_ok hw"
  obtains r t' w where "sunxi_tlb_invalid hw p a b t = Some (r, t')"
    "critical iommu_lock (tlb_cmds p a b @ w) t t'"
  using tlb_invalid_trace [OF assms] polled_critical cmds_quiet(1) by metis

lemma ptw_invalid_critical:
  assumes "hw_ok hw"
  obtains r t' w where "sunxi_ptw_cache_invalid hw p a b t = Some (r, t')"
    "critical iommu_lock (ptw_cmds p a b @ w) t t'"
  using ptw_invalid_trace [OF assms] polled_critical cmds_quiet(2) by metis

lemma tlb_invalid_returns: "hw_ok hw \<Longrightarrow> \<exists>r t'. sunxi_tlb_invalid hw p a b t = Some (r, t')"
  by (metis tlb_invalid_critical)

lemma ptw_invalid_returns: "hw_ok hw \<Longrightarrow> \<exists>r t'. sunxi_ptw_cache_invalid hw p a b t = Some (r, t')"
  by (metis ptw_invalid_critical)

end
