(* ===== verification/Pgtable_Entry.thy ===== *)
theory Pgtable_Entry
  imports Pgtable
begin

text \<open>
  What the entry formats encode.  \<open>npte v\<close> is the number of entries of a second-level table,
  \<open>2 ^ ptb v\<close> its size in bytes, and \<open>in_window\<close> the CPU physical addresses that an entry can
  name: DRAM starts at 1 GB, and the last gigabyte above the top of the IOMMU's physical space is
  reached through the alias below 1 GB.  The lemmas show that a directory entry made for a table
  is valid and leads back to that table, that a page-table entry translates to the page it was
  made for, that adding a page count to an entry is the entry of the page that many pages on, and
  that the index macros are quotient and remainder of the address.
\<close>

definition npte :: "pgver \<Rightarrow> nat" where
  "npte v = 2 ^ (IOMMU_PD_SHIFT v - 12)"

definition ptb :: "pgver \<Rightarrow> nat" where
  "ptb v = IOMMU_PD_SHIFT v - 10"

definition in_window :: "pgver \<Rightarrow> nat \<Rightarrow> bool" where
  "in_window v a \<longleftrightarrow> 2 ^ 30 \<le> a \<and> a < 2 ^ IOMMU_VA_BITS v + 2 ^ 30"

section \<open>Bits of the entries\<close>

lemma PT_SIZE_mask: "PT_SIZE v - 1 = mask (ptb v)"
  by (cases v) (simp_all add: PT_SIZE_def NUM_ENTRIES_PTE_def ptb_def IOMMU_PT_SHIFT_def mask_eq_exp_minus_1)

lemma PT_MASK: "IOMMU_PT_MASK = NOT (mask 12)"
  by (simp add: IOMMU_PT_MASK_def IOMMU_PT_SHIFT_def mask_eq_exp_minus_1)

lemma ADDR_HIGH: "bit ADDR_HIGH_MASK n \<longleftrightarrow> n = 8 \<or> n = 9"
proof -
  have "ADDR_HIGH_MASK = push_bit 8 (mask 2)"
    by (simp add: ADDR_HIGH_MASK_def mask_eq_exp_minus_1)
  show ?thesis unfolding \<open>ADDR_HIGH_MASK = _\<close> by (auto simp: bit_push_bit_iff bit_mask_iff)
qed

lemma flag_bits:
  "bit SUNXI_PTE_PAGE_VALID n \<longleftrightarrow> n = 1" "bit SUNXI_PTE_PAGE_READABLE n \<longleftrightarrow> n = 2"
  "bit SUNXI_PTE_PAGE_WRITABLE n \<longleftrightarrow> n = 3"
  unfolding SUNXI_PTE_PAGE_READABLE_def SUNXI_PTE_PAGE_WRITABLE_def SUNXI_PTE_PAGE_VALID_def
    push_bit_of_1 by (auto simp only: bit_exp_iff possible_bit_word) auto

lemma flags_lt: "bit (pte_flags prot OR SUNXI_PTE_PAGE_VALID) n \<Longrightarrow> n < 4"
  by (auto simp: pte_flags_def bit_or_iff flag_bits split: if_splits)

lemma mk_pte_bit:
  "bit (sunxi_mk_pte v x prot) n \<longleftrightarrow>
     n < 32 \<and> (12 \<le> n \<and> bit x n \<or> v = AW_IOMMU_PGTABLE_V2 \<and> (n = 8 \<or> n = 9) \<and> bit x (n + 24)
        \<or> n < 4 \<and> bit (pte_flags prot OR SUNXI_PTE_PAGE_VALID) n)"
proof -
  have "sunxi_mk_pte v x prot = ucast (x AND IOMMU_PT_MASK) OR ucast (entry_high v (x AND IOMMU_PT_MASK))
      OR (pte_flags prot OR SUNXI_PTE_PAGE_VALID)"
    by (simp add: sunxi_mk_pte_def Let_def or.assoc)
  then show ?thesis
    using flags_lt [of prot n]
    by (cases v) (auto simp: PT_MASK entry_high_def bit_ucast_iff bit_and_iff bit_or_iff bit_not_iff bit_mask_iff
       bit_push_bit_iff bit_drop_bit_eq ADDR_HIGH possible_bit_word dest: bit_imp_le_length)
qed

lemma high_bits_bit: "bit (high_bits v e) n \<longleftrightarrow> v = AW_IOMMU_PGTABLE_V2 \<and> (n = 32 \<or> n = 33) \<and> bit e (n - 24)"
proof (cases "n = 32 \<or> n = 33")
  case True
  then show ?thesis by (cases v) (auto simp: high_bits_def bit_simps ADDR_HIGH)
next
  case False
  then have "32 \<le> n \<Longrightarrow> n - 32 \<noteq> 0 \<and> n - 32 \<noteq> 1" by auto
  with False show ?thesis by (cases v) (auto simp: high_bits_def bit_simps ADDR_HIGH)
qed

lemma iopte_to_pfn_mk_pte:
  "IOPTE_TO_PFN v (sunxi_mk_pte v x prot) = take_bit (IOMMU_VA_BITS v) (x AND IOMMU_PT_MASK)"
proof (rule bit_word_eqI)
  fix n assume "n < LENGTH(64)"
  then show "bit (IOPTE_TO_PFN v (sunxi_mk_pte v x prot)) n \<longleftrightarrow> bit (take_bit (IOMMU_VA_BITS v) (x AND IOMMU_PT_MASK)) n"
    by (cases v) (auto simp: IOPTE_TO_PFN_def PT_MASK bit_simps mk_pte_bit high_bits_bit dest: flags_lt)
qed

lemma unat_take_bit: "unat (take_bit n (x :: u64)) = unat x mod 2 ^ n"
  by (metis unsigned_take_bit_eq take_bit_eq_mod)

lemma unat_VA: "unat (push_bit (IOMMU_VA_BITS v) 1 :: u64) = 2 ^ IOMMU_VA_BITS v"
  by (cases v) simp_all

lemma unat_cpu_phy:
  "unat (cpu_phy_to_iommu_phy v p) =
     (if unat p > 2 ^ IOMMU_VA_BITS v then unat p - 2 ^ IOMMU_VA_BITS v else unat p)"
  unfolding cpu_phy_to_iommu_phy_def word_less_nat_alt unat_VA
  by (simp add: unat_sub word_le_nat_alt unat_VA del: push_bit_of_1)

lemma take_bit_cpu_phy: "take_bit (IOMMU_VA_BITS v) (cpu_phy_to_iommu_phy v p) = take_bit (IOMMU_VA_BITS v) p"
  by (simp add: word_unat_eq_iff unat_take_bit unat_cpu_phy le_mod_geq)

lemma mk_dent_bit:
  "bit (mk_dent v p) n \<longleftrightarrow> n < 32 \<and> (bit p n \<or> n = 0 \<or> v = AW_IOMMU_PGTABLE_V2 \<and> (n = 8 \<or> n = 9) \<and> bit p (n + 24))"
proof -
  have "bit (cpu_phy_to_iommu_phy v p) n \<longleftrightarrow> bit p n" if "n < 32"
    using that arg_cong [OF take_bit_cpu_phy [of v p], of "\<lambda>w. bit w n"] by (cases v) (auto simp: bit_simps)
  then show ?thesis
    by (cases v) (auto simp: mk_dent_def DENT_VALID_def entry_high_def bit_simps ADDR_HIGH dest: bit_imp_le_length)
qed

lemma aligned_bit: "aligned b p \<Longrightarrow> n < b \<Longrightarrow> \<not> bit p n"
  using bit_take_bit_iff [of b p n] by (auto simp: aligned_def)

lemma dent_base:
  assumes "aligned (ptb v) p"
  shows "(ucast (mk_dent v p) AND IOPTE_BASE_MASK v) OR high_bits v (mk_dent v p) = take_bit (IOMMU_VA_BITS v) p"
proof (rule bit_word_eqI)
  fix n assume "n < LENGTH(64)"
  then show "bit ((ucast (mk_dent v p) AND IOPTE_BASE_MASK v) OR high_bits v (mk_dent v p)) n
      \<longleftrightarrow> bit (take_bit (IOMMU_VA_BITS v) p) n"
    using aligned_bit [OF assms, of n] aligned_bit [OF assms, of 8] aligned_bit [OF assms, of 9]
    by (cases v) (auto simp: IOPTE_BASE_MASK_def PT_SIZE_mask bit_simps mk_dent_bit high_bits_bit ptb_def)
qed

lemma is_valid_bits: "IS_VALID x \<longleftrightarrow> bit x 0 \<and> \<not> bit x 1"
proof -
  have "x AND 3 = take_bit 2 x" by (simp add: take_bit_eq_mask mask_eq_exp_minus_1)
  then have "IS_VALID x \<longleftrightarrow> take_bit 2 x = 1" by (simp add: IS_VALID_def DENT_VALID_def)
  also have "\<dots> \<longleftrightarrow> bit x 0 \<and> \<not> bit x 1"
  proof
    assume "take_bit 2 x = 1"
    then have "bit (take_bit 2 x) 0" "\<not> bit (take_bit 2 x) 1" by (simp_all add: bit_1_iff)
    then show "bit x 0 \<and> \<not> bit x 1" by (simp add: bit_take_bit_iff)
  next
    assume *: "bit x 0 \<and> \<not> bit x 1"
    show "take_bit 2 x = 1"
    proof (rule bit_word_eqI)
      fix n :: nat
      have "n < 2 \<longleftrightarrow> n = 0 \<or> n = 1" by auto
      then show "bit (take_bit 2 x) n \<longleftrightarrow> bit (1 :: u32) n"
        using * by (auto simp: bit_take_bit_iff bit_1_iff)
    qed
  qed
  finally show ?thesis .
qed

section \<open>Decoding an entry\<close>

lemma unat_i2c:
  assumes "unat x < 2 ^ 63"
  shows "unat (iommu_phy_to_cpu_phy v x) =
     (if unat x < 2 ^ 30 then unat x + 2 ^ IOMMU_VA_BITS v else unat x)"
proof -
  have "unat SUNXI_PHYS_OFFSET = 2 ^ 30" by (simp add: SUNXI_PHYS_OFFSET_def)
  moreover have "unat x + 2 ^ IOMMU_VA_BITS v < 2 ^ 64"
    using assms by (cases v) simp_all
  ultimately show ?thesis
    unfolding iommu_phy_to_cpu_phy_def word_less_nat_alt
    by (simp add: unat_word_ariths unat_VA del: push_bit_of_1)
qed

lemma window_decode:
  assumes "in_window v (unat p)"
  shows "iommu_phy_to_cpu_phy v (take_bit (IOMMU_VA_BITS v) p) = p"
proof -
  have "(2::nat) ^ 30 \<le> 2 ^ IOMMU_VA_BITS v" "(2::nat) ^ IOMMU_VA_BITS v < 2 ^ 63"
    by (cases v; simp)+
  moreover have "unat (take_bit (IOMMU_VA_BITS v) p) = unat p mod 2 ^ IOMMU_VA_BITS v"
    by (rule unat_take_bit)
  moreover have "unat p mod 2 ^ IOMMU_VA_BITS v =
      (if unat p < 2 ^ IOMMU_VA_BITS v then unat p else unat p - 2 ^ IOMMU_VA_BITS v)"
    using assms \<open>(2::nat) ^ 30 \<le> 2 ^ IOMMU_VA_BITS v\<close> by (auto simp: in_window_def le_mod_geq)
  ultimately show ?thesis
    using assms unfolding word_unat_eq_iff in_window_def by (subst unat_i2c) (auto split: if_splits)
qed

lemma iopte_base_mk_dent:
  assumes "aligned (ptb v) p" "in_window v (unat p)"
  shows "iopte_base v (mk_dent v p) = p"
  by (simp add: iopte_base_def dent_base [OF assms(1)] window_decode [OF assms(2)])

lemma is_valid_mk_dent: "aligned (ptb v) p \<Longrightarrow> IS_VALID (mk_dent v p)"
  using aligned_bit [of "ptb v" p 1] aligned_bit [of "ptb v" p 25]
  by (cases v) (auto simp: is_valid_bits mk_dent_bit ptb_def)

lemma not_valid_0 [simp]: "\<not> IS_VALID 0"
  by (simp add: is_valid_bits)

lemma mk_pte_neq_0 [simp]: "sunxi_mk_pte v x prot \<noteq> 0"
proof -
  have "bit (sunxi_mk_pte v x prot) 1"
    by (simp add: mk_pte_bit bit_or_iff flag_bits)
  then show ?thesis by auto
qed

lemma pte_xlate:
  assumes pa: "aligned 12 pa" "in_window v (unat pa)"
    and x: "take_bit (IOMMU_VA_BITS v) x = take_bit (IOMMU_VA_BITS v) pa" and off: "unat off < 4096"
  shows "iommu_phy_to_cpu_phy v (IOPTE_TO_PFN v (sunxi_mk_pte v x prot) + off) = pa + off"
proof -
  let ?V = "IOMMU_VA_BITS v"
  have v: "12 \<le> ?V" "?V < 64" by (cases v; simp)+
  obtain q where q: "unat pa = 4096 * q" using pa(1) by (auto simp: addr_simps)
  have pfn: "IOPTE_TO_PFN v (sunxi_mk_pte v x prot) = take_bit ?V pa"
  proof -
    have "take_bit ?V (x AND IOMMU_PT_MASK) = take_bit ?V x AND IOMMU_PT_MASK"
      by (auto intro!: bit_word_eqI simp: bit_simps)
    also have "\<dots> = take_bit ?V pa"
      unfolding x using aligned_bit [OF pa(1)] by (auto intro!: bit_word_eqI simp: bit_simps PT_MASK)
    finally show ?thesis by (simp add: iopte_to_pfn_mk_pte)
  qed
  have V: "(2::nat) ^ ?V = 4096 * 2 ^ (?V - 12)"
    by (cases v) simp_all
  have "pa + off = pa + of_nat (unat off)" by simp
  then have uadd: "unat (pa + off) = unat pa + unat off"
    using unat_aligned_add [OF pa(1), of "unat off"] off by simp
  have m: "(unat pa + unat off) mod 2 ^ ?V = unat pa mod 2 ^ ?V + unat off"
    unfolding q V using off by (simp add: mod_mult2_eq)
  have "take_bit ?V pa + off = take_bit ?V (pa + off)"
  proof (rule word_unat_eq_iff [THEN iffD2])
    have "aligned 12 (take_bit ?V pa)"
      using pa(1) v by (simp add: aligned_def)
    then have "unat (take_bit ?V pa + of_nat (unat off)) = unat (take_bit ?V pa) + unat off"
      by (rule unat_aligned_add) (use off in simp_all)
    then show "unat (take_bit ?V pa + off) = unat (take_bit ?V (pa + off))"
      by (simp only: unat_take_bit uadd m of_nat_unat ucast_id)
  qed
  moreover have "in_window v (unat (pa + off))"
  proof -
    have "unat pa < 4096 * (2 ^ (?V - 12) + 2 ^ 18)"
      using pa(2) V by (simp add: in_window_def distrib_left)
    then have "q < 2 ^ (?V - 12) + 2 ^ 18" unfolding q by simp
    then have "unat pa + unat off < 4096 * (2 ^ (?V - 12) + 2 ^ 18)" using off q by simp
    then show ?thesis using pa(2) V uadd by (simp add: in_window_def distrib_left)
  qed
  ultimately show ?thesis by (simp add: pfn window_decode)
qed

section \<open>Consecutive entries\<close>

lemma unat_add64: "unat ((a :: u64) + b) = (unat a + unat b) mod 2 ^ 64"
  by (simp add: unat_word_ariths)

lemma unat_ucast32: "unat (ucast (x :: u64) :: u32) = unat x mod 2 ^ 32"
  by (simp add: unsigned_ucast_eq take_bit_eq_mod)

lemma ucast_add32: "ucast ((a :: u64) + b) = (ucast a + ucast b :: u32)"
  by (simp add: word_unat_eq_iff unat_ucast32 unat_word_ariths mod_mod_cancel mod_add_eq)

lemma aligned_add_pages: assumes "aligned 12 x"
  shows "aligned 12 (x + of_nat (4096 * k))"
proof -
  have "(2::nat) ^ 12 dvd 2 ^ 64" by (rule le_imp_power_dvd) simp
  then have "(2::nat) ^ 12 dvd (unat x + (4096 * k) mod 2 ^ 64) mod 2 ^ 64"
    using assms by (intro dvd_mod dvd_add) (auto simp: addr_simps)
  then show ?thesis unfolding aligned_unat unat_add64 unat_of_nat by simp
qed

lemma entry_high_add: assumes  "v = AW_IOMMU_PGTABLE_V1 \<or> unat x mod 2 ^ 32 + 4096 * k < 2 ^ 32"
 shows "entry_high v (x + of_nat (4096 * k)) = entry_high v x"
proof (cases v)
  case AW_IOMMU_PGTABLE_V2
  with assms have lt: "unat x mod 2 ^ 32 + 4096 * k < 2 ^ 32" by simp
  have "unat x = 2 ^ 32 * (unat x div 2 ^ 32) + unat x mod 2 ^ 32" by simp
  moreover have "unat x div 2 ^ 32 < 2 ^ 32" using unat_le_64 [of x] by (simp add: div_less_iff_less_mult)
  then have "2 ^ 32 * (unat x div 2 ^ 32) + 2 ^ 32 \<le> (2 :: nat) ^ 64" by simp
  ultimately have b: "unat x + 4096 * k < 2 ^ 64" using lt by linarith
  have u: "unat (x + of_nat (4096 * k)) = unat x + 4096 * k"
    unfolding unat_add64 unat_of_nat using b by simp
  have "(unat x + 4096 * k) div 2 ^ 32
      = (2 ^ 32 * (unat x div 2 ^ 32) + (unat x mod 2 ^ 32 + 4096 * k)) div 2 ^ 32"
    by (simp only: add.assoc [symmetric] mult_div_mod_eq)
  also have "\<dots> = unat x div 2 ^ 32 + (unat x mod 2 ^ 32 + 4096 * k) div 2 ^ 32"
    by (rule div_mult_self4) simp
  also have "\<dots> = unat x div 2 ^ 32" using lt by simp
  finally have "(unat x + 4096 * k) div 2 ^ 32 = unat x div 2 ^ 32" .
  then have "drop_bit 32 (x + of_nat (4096 * k)) = drop_bit 32 x"
    unfolding word_unat_eq_iff u
    by (metis u unsigned_drop_bit_eq drop_bit_eq_div take_bit_length_eq unsigned_take_bit_eq)
  with AW_IOMMU_PGTABLE_V2 show ?thesis by (simp add: entry_high_def)
qed (simp add: entry_high_def)

lemma ucast_add_pages: "ucast (x + of_nat (4096 * k) :: u64) = ucast x + (ucast SPAGE_SIZE :: u32) * of_nat k"
proof -
  have "ucast (of_nat (4096 * k) :: u64) = (of_nat (4096 * k) :: u32)"
    unfolding word_unat_eq_iff unat_ucast32 unat_of_nat by (simp add: mod_mod_cancel)
  moreover have "(ucast SPAGE_SIZE :: u32) = 4096" by (simp add: SPAGE_SIZE_def IOMMU_PT_SHIFT_def)
  ultimately show ?thesis by (simp add: ucast_add32)
qed

lemma mk_pte_split:
  assumes "aligned 12 x"
  shows "sunxi_mk_pte v x prot = ucast x + (ucast (entry_high v x) OR (pte_flags prot OR SUNXI_PTE_PAGE_VALID))"
proof -
  have hb: "bit (entry_high v x) n \<Longrightarrow> n = 8 \<or> n = 9" for n
    by (cases v) (auto simp: entry_high_def bit_and_iff ADDR_HIGH)
  have xm: "x AND IOMMU_PT_MASK = x"
    using aligned_bit [OF assms] by (auto intro!: bit_word_eqI simp: bit_simps PT_MASK)
  have "ucast x AND (ucast (entry_high v x) OR (pte_flags prot OR SUNXI_PTE_PAGE_VALID)) = (0 :: u32)"
  proof (rule bit_word_eqI)
    fix n assume "n < LENGTH(32)"
    show "bit (ucast x AND (ucast (entry_high v x) OR (pte_flags prot OR SUNXI_PTE_PAGE_VALID))) n
        \<longleftrightarrow> bit (0 :: u32) n"
      using aligned_bit [OF assms, of n] hb [of n] flags_lt [of prot n]
      by (auto simp: bit_and_iff bit_ucast_iff bit_or_iff)
  qed
  then show ?thesis
    by (simp add: sunxi_mk_pte_def Let_def xm disjunctive_add_eq_or or.assoc)
qed

lemma mk_pte_add:
  assumes "aligned 12 x" "v = AW_IOMMU_PGTABLE_V1 \<or> unat x mod 2 ^ 32 + 4096 * k < 2 ^ 32"
  shows "sunxi_mk_pte v x prot + ucast SPAGE_SIZE * of_nat k = sunxi_mk_pte v (x + of_nat (4096 * k)) prot"
proof -
  have al: "aligned 12 (x + of_nat (4096 * k))"
    using assms(1) by (rule aligned_add_pages)
  show ?thesis
    unfolding mk_pte_split [OF assms(1)] mk_pte_split [OF al] ucast_add_pages
      entry_high_add [OF assms(2)] by (simp only: ac_simps)
qed

lemma unat_mask_and: "unat ((x :: u64) AND mask n) = unat x mod 2 ^ n"
  by (metis take_bit_eq_mask unat_take_bit)

lemma NUM_PDE: "NUM_ENTRIES_PDE v = 4096"
  by (cases v) (simp_all add: NUM_ENTRIES_PDE_def)

lemma unat_NUM_PTE: "unat (NUM_ENTRIES_PTE v) = npte v"
  by (cases v) (simp_all add: NUM_ENTRIES_PTE_def npte_def IOMMU_PT_SHIFT_def)

lemma unat_drop_bit: "unat (drop_bit n (x :: u64)) = unat x div 2 ^ n"
  by (metis unsigned_drop_bit_eq drop_bit_eq_div take_bit_length_eq unsigned_take_bit_eq)

lemma unat_IOPDE_INDEX: "unat (IOPDE_INDEX v w) = unat w div 2 ^ IOMMU_PD_SHIFT v mod 4096"
proof -
  have "NUM_ENTRIES_PDE v - 1 = mask 12" by (simp add: NUM_PDE mask_eq_exp_minus_1)
  then show ?thesis by (simp only: IOPDE_INDEX_def unat_mask_and unat_drop_bit) simp
qed

lemma unat_IOPTE_INDEX: "unat (IOPTE_INDEX v w) = unat w div 4096 mod npte v"
proof -
  have "NUM_ENTRIES_PTE v - 1 = mask (IOMMU_PD_SHIFT v - 12)"
    by (cases v) (simp_all add: NUM_ENTRIES_PTE_def IOMMU_PT_SHIFT_def mask_eq_exp_minus_1)
  then show ?thesis
    by (simp only: IOPTE_INDEX_def unat_mask_and unat_drop_bit npte_def) (simp add: IOMMU_PT_SHIFT_def)
qed

lemma iopde_offset_cell: "iopde_offset v pgd w = cell pgd (unat w div 2 ^ IOMMU_PD_SHIFT v mod 4096)"
  by (simp add: iopde_offset_def cell_def flip: unat_IOPDE_INDEX)

lemma iopte_offset_cell: "iopte_offset v e w = cell (iopte_base v e) (unat w div 4096 mod npte v)"
  by (simp add: iopte_offset_def cell_def flip: unat_IOPTE_INDEX)

end
