(* ===== verification/Pgtable_Walk.thy ===== *)
theory Pgtable_Walk
  imports Pgtable_Entry
begin

text \<open>
  The contents of a page table as a partial map from page numbers to page-table entries, and the
  representation invariant \<open>pt_wf\<close>: every valid directory entry leads to a table of the cache that
  is in use, no two directory entries share a table, and every table in use is reachable (so none
  is leaked).  \<open>slab_ok\<close> is what the driver relies on of \<open>kmem_cache_zalloc\<close> for a cache created
  with object size and alignment \<open>PT_SIZE\<close>: the object is not in use, is aligned, lies in memory
  an entry can name, and does not overlap the page directory.
\<close>

definition table_ok :: "pgver \<Rightarrow> u64 \<Rightarrow> u64 \<Rightarrow> bool" where
  "table_ok v pgd p \<longleftrightarrow>
     aligned (ptb v) p \<and> in_window v (unat p) \<and> unat p div 2 ^ 14 \<noteq> unat pgd div 2 ^ 14"

definition slab_ok :: "pgver \<Rightarrow> u64 \<Rightarrow> slab \<Rightarrow> bool" where
  "slab_ok v pgd zalloc \<longleftrightarrow>
     (\<forall>live p. zalloc live = Some p \<longrightarrow> p \<notin> set live \<and> table_ok v pgd p)"

definition dent_valid :: "u64 \<Rightarrow> (u64 \<Rightarrow> u32) \<Rightarrow> nat \<Rightarrow> bool" where
  "dent_valid pgd m i \<longleftrightarrow> IS_VALID (m (cell pgd i))"

definition dent_table :: "pgver \<Rightarrow> u64 \<Rightarrow> (u64 \<Rightarrow> u32) \<Rightarrow> nat \<Rightarrow> u64" where
  "dent_table v pgd m i = iopte_base v (m (cell pgd i))"

definition pt_wf :: "pgver \<Rightarrow> u64 \<Rightarrow> pgtable_state \<Rightarrow> bool" where
  "pt_wf v pgd s \<longleftrightarrow>
     aligned 14 pgd \<and> distinct (iopte_live s) \<and>
     (\<forall>p \<in> set (iopte_live s). table_ok v pgd p) \<and>
     (\<forall>i < 4096. dent_valid pgd (mem s) i \<longrightarrow> dent_table v pgd (mem s) i \<in> set (iopte_live s)) \<and>
     (\<forall>i < 4096. \<forall>j < 4096. dent_valid pgd (mem s) i \<longrightarrow> dent_valid pgd (mem s) j \<longrightarrow>
        dent_table v pgd (mem s) i = dent_table v pgd (mem s) j \<longrightarrow> i = j) \<and>
     (\<forall>p \<in> set (iopte_live s). \<exists>i < 4096. dent_valid pgd (mem s) i \<and> dent_table v pgd (mem s) i = p)"

definition pt_lookup :: "pgver \<Rightarrow> u64 \<Rightarrow> (u64 \<Rightarrow> u32) \<Rightarrow> nat \<Rightarrow> u32 option" where
  "pt_lookup v pgd m P =
     (let i = P div npte v mod 4096;
          e = m (cell (dent_table v pgd m i) (P mod npte v))
      in if dent_valid pgd m i \<and> e \<noteq> 0 then Some e else None)"

section \<open>Cells of tables\<close>

lemma npte_pos [simp]: "0 < npte v" and npte_le: "npte v \<le> 1024"
  and npte_ptb: "4 * npte v = 2 ^ ptb v" and ptb_le: "ptb v \<le> 14" and ptb_ge: "10 \<le> ptb v"
  and PD_npte: "2 ^ IOMMU_PD_SHIFT v = 4096 * npte v"
  and VA_npte: "2 ^ IOMMU_VA_BITS v = 4096 * (4096 * npte v)"
  by (cases v; simp add: npte_def ptb_def)+

lemma cell_cell: "cell (cell p j) k = cell p (j + k)"
  by (simp add: cell_def algebra_simps)

lemma cell_Suc: "p + 4 = cell p 1" and cell_0 [simp]: "cell p 0 = p"
  by (simp_all add: cell_def)

lemma table_cell_inject:
  assumes "table_ok v pgd p" "table_ok v pgd q" "j < npte v" "k < npte v"
  shows "cell p j = cell q k \<longleftrightarrow> p = q \<and> j = k"
  using assms npte_ptb [of v] ptb_le [of v]
  by (intro cell_inject [of "ptb v"]) (auto simp: table_ok_def)

lemma table_dent_apart:
  assumes "table_ok v pgd p" "aligned 14 pgd" "j < npte v" "i < 4096"
  shows "cell p j \<noteq> cell pgd i"
  using assms npte_ptb [of v] ptb_le [of v]
  by (intro cell_apart [of "ptb v" p j 14]) (auto simp: table_ok_def)

lemma dent_inject:
  assumes "aligned 14 pgd" "i < 4096" "j < 4096"
  shows "cell pgd i = cell pgd j \<longleftrightarrow> i = j"
  using assms cell_inject [of 14 pgd pgd i j] by simp

lemma memset0_apply: "memset0 n p m a = (if \<exists>k < n. a = cell p k then 0 else m a)"
proof (induction n arbitrary: p m)
  case (Suc n)
  have "(\<exists>k < Suc n. a = cell p k) \<longleftrightarrow> a = p \<or> (\<exists>k < n. a = cell (p + 4) k)"
    by (auto simp: cell_Suc cell_cell less_Suc_eq_0_disj)
  then show ?case
    unfolding memset0.simps Suc.IH
    by (cases "\<exists>k < n. a = cell (p + 4) k"; cases "a = p")
      (simp_all only: fun_upd_apply if_True if_False simp_thms)
qed simp

lemma cell_small_inject: "j < 2 ^ 14 \<Longrightarrow> k < 2 ^ 14 \<Longrightarrow> cell p j = cell p k \<longleftrightarrow> j = k"
proof -
  assume jk: "j < 2 ^ 14" "k < 2 ^ 14"
  have "cell p j = cell p k \<longleftrightarrow> (of_nat (4 * j) :: u64) = of_nat (4 * k)"
    unfolding cell_of_nat by (rule add_left_cancel)
  also have "\<dots> \<longleftrightarrow> j = k"
    unfolding word_unat_eq_iff unat_of_nat using jk by simp
  finally show ?thesis .
qed

lemma write_ptes_other: "(\<And>k. k < n \<Longrightarrow> a \<noteq> cell p k) \<Longrightarrow> write_ptes n i p val m a = m a"
proof (induction n arbitrary: i p m)
  case (Suc n)
  have "a \<noteq> p" using Suc.prems [of 0] by simp
  moreover have "a \<noteq> cell (p + 4) k" if "k < n" for k
    using Suc.prems [of "Suc k"] that by (simp add: cell_Suc cell_cell)
  ultimately show ?case using Suc.IH by simp
qed simp

lemma write_ptes_cell:
  assumes "k < n" "n \<le> 2 ^ 14"
  shows "write_ptes n i p val m (cell p k) = val + ucast SPAGE_SIZE * of_nat (i + k)"
  using assms
proof (induction n arbitrary: i k p m)
  case (Suc n)
  show ?case
  proof (cases k)
    case 0
    have "cell p 0 \<noteq> cell (p + 4) l" if "l < n" for l
      using Suc.prems that cell_small_inject [of 0 "Suc l" p] by (simp add: cell_Suc cell_cell)
    then have "write_ptes n (Suc i) (p + 4) val m' (cell p 0) = m' (cell p 0)" for m'
      by (rule write_ptes_other)
    with 0 show ?thesis by simp
  next
    case (Suc l)
    then have "cell p k = cell (p + 4) l" by (simp add: cell_Suc cell_cell)
    with Suc Suc.IH [of l] Suc.prems show ?thesis by (simp add: add.assoc)
  qed
qed simp

section \<open>The invariant and the view\<close>

lemma pt_wf_D:
  assumes "pt_wf v pgd s"
  shows pt_wf_pgd: "aligned 14 pgd" and pt_wf_distinct: "distinct (iopte_live s)"
    and pt_wf_live: "p \<in> set (iopte_live s) \<Longrightarrow> table_ok v pgd p"
    and pt_wf_table: "i < 4096 \<Longrightarrow> dent_valid pgd (mem s) i \<Longrightarrow> dent_table v pgd (mem s) i \<in> set (iopte_live s)"
    and pt_wf_inj: "i < 4096 \<Longrightarrow> j < 4096 \<Longrightarrow> dent_valid pgd (mem s) i \<Longrightarrow> dent_valid pgd (mem s) j
      \<Longrightarrow> dent_table v pgd (mem s) i = dent_table v pgd (mem s) j \<Longrightarrow> i = j"
    and pt_wf_reach: "p \<in> set (iopte_live s) \<Longrightarrow>
      \<exists>i < 4096. dent_valid pgd (mem s) i \<and> dent_table v pgd (mem s) i = p"
  using assms unfolding pt_wf_def by blast+

lemma pt_wf_table_ok:
  assumes "pt_wf v pgd s" "i < 4096" "dent_valid pgd (mem s) i"
  shows "table_ok v pgd (dent_table v pgd (mem s) i)"
  using assms pt_wf_live pt_wf_table by blast

lemma dent_cong:
  assumes "m' (cell pgd i) = m (cell pgd i)"
  shows "dent_valid pgd m' i = dent_valid pgd m i" "dent_table v pgd m' i = dent_table v pgd m i"
  using assms by (simp_all add: dent_valid_def dent_table_def)

lemma pt_wf_mem_cong:
  assumes "pt_wf v pgd s" "\<And>i. i < 4096 \<Longrightarrow> m' (cell pgd i) = mem s (cell pgd i)"
  shows "pt_wf v pgd (s\<lparr>mem := m'\<rparr>)"
proof -
  have "dent_valid pgd m' i = dent_valid pgd (mem s) i"
    "dent_table v pgd m' i = dent_table v pgd (mem s) i" if "i < 4096" for i
    using assms(2) [OF that] by (rule dent_cong)+
  then show ?thesis using assms(1) unfolding pt_wf_def by auto metis
qed

lemma iova_page_index:
  "unat w div 2 ^ IOMMU_PD_SHIFT v mod 4096 = (unat w div 4096) div npte v mod 4096"
  by (simp add: PD_npte div_mult2_eq)

lemma iova_to_phys_lookup:
  "sunxi_pgtable_iova_to_phys v pgd w s =
     (case pt_lookup v pgd (mem s) (unat w div 4096) of
        None \<Rightarrow> 0
      | Some e \<Rightarrow> iommu_phy_to_cpu_phy v (IOPTE_TO_PFN v e + IOVA_PAGE_OFT w))"
  by (simp add: sunxi_pgtable_iova_to_phys_def pt_lookup_def Let_def iopde_offset_cell
      iopte_offset_cell iova_page_index dent_valid_def dent_table_def)

end
