(* ===== verification/Pgtable_Ops.thy ===== *)
theory Pgtable_Ops
  imports Pgtable_Walk
begin

text \<open>
  The functional behaviour of the page-table operations on the view \<open>pt_lookup\<close> and their
  preservation of \<open>pt_wf\<close>: allocating a second-level table, preparing the directory entries of a
  range, filling and clearing the entries of a range, and clearing the whole table.
\<close>

section \<open>Allocating a second-level table\<close>

lemma slab_okD: "slab_ok v pgd zalloc \<Longrightarrow> zalloc live = Some p \<Longrightarrow> p \<notin> set live \<and> table_ok v pgd p"
  by (simp add: slab_ok_def)

lemma alloc_dents:
  assumes "aligned 14 pgd" "table_ok v pgd p" "i < 4096" "j < 4096"
  shows "((memset0 (npte v) p m)(cell pgd i := e)) (cell pgd j) = (if i = j then e else m (cell pgd j))"
proof -
  have "\<not> (\<exists>k < npte v. cell pgd j = cell p k)"
    using table_dent_apart [OF assms(2,1) _ assms(4)] by metis
  with dent_inject [OF assms(1,3,4)] show ?thesis by (auto simp: memset0_apply)
qed

definition with_table :: "pgver \<Rightarrow> u64 \<Rightarrow> u64 \<Rightarrow> nat \<Rightarrow> pgtable_state \<Rightarrow> pgtable_state" where
  "with_table v pgd p i s =
     s\<lparr>mem := (memset0 (npte v) p (mem s))(cell pgd i := mk_dent v p),
       iopte_live := p # iopte_live s\<rparr>"

lemma with_table_dents:
  assumes wf: "pt_wf v pgd s" and p: "table_ok v pgd p" and i: "i < 4096"
  shows "dent_valid pgd (mem (with_table v pgd p i s)) i"
    and "dent_table v pgd (mem (with_table v pgd p i s)) i = p"
    and "j < 4096 \<Longrightarrow> j \<noteq> i \<Longrightarrow>
      dent_valid pgd (mem (with_table v pgd p i s)) j = dent_valid pgd (mem s) j"
    and "j < 4096 \<Longrightarrow> j \<noteq> i \<Longrightarrow>
      dent_table v pgd (mem (with_table v pgd p i s)) j = dent_table v pgd (mem s) j"
proof -
  have pa: "aligned (ptb v) p" "in_window v (unat p)" using p by (auto simp: table_ok_def)
  show "dent_valid pgd (mem (with_table v pgd p i s)) i"
    "dent_table v pgd (mem (with_table v pgd p i s)) i = p"
    by (simp_all add: with_table_def dent_valid_def dent_table_def is_valid_mk_dent [OF pa(1)]
        iopte_base_mk_dent [OF pa])
  assume j: "j < 4096" "j \<noteq> i"
  then have "mem (with_table v pgd p i s) (cell pgd j) = mem s (cell pgd j)"
    using alloc_dents [OF pt_wf_pgd [OF wf] p i j(1)] by (simp add: with_table_def)
  then show "dent_valid pgd (mem (with_table v pgd p i s)) j = dent_valid pgd (mem s) j"
    "dent_table v pgd (mem (with_table v pgd p i s)) j = dent_table v pgd (mem s) j"
    by (rule dent_cong)+
qed

lemma with_table_wf:
  assumes wf: "pt_wf v pgd s" and p: "p \<notin> set (iopte_live s)" "table_ok v pgd p"
    and i: "i < 4096" "\<not> dent_valid pgd (mem s) i"
  shows "pt_wf v pgd (with_table v pgd p i s)"
proof -
  note D = with_table_dents [OF wf p(2) i(1)]
  have live: "iopte_live (with_table v pgd p i s) = p # iopte_live s" by (simp add: with_table_def)
  show ?thesis
    unfolding pt_wf_def live
  proof (intro conjI allI impI ballI)
    fix j assume "j < 4096" "dent_valid pgd (mem (with_table v pgd p i s)) j"
    then show "dent_table v pgd (mem (with_table v pgd p i s)) j \<in> set (p # iopte_live s)"
      using D pt_wf_table [OF wf, of j] by (cases "j = i") auto
  next
    fix j k assume "j < 4096" "k < 4096" "dent_valid pgd (mem (with_table v pgd p i s)) j"
      "dent_valid pgd (mem (with_table v pgd p i s)) k" "dent_table v pgd (mem (with_table v pgd p i s)) j
        = dent_table v pgd (mem (with_table v pgd p i s)) k"
    then show "j = k"
      using D p(1) pt_wf_table [OF wf, of j] pt_wf_table [OF wf, of k] pt_wf_inj [OF wf, of j k]
      by (cases "j = i"; cases "k = i") auto
  next
    fix q assume "q \<in> set (p # iopte_live s)"
    then consider "q = p" | "q \<in> set (iopte_live s)" by auto
    then show "\<exists>j < 4096. dent_valid pgd (mem (with_table v pgd p i s)) j
        \<and> dent_table v pgd (mem (with_table v pgd p i s)) j = q"
    proof cases
      case 1 with D i show ?thesis by blast
    next
      case 2 then show ?thesis using pt_wf_reach [OF wf] D i(2) by metis
    qed
  qed (use pt_wf_pgd [OF wf] pt_wf_distinct [OF wf] p pt_wf_live [OF wf] in auto)
qed

lemma with_table_lookup:
  assumes wf: "pt_wf v pgd s" and p: "p \<notin> set (iopte_live s)" "table_ok v pgd p"
    and i: "i < 4096" "\<not> dent_valid pgd (mem s) i"
  shows "pt_lookup v pgd (mem (with_table v pgd p i s)) = pt_lookup v pgd (mem s)"
proof
  fix P
  let ?j = "P div npte v mod 4096" and ?k = "P mod npte v" and ?m = "mem (with_table v pgd p i s)"
  note D = with_table_dents [OF wf p(2) i(1)]
  have jk: "?j < 4096" "?k < npte v" by simp_all
  note pgd = pt_wf_pgd [OF wf]
  consider "?j = i" | "?j \<noteq> i" "\<not> dent_valid pgd (mem s) ?j" | "?j \<noteq> i" "dent_valid pgd (mem s) ?j"
    by blast
  then show "pt_lookup v pgd ?m P = pt_lookup v pgd (mem s) P"
  proof cases
    case 1
    have "cell p ?k \<noteq> cell pgd i" by (rule table_dent_apart [OF p(2) pgd jk(2) i(1)])
    moreover have "\<exists>k < npte v. cell p ?k = cell p k" using jk(2) by blast
    ultimately have "?m (cell p ?k) = 0" by (simp add: with_table_def memset0_apply)
    with 1 D i show ?thesis by (simp add: pt_lookup_def Let_def)
  next
    case 2 with D jk show ?thesis by (simp add: pt_lookup_def Let_def)
  next
    case 3
    let ?t = "dent_table v pgd (mem s) ?j"
    have t: "?t \<in> set (iopte_live s)" "table_ok v pgd ?t"
      using pt_wf_table [OF wf jk(1) 3(2)] pt_wf_live [OF wf] by auto
    then have "?t \<noteq> p" using p(1) by auto
    then have "\<not> (\<exists>k < npte v. cell ?t ?k = cell p k)"
      using table_cell_inject [OF t(2) p(2) jk(2)] by metis
    moreover have "cell ?t ?k \<noteq> cell pgd i" by (rule table_dent_apart [OF t(2) pgd jk(2) i(1)])
    ultimately have "?m (cell ?t ?k) = mem s (cell ?t ?k)"
      unfolding with_table_def by (auto simp: memset0_apply)
    with 3 D jk show ?thesis by (simp add: pt_lookup_def Let_def)
  qed
qed

lemma alloc_iopte:
  assumes "pt_wf v pgd s" "slab_ok v pgd zalloc" "i < 4096" "\<not> dent_valid pgd (mem s) i"
    and "sunxi_alloc_iopte v zalloc (cell pgd i) prot s = (ok, s')"
  shows "pt_wf v pgd s'" "pt_lookup v pgd (mem s') = pt_lookup v pgd (mem s)"
    "ok \<Longrightarrow> dent_valid pgd (mem s') i"
    "j < 4096 \<Longrightarrow> dent_valid pgd (mem s) j \<Longrightarrow> dent_valid pgd (mem s') j"
    "\<not> ok \<Longrightarrow> s' = s \<and> zalloc (iopte_live s) = None"
proof -
  have eq: "(ok, s') = (case zalloc (iopte_live s) of None \<Rightarrow> (False, s)
      | Some p \<Rightarrow> (True, with_table v pgd p i s))"
    unfolding assms(5) [symmetric] sunxi_alloc_iopte_def with_table_def unat_NUM_PTE by (rule refl)
  show "pt_wf v pgd s'" "pt_lookup v pgd (mem s') = pt_lookup v pgd (mem s)"
    "ok \<Longrightarrow> dent_valid pgd (mem s') i"
    "j < 4096 \<Longrightarrow> dent_valid pgd (mem s) j \<Longrightarrow> dent_valid pgd (mem s') j"
    "\<not> ok \<Longrightarrow> s' = s \<and> zalloc (iopte_live s) = None"
    using eq assms(1,3,4) slab_okD [OF assms(2)] with_table_wf [OF assms(1)]
      with_table_lookup [OF assms(1)] with_table_dents [OF assms(1)]
    by (auto split: option.splits) (metis with_table_dents(3))
qed

section \<open>Preparing the directory entries of a range\<close>

lemma unat_SPD: "unat (SPD_SIZE v) = 2 ^ IOMMU_PD_SHIFT v"
  by (cases v) (simp_all add: SPD_SIZE_def)

lemma prepare_l1_step:
  assumes wf: "pt_wf v pgd s" "slab_ok v pgd zalloc" and le: "iova_start \<le> iova_end"
  defines "i \<equiv> unat iova_start div 2 ^ IOMMU_PD_SHIFT v mod 4096"
  obtains ok s1 where "pt_wf v pgd s1" "pt_lookup v pgd (mem s1) = pt_lookup v pgd (mem s)"
    "\<forall>j < 4096. dent_valid pgd (mem s) j \<longrightarrow> dent_valid pgd (mem s1) j"
    "ok \<Longrightarrow> dent_valid pgd (mem s1) i"
    "sunxi_pgtable_prepare_l1_tables v zalloc pgd iova_start iova_end prot s =
       (if ok then sunxi_pgtable_prepare_l1_tables v zalloc pgd (iova_start + SPD_SIZE v) iova_end prot s1
        else Some (- ENOMEM, s1))"
proof (cases "dent_valid pgd (mem s) i")
  case True
  then have "sunxi_pgtable_prepare_l1_tables v zalloc pgd iova_start iova_end prot s =
      sunxi_pgtable_prepare_l1_tables v zalloc pgd (iova_start + SPD_SIZE v) iova_end prot s"
    using le by (subst sunxi_pgtable_prepare_l1_tables.simps)
      (simp add: iopde_offset_cell Let_def dent_valid_def i_def)
  with True wf that [of s True] show ?thesis by simp
next
  case False
  obtain ok s1 where alloc: "sunxi_alloc_iopte v zalloc (cell pgd i) prot s = (ok, s1)"
    by (cases "sunxi_alloc_iopte v zalloc (cell pgd i) prot s")
  have "i < 4096" by (simp add: i_def)
  note A = alloc_iopte [OF wf this False alloc]
  have "sunxi_pgtable_prepare_l1_tables v zalloc pgd iova_start iova_end prot s =
      (if ok then sunxi_pgtable_prepare_l1_tables v zalloc pgd (iova_start + SPD_SIZE v) iova_end prot s1
       else Some (- ENOMEM, s1))"
    using le False alloc by (subst sunxi_pgtable_prepare_l1_tables.simps)
      (simp add: iopde_offset_cell Let_def dent_valid_def i_def)
  with A that [of s1 ok] show ?thesis by simp
qed

lemma prepare_l1_spec:
  assumes "pt_wf v pgd s" "slab_ok v pgd zalloc" "unat iova_end + 2 ^ IOMMU_PD_SHIFT v < 2 ^ 64"
  shows "\<exists>r s'. sunxi_pgtable_prepare_l1_tables v zalloc pgd iova_start iova_end prot s = Some (r, s')
    \<and> pt_wf v pgd s' \<and> pt_lookup v pgd (mem s') = pt_lookup v pgd (mem s)
    \<and> (\<forall>j < 4096. dent_valid pgd (mem s) j \<longrightarrow> dent_valid pgd (mem s') j)
    \<and> (r = 0 \<and> (\<forall>k. unat iova_start + k * 2 ^ IOMMU_PD_SHIFT v \<le> unat iova_end \<longrightarrow>
          dent_valid pgd (mem s') ((unat iova_start div 2 ^ IOMMU_PD_SHIFT v + k) mod 4096))
       \<or> r = - ENOMEM)"
  using assms
proof (induction "unat iova_end + 2 ^ IOMMU_PD_SHIFT v - unat iova_start" arbitrary: iova_start s
    rule: less_induct)
  case less
  let ?D = "2 ^ IOMMU_PD_SHIFT v :: nat"
  show ?case
  proof (cases "iova_start \<le> iova_end")
    case False
    then have "unat iova_end < unat iova_start" by (simp add: word_le_nat_alt)
    with False less.prems(1) show ?thesis
      by (subst sunxi_pgtable_prepare_l1_tables.simps) (auto intro!: exI)
  next
    case True
    obtain ok s1 where step: "pt_wf v pgd s1" "pt_lookup v pgd (mem s1) = pt_lookup v pgd (mem s)"
      "\<forall>j < 4096. dent_valid pgd (mem s) j \<longrightarrow> dent_valid pgd (mem s1) j"
      "ok \<Longrightarrow> dent_valid pgd (mem s1) (unat iova_start div ?D mod 4096)"
      "sunxi_pgtable_prepare_l1_tables v zalloc pgd iova_start iova_end prot s =
         (if ok then sunxi_pgtable_prepare_l1_tables v zalloc pgd (iova_start + SPD_SIZE v) iova_end prot s1
          else Some (- ENOMEM, s1))"
      using prepare_l1_step [OF less.prems(1,2) True] by metis
    have le: "unat iova_start \<le> unat iova_end" using True by (simp add: word_le_nat_alt)
    have nxt: "unat (iova_start + SPD_SIZE v) = unat iova_start + ?D"
      using le less.prems(3) by (simp add: unat_word_ariths unat_SPD)
    have "0 < ?D" by simp
    with le have dec: "unat iova_end + ?D - unat (iova_start + SPD_SIZE v) < unat iova_end + ?D - unat iova_start"
      unfolding nxt by linarith
    have cov: "(\<forall>k. unat iova_start + k * ?D \<le> unat iova_end \<longrightarrow> Q ((unat iova_start div ?D + k) mod 4096))"
      if "Q (unat iova_start div ?D mod 4096)" "\<forall>k. unat iova_start + ?D + k * ?D \<le> unat iova_end \<longrightarrow>
          Q (((unat iova_start + ?D) div ?D + k) mod 4096)" for Q
    proof (intro allI impI)
      fix k assume "unat iova_start + k * ?D \<le> unat iova_end"
      moreover have "(unat iova_start + ?D) div ?D = Suc (unat iova_start div ?D)"
        using div_add_self2 [of ?D "unat iova_start"] by simp
      ultimately show "Q ((unat iova_start div ?D + k) mod 4096)" 
        using that by (cases k) (auto simp: algebra_simps)
    qed
    show ?thesis
    proof (cases ok)
      case False with step show ?thesis by auto
    next
      case ok: True
      obtain r s' where IH: "sunxi_pgtable_prepare_l1_tables v zalloc pgd (iova_start + SPD_SIZE v) iova_end prot s1 = Some (r, s')"
        "pt_wf v pgd s'" "pt_lookup v pgd (mem s') = pt_lookup v pgd (mem s1)"
        "\<forall>j < 4096. dent_valid pgd (mem s1) j \<longrightarrow> dent_valid pgd (mem s') j"
        "r = 0 \<and> (\<forall>k. unat iova_start + ?D + k * ?D \<le> unat iova_end \<longrightarrow>
           dent_valid pgd (mem s') (((unat iova_start + ?D) div ?D + k) mod 4096)) \<or> r = - ENOMEM"
        using less.hyps [OF dec step(1) less.prems(2,3)] unfolding nxt by blast
      have "dent_valid pgd (mem s') (unat iova_start div ?D mod 4096)" using step(4) ok IH(4) by simp
      with IH step(2,3,5) ok cov [of "dent_valid pgd (mem s')"] show ?thesis
        by (intro exI [of _ r] exI [of _ s']) (simp, blast)
    qed
  qed
qed

end
