(* ===== verification/Pgtable_Range.thy ===== *)
theory Pgtable_Range
  imports Pgtable_Ops
begin

text \<open>
  Filling and clearing the entries of a range of pages.  Ranges are given by page numbers:
  \<open>page P\<close> is the first address of page \<open>P\<close>.  The loop bodies treat the part of the range that one
  second-level table holds (\<open>chunk\<close> pages), and the loops are then described by induction on the
  number of pages left.
\<close>

definition page :: "nat \<Rightarrow> u64" where
  "page P = of_nat (4096 * P)"

definition chunk :: "pgver \<Rightarrow> nat \<Rightarrow> nat \<Rightarrow> nat" where
  "chunk v P E = min (npte v - P mod npte v) (E - P)"

lemma npages_le: "4096 * npte v \<le> 2 ^ 22"
  using npte_le [of v] by simp

lemma unat_page: "P \<le> 4096 * npte v \<Longrightarrow> unat (page P) = 4096 * P"
  using npages_le [of v] unfolding page_def by (intro unat_of_nat_eq) simp

lemma page_add: "page P + of_nat (4096 * n) = page (P + n)"
  by (simp add: page_def algebra_simps)

lemma SPAGE_32: "(ucast SPAGE_SIZE :: u32) = 4096"
  by (simp add: SPAGE_SIZE_def IOMMU_PT_SHIFT_def)

lemma chunk_le: "chunk v P E \<le> npte v" "chunk v P E \<le> E - P" "P mod npte v + chunk v P E \<le> npte v"
proof -
  have "P mod npte v < npte v" by simp
  then show "chunk v P E \<le> npte v" "chunk v P E \<le> E - P" "P mod npte v + chunk v P E \<le> npte v"
    unfolding chunk_def by linarith+
qed

lemma chunk_pos: "P < E \<Longrightarrow> 0 < chunk v P E"
  unfolding chunk_def by (simp add: mod_less_divisor [OF npte_pos])

lemma iova_tail_pages:
  assumes "P < E" "E \<le> 4096 * npte v"
  shows "iova_tail v (page P) (page E) = (of_nat (chunk v P E), of_nat (4096 * chunk v P E))"
proof -
  define c where "c = npte v - P mod npte v"
  have P: "unat (page P) = 4096 * P" and E: "unat (page E) = 4096 * E"
    using assms by (auto intro!: unat_page [where v = v])
  have mod: "P mod npte v < npte v" by simp
  have "unat (IOPTE_INDEX v (page P)) = P mod npte v"
    by (simp add: unat_IOPTE_INDEX P)
  then have "unat (NUM_ENTRIES_PTE v - IOPTE_INDEX v (page P)) = c"
    using mod by (simp add: unat_sub unat_NUM_PTE word_le_nat_alt c_def)
  then have c64: "NUM_ENTRIES_PTE v - IOPTE_INDEX v (page P) = of_nat c" by (rule of_nat_unat_eq)
  have c: "c \<le> 1024" using npte_le [of v] by (simp add: c_def)
  have up: "(ucast (of_nat c :: u64) :: u32) = of_nat c" using c by (intro ucast_of_nat_eq) simp
  have size: "(of_nat c :: u32) * 4096 = of_nat (4096 * c)" by simp
  have cast: "(ucast (of_nat (4096 * c) :: u32) :: u64) = of_nat (4096 * c)"
    using c by (intro ucast_of_nat_eq) simp
  have lim: "P + c \<le> 4096 * npte v + 1024" using c assms by linarith
  have "unat (page (P + c)) = 4096 * (P + c)"
    unfolding page_def using lim npages_le [of v] by (intro unat_of_nat_eq) simp
  then have gt: "page P + ucast (of_nat (4096 * c) :: u32) > page E \<longleftrightarrow> P + c > E"
    by (simp only: cast page_add word_less_nat_alt E mult_less_cancel1) simp
  have diff: "page E - page P = of_nat (4096 * (E - P))"
    using assms(1) by (simp add: page_def of_nat_diff algebra_simps)
  have down: "(ucast (of_nat (4096 * (E - P)) :: u64) :: u32) = of_nat (4096 * (E - P))" if "P + c > E"
    using that c by (intro ucast_of_nat_eq) simp
  have dv: "(of_nat (4096 * (E - P)) :: u32) div 4096 = of_nat (E - P)" if "P + c > E"
    using that c by (intro of_nat_unat_eq) (simp add: unat_div unat_of_nat_eq del: of_nat_mult)
  show ?thesis
    unfolding iova_tail_def Let_def SPAGE_32 c64 up size gt diff chunk_def c_def [symmetric]
    using dv down assms(1) by (auto simp: min_def simp del: of_nat_mult)
qed

section \<open>Changing the entries of one table\<close>

lemma in_chunk:
  fixes P Q n N :: nat
  assumes "0 < N" "P mod N + n \<le> N"
  shows "P \<le> Q \<and> Q < P + n \<longleftrightarrow> Q div N = P div N \<and> P mod N \<le> Q mod N \<and> Q mod N < P mod N + n"
proof
  assume q: "P \<le> Q \<and> Q < P + n"
  then obtain k where k: "Q = P + k" "k < n" using le_Suc_ex by auto
  have "P + k = (P mod N + k) + N * (P div N)" by (simp add: algebra_simps)
  then have "(P + k) div N = P div N" "(P + k) mod N = P mod N + k"
    using k(2) assms by (simp_all only: div_mult_self2 mod_mult_self2) auto
  with k show "Q div N = P div N \<and> P mod N \<le> Q mod N \<and> Q mod N < P mod N + n" by simp
next
  assume q: "Q div N = P div N \<and> P mod N \<le> Q mod N \<and> Q mod N < P mod N + n"
  have "Q = N * (Q div N) + Q mod N" "P = N * (P div N) + P mod N" by simp_all
  with q show "P \<le> Q \<and> Q < P + n" by (metis add_le_cancel_left add.assoc nat_add_left_cancel_less)
qed

lemma pt_lookup_in:
  assumes "Q < 4096 * npte v"
  shows "pt_lookup v pgd m Q =
    (let e = m (cell (dent_table v pgd m (Q div npte v)) (Q mod npte v))
     in if dent_valid pgd m (Q div npte v) \<and> e \<noteq> 0 then Some e else None)"
  using assms by (simp add: pt_lookup_def less_mult_imp_div_less Let_def)

lemma table_update:
  assumes wf: "pt_wf v pgd s" and P: "P < 4096 * npte v" and n: "P mod npte v + n \<le> npte v"
    and dv: "dent_valid pgd (mem s) (P div npte v)"
    and t: "t = dent_table v pgd (mem s) (P div npte v)"
    and upd: "\<And>a. (\<And>k. k < n \<Longrightarrow> a \<noteq> cell t (P mod npte v + k)) \<Longrightarrow> m' a = mem s a"
  shows table_update_wf: "pt_wf v pgd (s\<lparr>mem := m'\<rparr>)"
    and table_update_dent: "i < 4096 \<Longrightarrow> m' (cell pgd i) = mem s (cell pgd i)"
    and table_update_lookup: "Q < 4096 * npte v \<Longrightarrow> pt_lookup v pgd m' Q =
      (if P \<le> Q \<and> Q < P + n
       then let e = m' (cell t (P mod npte v + (Q - P))) in if e \<noteq> 0 then Some e else None
       else pt_lookup v pgd (mem s) Q)"
proof -
  have i: "P div npte v < 4096" using P by (simp add: less_mult_imp_div_less)
  have tok: "table_ok v pgd t" unfolding t using wf i dv by (rule pt_wf_table_ok)
  have dents: "m' (cell pgd i) = mem s (cell pgd i)" if "i < 4096" for i
  proof (rule upd)
    fix k assume "k < n"
    then have "P mod npte v + k < npte v" using n by simp
    then show "cell pgd i \<noteq> cell t (P mod npte v + k)"
      using table_dent_apart [OF tok pt_wf_pgd [OF wf] _ that] by metis
  qed
  then show "i < 4096 \<Longrightarrow> m' (cell pgd i) = mem s (cell pgd i)" .
  show "pt_wf v pgd (s\<lparr>mem := m'\<rparr>)" using wf dents by (rule pt_wf_mem_cong)
  assume Q: "Q < 4096 * npte v"
  let ?j = "Q div npte v" and ?k = "Q mod npte v"
  have j: "?j < 4096" using Q by (simp add: less_mult_imp_div_less)
  have k: "?k < npte v" by simp
  note D = dent_cong [where m = "mem s" and m' = m' and pgd = pgd, OF dents [OF j]]
  show "pt_lookup v pgd m' Q = (if P \<le> Q \<and> Q < P + n
       then let e = m' (cell t (P mod npte v + (Q - P))) in if e \<noteq> 0 then Some e else None
       else pt_lookup v pgd (mem s) Q)"
  proof (cases "P \<le> Q \<and> Q < P + n")
    case True
    then have q: "?j = P div npte v" "P mod npte v \<le> ?k" "?k < P mod npte v + n"
      using in_chunk [OF npte_pos n] by blast+
    have "Q = npte v * (P div npte v) + ?k" using q(1) by (metis mult_div_mod_eq)
    moreover have "P = npte v * (P div npte v) + P mod npte v" by simp
    ultimately have "P mod npte v + (Q - P) = ?k" using q(2) by linarith
    with True q(1) dv D show ?thesis by (simp add: pt_lookup_in [OF Q] t)
  next
    case False
    have "m' (cell (dent_table v pgd (mem s) ?j) ?k) = mem s (cell (dent_table v pgd (mem s) ?j) ?k)"
      if jv: "dent_valid pgd (mem s) ?j"
    proof (rule upd)
      fix l assume "l < n"
      then have l: "P mod npte v + l < npte v" "P mod npte v + l < P mod npte v + n" using n by auto
      show "cell (dent_table v pgd (mem s) ?j) ?k \<noteq> cell t (P mod npte v + l)"
        unfolding table_cell_inject [OF pt_wf_table_ok [OF wf j jv] tok k l(1)]
        using pt_wf_inj [OF wf j i jv dv] in_chunk [OF npte_pos n, of Q] False l(2) unfolding t
        by (metis le_add1)
    qed
    with False D show ?thesis by (auto simp: pt_lookup_in [OF Q] Let_def)
  qed
qed

section \<open>Filling a range\<close>

lemma walk_page:
  assumes "P < 4096 * npte v"
  shows "iopde_offset v pgd (page P) = cell pgd (P div npte v)"
    and "iopte_offset v (m (cell pgd (P div npte v))) (page P) =
      cell (dent_table v pgd m (P div npte v)) (P mod npte v)"
proof -
  have u: "unat (page P) = 4096 * P" using assms by (intro unat_page [where v = v]) simp
  show "iopde_offset v pgd (page P) = cell pgd (P div npte v)"
    unfolding iopde_offset_cell using assms
    by (subst iova_page_index) (simp add: u less_mult_imp_div_less)
  show "iopte_offset v (m (cell pgd (P div npte v))) (page P) =
      cell (dent_table v pgd m (P div npte v)) (P mod npte v)"
    unfolding iopte_offset_cell u dent_table_def by simp
qed

definition fill :: "pgver \<Rightarrow> u64 \<Rightarrow> nat \<Rightarrow> nat \<Rightarrow> u64 \<Rightarrow> u32 \<Rightarrow> (u64 \<Rightarrow> u32) \<Rightarrow> (u64 \<Rightarrow> u32)" where
  "fill v pgd P n x prot m =
     write_ptes n 0 (cell (dent_table v pgd m (P div npte v)) (P mod npte v)) (sunxi_mk_pte v x prot) m"

lemma chunk_small: "chunk v P E < 2 ^ 20" "4096 * chunk v P E < 2 ^ 32"
  using chunk_le(1) [of v P E] npte_le [of v] by simp_all

lemma prepare_l2_step:
  assumes "P < E" "E \<le> 4096 * npte v"
  shows "prepare_l2_loop v pgd (page P) (page E) x prot s =
    prepare_l2_loop v pgd (page (P + chunk v P E)) (page E) (x + of_nat (4096 * chunk v P E)) prot
      (s\<lparr>mem := fill v pgd P (chunk v P E) x prot (mem s)\<rparr>)"
proof -
  have "page P < page E"
    using assms by (simp add: word_less_nat_alt unat_page [where v = v])
  moreover have "(ucast (of_nat (4096 * chunk v P E) :: u32) :: u64) = of_nat (4096 * chunk v P E)"
    using chunk_small by (intro ucast_of_nat_eq) simp
  moreover have "unat (of_nat (chunk v P E) :: u32) = chunk v P E"
    using chunk_small(1) [of v P E] by (intro unat_of_nat_eq) simp
  ultimately show ?thesis
    using assms by (subst prepare_l2_loop.simps)
      (simp add: iova_tail_pages page_add walk_page fill_def Let_def del: of_nat_mult)
qed

lemma fill_chunk:
  fixes prot :: u32
  assumes wf: "pt_wf v pgd s" and P: "P < 4096 * npte v" and n: "P mod npte v + n \<le> npte v"
    and dv: "dent_valid pgd (mem s) (P div npte v)" and x: "aligned 12 x"
    and carry: "v = AW_IOMMU_PGTABLE_V1 \<or> unat x mod 2 ^ 32 + 4096 * n \<le> 2 ^ 32"
  defines "m' \<equiv> fill v pgd P n x prot (mem s)"
  shows fill_chunk_wf: "pt_wf v pgd (s\<lparr>mem := m'\<rparr>)"
    and fill_chunk_dent: "i < 4096 \<Longrightarrow> m' (cell pgd i) = mem s (cell pgd i)"
    and fill_chunk_lookup: "Q < 4096 * npte v \<Longrightarrow> pt_lookup v pgd m' Q =
      (if P \<le> Q \<and> Q < P + n then Some (sunxi_mk_pte v (x + of_nat (4096 * (Q - P))) prot)
       else pt_lookup v pgd (mem s) Q)"
proof -
  let ?t = "dent_table v pgd (mem s) (P div npte v)"
  have upd: "m' a = mem s a" if "\<And>k. k < n \<Longrightarrow> a \<noteq> cell ?t (P mod npte v + k)" for a
    unfolding m'_def fill_def using that by (intro write_ptes_other) (simp add: cell_cell)
  note U = table_update [OF wf P n dv refl upd]
  show "pt_wf v pgd (s\<lparr>mem := m'\<rparr>)" "i < 4096 \<Longrightarrow> m' (cell pgd i) = mem s (cell pgd i)"
    by (rule U; assumption)+
  have cells: "m' (cell ?t (P mod npte v + k)) = sunxi_mk_pte v (x + of_nat (4096 * k)) prot" if "k < n" for k
  proof -
    have n14: "n \<le> 2 ^ 14" using n npte_le [of v] by simp
    have "m' (cell ?t (P mod npte v + k)) = sunxi_mk_pte v x prot + ucast SPAGE_SIZE * of_nat k"
      unfolding m'_def fill_def cell_cell [symmetric] using write_ptes_cell [OF that n14, of 0] by simp
    moreover have "v = AW_IOMMU_PGTABLE_V1 \<or> unat x mod 2 ^ 32 + 4096 * k < 2 ^ 32"
      using carry that by auto
    ultimately show ?thesis using mk_pte_add [OF x] by simp
  qed
  have cell: "m' (cell ?t (P mod npte v + (Q - P))) = sunxi_mk_pte v (x + of_nat (4096 * (Q - P))) prot"
    if "P \<le> Q \<and> Q < P + n" using that by (intro cells) auto
  show "pt_lookup v pgd m' Q =
      (if P \<le> Q \<and> Q < P + n then Some (sunxi_mk_pte v (x + of_nat (4096 * (Q - P))) prot)
       else pt_lookup v pgd (mem s) Q)" if "Q < 4096 * npte v"
    using U(3) [OF _ that] cell by (cases "P \<le> Q \<and> Q < P + n") (simp_all only: Let_def if_True if_False mk_pte_neq_0 simp_thms)
qed

lemma carry_step:
  fixes x :: u64
  assumes "unat x mod 2 ^ 32 + 4096 * k \<le> 2 ^ 32" "n \<le> k"
  shows "unat (x + of_nat (4096 * n)) mod 2 ^ 32 + 4096 * (k - n) \<le> 2 ^ 32"
proof (cases "n = k")
  case False
  have d: "a mod 18446744073709551616 mod 4294967296 = a mod 4294967296" for a :: nat
    by (rule mod_mod_cancel) simp
  have "unat (x + of_nat (4096 * n)) mod 2 ^ 32 = (unat x + 4096 * n) mod 2 ^ 32"
    by (simp add: unat_word_ariths unat_of_nat take_bit_eq_mod d mod_simps del: of_nat_mult)
  also have "\<dots> = (unat x mod 2 ^ 32 + 4096 * n) mod 2 ^ 32" by (simp add: mod_simps)
  also have "\<dots> = unat x mod 2 ^ 32 + 4096 * n" using assms False by (intro mod_less) linarith
  finally show ?thesis using assms by simp
qed (simp add: less_imp_le)

lemma prepare_l2_spec:
  assumes "pt_wf v pgd s" "P \<le> E" "E \<le> 4096 * npte v"
    and "\<And>Q. P \<le> Q \<Longrightarrow> Q < E \<Longrightarrow> dent_valid pgd (mem s) (Q div npte v)"
    and "aligned 12 x" "v = AW_IOMMU_PGTABLE_V1 \<or> unat x mod 2 ^ 32 + 4096 * (E - P) \<le> 2 ^ 32"
  shows "\<exists>s'. prepare_l2_loop v pgd (page P) (page E) x prot s = Some s' \<and> pt_wf v pgd s'
    \<and> iopte_live s' = iopte_live s
    \<and> (\<forall>Q < 4096 * npte v. pt_lookup v pgd (mem s') Q =
         (if P \<le> Q \<and> Q < E then Some (sunxi_mk_pte v (x + of_nat (4096 * (Q - P))) prot)
          else pt_lookup v pgd (mem s) Q))"
  using assms
proof (induction "E - P" arbitrary: P x s rule: less_induct)
  case less
  show ?case
  proof (cases "P < E")
    case False
    then have "\<not> page P < page E"
      using less.prems(2,3) by (simp add: word_less_nat_alt unat_page [where v = v])
    then show ?thesis
      using False less.prems(1) by (subst prepare_l2_loop.simps) auto
  next
    case True
    define n s1 where "n = chunk v P E" and "s1 = s\<lparr>mem := fill v pgd P n x prot (mem s)\<rparr>"
    have n: "0 < n" "P + n \<le> E" "P mod npte v + n \<le> npte v"
      using chunk_pos [where v = v, OF True] chunk_le(2,3) [where v = v and P = P and E = E] True unfolding n_def by linarith+
    have P: "P < 4096 * npte v" using True less.prems(3) by simp
    have c1: "v = AW_IOMMU_PGTABLE_V1 \<or> unat x mod 2 ^ 32 + 4096 * n \<le> 2 ^ 32"
      using less.prems(6) n(2) by linarith
    note F = fill_chunk [OF less.prems(1) P n(3) less.prems(4) [OF order_refl True] less.prems(5) c1, where prot = prot]
    have wf1: "pt_wf v pgd s1" unfolding s1_def by (rule F(1))
    have dv1: "dent_valid pgd (mem s1) (Q div npte v)" if "P + n \<le> Q" "Q < E" for Q
    proof -
      have "Q div npte v < 4096" using that less.prems(3) by (simp add: less_mult_imp_div_less)
      from F(2) [OF this] less.prems(4) [of Q] that show ?thesis
        by (simp add: s1_def dent_valid_def)
    qed
    have c2: "v = AW_IOMMU_PGTABLE_V1 \<or>
        unat (x + of_nat (4096 * n)) mod 2 ^ 32 + 4096 * (E - (P + n)) \<le> 2 ^ 32"
      using less.prems(6) carry_step [of x "E - P" n] add_le_imp_le_diff [of n P E] n(2)
      by (auto simp: add.commute)
    obtain s' where s': "prepare_l2_loop v pgd (page (P + n)) (page E) (x + of_nat (4096 * n)) prot s1 = Some s'"
      "pt_wf v pgd s'" "iopte_live s' = iopte_live s1"
      "\<And>Q. Q < 4096 * npte v \<Longrightarrow> pt_lookup v pgd (mem s') Q =
         (if P + n \<le> Q \<and> Q < E
          then Some (sunxi_mk_pte v (x + of_nat (4096 * n) + of_nat (4096 * (Q - (P + n)))) prot)
          else pt_lookup v pgd (mem s1) Q)"
      using less.hyps [OF _ wf1 n(2) less.prems(3) dv1 aligned_add_pages [OF less.prems(5)] c2]
        n(1) True by fastforce
    have "pt_lookup v pgd (mem s') Q =
         (if P \<le> Q \<and> Q < E then Some (sunxi_mk_pte v (x + of_nat (4096 * (Q - P))) prot)
          else pt_lookup v pgd (mem s) Q)" if Q: "Q < 4096 * npte v" for Q
    proof (cases "P + n \<le> Q")
      case True
      then have "4096 * n + 4096 * (Q - (P + n)) = 4096 * (Q - P)" by simp
      then have "x + of_nat (4096 * n) + of_nat (4096 * (Q - (P + n))) = x + of_nat (4096 * (Q - P))"
        by (simp only: add.assoc flip: of_nat_add)
      with True s'(4) [OF Q] F(3) [OF Q] show ?thesis
        by (simp only: s1_def pgtable_state.simps) simp
    next
      case False
      with s'(4) [OF Q] F(3) [OF Q] n(2) show ?thesis
        by (simp only: s1_def pgtable_state.simps) simp
    qed
    with s'(1-3) show ?thesis
      unfolding prepare_l2_step [OF True less.prems(3)] n_def [symmetric] s1_def by auto
  qed
qed

end
