(* ===== verification/Pgtable_Delete.thy ===== *)
theory Pgtable_Delete
  imports Pgtable_Range
begin

text \<open>
  Clearing entries: the chunk that one call of \<open>sunxi_pgtable_delete_l2_tables\<close> clears, with the
  release of the second-level table when the chunk is the whole table, and the release of
  everything by \<open>sunxi_pgtable_clear\<close>.
\<close>

section \<open>Releasing a table\<close>

definition without_table :: "pgver \<Rightarrow> u64 \<Rightarrow> nat \<Rightarrow> pgtable_state \<Rightarrow> pgtable_state" where
  "without_table v pgd i s =
     sunxi_free_iopte (dent_table v pgd (mem s) i)
       (s\<lparr>mem := (memset0 (npte v) (dent_table v pgd (mem s) i) (mem s))(cell pgd i := 0)\<rparr>)"

lemma without_table_dents:
  assumes wf: "pt_wf v pgd s" and i: "i < 4096" "dent_valid pgd (mem s) i"
  shows "\<not> dent_valid pgd (mem (without_table v pgd i s)) i"
    and "j < 4096 \<Longrightarrow> j \<noteq> i \<Longrightarrow>
      mem (without_table v pgd i s) (cell pgd j) = mem s (cell pgd j)"
  using alloc_dents [OF pt_wf_pgd [OF wf] pt_wf_table_ok [OF wf i] i(1), of j "mem s" 0]
  by (simp_all add: without_table_def sunxi_free_iopte_def dent_valid_def not_valid_0)

lemma without_table_valid:
  assumes wf: "pt_wf v pgd s" and i: "i < 4096" "dent_valid pgd (mem s) i" and j: "j < 4096"
  shows "dent_valid pgd (mem (without_table v pgd i s)) j \<longleftrightarrow> j \<noteq> i \<and> dent_valid pgd (mem s) j"
    and "j \<noteq> i \<Longrightarrow> dent_table v pgd (mem (without_table v pgd i s)) j = dent_table v pgd (mem s) j"
  using without_table_dents [OF wf i] j dent_cong by metis+

lemma without_table_wf:
  assumes wf: "pt_wf v pgd s" and i: "i < 4096" "dent_valid pgd (mem s) i"
  shows "pt_wf v pgd (without_table v pgd i s)"
proof -
  let ?s = "without_table v pgd i s" and ?t = "dent_table v pgd (mem s) i"
  note D = without_table_valid [OF wf i]
  have live: "set (iopte_live ?s) = set (iopte_live s) - {?t}"
    using pt_wf_distinct [OF wf] by (simp add: without_table_def sunxi_free_iopte_def)
  have dist: "distinct (iopte_live ?s)"
    using pt_wf_distinct [OF wf] by (simp add: without_table_def sunxi_free_iopte_def)
  show ?thesis
    unfolding pt_wf_def live
  proof (intro conjI allI impI ballI)
    fix j assume j: "j < 4096" "dent_valid pgd (mem ?s) j"
    then show "dent_table v pgd (mem ?s) j \<in> set (iopte_live s) - {?t}"
      using D pt_wf_table [OF wf, of j] pt_wf_inj [OF wf j(1) i(1) _ i(2)] by auto
  next
    fix j k assume "j < 4096" "k < 4096" "dent_valid pgd (mem ?s) j" "dent_valid pgd (mem ?s) k"
      "dent_table v pgd (mem ?s) j = dent_table v pgd (mem ?s) k"
    then show "j = k" using D pt_wf_inj [OF wf, of j k] by auto
  next
    fix q assume q: "q \<in> set (iopte_live s) - {?t}"
    then obtain j where "j < 4096" "dent_valid pgd (mem s) j" "dent_table v pgd (mem s) j = q"
      using pt_wf_reach [OF wf, of q] by auto
    with q D show "\<exists>j < 4096. dent_valid pgd (mem ?s) j \<and> dent_table v pgd (mem ?s) j = q" by auto
  qed (use pt_wf_pgd [OF wf] dist pt_wf_live [OF wf] in auto)
qed

lemma without_table_lookup:
  assumes wf: "pt_wf v pgd s" and i: "i < 4096" "dent_valid pgd (mem s) i" and Q: "Q < 4096 * npte v"
  shows "pt_lookup v pgd (mem (without_table v pgd i s)) Q =
    (if Q div npte v = i then None else pt_lookup v pgd (mem s) Q)"
proof -
  let ?s = "without_table v pgd i s" and ?t = "dent_table v pgd (mem s) i"
  let ?j = "Q div npte v" and ?k = "Q mod npte v"
  have j: "?j < 4096" using Q by (simp add: less_mult_imp_div_less)
  have k: "?k < npte v" by simp
  note D = without_table_valid [OF wf i j]
  note tok = pt_wf_table_ok [OF wf i]
  have "mem ?s (cell (dent_table v pgd (mem s) ?j) ?k) = mem s (cell (dent_table v pgd (mem s) ?j) ?k)"
    if ne: "?j \<noteq> i" and jv: "dent_valid pgd (mem s) ?j"
  proof -
    note jok = pt_wf_table_ok [OF wf j jv]
    have "\<not> (\<exists>l < npte v. cell (dent_table v pgd (mem s) ?j) ?k = cell ?t l)"
      using table_cell_inject [OF jok tok k] pt_wf_inj [OF wf j i(1) jv i(2)] ne by metis
    with table_dent_apart [OF jok pt_wf_pgd [OF wf] k i(1)] show ?thesis
      by (auto simp: without_table_def sunxi_free_iopte_def memset0_apply)
  qed
  then show ?thesis using D by (auto simp: pt_lookup_in [OF Q] Let_def)
qed

section \<open>One call of delete\<close>

lemma delete_l2_hole:
  assumes "P < E" "E \<le> 4096 * npte v" "\<not> dent_valid pgd (mem s) (P div npte v)"
  shows "sunxi_pgtable_delete_l2_tables v pgd (page P) (page E) s = (- EINVAL, s)"
  using assms by (simp add: sunxi_pgtable_delete_l2_tables_def iova_tail_pages walk_page
      dent_valid_def del: of_nat_mult)

lemma chunk_whole:
  assumes "P < E"
  shows "chunk v P E = npte v \<longleftrightarrow> P mod npte v = 0 \<and> P + npte v \<le> E"
proof -
  have "min (N - r) d = N \<longleftrightarrow> r = 0 \<and> N \<le> d" if "r < N" for N r d :: nat using that by auto
  from this [of "P mod npte v" "npte v"] assms show ?thesis unfolding chunk_def by auto
qed

lemma size_whole:
  "(of_nat (4096 * chunk v P E) :: u32) = ucast (SPD_SIZE v) \<longleftrightarrow> chunk v P E = npte v"
proof -
  have "unat (of_nat (4096 * chunk v P E) :: u32) = 4096 * chunk v P E"
    using chunk_small(2) [of v P E] by (intro unat_of_nat_eq) simp
  moreover have "unat (ucast (SPD_SIZE v) :: u32) = 4096 * npte v"
    by (cases v) (simp_all add: SPD_SIZE_def npte_def)
  ultimately show ?thesis by (simp add: word_unat_eq_iff del: of_nat_mult)
qed

lemma delete_l2_step:
  assumes wf: "pt_wf v pgd s" and PE: "P < E" "E \<le> 4096 * npte v"
    and dv: "dent_valid pgd (mem s) (P div npte v)"
  defines "n \<equiv> chunk v P E"
  shows "\<exists>s'. sunxi_pgtable_delete_l2_tables v pgd (page P) (page E) s = (int (4096 * n), s')
    \<and> pt_wf v pgd s'
    \<and> (\<forall>Q < 4096 * npte v. pt_lookup v pgd (mem s') Q =
         (if P \<le> Q \<and> Q < P + n then None else pt_lookup v pgd (mem s) Q))
    \<and> (\<forall>i < 4096. dent_valid pgd (mem s') i \<longleftrightarrow>
         dent_valid pgd (mem s) i \<and> \<not> (i = P div npte v \<and> n = npte v))"
proof -
  let ?i = "P div npte v" and ?t = "dent_table v pgd (mem s) (P div npte v)"
  have P: "P < 4096 * npte v" and i: "?i < 4096" using PE by (auto simp: less_mult_imp_div_less)
  have n: "P mod npte v + n \<le> npte v" "unat (of_nat n :: u32) = n" "uint (of_nat (4096 * n) :: u32) = int (4096 * n)"
    using chunk_le(3) [of P v E] chunk_small [of v P E]
    by (auto simp: n_def unat_of_nat_eq uint_nat simp del: of_nat_mult)
  show ?thesis
  proof (cases "n = npte v")
    case True
    then have P0: "P mod npte v = 0" using chunk_whole [OF PE(1)] by (simp add: n_def)
    have "sunxi_pgtable_delete_l2_tables v pgd (page P) (page E) s = (int (4096 * n), without_table v pgd ?i s)"
      using dv n(2,3) True size_whole [of v P E] P0
      by (simp add: sunxi_pgtable_delete_l2_tables_def iova_tail_pages [OF PE] walk_page [OF P]
          dent_valid_def n_def [symmetric] without_table_def Let_def sunxi_free_iopte_def del: of_nat_mult)
    moreover have "P \<le> Q \<and> Q < P + n \<longleftrightarrow> Q div npte v = ?i" for Q
      using in_chunk [OF npte_pos n(1), of Q] P0 True by auto
    ultimately show ?thesis
      using without_table_wf [OF wf i dv] without_table_lookup [OF wf i dv]
        without_table_valid(1) [OF wf i dv] True by auto
  next
    case False
    let ?m = "memset0 n (cell ?t (P mod npte v)) (mem s)"
    have "sunxi_pgtable_delete_l2_tables v pgd (page P) (page E) s = (int (4096 * n), s\<lparr>mem := ?m\<rparr>)"
      using dv n(2,3) False size_whole [of v P E]
      by (simp add: sunxi_pgtable_delete_l2_tables_def iova_tail_pages [OF PE] walk_page [OF P]
          dent_valid_def n_def [symmetric] Let_def del: of_nat_mult)
    moreover have upd: "?m a = mem s a" if "\<And>k. k < n \<Longrightarrow> a \<noteq> cell ?t (P mod npte v + k)" for a
      using that by (auto simp: memset0_apply cell_cell)
    note U = table_update [OF wf P n(1) dv refl upd]
    have z: "?m (cell ?t (P mod npte v + (Q - P))) = 0" if "P \<le> Q \<and> Q < P + n" for Q
    proof -
      have "Q - P < n" using that by auto
      then show ?thesis unfolding memset0_apply cell_cell by (metis (full_types))
    qed
    have "pt_lookup v pgd ?m Q = (if P \<le> Q \<and> Q < P + n then None else pt_lookup v pgd (mem s) Q)"
      if "Q < 4096 * npte v" for Q using U(3) [OF _ that] z [of Q] by simp
    moreover have "dent_valid pgd ?m i = dent_valid pgd (mem s) i" if "i < 4096" for i
      using U(2) [OF _ that] by (simp add: dent_valid_def)
    ultimately show ?thesis using U(1) False by simp
  qed
qed

section \<open>Clearing everything\<close>

lemma clear_step_eq:
  assumes "i < 4096"
  shows "clear_step v pgd i s = (if dent_valid pgd (mem s) i then without_table v pgd i s else s)"
proof -
  have "push_bit (IOMMU_PD_SHIFT v) (of_nat i) = page (i * npte v)"
    by (cases v) (simp_all add: page_def push_bit_eq_mult npte_def)
  moreover have "i * npte v < 4096 * npte v" using assms by simp
  ultimately have "iopte_offset v (mem s (cell pgd i)) (push_bit (IOMMU_PD_SHIFT v) (of_nat i))
      = dent_table v pgd (mem s) i"
    using walk_page(2) [of "i * npte v" v "mem s" pgd] by simp
  then show ?thesis
    by (simp add: clear_step_def dent_valid_def without_table_def unat_NUM_PTE Let_def
        flip: cell_def)
qed

lemma clear_prefix:
  assumes wf: "pt_wf v pgd s" and k: "k \<le> 4096"
  shows "pt_wf v pgd (fold (clear_step v pgd) [0..<k] s) \<and>
    (\<forall>j < 4096. dent_valid pgd (mem (fold (clear_step v pgd) [0..<k] s)) j \<longleftrightarrow>
       k \<le> j \<and> dent_valid pgd (mem s) j)"
  using k
proof (induction k)
  case 0 then show ?case using wf by simp
next
  case (Suc k)
  let ?s = "fold (clear_step v pgd) [0..<k] s"
  have IH: "pt_wf v pgd ?s" "\<forall>j < 4096. dent_valid pgd (mem ?s) j \<longleftrightarrow> k \<le> j \<and> dent_valid pgd (mem s) j"
    using Suc by auto
  have k: "k < 4096" using Suc.prems by simp
  show ?case
  proof (cases "dent_valid pgd (mem ?s) k")
    case True
    with IH(2) without_table_wf [OF IH(1) k True] without_table_valid(1) [OF IH(1) k True] show ?thesis
      by (auto simp: clear_step_eq [OF k] Suc_le_eq)
  next
    case False
    with IH k have "\<not> dent_valid pgd (mem s) k" by auto
    with False IH show ?thesis by (auto simp: clear_step_eq [OF k] Suc_le_eq le_less)
  qed
qed

lemma clear_spec:
  assumes "pt_wf v pgd s"
  shows "pt_wf v pgd (sunxi_pgtable_clear v pgd s)"
    "iopte_live (sunxi_pgtable_clear v pgd s) = []"
    "pt_lookup v pgd (mem (sunxi_pgtable_clear v pgd s)) P = None"
proof -
  let ?s = "sunxi_pgtable_clear v pgd s"
  have C: "pt_wf v pgd ?s" "\<And>j. j < 4096 \<Longrightarrow> \<not> dent_valid pgd (mem ?s) j"
    using clear_prefix [OF assms order_refl] by (auto simp: sunxi_pgtable_clear_def NUM_PDE)
  show "pt_wf v pgd ?s" by (rule C)
  show "iopte_live ?s = []" using pt_wf_reach [OF C(1)] C(2) by (cases "iopte_live ?s") auto
  show "pt_lookup v pgd (mem ?s) P = None" using C(2) by (simp add: pt_lookup_def)
qed

end
