(* ===== verification/Pgtable_Interface.thy ===== *)
theory Pgtable_Interface
  imports Pgtable_Delete
begin

text \<open>
  What the IOMMU drivers rely on of the page-table controller, as a locale: a view of the table as
  a partial map from page numbers to entries, and the laws of preparing a range, filling it and
  deleting the first part of it.  The drivers' map and unmap sequences are described once, inside
  the locale; the controller's own functions are the interpretation.
\<close>

locale page_table =
  fixes inv :: "'s \<Rightarrow> bool"
    and lookup :: "'s \<Rightarrow> nat \<Rightarrow> 'e option"
    and pages :: nat
    and backed :: "'s \<Rightarrow> nat \<Rightarrow> bool"
    and fits :: "nat \<Rightarrow> nat \<Rightarrow> bool"
    and prepare :: "nat \<Rightarrow> nat \<Rightarrow> 's \<Rightarrow> (int \<times> 's) option"
    and usable :: "'x \<Rightarrow> nat \<Rightarrow> bool"
    and entry :: "'x \<Rightarrow> nat \<Rightarrow> 'e"
    and fill :: "nat \<Rightarrow> nat \<Rightarrow> 'x \<Rightarrow> 's \<Rightarrow> 's option"
    and delete :: "nat \<Rightarrow> nat \<Rightarrow> 's \<Rightarrow> int \<times> 's"
  assumes prepare_law: "inv s \<Longrightarrow> P < E \<Longrightarrow> E \<le> pages \<Longrightarrow> fits P E \<Longrightarrow>
      \<exists>r s'. prepare P E s = Some (r, s') \<and> inv s' \<and> lookup s' = lookup s \<and>
        (r = 0 \<and> (\<forall>Q. P \<le> Q \<and> Q < E \<longrightarrow> backed s' Q) \<or> r = - ENOMEM)"
    and fill_law: "inv s \<Longrightarrow> P < E \<Longrightarrow> E \<le> pages \<Longrightarrow> usable x (E - P) \<Longrightarrow>
      (\<And>Q. P \<le> Q \<Longrightarrow> Q < E \<Longrightarrow> backed s Q) \<Longrightarrow>
      \<exists>s'. fill P E x s = Some s' \<and> inv s' \<and>
        (\<forall>Q < pages. lookup s' Q = (if P \<le> Q \<and> Q < E then Some (entry x (Q - P)) else lookup s Q))"
    and delete_law: "inv s \<Longrightarrow> P < E \<Longrightarrow> E \<le> pages \<Longrightarrow> backed s P \<Longrightarrow>
      \<exists>n s'. delete P E s = (int (4096 * n), s') \<and> 0 < n \<and> P + n \<le> E \<and> 4096 * n < 2 ^ 32 \<and> inv s' \<and>
        (\<forall>Q < pages. lookup s' Q = (if P \<le> Q \<and> Q < P + n then None else lookup s Q)) \<and>
        (\<forall>Q. P + n \<le> Q \<and> Q < E \<longrightarrow> backed s Q \<longrightarrow> backed s' Q)"
    and delete_hole: "P < E \<Longrightarrow> E \<le> pages \<Longrightarrow> \<not> backed s P \<Longrightarrow> delete P E s = (- EINVAL, s)"
    and lookup_backed: "Q < pages \<Longrightarrow> lookup s Q \<noteq> None \<Longrightarrow> backed s Q"
begin

lemma map_range:
  assumes "inv s" "P < E" "E \<le> pages" "fits P E" "usable x (E - P)"
  obtains (mapped) s1 s2 where "prepare P E s = Some (0, s1)" "fill P E x s1 = Some s2" "inv s2"
      "\<And>Q. Q < pages \<Longrightarrow> lookup s2 Q = (if P \<le> Q \<and> Q < E then Some (entry x (Q - P)) else lookup s Q)"
    | (nomem) s1 where "prepare P E s = Some (- ENOMEM, s1)" "inv s1" "lookup s1 = lookup s"
proof -
  obtain r s1 where p: "prepare P E s = Some (r, s1)" "inv s1" "lookup s1 = lookup s"
    "r = 0 \<and> (\<forall>Q. P \<le> Q \<and> Q < E \<longrightarrow> backed s1 Q) \<or> r = - ENOMEM"
    using prepare_law [OF assms(1-4)] by blast
  from p(4) show thesis
  proof
    assume r: "r = 0 \<and> (\<forall>Q. P \<le> Q \<and> Q < E \<longrightarrow> backed s1 Q)"
    then show thesis using fill_law [OF p(2) assms(2,3,5)] p(1,3) mapped by metis
  next
    assume "r = - ENOMEM"
    with p(1-3) show thesis by (intro nomem [of s1]) simp_all
  qed
qed

lemma unmap_any:
  fixes loop :: "nat \<Rightarrow> 's \<Rightarrow> 't \<Rightarrow> ('s \<times> 't) option" and rel :: "'t \<Rightarrow> 't \<Rightarrow> bool"
  assumes refl: "\<And>t. rel t t" and trans: "\<And>t u w. rel t u \<Longrightarrow> rel u w \<Longrightarrow> rel t w"
    and fin: "\<And>s t. loop E s t = Some (s, t)"
    and step: "\<And>Q n s s' t. Q < E \<Longrightarrow> delete Q E s = (int (4096 * n), s') \<Longrightarrow> 4096 * n < 2 ^ 32 \<Longrightarrow>
      Q + n \<le> E \<Longrightarrow> \<exists>t'. rel t t' \<and> loop Q s t = loop (Q + n) s' t'"
    and hole: "\<And>Q s t. P0 \<le> Q \<Longrightarrow> Q < E \<Longrightarrow> \<not> backed s Q \<Longrightarrow> \<exists>t'. rel t t' \<and> loop Q s t = Some (s, t')"
    and "inv s" "P0 \<le> P" "P \<le> E" "E \<le> pages"
  shows "\<exists>s' t' R. loop P s t = Some (s', t') \<and> rel t t' \<and> inv s' \<and> P \<le> R \<and> R \<le> E \<and>
    (\<forall>Q < pages. lookup s' Q = (if P \<le> Q \<and> Q < R then None else lookup s Q)) \<and>
    (R < E \<longrightarrow> \<not> backed s' R)"
  using assms(6-)
proof (induction "E - P" arbitrary: P s t rule: less_induct)
  case less
  consider "P = E" | "P < E" "\<not> backed s P" | "P < E" "backed s P" using less.prems by linarith
  then show ?case
  proof cases
    case 1 with less.prems fin refl show ?thesis by auto
  next
    case 2 with less.prems hole show ?thesis by (metis leD order_refl)
  next
    case 3
    obtain n s1 where d: "delete P E s = (int (4096 * n), s1)" "0 < n" "P + n \<le> E" "4096 * n < 2 ^ 32"
      "inv s1" "\<forall>Q < pages. lookup s1 Q = (if P \<le> Q \<and> Q < P + n then None else lookup s Q)"
      using delete_law [OF less.prems(1) 3(1) less.prems(4) 3(2)] by blast
    obtain t1 where t1: "rel t t1" "loop P s t = loop (P + n) s1 t1" using step [OF 3(1) d(1,4,3)] by blast
    have "E - (P + n) < E - P" "P0 \<le> P + n" using d(2) 3 less.prems(2) by simp_all
    from less.hyps [OF this(1) d(5) this(2) d(3) less.prems(4), of t1] obtain s' t' R where
      IH: "loop (P + n) s1 t1 = Some (s', t')" "inv s'" "P + n \<le> R" "R \<le> E" "R < E \<longrightarrow> \<not> backed s' R"
      "\<forall>Q < pages. lookup s' Q = (if P + n \<le> Q \<and> Q < R then None else lookup s1 Q)" "rel t1 t'" by blast
    with d(3,6) have "lookup s' Q = (if P \<le> Q \<and> Q < R then None else lookup s Q)" if "Q < pages" for Q
      using that by auto
    moreover have "P \<le> R" "rel t t'" using IH(3) trans [OF t1(1) IH(7)] by simp_all
    ultimately show ?thesis using IH(1,2,4,5) t1(2) by auto
  qed
qed

lemma unmap_rest:
  assumes "\<forall>Q < pages. lookup s' Q = (if P \<le> Q \<and> Q < R then None else lookup s Q)"
    and "R < E \<longrightarrow> \<not> backed s' R" "P \<le> R" "R \<le> E" "E \<le> pages"
    and "\<And>Q. P \<le> Q \<Longrightarrow> Q < E \<Longrightarrow> lookup s Q \<noteq> None"
  shows "R = E"
proof (rule ccontr)
  assume "R \<noteq> E"
  with assms(4) have R: "R < E" by simp
  then have "lookup s' R = lookup s R" using assms(1,5) by auto
  then have "backed s' R" using lookup_backed [of R s'] assms(3,5,6) R by auto
  with assms(2) R show False by blast
qed

end

section \<open>The controller implements the interface\<close>

definition covered :: "pgver \<Rightarrow> nat \<Rightarrow> nat \<Rightarrow> bool" where
  "covered v P E \<longleftrightarrow> P + ((E - 1) div npte v - P div npte v) * npte v \<le> E"

definition no_carry :: "pgver \<Rightarrow> u64 \<Rightarrow> nat \<Rightarrow> bool" where
  "no_carry v x n \<longleftrightarrow> aligned 12 x \<and> (v = AW_IOMMU_PGTABLE_V1 \<or> unat x mod 2 ^ 32 + 4096 * n \<le> 2 ^ 32)"

lemma prepare_pages:
  assumes wf: "pt_wf v pgd s" "slab_ok v pgd zalloc" and PE: "P < E" "E \<le> 4096 * npte v" and cov: "covered v P E"
  shows "\<exists>r s'. sunxi_pgtable_prepare_l1_tables v zalloc pgd (page P) (page E) prot s = Some (r, s')
    \<and> pt_wf v pgd s' \<and> pt_lookup v pgd (mem s') = pt_lookup v pgd (mem s)
    \<and> (r = 0 \<and> (\<forall>Q. P \<le> Q \<and> Q < E \<longrightarrow> dent_valid pgd (mem s') (Q div npte v)) \<or> r = - ENOMEM)"
proof -
  have u: "unat (page P) = 4096 * P" "unat (page E) = 4096 * E"
    using PE by (auto intro!: unat_page [where v = v])
  have "4096 * E + 4096 * npte v < 2 ^ 64" using PE(2) npages_le [of v] by simp
  then have "unat (page E) + 2 ^ IOMMU_PD_SHIFT v < 2 ^ 64" by (simp add: u PD_npte)
  from prepare_l1_spec [OF wf this, where iova_start = "page P" and prot = prot] obtain r s' where
    r: "sunxi_pgtable_prepare_l1_tables v zalloc pgd (page P) (page E) prot s = Some (r, s')"
      "pt_wf v pgd s'" "pt_lookup v pgd (mem s') = pt_lookup v pgd (mem s)"
      "r = 0 \<and> (\<forall>k. 4096 * P + k * (4096 * npte v) \<le> 4096 * E \<longrightarrow>
          dent_valid pgd (mem s') ((4096 * P div (4096 * npte v) + k) mod 4096)) \<or> r = - ENOMEM"
    unfolding u PD_npte by blast
  have "dent_valid pgd (mem s') (Q div npte v)"
    if all: "\<forall>k. 4096 * P + k * (4096 * npte v) \<le> 4096 * E \<longrightarrow>
        dent_valid pgd (mem s') ((4096 * P div (4096 * npte v) + k) mod 4096)" and Q: "P \<le> Q" "Q < E" for Q
  proof -
    define k where "k = Q div npte v - P div npte v"
    have "Q div npte v \<le> (E - 1) div npte v" "P div npte v \<le> Q div npte v"
      using Q by (auto intro: div_le_mono)
    then have "k * npte v \<le> ((E - 1) div npte v - P div npte v) * npte v"
      unfolding k_def by (intro mult_le_mono1) simp
    with cov have "P + k * npte v \<le> E" unfolding covered_def by linarith
    then have "4096 * (P + k * npte v) \<le> 4096 * E" by (rule mult_le_mono2)
    then have "4096 * P + k * (4096 * npte v) \<le> 4096 * E" by (simp add: algebra_simps)
    with all have "dent_valid pgd (mem s') ((4096 * P div (4096 * npte v) + k) mod 4096)" by blast
    moreover have "4096 * P div (4096 * npte v) + k = Q div npte v"
      using \<open>P div npte v \<le> Q div npte v\<close> by (simp add: k_def)
    moreover have "Q div npte v < 4096" using Q PE(2) by (simp add: less_mult_imp_div_less)
    ultimately show ?thesis by simp
  qed
  with r show ?thesis by blast
qed

interpretation pt: page_table
  "\<lambda>s. pt_wf v pgd s \<and> slab_ok v pgd zalloc"
  "\<lambda>s P. if P < 4096 * npte v then pt_lookup v pgd (mem s) P else None"
  "4096 * npte v"
  "\<lambda>s P. P < 4096 * npte v \<and> dent_valid pgd (mem s) (P div npte v)"
  "covered v"
  "\<lambda>P E s. sunxi_pgtable_prepare_l1_tables v zalloc pgd (page P) (page E) prot s"
  "no_carry v"
  "\<lambda>x k. sunxi_mk_pte v (x + of_nat (4096 * k)) prot"
  "\<lambda>P E x s. prepare_l2_loop v pgd (page P) (page E) x prot s"
  "\<lambda>P E s. sunxi_pgtable_delete_l2_tables v pgd (page P) (page E) s"
  for v pgd zalloc prot
proof (unfold_locales, goal_cases)
  case (1 s P E)
  with prepare_pages [of v pgd s zalloc P E prot] show ?case by fastforce
next
  case (2 s P E x)
  with prepare_l2_spec [of v pgd s P E x prot] show ?case by (fastforce simp: no_carry_def)
next
  case (3 s P E)
  let ?n = "chunk v P E"
  have n: "0 < ?n" "P + ?n \<le> E" "4096 * ?n < 2 ^ 32"
    using 3 chunk_pos [of P E v] chunk_le(2) [of v P E] chunk_small(2) [of v P E] by auto
  have div: "Q div npte v \<noteq> P div npte v" if "?n = npte v" "P + ?n \<le> Q" for Q
    using that by (metis div_le_mono div_add_self2 npte_pos Suc_n_not_le_n Suc_eq_plus1 less_numeral_extra(3))
  obtain s' where "sunxi_pgtable_delete_l2_tables v pgd (page P) (page E) s = (int (4096 * ?n), s')"
    "pt_wf v pgd s'" "\<forall>Q < 4096 * npte v. pt_lookup v pgd (mem s') Q =
         (if P \<le> Q \<and> Q < P + ?n then None else pt_lookup v pgd (mem s) Q)"
    "\<forall>i < 4096. dent_valid pgd (mem s') i \<longleftrightarrow> dent_valid pgd (mem s) i \<and> \<not> (i = P div npte v \<and> ?n = npte v)"
    using delete_l2_step [of v pgd s P E] 3 by blast
  with n 3 div show ?case by (intro exI [of _ ?n] exI [of _ s']) (auto simp: less_mult_imp_div_less)
next
  case (4 P E s)
  then show ?case by (intro delete_l2_hole) auto
next
  case (5 Q s)
  then show ?case by (auto simp: pt_lookup_in Let_def split: if_splits)
qed

end
