(* ===== verification/Iommu_Map.thy ===== *)
theory Iommu_Map
  imports Iommu_Tlb Pgtable_Interface
begin

text \<open>
  Mapping and unmapping through the driver.  \<open>core_args\<close> states what the IOMMU core guarantees of
  the arguments of \<open>map_pages\<close> and \<open>unmap_pages\<close>: the size is one of the driver's page sizes, both
  addresses are multiples of it, and the range lies in the input address space and in memory the
  device can name.
\<close>

definition pgsize_bitmap :: u64 where
  "pgsize_bitmap = 0x1000 OR 0x4000 OR 0x10000 OR 0x40000 OR 0x100000 OR 0x400000 OR 0x1000000"

definition core_range :: "pgver \<Rightarrow> u64 \<Rightarrow> u64 \<Rightarrow> bool" where
  "core_range v iova sz \<longleftrightarrow>
     (\<exists>b < 64. bit pgsize_bitmap b \<and> unat sz = 2 ^ b \<and> aligned b iova) \<and>
     unat iova + unat sz \<le> 2 ^ IOMMU_VA_BITS v"

definition core_args :: "pgver \<Rightarrow> u64 \<Rightarrow> u64 \<Rightarrow> u64 \<Rightarrow> bool" where
  "core_args v iova paddr sz \<longleftrightarrow>
     core_range v iova sz \<and> unat sz dvd unat paddr \<and>
     2 ^ 30 \<le> unat paddr \<and> unat paddr + unat sz \<le> 2 ^ IOMMU_VA_BITS v + 2 ^ 30"

section \<open>The range in pages\<close>

lemma pgsize_bits: "bit pgsize_bitmap b \<longleftrightarrow> b \<in> {12, 14, 16, 18, 20, 22, 24}"
proof -
  have eq: "pgsize_bitmap = push_bit 12 1 OR push_bit 14 1 OR push_bit 16 1 OR push_bit 18 1
      OR push_bit 20 1 OR push_bit 22 1 OR push_bit 24 1"
    by (simp add: pgsize_bitmap_def)
  have single: "bit (push_bit k 1 :: u64) b \<longleftrightarrow> b = k" if "k < 64" for k
    using that by (auto simp: bit_simps)
  have "bit (push_bit 12 1 :: u64) b \<longleftrightarrow> b = 12" "bit (push_bit 14 1 :: u64) b \<longleftrightarrow> b = 14" "bit (push_bit 16 1 :: u64) b \<longleftrightarrow> b = 16"
    "bit (push_bit 18 1 :: u64) b \<longleftrightarrow> b = 18" "bit (push_bit 20 1 :: u64) b \<longleftrightarrow> b = 20" "bit (push_bit 22 1 :: u64) b \<longleftrightarrow> b = 22" "bit (push_bit 24 1 :: u64) b \<longleftrightarrow> b = 24"
    by (rule single; simp)+
  then show ?thesis unfolding eq bit_or_iff by (simp only: insert_iff empty_iff simp_thms)
qed

lemma page_align: "aligned 12 x \<Longrightarrow> x AND IOMMU_PT_MASK = x"
  by (rule bit_word_eqI) (auto simp: PT_MASK bit_simps dest: aligned_bit)

lemma SPAGE_ALIGN_aligned: assumes "aligned 12 x" shows "SPAGE_ALIGN x = x"
proof -
  have m: "SPAGE_SIZE - 1 = mask 12"
    by (simp add: SPAGE_SIZE_def IOMMU_PT_SHIFT_def mask_eq_exp_minus_1)
  have "x + mask 12 = x OR mask 12"
    using assms by (intro disjunctive_add) (auto simp: bit_mask_iff dest: aligned_bit)
  moreover have "(x OR mask 12) AND NOT (mask 12) = x"
    by (rule bit_word_eqI) (use assms in \<open>auto simp: bit_simps dest: aligned_bit\<close>)
  ultimately show ?thesis unfolding SPAGE_ALIGN_def ALIGN_def by (simp add: add_diff_eq [symmetric] m)
qed

lemma page_unat: "aligned 12 x \<Longrightarrow> x = page (unat x div 4096)"
  by (auto simp: page_def addr_simps intro!: of_nat_unat_eq)

lemma covered_pow2:
  assumes n: "n = 2 ^ c" and P: "n dvd P"
  shows "covered v P (P + n)"
proof -
  have N: "npte v = 2 ^ (IOMMU_PD_SHIFT v - 12)" by (simp add: npte_def)
  have pos: "0 < n" by (simp add: n)
  show ?thesis
  proof (cases "c \<le> IOMMU_PD_SHIFT v - 12")
    case True
    then have "n dvd npte v" by (simp add: n N le_imp_power_dvd)
    then obtain q where q: "npte v = n * q" by blast
    obtain p where p: "P = n * p" using P by blast
    have "(P + n - 1) div n = p" using pos by (simp add: p div_nat_eqI)
    then have "(P + n - 1) div npte v = P div npte v" by (simp add: q div_mult2_eq p pos)
    then show ?thesis by (simp add: covered_def)
  next
    case False
    then have "npte v dvd n" by (simp add: n N le_imp_power_dvd)
    then have "npte v dvd P" using P by (rule dvd_trans)
    then have "P = P div npte v * npte v" by simp
    moreover have "(P + n - 1) div npte v * npte v \<le> P + n - 1" by simp
    ultimately show ?thesis using pos unfolding covered_def diff_mult_distrib by linarith
  qed
qed

lemma core_range_pages:
  assumes "core_range v iova sz"
  obtains P n where "iova = page P" "iova + sz = page (P + n)" "0 < n" "P + n \<le> 4096 * npte v"
    "covered v P (P + n)" "unat iova = 4096 * P" "unat sz = 4096 * n" "aligned 12 iova" "aligned 12 (iova + sz)"
    "4096 * n dvd 2 ^ 32"
proof -
  obtain b where b: "bit pgsize_bitmap b" "unat sz = 2 ^ b" "aligned b iova"
    and lim: "unat iova + unat sz \<le> 2 ^ IOMMU_VA_BITS v"
    using assms unfolding core_range_def by blast
  have b12: "12 \<le> b" "b \<le> 32" using b(1) by (auto simp: pgsize_bits)
  define n P where "n = (2::nat) ^ (b - 12)" and "P = unat iova div 4096"
  have "(2::nat) ^ b = 2 ^ 12 * 2 ^ (b - 12)" using power_add [of "2::nat" 12 "b - 12"] b12 by simp
  then have n: "4096 * n = 2 ^ b" by (simp add: n_def)
  obtain q where q: "unat iova = 2 ^ b * q" using b(3) by (auto simp: addr_simps)
  then have P: "P = n * q" by (simp add: P_def n [symmetric])
  have iova: "aligned 12 iova" using b(3) b12(1) by (rule aligned_mono)
  have ip: "iova = page P" unfolding P_def using iova by (rule page_unat)
  have "sz = of_nat (4096 * n)" by (rule of_nat_unat_eq) (simp add: b(2) n)
  then have ipn: "iova + sz = page (P + n)" using ip page_add by simp
  have uP: "unat iova = 4096 * P" by (simp add: q P n [symmetric])
  have "4096 * (P + n) \<le> 4096 * (4096 * npte v)" using lim by (simp add: uP b(2) n VA_npte)
  then have "P + n \<le> 4096 * npte v" by simp
  moreover have "aligned 12 (iova + sz)"
    using aligned_add_pages [OF iova, of n] \<open>sz = of_nat (4096 * n)\<close> by simp
  moreover have "covered v P (P + n)" by (rule covered_pow2 [OF n_def]) (simp add: P)
  moreover have "4096 * n dvd 2 ^ 32" unfolding n using b12(2) by (rule le_imp_power_dvd)
  ultimately show thesis using ip ipn iova uP b(2) n that by (simp add: n_def)
qed

lemma dvd_less_step:
  fixes a d N :: nat
  assumes "d dvd a" "d dvd N" "a < N"
  shows "a + d \<le> N"
proof -
  from assms obtain i j where "a = d * i" "N = d * j" by blast
  with assms(3) have "i < j" by simp
  then have "d * (i + 1) \<le> d * j" by (intro mult_le_mono2) simp
  with \<open>a = d * i\<close> \<open>N = d * j\<close> show ?thesis by simp
qed

lemma core_args_usable:
  assumes "core_args v iova paddr sz"
  defines "x \<equiv> cpu_phy_to_iommu_phy v paddr AND IOMMU_PT_MASK"
  shows "no_carry v x (unat sz div 4096)" "x = cpu_phy_to_iommu_phy v paddr" "aligned 12 paddr"
proof -
  obtain P n where n: "unat sz = 4096 * n" "4096 * n dvd 2 ^ 32" "0 < n"
    using assms(1) core_range_pages unfolding core_args_def by metis
  have sz: "unat sz dvd unat paddr" using assms(1) unfolding core_args_def by blast
  have "(2::nat) ^ 32 dvd 2 ^ IOMMU_VA_BITS v" by (rule le_imp_power_dvd) (cases v; simp)
  then have "unat sz dvd 2 ^ IOMMU_VA_BITS v" unfolding n(1) using n(2) by (rule dvd_trans [rotated])
  then have d: "4096 * n dvd unat (cpu_phy_to_iommu_phy v paddr)"
    using sz unfolding unat_cpu_phy n(1) by (auto intro: dvd_diff_nat)
  then have al: "aligned 12 (cpu_phy_to_iommu_phy v paddr)" by (auto simp: addr_simps dest: dvd_mult_left)
  then show x: "x = cpu_phy_to_iommu_phy v paddr" unfolding x_def by (rule page_align)
  show "aligned 12 paddr" using sz unfolding n(1) by (auto simp: addr_simps dest: dvd_mult_left)
  have "4096 * n dvd unat x mod 2 ^ 32" using d n(2) x by (simp add: dvd_mod_iff)
  then have "unat x mod 2 ^ 32 + 4096 * n \<le> 2 ^ 32"
    using dvd_less_step [OF _ n(2), of "unat x mod 2 ^ 32"] by simp
  with al n(1) show "no_carry v x (unat sz div 4096)" unfolding no_carry_def x by simp
qed

section \<open>Mapping\<close>

definition mapped_entry :: "pgver \<Rightarrow> u64 \<Rightarrow> u32 \<Rightarrow> nat \<Rightarrow> u32" where
  "mapped_entry v paddr prot k = sunxi_mk_pte v (cpu_phy_to_iommu_phy v paddr + of_nat (4096 * k)) prot"

lemma map_spec:
  assumes wf: "pt_wf v (pgtable d) (pgt s)" "slab_ok v (pgtable d) zalloc"
    and d: "domains s domain = Some d" and args: "core_args v iova paddr sz"
  defines "P \<equiv> unat iova div 4096" and "n \<equiv> unat sz div 4096"
  obtains (mapped) g where "sunxi_iommu_map v zalloc domain iova paddr sz prot s =
        Some (0, Some sz, s\<lparr>pgt := g, io := io s @ [Lock dt_lock, Unlock dt_lock]\<rparr>)"
      "pt_wf v (pgtable d) g"
      "\<And>Q. Q < 4096 * npte v \<Longrightarrow> pt_lookup v (pgtable d) (mem g) Q =
        (if P \<le> Q \<and> Q < P + n then Some (mapped_entry v paddr prot (Q - P))
         else pt_lookup v (pgtable d) (mem (pgt s)) Q)"
    | (nomem) g where "sunxi_iommu_map v zalloc domain iova paddr sz prot s =
        Some (- ENOMEM, None, s\<lparr>pgt := g, io := io s @ [Lock dt_lock, Unlock dt_lock]\<rparr>)"
      "pt_wf v (pgtable d) g"
      "\<And>Q. Q < 4096 * npte v \<Longrightarrow>
        pt_lookup v (pgtable d) (mem g) Q = pt_lookup v (pgtable d) (mem (pgt s)) Q"
proof -
  obtain R k where R: "iova = page R" "iova + sz = page (R + k)" "0 < k" "R + k \<le> 4096 * npte v"
    "covered v R (R + k)" "unat iova = 4096 * R" "unat sz = 4096 * k" "aligned 12 iova" "aligned 12 (iova + sz)"
    using args core_range_pages unfolding core_args_def by metis
  have PR: "P = R" "n = k" using R by (simp_all add: P_def n_def)
  let ?x = "cpu_phy_to_iommu_phy v paddr"
  have x: "no_carry v ?x (R + k - R)" "?x AND IOMMU_PT_MASK = ?x"
    using core_args_usable [OF args] R(7) by simp_all
  have lt: "R < R + k" using R(3) by simp
  note ali = page_align [OF R(8)] SPAGE_ALIGN_aligned [OF R(9)]
  show thesis
  proof (rule pt.map_range [OF conjI [OF wf] lt R(4,5) x(1), where prot = prot])
    fix s1 s2
    assume m: "sunxi_pgtable_prepare_l1_tables v zalloc (pgtable d) (page R) (page (R + k)) prot (pgt s) = Some (0, s1)"
      "prepare_l2_loop v (pgtable d) (page R) (page (R + k)) ?x prot s1 = Some s2"
      "pt_wf v (pgtable d) s2 \<and> slab_ok v (pgtable d) zalloc"
      "\<And>Q. Q < 4096 * npte v \<Longrightarrow> (if Q < 4096 * npte v then pt_lookup v (pgtable d) (mem s2) Q else None) =
        (if R \<le> Q \<and> Q < R + k then Some (sunxi_mk_pte v (?x + of_nat (4096 * (Q - R))) prot)
         else if Q < 4096 * npte v then pt_lookup v (pgtable d) (mem (pgt s)) Q else None)"
    show thesis
    proof (rule mapped)
      show "sunxi_iommu_map v zalloc domain iova paddr sz prot s =
          Some (0, Some sz, s\<lparr>pgt := s2, io := io s @ [Lock dt_lock, Unlock dt_lock]\<rparr>)"
        using d m(1,2) R(1,2) x(2) ali by (simp add: sunxi_iommu_map_def sunxi_pgtable_prepare_l2_tables_def)
    qed (use m(3,4) PR in \<open>auto simp: mapped_entry_def\<close>)
  next
    fix s1
    assume m: "sunxi_pgtable_prepare_l1_tables v zalloc (pgtable d) (page R) (page (R + k)) prot (pgt s)
        = Some (- ENOMEM, s1)" "pt_wf v (pgtable d) s1 \<and> slab_ok v (pgtable d) zalloc"
      "(\<lambda>P. if P < 4096 * npte v then pt_lookup v (pgtable d) (mem s1) P else None) =
       (\<lambda>P. if P < 4096 * npte v then pt_lookup v (pgtable d) (mem (pgt s)) P else None)"
    show thesis
    proof (rule nomem)
      show "sunxi_iommu_map v zalloc domain iova paddr sz prot s =
          Some (- ENOMEM, None, s\<lparr>pgt := s1, io := io s @ [Lock dt_lock, Unlock dt_lock]\<rparr>)"
        using d m(1) R(1,2) ali by (simp add: sunxi_iommu_map_def errno_simps)
    qed (use m(2,3) in \<open>auto simp: fun_eq_iff split: if_splits\<close>)
  qed
qed

section \<open>Unmapping\<close>

definition extends :: "trace \<Rightarrow> trace \<Rightarrow> bool" where
  "extends t t' \<longleftrightarrow> (\<exists>w. t' = t @ w \<and> (\<forall>H. iommu_lock \<notin> H \<longrightarrow> lock_run H w = Some H \<and> guarded H w))"

lemma extends_refl: "extends t t"
  by (simp add: extends_def)

lemma extends_trans:
  assumes "extends t u" "extends u w" shows "extends t w"
proof -
  obtain x y where "u = t @ x" "w = t @ (x @ y)"
    "\<forall>H. iommu_lock \<notin> H \<longrightarrow> lock_run H x = Some H \<and> guarded H x"
    "\<forall>H. iommu_lock \<notin> H \<longrightarrow> lock_run H y = Some H \<and> guarded H y"
    using assms unfolding extends_def by auto
  then show ?thesis unfolding extends_def by (auto simp: lock_run_append guarded_append)
qed

lemma critical_extends: assumes "critical iommu_lock w t t'" shows "extends t t'"
proof -
  have w: "t' = t @ ([Lock iommu_lock] @ w @ [Unlock iommu_lock])" "\<forall>e \<in> set w. quiet e"
    using assms by (auto simp: critical_def)
  have "lock_run H ([Lock iommu_lock] @ w @ [Unlock iommu_lock]) = Some H \<and>
      guarded H ([Lock iommu_lock] @ w @ [Unlock iommu_lock])" if "iommu_lock \<notin> H" for H
    using that lock_run_quiet [OF w(2), of "insert iommu_lock H"] guarded_held [OF _ w(2), of "insert iommu_lock H"]
    by (auto simp: lock_run_append guarded_append)
  with w(1) show ?thesis unfolding extends_def by blast
qed

lemma tlb_invalid_extends: "hw_ok hw \<Longrightarrow> \<exists>r t'. sunxi_tlb_invalid hw p a b t = Some (r, t') \<and> extends t t'"
  using tlb_invalid_critical critical_extends by metis

lemma ptw_invalid_extends: "hw_ok hw \<Longrightarrow> \<exists>r t'. sunxi_ptw_cache_invalid hw p a b t = Some (r, t') \<and> extends t t'"
  using ptw_invalid_critical critical_extends by metis

lemma calls_extends:
  assumes "\<And>f t. f \<in> set fs \<Longrightarrow> \<exists>r t'. f t = Some (r, t') \<and> extends t t'"
  shows "\<exists>t'. calls fs t = Some t' \<and> extends t t'"
  using assms
proof (induction fs arbitrary: t)
  case (Cons f fs)
  then obtain r t1 where "f t = Some (r, t1)" "extends t t1" by fastforce
  moreover obtain t' where "calls fs t1 = Some t'" "extends t1 t'" using Cons by fastforce
  ultimately show ?case using extends_trans by auto
qed (simp add: extends_refl)

text \<open>
  The three drivers share the unmap sequence and differ in how they invalidate the TLB and the
  page-walk cache.  What the sequence relies on of the two invalidations is that they return and
  leave the locks as they were; the loop and the sequence are given by their equations.
\<close>

definition gathered :: "u64 \<Rightarrow> u64 \<Rightarrow> iotlb_gather \<Rightarrow> iotlb_gather" where
  "gathered a b g = g\<lparr>gather_start := min (gather_start g) a, gather_end := max (gather_end g) b\<rparr>"

locale unmap_driver =
  fixes hw :: hw
    and tlb_inv :: "plat_data \<Rightarrow> u64 \<Rightarrow> u64 \<Rightarrow> trace \<Rightarrow> (int \<times> trace) option"
    and ptw_inv :: "plat_data \<Rightarrow> u64 \<Rightarrow> u64 \<Rightarrow> trace \<Rightarrow> (int \<times> trace) option"
    and loop :: "pgver \<Rightarrow> plat_data \<Rightarrow> u64 \<Rightarrow> u64 \<Rightarrow> u64 \<Rightarrow> pgtable_state \<Rightarrow> trace \<Rightarrow> (pgtable_state \<times> trace) option"
    and unmap :: "pgver \<Rightarrow> u64 \<Rightarrow> u64 \<Rightarrow> u64 \<Rightarrow> iotlb_gather \<Rightarrow> v1_state \<Rightarrow> (u64 \<times> iotlb_gather \<times> v1_state) option"
  assumes tlb_extends: "hw_ok hw \<Longrightarrow> \<exists>r t'. tlb_inv p a b t = Some (r, t') \<and> extends t t'"
    and ptw_extends: "hw_ok hw \<Longrightarrow> \<exists>r t'. ptw_inv p a b t = Some (r, t') \<and> extends t t'"
    and loop_eq: "loop v p pgd iova_start iova_end g t =
      (if iova_start < iova_end then
         let (ret, g) = sunxi_pgtable_delete_l2_tables v pgd iova_start iova_end g;
             iova_tail_size = (of_int ret :: u32)
         in if version p < IOMMU_VERSION_V14 then do {
              (r, t) \<leftarrow> ptw_inv p iova_start 0 t;
              loop v p pgd (iova_start + ucast iova_tail_size) iova_end g t
            }
            else loop v p pgd (iova_start + ucast iova_tail_size) iova_end g t
       else Some (g, t))"
    and unmap_eq: "unmap v domain iova sz gather s = do {
         sunxi_domain \<leftarrow> domains s domain;
         let iova_start = iova AND IOMMU_PT_MASK;
         let iova_end = SPAGE_ALIGN (iova + sz);
         let gather = (if gather_start gather > iova_start then gather\<lparr>gather_start := iova_start\<rparr> else gather);
         let gather = (if gather_end gather < iova_end then gather\<lparr>gather_end := iova_end\<rparr> else gather);
         let t = io s @ [Lock dt_lock];
         t \<leftarrow> calls (if version (plat s) \<ge> IOMMU_VERSION_V12
                     then [tlb_inv (plat s) iova_start iova_end] else []) t;
         t \<leftarrow> calls (if version (plat s) \<ge> IOMMU_VERSION_V14
                     then [ptw_inv (plat s) iova_start iova_end] else []) t;
         (g, t) \<leftarrow> loop v (plat s) (pgtable sunxi_domain) iova_start iova_end (pgt s) t;
         Some (sz, gather, s\<lparr>pgt := g, io := t @ [Unlock dt_lock]\<rparr>)
       }"
begin

lemma calls_opt_extends:
  assumes "hw_ok hw"
  shows "\<exists>t1. calls (if b then [tlb_inv p a e] else []) t = Some t1 \<and> extends t t1"
    and "\<exists>t1. calls (if b then [ptw_inv p a e] else []) t = Some t1 \<and> extends t t1"
  using tlb_extends [OF assms, of p a e t] ptw_extends [OF assms, of p a e t]
  by (auto simp: extends_refl)

lemma loop_done: "loop v p pgd a a g t = Some (g, t)"
  by (subst loop_eq) simp

lemma loop_step:
  assumes hw: "hw_ok hw" and Q: "Q < E" "E \<le> 4096 * npte v"
    and del: "sunxi_pgtable_delete_l2_tables v pgd (page Q) (page E) g = (int (4096 * n), g')" "4096 * n < 2 ^ 32"
  shows "\<exists>t'. extends t t' \<and>
    loop v p pgd (page Q) (page E) g t = loop v p pgd (page (Q + n)) (page E) g' t'"
proof -
  have lt: "page Q < page E" using Q by (simp add: word_less_nat_alt unat_page [where v = v])
  have "(ucast (of_int (int (4096 * n)) :: u32) :: u64) = of_nat (4096 * n)"
    using ucast_of_nat_eq [of "4096 * n", where ?'a = 32 and ?'b = 64] del(2) by simp
  then have nx: "page Q + ucast (of_int (int (4096 * n)) :: u32) = page (Q + n)" by (simp only: page_add)
  obtain r t' where "ptw_inv p (page Q) 0 t = Some (r, t')" "extends t t'"
    using ptw_extends [OF hw] by blast
  then show ?thesis
    by (subst loop_eq) (use lt del(1) nx extends_refl in
      \<open>auto simp: Let_def simp del: of_int_of_nat_eq of_int_mult of_nat_mult\<close>)
qed

lemma loop_hole:
  assumes hw: "hw_ok hw" and Q: "Q < E" "E \<le> 4096 * npte v" "E \<le> Q + 2 ^ 12"
    and hole: "\<not> dent_valid pgd (mem g) (Q div npte v)"
  shows "\<exists>t'. extends t t' \<and> loop v p pgd (page Q) (page E) g t = Some (g, t')"
proof -
  have u: "unat (page Q) = 4096 * Q" "unat (page E) = 4096 * E"
    using Q by (auto intro!: unat_page [where v = v])
  have lt: "page Q < page E" using Q by (simp add: word_less_nat_alt u)
  let ?z = "ucast (of_int (- EINVAL) :: u32) :: u64"
  have z: "unat ?z = 4294967274" by (simp add: errno_simps)
  have "unat (page Q + ?z) = 4096 * Q + 4294967274"
    unfolding unat_add64 u z using npages_le [of v] Q by simp
  then have ge: "\<not> page Q + ?z < page E" using Q(3) by (simp add: word_less_nat_alt u)
  obtain r t' where r: "ptw_inv p (page Q) 0 t = Some (r, t')" "extends t t'"
    using ptw_extends [OF hw] by blast
  have stop: "loop v p pgd (page Q + ?z) (page E) g t1 = Some (g, t1)" for t1
    using ge by (subst loop_eq) simp
  show ?thesis
    by (subst loop_eq)
      (use lt r stop extends_refl in \<open>auto simp: delete_l2_hole [OF Q(1,2) hole] Let_def simp del: of_int_minus\<close>)
qed

text \<open>
  The driver's unmap on any range of the core: it clears the pages from the start up to the first
  directory entry that is empty, if there is one, and reports the whole size.
\<close>

lemma unmap_spec:
  assumes hw: "hw_ok hw" and wf: "pt_wf v (pgtable d) (pgt s)"
    and d: "domains s domain = Some d" and args: "core_range v iova sz"
  defines "P \<equiv> unat iova div 4096" and "n \<equiv> unat sz div 4096"
  obtains g t R where "unmap v domain iova sz gather s =
        Some (sz, gathered iova (iova + sz) gather, s\<lparr>pgt := g, io := t @ [Unlock dt_lock]\<rparr>)"
      "extends (io s @ [Lock dt_lock]) t" "pt_wf v (pgtable d) g" "P \<le> R" "R \<le> P + n" "P + n \<le> 4096 * npte v"
      "\<forall>Q < 4096 * npte v. pt_lookup v (pgtable d) (mem g) Q =
        (if P \<le> Q \<and> Q < R then None else pt_lookup v (pgtable d) (mem (pgt s)) Q)"
      "R < P + n \<longrightarrow> \<not> dent_valid (pgtable d) (mem g) (R div npte v)"
proof -
  obtain b where b: "bit pgsize_bitmap b" "unat sz = 2 ^ b" using args unfolding core_range_def by blast
  obtain P' k where R: "iova = page P'" "iova + sz = page (P' + k)" "P' + k \<le> 4096 * npte v"
    "unat iova = 4096 * P'" "unat sz = 4096 * k" "aligned 12 iova" "aligned 12 (iova + sz)"
    using core_range_pages [OF args] by metis
  have PR: "P' = P" "k = n" using R by (simp_all add: P_def n_def)
  have "(2::nat) ^ b \<le> 2 ^ 24" using b(1) by (intro power_increasing) (auto simp: pgsize_bits)
  then have k: "P + n \<le> P + 2 ^ 12" using b(2) R(5) PR by simp
  note ali = page_align [OF R(6)] SPAGE_ALIGN_aligned [OF R(7)]
  let ?loop = "\<lambda>Q. loop v (plat s) (pgtable d) (page Q) (page (P + n))"
  have slab: "slab_ok v (pgtable d) (\<lambda>_. None)" by (simp add: slab_ok_def)
  note le = R(3) [unfolded PR]
  have L: "\<exists>g t' R. ?loop P (pgt s) t = Some (g, t') \<and> extends t t' \<and>
      (pt_wf v (pgtable d) g \<and> slab_ok v (pgtable d) (\<lambda>_. None)) \<and> P \<le> R \<and> R \<le> P + n \<and>
      (\<forall>Q < 4096 * npte v. (if Q < 4096 * npte v then pt_lookup v (pgtable d) (mem g) Q else None) =
        (if P \<le> Q \<and> Q < R then None
         else if Q < 4096 * npte v then pt_lookup v (pgtable d) (mem (pgt s)) Q else None)) \<and>
      (R < P + n \<longrightarrow> \<not> (R < 4096 * npte v \<and> dent_valid (pgtable d) (mem g) (R div npte v)))" for t
    using le k
    by (intro pt.unmap_any [where loop = ?loop and rel = extends and ?P0.0 = P] extends_refl loop_done conjI wf slab)
      (auto elim: extends_trans intro!: loop_step [OF hw] loop_hole [OF hw])
  let ?t0 = "io s @ [Lock dt_lock]"
  obtain t1 where t1: "calls (if version (plat s) \<ge> IOMMU_VERSION_V12
        then [tlb_inv (plat s) iova (iova + sz)] else []) ?t0 = Some t1" "extends ?t0 t1"
    using calls_opt_extends(1) [OF hw] by blast
  obtain t2 where t2: "calls (if version (plat s) \<ge> IOMMU_VERSION_V14
        then [ptw_inv (plat s) iova (iova + sz)] else []) t1 = Some t2" "extends t1 t2"
    using calls_opt_extends(2) [OF hw] by blast
  from L [of t2] obtain g t3 R' where l: "?loop P (pgt s) t2 = Some (g, t3)" "extends t2 t3"
    "pt_wf v (pgtable d) g" "P \<le> R'" "R' \<le> P + n"
    "\<forall>Q < 4096 * npte v. (if Q < 4096 * npte v then pt_lookup v (pgtable d) (mem g) Q else None) =
        (if P \<le> Q \<and> Q < R' then None
         else if Q < 4096 * npte v then pt_lookup v (pgtable d) (mem (pgt s)) Q else None)"
    "R' < P + n \<longrightarrow> \<not> (R' < 4096 * npte v \<and> dent_valid (pgtable d) (mem g) (R' div npte v))"
    by blast
  have ip: "iova = page P" "iova + sz = page (P + n)" using R(1,2) PR by simp_all
  have g: "loop v (plat s) (pgtable d) iova (iova + sz) (pgt s) t2 = Some (g, t3)"
    unfolding ip(2) unfolding ip(1) by (rule l(1))
  have look: "\<forall>Q < 4096 * npte v. pt_lookup v (pgtable d) (mem g) Q =
        (if P \<le> Q \<and> Q < R' then None else pt_lookup v (pgtable d) (mem (pgt s)) Q)"
    using l(6) by simp
  have stop: "R' < P + n \<longrightarrow> \<not> dent_valid (pgtable d) (mem g) (R' div npte v)" using l(7) le by simp
  have "unmap v domain iova sz gather s =
        Some (sz, gathered iova (iova + sz) gather, s\<lparr>pgt := g, io := t3 @ [Unlock dt_lock]\<rparr>)"
    unfolding unmap_eq ali Let_def using d t1(1) t2(1) g
    by (auto simp: gathered_def min_def max_def)
  moreover have "extends ?t0 t3" using t1(2) t2(2) l(2) extends_trans by blast
  ultimately show thesis by (rule that [OF _ _ l(3-5) le look stop])
qed

lemma unmap_hole:
  assumes hw: "hw_ok hw" and d: "domains s domain = Some d" and args: "core_range v iova sz"
    and hole: "\<not> dent_valid (pgtable d) (mem (pgt s)) (unat iova div 2 ^ IOMMU_PD_SHIFT v)"
  shows "\<exists>gather' t. unmap v domain iova sz gather s = Some (sz, gather', s\<lparr>io := t\<rparr>)"
proof -
  obtain b where b: "bit pgsize_bitmap b" "unat sz = 2 ^ b" using args unfolding core_range_def by blast
  obtain R k where R: "iova = page R" "iova + sz = page (R + k)" "0 < k" "R + k \<le> 4096 * npte v"
    "unat iova = 4096 * R" "unat sz = 4096 * k" "aligned 12 iova" "aligned 12 (iova + sz)"
    using core_range_pages [OF args] by metis
  have "(2::nat) ^ b \<le> 2 ^ 24" using b(1) by (intro power_increasing) (auto simp: pgsize_bits)
  then have k: "k \<le> 2 ^ 12" using b(2) R(6) by simp
  have hole': "\<not> dent_valid (pgtable d) (mem (pgt s)) (R div npte v)" using hole by (simp add: R(5) PD_npte)
  note ali = page_align [OF R(7)] SPAGE_ALIGN_aligned [OF R(8)]
  have "R < R + k" "R + k \<le> R + 2 ^ 12" using k R(3) by simp_all
  from loop_hole [OF hw this(1) R(4) this(2) hole']
  have loop: "\<exists>t'. loop v (plat s) (pgtable d) iova (iova + sz) (pgt s) t = Some (pgt s, t')" for t
    unfolding R(2) unfolding R(1) by blast
  obtain t1 t2 t3 where "calls (if version (plat s) \<ge> IOMMU_VERSION_V12
        then [tlb_inv (plat s) iova (iova + sz)] else []) (io s @ [Lock dt_lock]) = Some t1"
      "calls (if version (plat s) \<ge> IOMMU_VERSION_V14
        then [ptw_inv (plat s) iova (iova + sz)] else []) t1 = Some t2"
      "loop v (plat s) (pgtable d) iova (iova + sz) (pgt s) t2 = Some (pgt s, t3)"
    using calls_opt_extends [OF hw] loop by metis
  then show ?thesis unfolding unmap_eq ali Let_def using d by simp blast
qed

end

interpretation drv1: unmap_driver hw "sunxi_tlb_invalid hw" "sunxi_ptw_cache_invalid hw"
  "\<lambda>v. unmap_loop v hw" "\<lambda>v. sunxi_iommu_unmap v hw" for hw
proof (unfold_locales, goal_cases)
  case (1 p a b t) then show ?case by (rule tlb_invalid_extends)
next
  case (2 p a b t) then show ?case by (rule ptw_invalid_extends)
next
  case 3 show ?case by (subst unmap_loop.simps) simp
next
  case 4 show ?case by (simp only: sunxi_iommu_unmap_def)
qed

end
