(* ===== verification/Iommu_Example.thy ===== *)
theory Iommu_Example
  imports Iommu_Map
begin

text \<open>
  A concrete device and driver state, on which the properties of the IOMMU driver are instantiated:
  the sun50iw9 platform data, one domain with an empty page directory, a cache with one free
  object, and a device whose registers read as given with a clock that ticks at every delay.
\<close>

definition ex_hw :: "u32 \<Rightarrow> hw" where
  "ex_hw x = \<lparr>reg = (\<lambda>t offset. x), clock = (\<lambda>t. length (filter (\<lambda>e. e = Udelay) t)), msecs_to_jiffies = (\<lambda>ms. ms)\<rparr>"

definition ex_zalloc :: slab where
  "ex_zalloc live = (if 0x40100000 \<in> set live then None else Some 0x40100000)"

definition ex_plat :: "u32 \<Rightarrow> plat_data" where
  "ex_plat ver = \<lparr>version = ver, tlb_prefetch = 0, tlb_invalid_mode = 1, ptw_invalid_mode = 0,
     master = map Some [''DE'', ''DI'', ''VE_R'', ''VE'', ''CSI0'', ''CSI1'', ''G2D'', ''DEBUG_MODE'']\<rparr>"

definition ex_domain :: iommu_domain where
  "ex_domain = \<lparr>pgtable = 0x40004000, sg_buffer = 0x50000000\<rparr>"

definition ex_state :: v1_state where
  "ex_state = \<lparr>io = [], plat = ex_plat 0x12, bypass = 0x7f, iommu_hw_init_flag = True,
     domains = Map.empty(0x1000 \<mapsto> ex_domain), global_sunxi_iommu_domain = Some 0x1000,
     pgt = \<lparr>mem = (\<lambda>_. 0), iopte_live = []\<rparr>, fault_notify_cbs = replicate 7 None,
     dev_priv = Map.empty\<rparr>"

lemma ex_hw_ok: "hw_ok (ex_hw x)"
proof -
  have "clock_ok (ex_hw x) 1" by (simp add: clock_ok_def ex_hw_def)
  then show ?thesis by (auto simp: hw_ok_def ex_hw_def)
qed

lemma ex_empty_wf: "aligned 14 pgd \<Longrightarrow> pt_wf v pgd \<lparr>mem = (\<lambda>_. 0), iopte_live = []\<rparr>"
  by (simp add: pt_wf_def dent_valid_def)

lemma ex_pgd_aligned: "aligned 14 (pgtable ex_domain)"
  by (simp add: ex_domain_def addr_simps)

lemma ex_state_domain: "domains ex_state 0x1000 = Some ex_domain"
  by (simp add: ex_state_def)

lemma ex_state_wf: "pt_wf v (pgtable ex_domain) (pgt ex_state)"
  using ex_empty_wf [OF ex_pgd_aligned] by (simp add: ex_state_def)

lemma ex_slab: "slab_ok AW_IOMMU_PGTABLE_V1 (pgtable ex_domain) ex_zalloc"
  by (auto simp: slab_ok_def ex_zalloc_def table_ok_def in_window_def addr_simps ptb_def ex_domain_def
      split: if_splits)

lemma ex_args: "core_args AW_IOMMU_PGTABLE_V1 0x10000 0x80000000 0x4000"
  by (auto simp: core_args_def core_range_def pgsize_bits addr_simps intro!: exI [of _ 14])

lemma ex_prepare:
  "\<exists>g. sunxi_pgtable_prepare_l1_tables AW_IOMMU_PGTABLE_V1 ex_zalloc (pgtable ex_domain) 0x10000 0x14000 prot
     (pgt ex_state) = Some (0, g)"
  by (subst sunxi_pgtable_prepare_l1_tables.simps, subst sunxi_pgtable_prepare_l1_tables.simps)
    (simp add: ex_state_def ex_zalloc_def sunxi_alloc_iopte_def SPD_SIZE_def)

lemma ex_map_ret:
  assumes "sunxi_iommu_map AW_IOMMU_PGTABLE_V1 ex_zalloc 0x1000 0x10000 0x80000000 0x4000 prot ex_state = Some (ret, m, s')"
  shows "ret = 0"
proof -
  have "aligned 12 (0x10000 :: u64)" "aligned 12 (0x10000 + 0x4000 :: u64)" by (simp_all add: addr_simps)
  note ali = page_align [OF this(1)] SPAGE_ALIGN_aligned [OF this(2)]
  obtain g where "sunxi_pgtable_prepare_l1_tables AW_IOMMU_PGTABLE_V1 ex_zalloc (pgtable ex_domain)
      0x10000 (0x10000 + 0x4000) prot (pgt ex_state) = Some (0, g)"
    using ex_prepare [of prot] by auto
  with assms show ?thesis
    unfolding sunxi_iommu_map_def Let_def ali by (auto simp: ex_state_domain Option.bind_eq_Some_conv)
qed

end
