(* ===== verification/Iommu_Map_Props.thy ===== *)
theory Iommu_Map_Props
  imports Iommu_Example
begin

text \<open>
  The properties of mapping and unmapping: what a device address translates to after the driver's
  \<open>map_pages\<close> and \<open>unmap_pages\<close>, for the addresses of the range and for all others.
\<close>

definition xlate :: "pgver \<Rightarrow> u64 \<Rightarrow> u64 \<Rightarrow> v1_state \<Rightarrow> u64 option" where
  "xlate v domain w s = map_option fst (sunxi_iommu_iova_to_phys v domain w s)"

section \<open>Translation and the view of the table\<close>

lemma take_bit_add_cong:
  assumes "take_bit n a = take_bit n b" "n \<le> 64"
  shows "take_bit n (a + c) = take_bit n (b + c :: u64)"
proof -
  have "(2::nat) ^ n dvd 2 ^ 64" using assms(2) by (rule le_imp_power_dvd)
  then have "unat (take_bit n (x + c)) = (unat (take_bit n x) + unat c) mod 2 ^ n" for x :: u64
    by (simp add: unat_take_bit unat_word_ariths mod_mod_cancel mod_add_left_eq)
  then show ?thesis using assms(1) by (simp add: word_unat_eq_iff)
qed

lemma mapped_entry_xlate:
  assumes args: "core_args v iova paddr sz" and k: "4096 * k < unat sz" and off: "unat off < 4096"
  shows "iommu_phy_to_cpu_phy v (IOPTE_TO_PFN v (mapped_entry v paddr prot k) + off)
    = paddr + of_nat (4096 * k) + off"
  unfolding mapped_entry_def
proof (rule pte_xlate)
  have lim: "2 ^ 30 \<le> unat paddr" "unat paddr + unat sz \<le> 2 ^ IOMMU_VA_BITS v + 2 ^ 30"
    using args by (auto simp: core_args_def)
  have "(2::nat) ^ IOMMU_VA_BITS v + 2 ^ 30 < 2 ^ 64" by (cases v) simp_all
  with lim(2) k have "unat (of_nat (4096 * k) :: u64) = 4096 * k" "unat paddr + 4096 * k < 2 ^ 64"
    by (auto intro!: unat_of_nat_eq simp del: of_nat_mult)
  then have "unat (paddr + of_nat (4096 * k)) = unat paddr + 4096 * k" by (simp add: unat_word_ariths del: of_nat_mult)
  with lim k show "in_window v (unat (paddr + of_nat (4096 * k)))" by (simp add: in_window_def del: of_nat_mult)
  show "aligned 12 (paddr + of_nat (4096 * k))"
    using core_args_usable(3) [OF args] by (rule aligned_add_pages)
  show "take_bit (IOMMU_VA_BITS v) (cpu_phy_to_iommu_phy v paddr + of_nat (4096 * k)) =
      take_bit (IOMMU_VA_BITS v) (paddr + of_nat (4096 * k))"
    by (rule take_bit_add_cong [OF take_bit_cpu_phy]) (cases v; simp)
qed (rule off)

definition in_space :: "pgver \<Rightarrow> u64 \<Rightarrow> bool" where
  "in_space v w \<longleftrightarrow> unat w < 2 ^ IOMMU_VA_BITS v"

lemma in_space_page: "in_space v w \<longleftrightarrow> unat w div 4096 < 4096 * npte v"
  unfolding in_space_def VA_npte by (simp add: div_less_iff_less_mult mult.commute)

lemma page_oft: "unat (IOVA_PAGE_OFT w) = unat w mod 4096"
  by (simp add: IOVA_PAGE_OFT_def PAGE_OFFSET_MASK_def IOMMU_PT_SHIFT_def
      unat_mask_and [of w 12, unfolded mask_eq_exp_minus_1, simplified])

definition in_range :: "u64 \<Rightarrow> u64 \<Rightarrow> u64 \<Rightarrow> bool" where
  "in_range iova sz w \<longleftrightarrow> unat iova \<le> unat w \<and> unat w < unat iova + unat sz"

lemma in_range_page:
  assumes "core_range v iova sz"
  shows "in_range iova sz w \<longleftrightarrow>
    unat iova div 4096 \<le> unat w div 4096 \<and> unat w div 4096 < unat iova div 4096 + unat sz div 4096"
proof -
  obtain P n where "unat iova = 4096 * P" "unat sz = 4096 * n" using core_range_pages [OF assms] by metis
  then show ?thesis unfolding in_range_def by auto
qed

lemma xlate_lookup:
  assumes "domains s domain = Some d"
  shows "xlate v domain w s = Some (case pt_lookup v (pgtable d) (mem (pgt s)) (unat w div 4096) of
        None \<Rightarrow> 0 | Some e \<Rightarrow> iommu_phy_to_cpu_phy v (IOPTE_TO_PFN v e + IOVA_PAGE_OFT w))"
  using assms by (simp add: xlate_def sunxi_iommu_iova_to_phys_def iova_to_phys_lookup)

lemma xlate_mapped:
  assumes d: "domains s domain = Some d" and args: "core_args v iova paddr sz" and w: "in_range iova sz w"
    and look: "pt_lookup v (pgtable d) (mem (pgt s)) (unat w div 4096) =
      Some (mapped_entry v paddr prot (unat w div 4096 - unat iova div 4096))"
  shows "xlate v domain w s = Some (paddr + (w - iova))"
proof -
  obtain P n where P: "unat iova = 4096 * P" "unat sz = 4096 * n"
    using args core_range_pages unfolding core_args_def by metis
  have "P \<le> unat w div 4096"
    using w P by (simp add: in_range_def less_eq_div_iff_mult_less_eq mult.commute)
  then obtain k where wk: "unat w div 4096 = P + k" using le_Suc_ex by blast
  have "unat w = 4096 * (unat w div 4096) + unat w mod 4096" by simp
  then have w': "unat w = 4096 * P + 4096 * k + unat w mod 4096" unfolding wk by (simp add: algebra_simps)
  then have k: "4096 * k < unat sz" using w unfolding in_range_def P by linarith
  have "w = of_nat (4096 * P + 4096 * k + unat w mod 4096)" using w' by (rule of_nat_unat_eq)
  also have "\<dots> = of_nat (4096 * P) + (of_nat (4096 * k) + of_nat (unat w mod 4096))"
    by (simp only: of_nat_add add.assoc)
  also have "\<dots> = iova + (of_nat (4096 * k) + IOVA_PAGE_OFT w)"
    using of_nat_unat_eq [OF P(1)] of_nat_unat_eq [OF page_oft [of w]] by (simp only:)
  finally have e: "w = iova + (of_nat (4096 * k) + IOVA_PAGE_OFT w)" .
  have "w - iova = of_nat (4096 * k) + IOVA_PAGE_OFT w"
    unfolding diff_eq_eq by (subst add.commute) (rule e)
  then show ?thesis
    unfolding xlate_lookup [OF d] look
    using mapped_entry_xlate [OF args k, of "IOVA_PAGE_OFT w" prot]
    by (simp add: wk P(1) page_oft algebra_simps del: of_nat_mult)
qed

lemma xlate_cong:
  assumes "domains s domain = Some d" "domains s' domain = Some d"
    and "pt_lookup v (pgtable d) (mem (pgt s')) (unat w div 4096) = pt_lookup v (pgtable d) (mem (pgt s)) (unat w div 4096)"
  shows "xlate v domain w s' = xlate v domain w s"
  using assms by (simp add: xlate_lookup)

lemma xlate_unmapped:
  assumes "domains s domain = Some d" "pt_lookup v (pgtable d) (mem (pgt s)) (unat w div 4096) = None"
  shows "xlate v domain w s = Some 0"
  using assms by (simp add: xlate_lookup)

lemma pages_of_range:
  assumes "core_range v iova sz" "unat iova div 4096 \<le> Q" "Q < unat iova div 4096 + unat sz div 4096"
  obtains w where "in_range iova sz w" "unat w div 4096 = Q"
proof -
  obtain P n where P: "unat iova = 4096 * P" "unat sz = 4096 * n" "P + n \<le> 4096 * npte v"
    using core_range_pages [OF assms(1)] by metis
  then have "unat (page Q) = 4096 * Q" using assms(3) by (intro unat_page [where v = v]) simp
  with assms(2,3) P have "in_range iova sz (page Q)" "unat (page Q) div 4096 = Q" by (auto simp: in_range_def)
  then show thesis by (rule that)
qed

lemma map_result:
  assumes d: "domains s domain = Some d" and wf: "pt_wf v (pgtable d) (pgt s)" "slab_ok v (pgtable d) zalloc"
    and args: "core_args v iova paddr sz"
  obtains (mapped) s' where "sunxi_iommu_map v zalloc domain iova paddr sz prot s = Some (0, Some sz, s')"
      "domains s' = domains s" "plat s' = plat s" "pt_wf v (pgtable d) (pgt s')"
      "\<And>w. in_space v w \<Longrightarrow> xlate v domain w s' =
        (if in_range iova sz w then Some (paddr + (w - iova)) else xlate v domain w s)"
      "\<And>Q. unat iova div 4096 \<le> Q \<Longrightarrow> Q < unat iova div 4096 + unat sz div 4096 \<Longrightarrow>
        pt_lookup v (pgtable d) (mem (pgt s')) Q \<noteq> None"
    | (nomem) s' where "sunxi_iommu_map v zalloc domain iova paddr sz prot s = Some (- ENOMEM, None, s')"
      "domains s' = domains s" "plat s' = plat s" "pt_wf v (pgtable d) (pgt s')"
      "\<And>w. in_space v w \<Longrightarrow> xlate v domain w s' = xlate v domain w s"
proof -
  have cr: "core_range v iova sz" using args by (simp add: core_args_def)
  show thesis
  proof (rule map_spec [OF wf d args, where prot = prot])
    fix g
    let ?s' = "s\<lparr>pgt := g, io := io s @ [Lock dt_lock, Unlock dt_lock]\<rparr>"
    assume g: "sunxi_iommu_map v zalloc domain iova paddr sz prot s = Some (0, Some sz, ?s')"
      "pt_wf v (pgtable d) g"
      "\<And>Q. Q < 4096 * npte v \<Longrightarrow> pt_lookup v (pgtable d) (mem g) Q =
        (if unat iova div 4096 \<le> Q \<and> Q < unat iova div 4096 + unat sz div 4096
         then Some (mapped_entry v paddr prot (Q - unat iova div 4096))
         else pt_lookup v (pgtable d) (mem (pgt s)) Q)"
    have "xlate v domain w ?s' = (if in_range iova sz w then Some (paddr + (w - iova)) else xlate v domain w s)"
      if "in_space v w" for w
      using g(3) [of "unat w div 4096"] that d in_range_page [OF cr, of w]
        xlate_mapped [of ?s' domain d v iova paddr sz w prot, OF _ args] xlate_cong [of s domain d ?s' v w]
      by (auto simp: in_space_page)
    moreover have "P < 4096 * npte v" if "P < unat iova div 4096 + unat sz div 4096" for P
      using that core_range_pages [OF cr]
      by (metis div_mult_self1_is_m less_le_trans zero_less_numeral)
    ultimately show thesis using g by (intro mapped [of ?s']) auto
  next
    fix g
    let ?s' = "s\<lparr>pgt := g, io := io s @ [Lock dt_lock, Unlock dt_lock]\<rparr>"
    assume g: "sunxi_iommu_map v zalloc domain iova paddr sz prot s = Some (- ENOMEM, None, ?s')"
      "pt_wf v (pgtable d) g"
      "\<And>Q. Q < 4096 * npte v \<Longrightarrow> pt_lookup v (pgtable d) (mem g) Q = pt_lookup v (pgtable d) (mem (pgt s)) Q"
    then show thesis using d xlate_cong [of s domain d ?s' v]
      by (intro nomem [of ?s']) (auto simp: in_space_page)
  qed
qed

lemma i2c_pos: "unat x < 2 ^ 63 \<Longrightarrow> iommu_phy_to_cpu_phy v x \<noteq> 0"
  using unat_i2c [of x v] by (auto simp: unat_eq_0 [symmetric] split: if_splits)

lemma pfn_bound: "unat (IOPTE_TO_PFN v e) < 2 ^ 34"
proof -
  have "IOPTE_TO_PFN v e = take_bit 34 (IOPTE_TO_PFN v e)"
    by (rule bit_word_eqI) (auto simp: IOPTE_TO_PFN_def bit_simps high_bits_bit dest: bit_imp_le_length)
  then have "unat (IOPTE_TO_PFN v e) = unat (IOPTE_TO_PFN v e) mod 2 ^ 34" by (metis unat_take_bit)
  then show ?thesis by (metis mod_less_divisor zero_less_numeral zero_less_power)
qed

lemma xlate_zero_iff:
  assumes "domains s domain = Some d"
  shows "xlate v domain w s = Some 0 \<longleftrightarrow> pt_lookup v (pgtable d) (mem (pgt s)) (unat w div 4096) = None"
proof -
  have "unat (IOPTE_TO_PFN v e + IOVA_PAGE_OFT w) < 2 ^ 63" for e
    using pfn_bound [of v e] page_oft [of w] by (simp add: unat_word_ariths)
  then show ?thesis
    unfolding xlate_lookup [OF assms] by (auto simp: i2c_pos split: option.split)
qed

section \<open>Unmapping, for every driver\<close>

context unmap_driver
begin

lemma unmap_result:
  assumes hw: "hw_ok hw" and d: "domains s domain = Some d" and wf: "pt_wf v (pgtable d) (pgt s)"
    and cr: "core_range v iova sz"
    and m: "\<And>w. in_range iova sz w \<Longrightarrow> pt_lookup v (pgtable d) (mem (pgt s)) (unat w div 4096) \<noteq> None"
  obtains gather' s' where "unmap v domain iova sz gather s = Some (sz, gather', s')"
    "domains s' = domains s" "pt_wf v (pgtable d) (pgt s')"
    "\<And>w. in_space v w \<Longrightarrow> xlate v domain w s' = (if in_range iova sz w then Some 0 else xlate v domain w s)"
proof -
  let ?P = "unat iova div 4096" and ?n = "unat sz div 4096"
  have m': "pt_lookup v (pgtable d) (mem (pgt s)) Q \<noteq> None" if "?P \<le> Q" "Q < ?P + ?n" for Q
    using pages_of_range [OF cr that] m by metis
  obtain g t R where u: "unmap v domain iova sz gather s =
        Some (sz, gathered iova (iova + sz) gather, s\<lparr>pgt := g, io := t @ [Unlock dt_lock]\<rparr>)"
      "pt_wf v (pgtable d) g" "?P \<le> R" "R \<le> ?P + ?n" "?P + ?n \<le> 4096 * npte v"
      "\<forall>Q < 4096 * npte v. pt_lookup v (pgtable d) (mem g) Q =
        (if ?P \<le> Q \<and> Q < R then None else pt_lookup v (pgtable d) (mem (pgt s)) Q)"
      "R < ?P + ?n \<longrightarrow> \<not> dent_valid (pgtable d) (mem g) (R div npte v)"
    by (rule unmap_spec [OF hw wf d cr, of gather])
  have R: "R = ?P + ?n"
    by (rule pt.unmap_rest [of v "pgtable d" g ?P R "pgt s"]) (use u(3-7) m' in auto)
  let ?s' = "s\<lparr>pgt := g, io := t @ [Unlock dt_lock]\<rparr>"
  have "xlate v domain w ?s' = (if in_range iova sz w then Some 0 else xlate v domain w s)"
    if "in_space v w" for w
    using u(6) that d in_range_page [OF cr, of w] xlate_unmapped [of ?s' domain d v w]
      xlate_cong [of s domain d ?s' v w] unfolding R by (auto simp: in_space_page)
  with u(1,2) show thesis by (intro that [of "gathered iova (iova + sz) gather" ?s']) auto
qed

lemma unmap_translates:
  assumes "hw_ok hw" "domains s domain = Some d" "pt_wf v (pgtable d) (pgt s)" "core_range v iova sz"
    and "\<And>w. in_range iova sz w \<Longrightarrow> xlate v domain w s \<noteq> Some 0"
  shows "\<exists>gather' s'. unmap v domain iova sz gather s = Some (sz, gather', s') \<and>
    pt_wf v (pgtable d) (pgt s') \<and>
    (\<forall>w. in_space v w \<longrightarrow> xlate v domain w s' = (if in_range iova sz w then Some 0 else xlate v domain w s))"
proof -
  have "pt_lookup v (pgtable d) (mem (pgt s)) (unat w div 4096) \<noteq> None" if "in_range iova sz w" for w
    using assms(5) [OF that] xlate_zero_iff [OF assms(2)] by blast
  from unmap_result [OF assms(1-4) this] show ?thesis by metis
qed

lemma unmap_at_hole:
  assumes "hw_ok hw" "domains s domain = Some d" "core_range v iova sz"
    and "\<not> IS_VALID (mem (pgt s) (iopde_offset v (pgtable d) iova))"
  shows "\<exists>gather' s'. unmap v domain iova sz gather s = Some (sz, gather', s') \<and>
    pgt s' = pgt s \<and> (\<forall>w. xlate v domain w s' = xlate v domain w s)"
proof -
  obtain P where "unat iova = 4096 * P" "P < 4096 * npte v" using core_range_pages [OF assms(3)]
    by (metis add_gr_0 less_add_same_cancel1 order_less_le_trans)
  then have "unat iova div 2 ^ IOMMU_PD_SHIFT v < 4096" by (simp add: PD_npte less_mult_imp_div_less)
  then have "\<not> dent_valid (pgtable d) (mem (pgt s)) (unat iova div 2 ^ IOMMU_PD_SHIFT v)"
    using assms(4) by (simp add: iopde_offset_cell dent_valid_def)
  from unmap_hole [OF assms(1-3) this, of gather] show ?thesis
    using assms(2) by (auto simp: xlate_def sunxi_iommu_iova_to_phys_def)
qed

end

lemma ex_mapped:
  obtains s' where
    "sunxi_iommu_map AW_IOMMU_PGTABLE_V1 ex_zalloc 0x1000 0x10000 0x80000000 0x4000 3 ex_state = Some (0, Some 0x4000, s')"
    "domains s' 0x1000 = Some ex_domain" "pt_wf AW_IOMMU_PGTABLE_V1 (pgtable ex_domain) (pgt s')"
    "\<forall>w. in_range 0x10000 0x4000 w \<longrightarrow> xlate AW_IOMMU_PGTABLE_V1 0x1000 w s' \<noteq> Some 0"
proof (rule map_result [OF ex_state_domain ex_state_wf ex_slab ex_args, of 3])
  fix s' assume s': "sunxi_iommu_map AW_IOMMU_PGTABLE_V1 ex_zalloc 0x1000 0x10000 0x80000000 0x4000 3 ex_state = Some (0, Some 0x4000, s')"
    "domains s' = domains ex_state" "pt_wf AW_IOMMU_PGTABLE_V1 (pgtable ex_domain) (pgt s')"
    "\<And>Q. unat (0x10000 :: u64) div 4096 \<le> Q \<Longrightarrow> Q < unat (0x10000 :: u64) div 4096 + unat (0x4000 :: u64) div 4096 \<Longrightarrow>
        pt_lookup AW_IOMMU_PGTABLE_V1 (pgtable ex_domain) (mem (pgt s')) Q \<noteq> None"
  have d: "domains s' 0x1000 = Some ex_domain" using s'(2) ex_state_domain by simp
  have "core_range AW_IOMMU_PGTABLE_V1 0x10000 0x4000" using ex_args by (simp add: core_args_def)
  then have nz: "\<forall>w. in_range 0x10000 0x4000 w \<longrightarrow> xlate AW_IOMMU_PGTABLE_V1 0x1000 w s' \<noteq> Some 0"
    using s'(4) unfolding xlate_zero_iff [OF d] by (metis in_range_page)
  show thesis by (rule that [OF s'(1) d s'(3) nz])
qed (use ex_map_ret in \<open>fastforce simp: errno_simps\<close>)

section \<open>Properties\<close>

text \<open>
  C1.  \<open>sunxi_iommu_map\<close>, called with the arguments the IOMMU core passes, always returns.  Either it
  returns 0 and reports the size, and then every device address of the range translates to the
  physical address at the same distance from \<open>paddr\<close> while every other address of the input space
  translates as before; or it returns -ENOMEM and no translation has changed.  The table stays
  well-formed in both cases.
\<close>

theorem map_correct:
  assumes "domains s domain = Some d" "pt_wf v (pgtable d) (pgt s)" "slab_ok v (pgtable d) zalloc"
    and "core_args v iova paddr sz"
  shows "\<exists>ret mapped s'. sunxi_iommu_map v zalloc domain iova paddr sz prot s = Some (ret, mapped, s') \<and>
    pt_wf v (pgtable d) (pgt s') \<and>
    (ret = 0 \<and> mapped = Some sz \<and> (\<forall>w. in_space v w \<longrightarrow> xlate v domain w s' =
        (if in_range iova sz w then Some (paddr + (w - iova)) else xlate v domain w s)) \<or>
     ret = - ENOMEM \<and> mapped = None \<and> (\<forall>w. in_space v w \<longrightarrow> xlate v domain w s' = xlate v domain w s))"
  by (rule map_result [OF assms, of prot]) blast+

theorem map_correct_witness:
  "\<exists>ret mapped s'. sunxi_iommu_map AW_IOMMU_PGTABLE_V1 ex_zalloc 0x1000 0x10000 0x80000000 0x4000 3 ex_state
      = Some (ret, mapped, s') \<and> pt_wf AW_IOMMU_PGTABLE_V1 (pgtable ex_domain) (pgt s') \<and>
    (ret = 0 \<longrightarrow> xlate AW_IOMMU_PGTABLE_V1 0x1000 0x12345 s' = Some 0x80002345)"
proof -
  have "in_space AW_IOMMU_PGTABLE_V1 0x12345" "in_range 0x10000 0x4000 0x12345"
    by (simp_all add: in_space_def in_range_def)
  then show ?thesis
    using map_correct [OF ex_state_domain ex_state_wf ex_slab ex_args, of 3] by (fastforce simp: errno_simps)
qed

text \<open>
  C2.  \<open>sunxi_iommu_unmap\<close> of a range whose addresses are all mapped returns the size; afterwards no
  address of the range translates (the result is 0), every other address translates as before, and
  the table stays well-formed: second-level tables that became empty as a whole were returned to
  the cache.
\<close>

theorem unmap_correct:
  assumes "hw_ok hw" "domains s domain = Some d" "pt_wf v (pgtable d) (pgt s)" "core_range v iova sz"
    and "\<And>w. in_range iova sz w \<Longrightarrow> xlate v domain w s \<noteq> Some 0"
  shows "\<exists>gather' s'. sunxi_iommu_unmap v hw domain iova sz gather s = Some (sz, gather', s') \<and>
    pt_wf v (pgtable d) (pgt s') \<and>
    (\<forall>w. in_space v w \<longrightarrow> xlate v domain w s' = (if in_range iova sz w then Some 0 else xlate v domain w s))"
  using assms by (rule drv1.unmap_translates)

theorem unmap_correct_witness:
  "\<exists>s m gather' s'. sunxi_iommu_map AW_IOMMU_PGTABLE_V1 ex_zalloc 0x1000 0x10000 0x80000000 0x4000 3 ex_state = Some (0, m, s)
    \<and> sunxi_iommu_unmap AW_IOMMU_PGTABLE_V1 (ex_hw 0) 0x1000 0x10000 0x4000 \<lparr>gather_start = 0xffff0000, gather_end = 0\<rparr> s
        = Some (0x4000, gather', s')
    \<and> xlate AW_IOMMU_PGTABLE_V1 0x1000 0x12345 s' = Some 0"
proof -
  obtain s where s: "sunxi_iommu_map AW_IOMMU_PGTABLE_V1 ex_zalloc 0x1000 0x10000 0x80000000 0x4000 3 ex_state = Some (0, Some 0x4000, s)"
    "domains s 0x1000 = Some ex_domain" "pt_wf AW_IOMMU_PGTABLE_V1 (pgtable ex_domain) (pgt s)"
    "\<forall>w. in_range 0x10000 0x4000 w \<longrightarrow> xlate AW_IOMMU_PGTABLE_V1 0x1000 w s \<noteq> Some 0"
    by (rule ex_mapped)
  have "core_range AW_IOMMU_PGTABLE_V1 0x10000 0x4000" using ex_args by (simp add: core_args_def)
  from unmap_correct [OF ex_hw_ok s(2,3) this s(4) [rule_format], of 0 "\<lparr>gather_start = 0xffff0000, gather_end = 0\<rparr>"] s(1)
  show ?thesis by (fastforce simp: in_space_def in_range_def)
qed

text \<open>
  C3.  Mapping a free range and unmapping it again restores every translation.
\<close>

theorem map_unmap_roundtrip:
  assumes "hw_ok hw" "domains s domain = Some d" "pt_wf v (pgtable d) (pgt s)" "slab_ok v (pgtable d) zalloc"
    and "core_args v iova paddr sz" and free: "\<And>w. in_range iova sz w \<Longrightarrow> xlate v domain w s = Some 0"
    and mapped: "sunxi_iommu_map v zalloc domain iova paddr sz prot s = Some (0, m, s1)"
  shows "\<exists>gather' s2. sunxi_iommu_unmap v hw domain iova sz gather s1 = Some (sz, gather', s2) \<and>
    (\<forall>w. in_space v w \<longrightarrow> xlate v domain w s2 = xlate v domain w s)"
proof (rule map_result [OF assms(2-5), of prot])
  fix s' assume s': "sunxi_iommu_map v zalloc domain iova paddr sz prot s = Some (0, Some sz, s')"
    "domains s' = domains s" "pt_wf v (pgtable d) (pgt s')"
    "\<And>w. in_space v w \<Longrightarrow> xlate v domain w s' =
        (if in_range iova sz w then Some (paddr + (w - iova)) else xlate v domain w s)"
    "\<And>Q. unat iova div 4096 \<le> Q \<Longrightarrow> Q < unat iova div 4096 + unat sz div 4096 \<Longrightarrow>
        pt_lookup v (pgtable d) (mem (pgt s')) Q \<noteq> None"
  have cr: "core_range v iova sz" using assms(5) by (simp add: core_args_def)
  have s1: "s1 = s'" "domains s1 domain = Some d" using mapped s'(1,2) assms(2) by auto
  from drv1.unmap_result [OF assms(1) s1(2) _ cr, of gather] s'(3,5) obtain gather' s2 where
    u: "sunxi_iommu_unmap v hw domain iova sz gather s1 = Some (sz, gather', s2)"
      "\<And>w. in_space v w \<Longrightarrow> xlate v domain w s2 = (if in_range iova sz w then Some 0 else xlate v domain w s1)"
    unfolding s1(1) in_range_page [OF cr] by metis
  then show ?thesis using s'(4) free unfolding s1(1) by metis
qed (use mapped in \<open>simp_all add: errno_simps\<close>)

theorem map_unmap_roundtrip_witness:
  "\<exists>s1 m gather' s2. sunxi_iommu_map AW_IOMMU_PGTABLE_V1 ex_zalloc 0x1000 0x10000 0x80000000 0x4000 3 ex_state = Some (0, m, s1)
    \<and> sunxi_iommu_unmap AW_IOMMU_PGTABLE_V1 (ex_hw 0) 0x1000 0x10000 0x4000 \<lparr>gather_start = 0xffff0000, gather_end = 0\<rparr> s1
        = Some (0x4000, gather', s2)
    \<and> xlate AW_IOMMU_PGTABLE_V1 0x1000 0x12345 s2 = xlate AW_IOMMU_PGTABLE_V1 0x1000 0x12345 ex_state"
proof -
  obtain s1 where s1: "sunxi_iommu_map AW_IOMMU_PGTABLE_V1 ex_zalloc 0x1000 0x10000 0x80000000 0x4000 3 ex_state = Some (0, Some 0x4000, s1)"
    using ex_mapped by blast
  have "pt_lookup v p (mem (pgt ex_state)) Q = None" for v p Q
    by (simp add: pt_lookup_def dent_valid_def ex_state_def)
  then have "xlate AW_IOMMU_PGTABLE_V1 0x1000 w ex_state = Some 0" for w
    by (rule xlate_unmapped [OF ex_state_domain])
  from map_unmap_roundtrip [OF ex_hw_ok ex_state_domain ex_state_wf ex_slab ex_args this s1,
      of 0 "\<lparr>gather_start = 0xffff0000, gather_end = 0\<rparr>"] s1
  show ?thesis by (fastforce simp: in_space_def)
qed

text \<open>
  C4.  Unmapping a range whose first directory entry is empty changes nothing: the error of
  \<open>sunxi_pgtable_delete_l2_tables\<close> is taken for a length, the loop ends, and the call still reports
  the whole size.  Pages of the range in later directory entries stay mapped.
\<close>

theorem unmap_stops_at_hole:
  assumes "hw_ok hw" "domains s domain = Some d" "core_range v iova sz"
    and "\<not> IS_VALID (mem (pgt s) (iopde_offset v (pgtable d) iova))"
  shows "\<exists>gather' s'. sunxi_iommu_unmap v hw domain iova sz gather s = Some (sz, gather', s') \<and>
    pgt s' = pgt s \<and> (\<forall>w. xlate v domain w s' = xlate v domain w s)"
  using assms by (rule drv1.unmap_at_hole)

theorem unmap_stops_at_hole_witness:
  "\<exists>gather' s'. sunxi_iommu_unmap AW_IOMMU_PGTABLE_V1 (ex_hw 0) 0x1000 0 0x400000
      \<lparr>gather_start = 0xffff0000, gather_end = 0\<rparr> ex_state = Some (0x400000, gather', s') \<and> pgt s' = pgt ex_state"
proof -
  have "core_range AW_IOMMU_PGTABLE_V1 0 0x400000"
    by (auto simp: core_range_def pgsize_bits addr_simps intro!: exI [of _ 22])
  moreover have "\<not> IS_VALID (mem (pgt ex_state) a)" for a by (simp add: ex_state_def)
  ultimately show ?thesis using unmap_stops_at_hole [OF ex_hw_ok ex_state_domain] by blast
qed

end
