(* ===== verification/Iommu_Life.thy ===== *)
theory Iommu_Life
  imports Iommu_Map_Props
begin

text \<open>
  The life of the IOMMU driver: initialisation of the hardware, domains, client devices and the
  interrupt handler, one step relation over all entry points, and the invariant that holds between
  any two calls: no lock is held, the bypass word has only the bits of the seven masters, and the
  page table of the live domain is well-formed.
\<close>

section \<open>Critical sections\<close>

definition writes :: "trace \<Rightarrow> (u32 \<times> u32) list" where
  "writes t = concat (map (\<lambda>e. case e of Wr a x \<Rightarrow> [(a, x)] | _ \<Rightarrow> []) t)"

lemma writes_simps [simp]:
  "writes [] = []" "writes (a @ b) = writes a @ writes b" "writes (Wr r x # t) = (r, x) # writes t"
  "writes (Rd r # t) = writes t" "writes (Lock l # t) = writes t" "writes (Unlock l # t) = writes t"
  "writes (Jiffies # t) = writes t" "writes (Udelay # t) = writes t" "writes (Callback c # t) = writes t"
  by (simp_all add: writes_def)

lemma writes_poll: "set w \<subseteq> poll_events offset \<Longrightarrow> writes w = []"
  by (induction w) (auto simp: poll_events_def)

lemma polled_shape:
  assumes "polled hw offset m r t t'"
  obtains w where "t' = t @ w" "\<forall>e \<in> set w. quiet e" "writes w = []" "r = 0 \<or> r = - ETIMEDOUT"
proof -
  obtain w where w: "t' = t @ w @ [Rd offset]" "set w \<subseteq> poll_events offset"
    "r = (if reg hw (t @ w) offset AND m = 0 then 0 else - ETIMEDOUT)"
    using assms unfolding polled_def by blast
  have "writes (w @ [Rd offset]) = []" using writes_poll [OF w(2)] by simp
  moreover have "\<forall>e \<in> set (w @ [Rd offset]). quiet e" using w(2) by (auto simp: poll_events_def quiet_def)
  ultimately show thesis using w(1,3) by (intro that [of "w @ [Rd offset]"]) auto
qed

lemma spin_while_shape:
  assumes "spin_while hw offset m t = Some t'"
  shows "\<exists>w. t' = t @ w \<and> (\<forall>e \<in> set w. quiet e) \<and> writes w = []"
proof (rule spin_while.raw_induct [OF _ assms, where P = "\<lambda>hw offset m t t'.
    \<exists>w. t' = t @ w \<and> (\<forall>e \<in> set w. quiet e) \<and> writes w = []"])
  fix f hw offset m t t'
  assume IH: "\<And>hw offset m t t'. f hw offset m t = Some t' \<Longrightarrow>
      \<exists>w. t' = t @ w \<and> (\<forall>e \<in> set w. quiet e) \<and> writes w = []"
    and eq: "(let (c, t) = sunxi_iommu_read hw offset t in if c AND m \<noteq> 0 then f hw offset m t else Some t) = Some t'"
  show "\<exists>w. t' = t @ w \<and> (\<forall>e \<in> set w. quiet e) \<and> writes w = []"
  proof (cases "reg hw t offset AND m = 0")
    case True
    with eq show ?thesis by (auto simp: sunxi_iommu_read_def quiet_def)
  next
    case False
    with eq have "f hw offset m (t @ [Rd offset]) = Some t'" by (simp add: sunxi_iommu_read_def)
    from IH [OF this] obtain w where "t' = (t @ [Rd offset]) @ w" "\<forall>e \<in> set w. quiet e" "writes w = []" by blast
    then show ?thesis by (intro exI [of _ "Rd offset # w"]) (auto simp: quiet_def)
  qed
qed

text \<open>
  The interrupt handlers wait for an invalidation without a limit; they return on a device that
  clears the start bit after finitely many reads.
\<close>

definition invalidation_ends :: "hw \<Rightarrow> u32 \<Rightarrow> bool" where
  "invalidation_ends hw a \<longleftrightarrow> (\<forall>t. \<exists>n. reg hw (t @ replicate n (Rd a)) a AND 1 = 0)"

lemma spin_while_returns:
  assumes "invalidation_ends hw a"
  shows "\<exists>t'. spin_while hw a 1 t = Some t'"
proof -
  have "reg hw (t @ replicate n (Rd a)) a AND 1 = 0 \<Longrightarrow> \<exists>t'. spin_while hw a 1 t = Some t'" for n t
  proof (induction n arbitrary: t)
    case 0
    then show ?case by (subst spin_while.simps) (simp add: sunxi_iommu_read_def)
  next
    case (Suc n)
    from Suc.IH [of "t @ [Rd a]"] Suc.prems show ?case by (subst spin_while.simps) (simp add: sunxi_iommu_read_def)
  qed
  with assms show ?thesis unfolding invalidation_ends_def by blast
qed

lemma spin_while_some:
  assumes "invalidation_ends hw a"
  obtains f where "\<And>t. spin_while hw a 1 t = Some (f t)"
  using spin_while_returns [OF assms] by metis

definition section_of :: "lock \<Rightarrow> v1_state \<Rightarrow> v1_state \<Rightarrow> bool" where
  "section_of l s s' \<longleftrightarrow> (\<exists>w. critical l w (io s) (io s')) \<and> pgt s' = pgt s \<and> domains s' = domains s"

section \<open>Initialisation\<close>

definition init_writes :: "v1_state \<Rightarrow> u64 \<Rightarrow> (u32 \<times> u32) list" where
  "init_writes s pgd =
     [(IOMMU_TTB_REG, ucast pgd), (IOMMU_TLB_PREFETCH_REG, tlb_prefetch (plat s))] @
     (if version (plat s) \<ge> IOMMU_VERSION_V12 then [(IOMMU_TLB_IVLD_MODE_SEL_REG, tlb_invalid_mode (plat s))] else []) @
     (if version (plat s) \<ge> IOMMU_VERSION_V14 then [(IOMMU_PC_IVLD_MODE_SEL_REG, ptw_invalid_mode (plat s))] else []) @
     [(IOMMU_INT_ENABLE_REG, 0x3003f), (IOMMU_BYPASS_REG, bypass s), (IOMMU_TLB_FLUSH_ENABLE_REG, 0x3007f)]"

lemma flush_shape:
  assumes "hw_ok hw"
  obtains ret w where "sunxi_tlb_flush hw t = Some (ret, t @ Wr IOMMU_TLB_FLUSH_ENABLE_REG 0x3007f # w)"
    "\<forall>e \<in> set w. quiet e" "writes w = []" "ret = 0 \<or> ret = - ETIMEDOUT"
proof -
  obtain r t' where r: "sunxi_wait_when hw IOMMU_TLB_FLUSH_ENABLE_REG 0xffffffff 2
      (t @ [Wr IOMMU_TLB_FLUSH_ENABLE_REG 0x3007f]) = Some (r, t')"
    "polled hw IOMMU_TLB_FLUSH_ENABLE_REG 0xffffffff r (t @ [Wr IOMMU_TLB_FLUSH_ENABLE_REG 0x3007f]) t'"
    using wait_ok [OF assms order_refl] .
  from polled_shape [OF r(2)] r(1) show thesis
    by (metis (no_types, lifting) sunxi_tlb_flush_def sunxi_iommu_write_def append.assoc append_Cons append_Nil that)
qed

lemma hw_init_shape:
  assumes hw: "hw_ok hw" and d: "domains s domain = Some d"
  obtains ret s' w where "sunxi_iommu_hw_init hw domain s = Some (ret, s')"
    "critical iommu_lock w (io s) (io s')"
    "s' = s\<lparr>io := io s', iommu_hw_init_flag := iommu_hw_init_flag s \<or> ret = 0\<rparr>"
    "ret \<in> {0, - ETIMEDOUT, - ENODEV}"
    "writes w = init_writes s (pgtable d) @
       (if ret = - ETIMEDOUT then [] else [(IOMMU_AUTO_GATING_REG, 1), (IOMMU_ENABLE_REG, IOMMU_ENABLE)])"
proof -
  define c where "c = [Wr IOMMU_TTB_REG (ucast (pgtable d)), Wr IOMMU_TLB_PREFETCH_REG (tlb_prefetch (plat s))] @
     (if version (plat s) \<ge> IOMMU_VERSION_V12 then [Wr IOMMU_TLB_IVLD_MODE_SEL_REG (tlb_invalid_mode (plat s))] else []) @
     (if version (plat s) \<ge> IOMMU_VERSION_V14 then [Wr IOMMU_PC_IVLD_MODE_SEL_REG (ptw_invalid_mode (plat s))] else []) @
     [Wr IOMMU_INT_ENABLE_REG 0x3003f, Wr IOMMU_BYPASS_REG (bypass s)]"
  have c: "\<forall>e \<in> set c. quiet e" "writes c @ [(IOMMU_TLB_FLUSH_ENABLE_REG, 0x3007f)] = init_writes s (pgtable d)"
    by (auto simp: c_def quiet_def init_writes_def)
  obtain ret w where f: "sunxi_tlb_flush hw (io s @ Lock iommu_lock # c) =
      Some (ret, (io s @ Lock iommu_lock # c) @ Wr IOMMU_TLB_FLUSH_ENABLE_REG 0x3007f # w)"
    "\<forall>e \<in> set w. quiet e" "writes w = []" "ret = 0 \<or> ret = - ETIMEDOUT"
    using flush_shape [OF hw] .
  define t where "t = (io s @ Lock iommu_lock # c) @ Wr IOMMU_TLB_FLUSH_ENABLE_REG 0x3007f # w"
  have init: "sunxi_iommu_hw_init hw domain s =
     (if ret \<noteq> 0 then Some (ret, s\<lparr>io := t @ [Unlock iommu_lock]\<rparr>)
      else let t = t @ [Wr IOMMU_AUTO_GATING_REG 1, Wr IOMMU_ENABLE_REG IOMMU_ENABLE];
               (iommu_enable, t) = sunxi_iommu_read hw IOMMU_ENABLE_REG t;
               (iommu_enable, t) = (if iommu_enable \<noteq> 0x1 then sunxi_iommu_read hw IOMMU_ENABLE_REG t
                                    else (iommu_enable, t))
           in if iommu_enable \<noteq> 0x1 then Some (- ENODEV, s\<lparr>io := t @ [Unlock iommu_lock]\<rparr>)
              else Some (0, s\<lparr>io := t @ [Unlock iommu_lock], iommu_hw_init_flag := True\<rparr>))"
    using f(1) d by (auto simp: sunxi_iommu_hw_init_def c_def t_def sunxi_iommu_write_def Let_def split: if_splits)
  show thesis
  proof (cases "ret = 0")
    case False
    with f init c show thesis
      by (intro that [of ret "s\<lparr>io := t @ [Unlock iommu_lock]\<rparr>" "c @ Wr IOMMU_TLB_FLUSH_ENABLE_REG 0x3007f # w"])
        (auto simp: critical_def t_def quiet_def)
  next
    case True
    define t1 where "t1 = t @ [Wr IOMMU_AUTO_GATING_REG 1, Wr IOMMU_ENABLE_REG IOMMU_ENABLE]"
    define b where "b \<longleftrightarrow> reg hw t1 IOMMU_ENABLE_REG = 1 \<or> reg hw (t1 @ [Rd IOMMU_ENABLE_REG]) IOMMU_ENABLE_REG = 1"
    obtain u where u: "u \<noteq> []" "set u \<subseteq> {Rd IOMMU_ENABLE_REG}" "sunxi_iommu_hw_init hw domain s =
       (if b then Some (0, s\<lparr>io := t1 @ u @ [Unlock iommu_lock], iommu_hw_init_flag := True\<rparr>)
        else Some (- ENODEV, s\<lparr>io := t1 @ u @ [Unlock iommu_lock]\<rparr>))"
    proof (cases "reg hw t1 IOMMU_ENABLE_REG = 1")
      case t: True
      with True init show thesis
        by (intro that [of "[Rd IOMMU_ENABLE_REG]"]) (auto simp: b_def t1_def sunxi_iommu_read_def Let_def)
    next
      case t: False
      with True init show thesis
        by (intro that [of "[Rd IOMMU_ENABLE_REG, Rd IOMMU_ENABLE_REG]"])
          (auto simp: b_def t1_def sunxi_iommu_read_def Let_def)
    qed
    have wu: "writes u = []" "\<forall>e \<in> set u. quiet e"
      using u(2) by (induction u) (auto simp: quiet_def)
    define r where "r = (if b then 0 else - ENODEV)"
    have eq: "sunxi_iommu_hw_init hw domain s = Some (r, s\<lparr>io := t1 @ u @ [Unlock iommu_lock],
        iommu_hw_init_flag := iommu_hw_init_flag s \<or> r = 0\<rparr>)"
      using u(3) by (auto simp: r_def errno_simps)
    show thesis
      by (rule that [OF eq, of "c @ Wr IOMMU_TLB_FLUSH_ENABLE_REG 0x3007f # w @
          [Wr IOMMU_AUTO_GATING_REG 1, Wr IOMMU_ENABLE_REG IOMMU_ENABLE] @ u"])
        (use c f(2,3) wu in \<open>auto simp: critical_def t1_def t_def quiet_def r_def errno_simps\<close>)
  qed
qed

section \<open>The interrupt handler\<close>

definition grows :: "trace \<Rightarrow> (u32 \<times> u32) list \<Rightarrow> trace \<Rightarrow> bool" where
  "grows t W t' \<longleftrightarrow> (\<exists>w. t' = t @ w \<and> (\<forall>e \<in> set w. quiet e) \<and> writes w = W)"

lemma grows_refl: "grows t [] t"
  by (simp add: grows_def)

lemma grows_trans: "grows t W u \<Longrightarrow> grows u X t' \<Longrightarrow> grows t (W @ X) t'"
  unfolding grows_def by fastforce

lemma grows_write: "grows t [(a, x)] (sunxi_iommu_write a x t)"
  by (auto simp: grows_def sunxi_iommu_write_def quiet_def)

lemma grows_read: "grows t [] (snd (sunxi_iommu_read hw a t))"
  by (auto simp: grows_def sunxi_iommu_read_def quiet_def)

lemma grows_spin: "spin_while hw offset m t = Some t' \<Longrightarrow> grows t [] t'"
  using spin_while_shape by (auto simp: grows_def)

lemma grows_writes2:
  "grows t [(a, x), (b, y)] (sunxi_iommu_write b y (sunxi_iommu_write a x t))"
  using grows_trans [OF grows_write grows_write] by simp

lemma irq_fault_regs_grows: "irq_fault_regs hw r t = (a, x, t') \<Longrightarrow> grows t [] t'"
  by (auto simp: irq_fault_regs_def grows_def sunxi_iommu_read_def quiet_def split: option.splits)

lemma irq_notify_grows: "irq_notify m s t = Some t' \<Longrightarrow> grows t [] t'"
  by (auto simp: irq_notify_def grows_def quiet_def Option.bind_eq_Some_conv split: if_splits option.splits)

definition irq_tlb_writes :: "plat_data \<Rightarrow> u32 \<Rightarrow> (u32 \<times> u32) list" where
  "irq_tlb_writes p a =
     (if version p \<le> IOMMU_VERSION_V11 then
        [(IOMMU_TLB_IVLD_ADDR_REG, a), (IOMMU_TLB_IVLD_ADDR_MASK_REG, ucast IOMMU_PT_MASK), (IOMMU_TLB_IVLD_ENABLE_REG, 1),
         (IOMMU_TLB_IVLD_ADDR_REG, a + 0x2000), (IOMMU_TLB_IVLD_ADDR_MASK_REG, ucast IOMMU_PT_MASK)]
      else [(IOMMU_TLB_IVLD_START_ADDR_REG, a), (IOMMU_TLB_IVLD_END_ADDR_REG, ucast (ucast a + 4 * SPAGE_SIZE))]) @
     [(IOMMU_TLB_IVLD_ENABLE_REG, 1)]"

definition irq_ptw_writes :: "pgver \<Rightarrow> plat_data \<Rightarrow> u32 \<Rightarrow> (u32 \<times> u32) list" where
  "irq_ptw_writes v p a =
     (if version p \<le> IOMMU_VERSION_V13 then
        [(IOMMU_PC_IVLD_ADDR_REG, a), (IOMMU_PC_IVLD_ENABLE_REG, 1), (IOMMU_PC_IVLD_ADDR_REG, a + 0x200000)]
      else [(IOMMU_PC_IVLD_START_ADDR_REG, a), (IOMMU_PC_IVLD_END_ADDR_REG, ucast (ucast a + 2 * SPD_SIZE v))]) @
     [(IOMMU_PC_IVLD_ENABLE_REG, 1)]"

lemma irq_invalid_tlb_grows:
  assumes "irq_invalid_tlb hw p a t = Some t'" shows "grows t (irq_tlb_writes p a) t'"
proof (cases "version p \<le> IOMMU_VERSION_V11")
  case True
  with assms obtain t1 where t1: "spin_while hw IOMMU_TLB_IVLD_ENABLE_REG 1 (t @
      [Wr IOMMU_TLB_IVLD_ADDR_REG a, Wr IOMMU_TLB_IVLD_ADDR_MASK_REG (ucast IOMMU_PT_MASK), Wr IOMMU_TLB_IVLD_ENABLE_REG 1]) = Some t1"
    "spin_while hw IOMMU_TLB_IVLD_ENABLE_REG 1 (t1 @ [Wr IOMMU_TLB_IVLD_ADDR_REG (a + 0x2000),
      Wr IOMMU_TLB_IVLD_ADDR_MASK_REG (ucast IOMMU_PT_MASK), Wr IOMMU_TLB_IVLD_ENABLE_REG 1]) = Some t'"
    by (auto simp: irq_invalid_tlb_def sunxi_iommu_write_def Option.bind_eq_Some_conv Let_def)
  show ?thesis using grows_spin [OF t1(1)] grows_spin [OF t1(2)] True
    by (auto simp: grows_def irq_tlb_writes_def quiet_def)
next
  case False
  with assms have "spin_while hw IOMMU_TLB_IVLD_ENABLE_REG 1 (t @ [Wr IOMMU_TLB_IVLD_START_ADDR_REG a,
      Wr IOMMU_TLB_IVLD_END_ADDR_REG (ucast (ucast a + 4 * SPAGE_SIZE)), Wr IOMMU_TLB_IVLD_ENABLE_REG 1]) = Some t'"
    by (auto simp: irq_invalid_tlb_def sunxi_iommu_write_def Let_def)
  from grows_spin [OF this] False show ?thesis by (auto simp: grows_def irq_tlb_writes_def quiet_def)
qed

lemma irq_invalid_ptw_grows:
  assumes "irq_invalid_ptw v hw p a t = Some t'" shows "grows t (irq_ptw_writes v p a) t'"
proof (cases "version p \<le> IOMMU_VERSION_V13")
  case True
  with assms obtain t1 where t1: "spin_while hw IOMMU_PC_IVLD_ENABLE_REG 1 (t @
      [Wr IOMMU_PC_IVLD_ADDR_REG a, Wr IOMMU_PC_IVLD_ENABLE_REG 1]) = Some t1"
    "spin_while hw IOMMU_PC_IVLD_ENABLE_REG 1 (t1 @ [Wr IOMMU_PC_IVLD_ADDR_REG (a + 0x200000),
      Wr IOMMU_PC_IVLD_ENABLE_REG 1]) = Some t'"
    by (auto simp: irq_invalid_ptw_def sunxi_iommu_write_def Option.bind_eq_Some_conv Let_def)
  show ?thesis using grows_spin [OF t1(1)] grows_spin [OF t1(2)] True
    by (auto simp: grows_def irq_ptw_writes_def quiet_def)
next
  case False
  with assms have "spin_while hw IOMMU_PC_IVLD_ENABLE_REG 1 (t @ [Wr IOMMU_PC_IVLD_START_ADDR_REG a,
      Wr IOMMU_PC_IVLD_END_ADDR_REG (ucast (ucast a + 2 * SPD_SIZE v)), Wr IOMMU_PC_IVLD_ENABLE_REG 1]) = Some t'"
    by (auto simp: irq_invalid_ptw_def sunxi_iommu_write_def Let_def)
  from grows_spin [OF this] False show ?thesis by (auto simp: grows_def irq_ptw_writes_def quiet_def)
qed

lemma irq_invalid_returns:
  assumes "invalidation_ends hw IOMMU_TLB_IVLD_ENABLE_REG" "invalidation_ends hw IOMMU_PC_IVLD_ENABLE_REG"
  shows "\<exists>t'. irq_invalid_tlb hw p a t = Some t'" "\<exists>t'. irq_invalid_ptw v hw p a t = Some t'"
proof -
  obtain f g where "\<And>t. spin_while hw IOMMU_TLB_IVLD_ENABLE_REG 1 t = Some (f t)"
    "\<And>t. spin_while hw IOMMU_PC_IVLD_ENABLE_REG 1 t = Some (g t)"
    using spin_while_some [OF assms(1)] spin_while_some [OF assms(2)] by metis
  then show "\<exists>t'. irq_invalid_tlb hw p a t = Some t'" "\<exists>t'. irq_invalid_ptw v hw p a t = Some t'"
    by (simp_all add: irq_invalid_tlb_def irq_invalid_ptw_def Let_def)
qed

text \<open>
  What the notification of a fault relies on: a domain, and a faulting master among those of the
  platform and of the table of callbacks.
\<close>

definition fault_known :: "nat \<Rightarrow> u32 \<Rightarrow> v1_state \<Rightarrow> bool" where
  "fault_known base bitmap s \<longleftrightarrow> bitmap AND 0x80000000 \<noteq> 0 \<or>
     (\<exists>d dom k. global_sunxi_iommu_domain s = Some d \<and> domains s d = Some dom \<and> ffs32 (bitmap AND 0xffff) = Some k \<and>
        base + k < length (master (plat s)) \<and> base + k < length (fault_notify_cbs s))"

lemma irq_notify_returns: "fault_known 0 bitmap s \<Longrightarrow> \<exists>t'. irq_notify bitmap s t = Some t'"
  by (auto simp: fault_known_def irq_notify_def)

text \<open>
  The values the handler reads, in the order it reads them.
\<close>

definition irq_status :: "hw \<Rightarrow> trace \<Rightarrow> u32 \<times> u32 \<times> u32" where
  "irq_status hw t =
     (let t0 = t @ [Lock iommu_lock] in
      (reg hw t0 IOMMU_INT_STA_REG AND 0x3ffff,
       reg hw (t0 @ [Rd IOMMU_INT_STA_REG]) IOMMU_L1PG_INT_REG,
       reg hw (t0 @ [Rd IOMMU_INT_STA_REG, Rd IOMMU_L1PG_INT_REG]) IOMMU_L2PG_INT_REG))"

lemma irq_shape:
  assumes "sunxi_iommu_irq v hw s = Some s'" and st: "irq_status hw (io s) = (st, l1, l2)"
  obtains w addr t where "critical iommu_lock w (io s) (io s')" "s' = s\<lparr>io := io s'\<rparr>"
    "writes w = irq_tlb_writes (plat s) addr @ irq_ptw_writes v (plat s) addr @
       [(IOMMU_INT_CLR_REG, st), (IOMMU_RESET_REG, NOT ((st OR (l1 OR l2)) AND 0xffff)), (IOMMU_RESET_REG, 0xffffffff)]"
    "irq_notify (st OR l1 OR l2) s t \<noteq> None"
proof -
  let ?t0 = "io s @ [Lock iommu_lock]"
  let ?t1 = "?t0 @ [Rd IOMMU_INT_STA_REG, Rd IOMMU_L1PG_INT_REG, Rd IOMMU_L2PG_INT_REG]"
  obtain addr data t2 where f: "irq_fault_regs hw st ?t1 = (addr, data, t2)"
    by (cases "irq_fault_regs hw st ?t1") auto
  from assms f obtain t3 t4 t5 where n: "irq_notify (st OR l1 OR l2) s t2 = Some t3"
    "irq_invalid_tlb hw (plat s) addr t3 = Some t4" "irq_invalid_ptw v hw (plat s) addr t4 = Some t5"
    and s': "s' = s\<lparr>io := t5 @ [Wr IOMMU_INT_CLR_REG st, Wr IOMMU_RESET_REG (NOT ((st OR (l1 OR l2)) AND 0xffff)),
      Wr IOMMU_RESET_REG 0xffffffff, Unlock iommu_lock]\<rparr>"
    by (auto simp: sunxi_iommu_irq_def irq_status_def sunxi_iommu_read_def sunxi_iommu_write_def Let_def
        Option.bind_eq_Some_conv)
  have "grows ?t0 [] ?t1" by (auto simp: grows_def quiet_def)
  from grows_trans [OF this irq_fault_regs_grows [OF f]] irq_notify_grows [OF n(1)]
  have "grows ?t0 [] t3" using grows_trans by fastforce
  from grows_trans [OF grows_trans [OF this irq_invalid_tlb_grows [OF n(2)]] irq_invalid_ptw_grows [OF n(3)]]
  obtain w where w: "t5 = ?t0 @ w" "\<forall>e \<in> set w. quiet e"
    "writes w = irq_tlb_writes (plat s) addr @ irq_ptw_writes v (plat s) addr" by (auto simp: grows_def)
  show thesis
    by (rule that [of "w @ [Wr IOMMU_INT_CLR_REG st, Wr IOMMU_RESET_REG (NOT ((st OR (l1 OR l2)) AND 0xffff)),
        Wr IOMMU_RESET_REG 0xffffffff]" addr t2])
      (use w s' n(1) in \<open>auto simp: critical_def quiet_def\<close>)
qed

lemma irq_returns:
  assumes "invalidation_ends hw IOMMU_TLB_IVLD_ENABLE_REG" "invalidation_ends hw IOMMU_PC_IVLD_ENABLE_REG"
    and "irq_status hw (io s) = (st, l1, l2)" "fault_known 0 (st OR l1 OR l2) s"
  shows "\<exists>s'. sunxi_iommu_irq v hw s = Some s'"
proof -
  obtain f g h where "\<And>a t. irq_invalid_tlb hw (plat s) a t = Some (f a t)"
    "\<And>a t. irq_invalid_ptw v hw (plat s) a t = Some (g a t)" "\<And>t. irq_notify (st OR l1 OR l2) s t = Some (h t)"
    using irq_invalid_returns [OF assms(1,2)] irq_notify_returns [OF assms(4)] by metis
  with assms(3) show ?thesis
    by (auto simp: sunxi_iommu_irq_def irq_status_def sunxi_iommu_read_def Let_def case_prod_unfold)
qed

end
