(* ===== verification/Iommu_Steps.thy ===== *)
theory Iommu_Steps
  imports Iommu_Life
begin

text \<open>
  The driver as a transition system: one rule per entry point, with the guarantees the kernel gives
  its arguments as premises, and the invariant of the states it can reach.
\<close>

inductive v1_step :: "pgver \<Rightarrow> hw \<Rightarrow> v1_state \<Rightarrow> v1_state \<Rightarrow> bool" for v hw where
  step_map: "domains s a = Some d \<Longrightarrow> slab_ok v (pgtable d) zalloc \<Longrightarrow> core_args v iova paddr sz \<Longrightarrow>
    sunxi_iommu_map v zalloc a iova paddr sz prot s = Some (ret, m, s') \<Longrightarrow> v1_step v hw s s'"
| step_unmap: "core_range v iova sz \<Longrightarrow>
    sunxi_iommu_unmap v hw a iova sz gather s = Some (n, gather', s') \<Longrightarrow> v1_step v hw s s'"
| step_sync_map: "sunxi_iommu_iotlb_sync_map v hw iova sz s = Some (ret, s') \<Longrightarrow> v1_step v hw s s'"
| step_sync: "sunxi_iommu_iotlb_sync v hw gather s = Some s' \<Longrightarrow> v1_step v hw s s'"
| step_iova_to_phys: "sunxi_iommu_iova_to_phys v a iova s = Some (p, s') \<Longrightarrow> v1_step v hw s s'"
| step_domain_alloc: "(\<And>p. alloc_pgd al = Some p \<Longrightarrow> aligned 14 p) \<Longrightarrow>
    sunxi_iommu_domain_alloc v hw al ty s = Some (r, s') \<Longrightarrow> v1_step v hw s s'"
| step_domain_free: "sunxi_iommu_domain_free v hw a s = Some s' \<Longrightarrow> v1_step v hw s s'"
| step_finalize: "sunxi_iommu_probe_device_finalize dev s = Some s' \<Longrightarrow> v1_step v hw s s'"
| step_release: "sunxi_iommu_release_device dev s = Some s' \<Longrightarrow> v1_step v hw s s'"
| step_of_xlate: "sunxi_iommu_of_xlate n b k dev x y s = (ret, s') \<Longrightarrow> v1_step v hw s s'"
| step_enable: "sunxi_enable_device_iommu i f s = Some s' \<Longrightarrow> v1_step v hw s s'"
| step_reset: "s' = s\<lparr>io := sunxi_reset_device_iommu hw i (io s)\<rparr> \<Longrightarrow> v1_step v hw s s'"
| step_register: "sunxi_iommu_register_fault_cb cb i s = Some s' \<Longrightarrow> v1_step v hw s s'"
| step_irq: "sunxi_iommu_irq v hw s = Some s' \<Longrightarrow> v1_step v hw s s'"
| step_test_write: "sunxi_iova_test_write hw iova x (io s) = Some (ret, t) \<Longrightarrow> v1_step v hw s (s\<lparr>io := t\<rparr>)"
| step_test_read: "sunxi_iova_test_read hw iova (io s) = Some (x, t) \<Longrightarrow> v1_step v hw s (s\<lparr>io := t\<rparr>)"
| step_debug_mode: "v1_step v hw s (s\<lparr>io := sunxi_set_debug_mode (io s)\<rparr>)"
| step_prefetch_mode: "v1_step v hw s (s\<lparr>io := sunxi_set_prefetch_mode (io s)\<rparr>)"

inductive v1_reach :: "pgver \<Rightarrow> hw \<Rightarrow> v1_state \<Rightarrow> v1_state \<Rightarrow> bool" for v hw s0 where
  reach_init: "v1_reach v hw s0 s0"
| reach_step: "v1_reach v hw s0 s \<Longrightarrow> v1_step v hw s s' \<Longrightarrow> v1_reach v hw s0 s'"

definition dom_inv :: "pgver \<Rightarrow> v1_state \<Rightarrow> bool" where
  "dom_inv v s \<longleftrightarrow>
     (\<forall>a d. domains s a = Some d \<longrightarrow> global_sunxi_iommu_domain s = Some a \<and> pt_wf v (pgtable d) (pgt s)) \<and>
     ((\<forall>a. domains s a = None) \<longrightarrow> iopte_live (pgt s) = [])"

definition v1_inv :: "pgver \<Rightarrow> v1_state \<Rightarrow> bool" where
  "v1_inv v s \<longleftrightarrow>
     lock_run {} (io s) = Some {} \<and> bypass s AND 0x7f = bypass s \<and> length (fault_notify_cbs s) = 7 \<and> dom_inv v s"

lemma dom_inv_upd [simp]:
  "dom_inv v (s\<lparr>dev_priv := x\<rparr>) = dom_inv v s" "dom_inv v (s\<lparr>fault_notify_cbs := y\<rparr>) = dom_inv v s"
  by (simp_all add: dom_inv_def)

section \<open>Traces of the entry points\<close>

lemma lock_run_grows: "grows t W t' \<Longrightarrow> lock_run {} t = Some {} \<Longrightarrow> lock_run {} t' = Some {}"
  by (auto simp: grows_def lock_run_append lock_run_quiet)

lemma lock_run_dt_extends:
  assumes "extends (t @ [Lock dt_lock]) t'" "lock_run {} t = Some {}"
  shows "lock_run {} (t' @ [Unlock dt_lock]) = Some {}"
  using assms by (auto simp: extends_def lock_run_append)

lemma lock_run_critical:
  assumes "critical l w t t'" "lock_run {} t = Some {}" shows "lock_run {} t' = Some {}"
  using assms lock_run_quiet [of w "{l}"] by (auto simp: critical_def lock_run_append)

lemma zap_extends:
  assumes "hw_ok hw" "sunxi_zap_tlb v hw p iova sz t = Some t'" shows "extends t t'"
proof -
  have "\<exists>t'. sunxi_zap_tlb v hw p iova sz t = Some t' \<and> extends t t'"
    unfolding sunxi_zap_tlb_def
    by (auto intro!: calls_extends tlb_invalid_extends ptw_invalid_extends assms(1) simp del: calls.simps)
  with assms(2) show ?thesis by simp
qed

lemma inv_zap:
  assumes "hw_ok hw" "v1_inv v s" "sunxi_zap_tlb v hw p iova sz (io s @ [Lock dt_lock]) = Some t"
  shows "lock_run {} (t @ [Unlock dt_lock]) = Some {}"
  using lock_run_dt_extends [OF zap_extends [OF assms(1,3)]] assms(2) by (simp add: v1_inv_def)

lemma bypass_bits: "i < 7 \<Longrightarrow> master_id_bitmap ! i = push_bit i 1"
proof -
  assume "i < 7"
  then have "i \<in> {0, 1, 2, 3, 4, 5, 6}" by auto
  then show ?thesis by (auto simp: master_id_bitmap_def)
qed

lemma bypass_mask:
  assumes "i < 7" "x AND 0x7f = (x :: u32)"
  shows "(x AND NOT (push_bit i 1)) AND 0x7f = x AND NOT (push_bit i 1)" "(x OR push_bit i 1) AND 0x7f = x OR push_bit i 1"
proof -
  have m: "(0x7f :: u32) = mask 7" by (simp add: mask_eq_exp_minus_1)
  have x: "bit x n \<Longrightarrow> n < 7" for n using arg_cong [OF assms(2), of "\<lambda>w. bit w n"] by (auto simp: m bit_simps)
  show "(x AND NOT (push_bit i 1)) AND 0x7f = x AND NOT (push_bit i 1)" "(x OR push_bit i 1) AND 0x7f = x OR push_bit i 1"
    unfolding m by (rule bit_word_eqI; use x assms(1) in \<open>auto simp: bit_simps\<close>)+
qed

lemma enable_device_step:
  assumes "sunxi_enable_device_iommu i f s = Some s'"
  shows "s' = s\<lparr>bypass := bypass s', io := io s'\<rparr>" "critical iommu_lock [Wr IOMMU_BYPASS_REG (bypass s')] (io s) (io s')"
    "bypass s' = (if f then bypass s AND NOT (push_bit (unat i) 1) else bypass s OR push_bit (unat i) 1)" "unat i < 7"
  using assms bypass_bits [of "unat i"]
  by (auto simp: sunxi_enable_device_iommu_def sunxi_iommu_write_def critical_def quiet_def Let_def master_id_bitmap_def
      split: if_splits)

lemma enable_device_inv:
  assumes "sunxi_enable_device_iommu i f s = Some s'" "v1_inv v s" shows "v1_inv v s'"
proof -
  note E = enable_device_step [OF assms(1)]
  have "bypass s' AND 0x7f = bypass s'"
    using assms(2) bypass_mask [OF E(4), of "bypass s"] unfolding E(3) v1_inv_def by auto
  moreover have "lock_run {} (io s') = Some {}" using lock_run_critical [OF E(2)] assms(2) by (simp add: v1_inv_def)
  moreover have "fault_notify_cbs s' = fault_notify_cbs s" "dom_inv v s' = dom_inv v s"
    by (subst E(1), simp add: dom_inv_def)+
  ultimately show ?thesis using assms(2) by (simp add: v1_inv_def)
qed

lemma inv_io:
  assumes "v1_inv v s" "s' = s\<lparr>io := io s'\<rparr>" "lock_run {} (io s') = Some {}" shows "v1_inv v s'"
proof -
  have "bypass s' = bypass s" "fault_notify_cbs s' = fault_notify_cbs s" "dom_inv v s' = dom_inv v s"
    by (subst assms(2), simp add: dom_inv_def)+
  with assms(1,3) show ?thesis by (simp add: v1_inv_def)
qed

lemma polled_grows: "polled hw offset m r t t' \<Longrightarrow> grows t [] t'"
  using polled_shape unfolding grows_def by metis

lemma wait_grows:
  assumes "hw_ok hw" "ms \<le> 2" "sunxi_wait_when hw offset m ms t = Some (r, t')" shows "grows t [] t'"
  using wait_ok [OF assms(1,2), of offset m t] assms(3) polled_grows by (metis option.inject prod.inject)

lemma grows_list: "(\<forall>e \<in> set w. quiet e) \<Longrightarrow> grows t (writes w) (t @ w)"
  by (auto simp: grows_def)

lemma inv_grows: "v1_inv v s \<Longrightarrow> grows (io s) W t \<Longrightarrow> v1_inv v (s\<lparr>io := t\<rparr>)"
  by (rule inv_io [of v s]) (use lock_run_grows in \<open>auto simp: v1_inv_def\<close>)

lemma test_write_grows:
  assumes "hw_ok hw" "sunxi_iova_test_write hw iova x t = Some (ret, t')" shows "\<exists>W. grows t W t'"
proof -
  let ?w = "[Wr IOMMU_VA_REG (ucast iova), Wr IOMMU_VA_DATA_REG x, Wr IOMMU_VA_CONFIG_REG 0x80000100, Wr IOMMU_VA_CONFIG_REG 0x80000101]"
  have "sunxi_wait_when hw IOMMU_VA_CONFIG_REG 1 1 (t @ ?w) = Some (ret, t')"
    using assms(2) by (simp add: sunxi_iova_test_write_def sunxi_iommu_write_def)
  then have "grows (t @ ?w) [] t'" by (rule wait_grows [OF assms(1), rotated]) simp
  with grows_trans [OF grows_list [of ?w t]] show ?thesis by (auto simp: quiet_def)
qed

lemma test_read_grows:
  assumes "hw_ok hw" "sunxi_iova_test_read hw iova t = Some (x, t')" shows "\<exists>W. grows t W t'"
proof -
  let ?w = "[Wr IOMMU_VA_REG (ucast iova), Wr IOMMU_VA_CONFIG_REG 0x80000000, Wr IOMMU_VA_CONFIG_REG 0x80000001]"
  obtain r t1 where t1: "sunxi_wait_when hw IOMMU_VA_CONFIG_REG 1 1 (t @ ?w) = Some (r, t1)"
    "t' = (if r \<noteq> 0 then t1 else snd (sunxi_iommu_read hw IOMMU_VA_DATA_REG t1))"
    using assms(2) by (auto simp: sunxi_iova_test_read_def sunxi_iommu_write_def Option.bind_eq_Some_conv
        sunxi_iommu_read_def Let_def split: if_splits)
  from t1(1) have "grows (t @ ?w) [] t1" by (rule wait_grows [OF assms(1), rotated]) simp
  then have "grows (t @ ?w) [] t'" unfolding t1(2)
    using grows_trans [OF _ grows_read [of t1 hw IOMMU_VA_DATA_REG]] by (cases "r = 0") fastforce+
  with grows_trans [OF grows_list [of ?w t]] show ?thesis by (auto simp: quiet_def)
qed

lemma reset_grows: "\<exists>W. grows t W (sunxi_reset_device_iommu hw i t)"
  by (auto simp: sunxi_reset_device_iommu_def sunxi_iommu_read_def sunxi_iommu_write_def grows_def quiet_def Let_def)

section \<open>Preservation\<close>

lemma dom_inv_pgt:
  assumes "dom_inv v s" "domains s a = Some d" "domains s' = domains s"
    "global_sunxi_iommu_domain s' = global_sunxi_iommu_domain s" "pt_wf v (pgtable d) (pgt s')"
  shows "dom_inv v s'"
proof -
  have "a' = a \<and> d' = d" if "domains s a' = Some d'" for a' d'
  proof -
    have "global_sunxi_iommu_domain s = Some a'" "global_sunxi_iommu_domain s = Some a"
      using assms(1,2) that unfolding dom_inv_def by blast+
    then show ?thesis using assms(2) that by simp
  qed
  note one = this
  have "global_sunxi_iommu_domain s = Some a" using assms(1,2) unfolding dom_inv_def by blast
  then have g: "global_sunxi_iommu_domain s' = Some a" using assms(4) by simp
  have none: "\<not> (\<forall>x. domains s' x = None)" using assms(2,3) by (metis option.distinct(1))
  have "global_sunxi_iommu_domain s' = Some a' \<and> pt_wf v (pgtable d') (pgt s')" if "domains s' a' = Some d'" for a' d'
    using one [of a' d'] that assms(3,5) g by metis
  with none show ?thesis unfolding dom_inv_def by blast
qed

lemma inv_map:
  assumes inv: "v1_inv v s" and d: "domains s a = Some d" and slab: "slab_ok v (pgtable d) zalloc"
    and args: "core_args v iova paddr sz" and eq: "sunxi_iommu_map v zalloc a iova paddr sz prot s = Some (ret, m, s')"
  shows "v1_inv v s'"
proof -
  have wf: "pt_wf v (pgtable d) (pgt s)" using inv d unfolding v1_inv_def dom_inv_def by blast
  have lock: "lock_run {} (io s @ [Lock dt_lock, Unlock dt_lock]) = Some {}"
    using inv by (simp add: v1_inv_def lock_run_append)
  have "v1_inv v (s\<lparr>pgt := g, io := io s @ [Lock dt_lock, Unlock dt_lock]\<rparr>)" if "pt_wf v (pgtable d) g" for g
    using inv lock dom_inv_pgt [OF _ d, of v "s\<lparr>pgt := g, io := io s @ [Lock dt_lock, Unlock dt_lock]\<rparr>"] that
    by (simp add: v1_inv_def)
  then show ?thesis using eq by (cases rule: map_spec [OF wf slab d args, of prot]) auto
qed

lemma inv_unmap:
  assumes hw: "hw_ok hw" and inv: "v1_inv v s" and args: "core_range v iova sz"
    and eq: "sunxi_iommu_unmap v hw a iova sz gather s = Some (n, gather', s')"
  shows "v1_inv v s'"
proof -
  obtain d where d: "domains s a = Some d" using eq by (auto simp: sunxi_iommu_unmap_def Option.bind_eq_Some_conv)
  have wf: "pt_wf v (pgtable d) (pgt s)" using inv d unfolding v1_inv_def dom_inv_def by blast
  obtain g t where u: "sunxi_iommu_unmap v hw a iova sz gather s =
        Some (sz, gathered iova (iova + sz) gather, s\<lparr>pgt := g, io := t @ [Unlock dt_lock]\<rparr>)"
      "extends (io s @ [Lock dt_lock]) t" "pt_wf v (pgtable d) g"
    by (rule drv1.unmap_spec [OF hw wf d args, of gather]) blast
  have s': "s' = s\<lparr>pgt := g, io := t @ [Unlock dt_lock]\<rparr>" using eq u(1) by simp
  show ?thesis
    using inv u(3) lock_run_dt_extends [OF u(2)] dom_inv_pgt [OF _ d, of v s'] by (simp add: v1_inv_def s')
qed

lemma zero_pgd_wf:
  assumes "aligned 14 p" "iopte_live g = []"
  shows "pt_wf v p (g\<lparr>mem := memset0 (unat (NUM_ENTRIES_PDE v)) p (mem g)\<rparr>)"
proof -
  have "\<not> dent_valid p (memset0 (unat (NUM_ENTRIES_PDE v)) p (mem g)) i" if "i < 4096" for i
  proof -
    have "\<exists>k < unat (NUM_ENTRIES_PDE v). cell p i = cell p k" using that by (auto simp: NUM_PDE)
    then show ?thesis unfolding dent_valid_def memset0_apply by simp
  qed
  with assms show ?thesis by (auto simp: pt_wf_def)
qed

lemma inv_domain_alloc:
  assumes hw: "hw_ok hw" and inv: "v1_inv v s" and al: "\<And>p. alloc_pgd a = Some p \<Longrightarrow> aligned 14 p"
    and eq: "sunxi_iommu_domain_alloc v hw a ty s = Some (r, s')"
  shows "v1_inv v s'"
proof (cases "s' = s")
  case False
  have g: "global_sunxi_iommu_domain s = None"
    using eq False by (auto simp: sunxi_iommu_domain_alloc_def split: if_splits option.splits)
  then have dom: "\<And>x. domains s x = None" using inv unfolding v1_inv_def dom_inv_def by (metis not_None_eq)
  then have live: "iopte_live (pgt s) = []" using inv by (simp add: v1_inv_def dom_inv_def)
  obtain d pgd where a: "alloc_domain a = Some d" "alloc_pgd a = Some pgd"
    using eq g False by (auto simp: sunxi_iommu_domain_alloc_def sunxi_pgtable_alloc_def split: if_splits option.splits)
  define g1 where "g1 = pgt s\<lparr>mem := memset0 (unat (NUM_ENTRIES_PDE v)) pgd (mem (pgt s))\<rparr>"
  have wf: "pt_wf v pgd g1" unfolding g1_def using al [OF a(2)] live by (rule zero_pgd_wf)
  show ?thesis
  proof (cases "alloc_sg a")
    case None
    then have "s' = s\<lparr>pgt := g1\<rparr>"
      using eq g False a by (auto simp: sunxi_iommu_domain_alloc_def sunxi_pgtable_alloc_def g1_def split: if_splits)
    then show ?thesis using inv dom live by (simp add: v1_inv_def dom_inv_def g1_def)
  next
    case (Some sg)
    define s1 where "s1 = s\<lparr>pgt := g1, domains := (domains s)(d \<mapsto> \<lparr>pgtable = pgd, sg_buffer = sg\<rparr>),
        global_sunxi_iommu_domain := Some d\<rparr>"
    have inv1: "v1_inv v s1" using inv dom wf by (auto simp: v1_inv_def dom_inv_def s1_def split: if_splits)
    have "s' = s1 \<or> (\<exists>ret. sunxi_iommu_hw_init hw d s1 = Some (ret, s'))"
      using eq g False a Some
      by (auto simp: sunxi_iommu_domain_alloc_def sunxi_pgtable_alloc_def g1_def s1_def Option.bind_eq_Some_conv
          Let_def split: if_splits)
    then show ?thesis
    proof
      assume "\<exists>ret. sunxi_iommu_hw_init hw d s1 = Some (ret, s')"
      moreover have "domains s1 d = Some \<lparr>pgtable = pgd, sg_buffer = sg\<rparr>" by (simp add: s1_def)
      ultimately obtain w b where w: "critical iommu_lock w (io s1) (io s')" "s' = s1\<lparr>io := io s', iommu_hw_init_flag := b\<rparr>"
        using hw_init_shape [OF hw, of s1 d] by (metis option.inject prod.inject)
      have "lock_run {} (io s') = Some {}" using lock_run_critical [OF w(1)] inv1 by (simp add: v1_inv_def)
      moreover have "bypass s' = bypass s1" "fault_notify_cbs s' = fault_notify_cbs s1" "dom_inv v s' = dom_inv v s1"
        by (subst w(2), simp add: dom_inv_def)+
      ultimately show ?thesis using inv1 by (simp add: v1_inv_def)
    qed (use inv1 in simp)
  qed
qed (use inv in simp)

lemma inv_domain_free:
  assumes hw: "hw_ok hw" and inv: "v1_inv v s" and eq: "sunxi_iommu_domain_free v hw a s = Some s'"
  shows "v1_inv v s'"
proof -
  obtain d where d: "domains s a = Some d" using eq by (auto simp: sunxi_iommu_domain_free_def Option.bind_eq_Some_conv)
  have wf: "pt_wf v (pgtable d) (pgt s)" using inv d unfolding v1_inv_def dom_inv_def by blast
  have only: "domains s x = None" if "x \<noteq> a" for x
    using inv d that unfolding v1_inv_def dom_inv_def by (metis not_None_eq option.inject)
  obtain ret w where f: "sunxi_tlb_flush hw (io s @ [Lock dt_lock]) =
      Some (ret, (io s @ [Lock dt_lock]) @ Wr IOMMU_TLB_FLUSH_ENABLE_REG 0x3007f # w)" "\<forall>e \<in> set w. quiet e"
    using flush_shape [OF hw] by metis
  have s': "s' = s\<lparr>pgt := sunxi_pgtable_clear v (pgtable d) (pgt s),
      io := (io s @ [Lock dt_lock]) @ Wr IOMMU_TLB_FLUSH_ENABLE_REG 0x3007f # w @ [Unlock dt_lock],
      domains := (domains s)(a := None)\<rparr>"
    using eq d f(1) by (simp add: sunxi_iommu_domain_free_def)
  have "lock_run {} (io s') = Some {}"
    using inv f(2) by (simp add: s' v1_inv_def lock_run_append lock_run_quiet)
  then show ?thesis using inv clear_spec(2) [OF wf] only by (simp add: v1_inv_def dom_inv_def s')
qed

lemma v1_step_inv:
  assumes "v1_step v hw s s'" "hw_ok hw" "v1_inv v s"
  shows "v1_inv v s'"
  using assms
proof (induction rule: v1_step.induct)
  case (step_map s a d zalloc iova paddr sz prot ret m s') then show ?case by (blast intro: inv_map)
next
  case (step_unmap iova sz a gather s n gather' s') then show ?case by (blast intro: inv_unmap)
next
  case (step_sync_map iova sz s ret s')
  then obtain t where "sunxi_zap_tlb v hw (plat s) iova sz (io s @ [Lock dt_lock]) = Some t" "s' = s\<lparr>io := t @ [Unlock dt_lock]\<rparr>"
    by (auto simp: sunxi_iommu_iotlb_sync_map_def Option.bind_eq_Some_conv)
  with inv_zap [OF step_sync_map(2,3)] show ?case by (intro inv_io [OF step_sync_map(3)]) simp_all
next
  case (step_sync gather s s')
  show ?case
  proof (cases "version (plat s) \<ge> IOMMU_VERSION_V14")
    case True with step_sync show ?thesis by (simp add: sunxi_iommu_iotlb_sync_def)
  next
    case False
    with step_sync(1) obtain t where "sunxi_zap_tlb v hw (plat s) (gather_start gather)
        (gather_end gather - gather_start gather) (io s @ [Lock dt_lock]) = Some t" "s' = s\<lparr>io := t @ [Unlock dt_lock]\<rparr>"
      by (auto simp: sunxi_iommu_iotlb_sync_def Option.bind_eq_Some_conv)
    with inv_zap [OF step_sync(2,3)] show ?thesis by (intro inv_io [OF step_sync(3)]) simp_all
  qed
next
  case (step_iova_to_phys a iova s p s')
  then have "s' = s\<lparr>io := io s @ [Lock dt_lock, Unlock dt_lock]\<rparr>"
    by (auto simp: sunxi_iommu_iova_to_phys_def Option.bind_eq_Some_conv)
  moreover have "lock_run {} (io s @ [Lock dt_lock, Unlock dt_lock]) = Some {}"
    using step_iova_to_phys(3) by (simp add: v1_inv_def lock_run_append)
  ultimately show ?case by (intro inv_io [OF step_iova_to_phys(3)]) simp_all
next
  case (step_domain_alloc al ty s r s') then show ?case by (blast intro: inv_domain_alloc)
next
  case (step_domain_free a s s') then show ?case by (blast intro: inv_domain_free)
next
  case (step_finalize dev s s')
  then show ?case by (auto simp: sunxi_iommu_probe_device_finalize_def Option.bind_eq_Some_conv intro: enable_device_inv)
next
  case (step_release dev s s')
  show ?case
  proof (cases "dev_priv s dev")
    case None with step_release show ?thesis by (simp add: sunxi_iommu_release_device_def)
  next
    case (Some ow)
    with step_release obtain s1 where s1: "sunxi_enable_device_iommu (owner_tlbid ow) False s = Some s1"
      "s' = s1\<lparr>dev_priv := (dev_priv s1)(dev := None)\<rparr>"
      by (auto simp: sunxi_iommu_release_device_def Option.bind_eq_Some_conv)
    then show ?thesis
      using enable_device_inv [OF s1(1) step_release(3)] by (simp add: v1_inv_def)
  qed
next
  case (step_of_xlate n b k dev x y s ret s')
  then show ?case by (auto simp: sunxi_iommu_of_xlate_def v1_inv_def split: if_splits)
next
  case (step_enable i f s s') then show ?case by (blast intro: enable_device_inv)
next
  case (step_reset s' i s)
  then show ?case using reset_grows [of "io s" hw i] inv_grows by blast
next
  case (step_register cb i s s')
  then show ?case by (auto simp: sunxi_iommu_register_fault_cb_def v1_inv_def split: if_splits)
next
  case (step_irq s s')
  obtain st l1 l2 where "irq_status hw (io s) = (st, l1, l2)" by (cases "irq_status hw (io s)") auto
  then obtain w where w: "critical iommu_lock w (io s) (io s')" "s' = s\<lparr>io := io s'\<rparr>"
    using irq_shape [OF step_irq(1)] by blast
  then show ?case
    using lock_run_critical [OF w(1)] step_irq(3) inv_io [OF step_irq(3) w(2)] by (simp add: v1_inv_def)
next
  case (step_test_write iova x s ret t)
  then show ?case using test_write_grows inv_grows by blast
next
  case (step_test_read iova s x t)
  then show ?case using test_read_grows inv_grows by blast
next
  case (step_debug_mode s)
  then show ?case using grows_write inv_grows unfolding sunxi_set_debug_mode_def by blast
next
  case (step_prefetch_mode s)
  then show ?case using grows_write inv_grows unfolding sunxi_set_prefetch_mode_def by blast
qed

lemma v1_reach_inv: "v1_reach v hw s0 s \<Longrightarrow> hw_ok hw \<Longrightarrow> v1_inv v s0 \<Longrightarrow> v1_inv v s"
  by (induction rule: v1_reach.induct) (auto intro: v1_step_inv)

section \<open>Properties\<close>

definition v1_start :: "plat_data \<Rightarrow> v1_state" where
  "v1_start p = \<lparr>io = [], plat = p, bypass = DEFAULT_BYPASS_VALUE, iommu_hw_init_flag = False,
     domains = Map.empty, global_sunxi_iommu_domain = None, pgt = \<lparr>mem = (\<lambda>_. 0), iopte_live = []\<rparr>,
     fault_notify_cbs = replicate 7 None, dev_priv = Map.empty\<rparr>"

lemma v1_start_inv: "v1_inv v (v1_start p)"
  by (simp add: v1_inv_def v1_start_def dom_inv_def DEFAULT_BYPASS_VALUE_def)

text \<open>
  C5.  In every state the driver can reach from its state after probing, by any sequence of calls of
  its entry points: no lock is left held, the bypass word has only the bits of the seven masters,
  at most one domain is live, and its page table is well-formed (every valid directory entry leads
  to a table of its own, every table in use is reachable, so none is leaked).
\<close>

theorem reachable_inv:
  assumes "hw_ok hw" "v1_reach v hw (v1_start p) s"
  shows "lock_run {} (io s) = Some {} \<and> bypass s AND 0x7f = bypass s \<and>
    (\<forall>a d. domains s a = Some d \<longrightarrow> global_sunxi_iommu_domain s = Some a \<and> pt_wf v (pgtable d) (pgt s)) \<and>
    ((\<forall>a. domains s a = None) \<longrightarrow> iopte_live (pgt s) = [])"
  using v1_reach_inv [OF assms(2,1) v1_start_inv] unfolding v1_inv_def dom_inv_def by blast

theorem reachable_inv_witness:
  "\<exists>s. v1_reach AW_IOMMU_PGTABLE_V1 (ex_hw 0) (v1_start (ex_plat 0x12)) s \<and> bypass s = 0x77 \<and>
    lock_run {} (io s) = Some {}"
proof -
  obtain s where s: "sunxi_enable_device_iommu 3 True (v1_start (ex_plat 0x12)) = Some s" "bypass s = 0x77"
    by (simp add: sunxi_enable_device_iommu_def v1_start_def master_id_bitmap_def DEFAULT_BYPASS_VALUE_def Let_def)
  then have "v1_reach AW_IOMMU_PGTABLE_V1 (ex_hw 0) (v1_start (ex_plat 0x12)) s"
    by (blast intro: v1_reach.intros v1_step.intros)
  with s(2) reachable_inv [OF ex_hw_ok this] show ?thesis by blast
qed

text \<open>
  C6.  \<open>sunxi_enable_device_iommu\<close> for one of the seven masters changes exactly that master's bit of
  the bypass word (cleared when translation is switched on, set when it is switched off) and writes
  the new word to the bypass register under \<open>iommu_lock\<close>; for any other master number it reads
  outside \<open>master_id_bitmap\<close>.
\<close>

theorem enable_device_bypass:
  "case sunxi_enable_device_iommu i f s of
     None \<Rightarrow> 7 \<le> unat i
   | Some s' \<Rightarrow> unat i < 7 \<and> (\<forall>n. bit (bypass s') n = (if n = unat i then \<not> f else bit (bypass s) n)) \<and>
       io s' = io s @ [Lock iommu_lock, Wr IOMMU_BYPASS_REG (bypass s'), Unlock iommu_lock] \<and>
       s' = s\<lparr>bypass := bypass s', io := io s'\<rparr>"
proof (cases "sunxi_enable_device_iommu i f s")
  case None
  then have "7 \<le> unat i"
    by (auto simp: sunxi_enable_device_iommu_def master_id_bitmap_def Let_def split: if_splits)
  with None show ?thesis by simp
next
  case (Some s')
  note E = enable_device_step [OF Some]
  have "bit (bypass s') n = (if n = unat i then \<not> f else bit (bypass s) n)" for n
    unfolding E(3) using E(4) by (cases "n < 32") (auto simp: bit_simps dest: bit_imp_le_length)
  with Some E(1,2,4) show ?thesis by (simp add: critical_def)
qed

text \<open>
  C7.  \<open>sunxi_iommu_hw_init\<close> on a live domain returns whatever the device does.  Under \<open>iommu_lock\<close> it
  programs the table base first, then prefetch, the invalidation modes the version has, the
  interrupt mask and the bypass word, then flushes; translation is enabled after the flush only,
  and not at all when the flush times out.  The flag that records the initialisation is set exactly
  on success, and nothing else of the driver's state changes.
\<close>

theorem hw_init_order:
  assumes "hw_ok hw" "domains s domain = Some d"
  shows "\<exists>ret s' w. sunxi_iommu_hw_init hw domain s = Some (ret, s') \<and>
    critical iommu_lock w (io s) (io s') \<and> ret \<in> {0, - ETIMEDOUT, - ENODEV} \<and>
    writes w = init_writes s (pgtable d) @
      (if ret = - ETIMEDOUT then [] else [(IOMMU_AUTO_GATING_REG, 1), (IOMMU_ENABLE_REG, 1)]) \<and>
    s' = s\<lparr>io := io s', iommu_hw_init_flag := iommu_hw_init_flag s \<or> ret = 0\<rparr>"
  by (rule hw_init_shape [OF assms]) (auto simp: IOMMU_ENABLE_def)

theorem hw_init_order_witness:
  "\<exists>ret s' w. sunxi_iommu_hw_init (ex_hw 0) 0x1000 ex_state = Some (ret, s') \<and>
    critical iommu_lock w [] (io s') \<and> hd (writes w) = (0x50, 0x40004000)"
  using hw_init_order [OF ex_hw_ok ex_state_domain, of 0]
  by (fastforce simp: ex_state_def init_writes_def ex_domain_def v1_regs)

text \<open>
  C8.  The interrupt handler returns on a device that finishes its invalidations, when there is a
  domain and the faulting master is one the driver knows.  When it returns, it has acknowledged exactly the status it read, and pulsed
  the reset bits of exactly the masters that the status and the two page-walk registers name (low
  sixteen bits, active low) before releasing all of them; these are its last three writes, after
  the invalidations.  All of it is one critical section of \<open>iommu_lock\<close>.
\<close>

theorem irq_acknowledges:
  assumes "irq_status hw (io s) = (st, l1, l2)"
  shows "(invalidation_ends hw IOMMU_TLB_IVLD_ENABLE_REG \<and> invalidation_ends hw IOMMU_PC_IVLD_ENABLE_REG \<and>
      fault_known 0 (st OR l1 OR l2) s \<longrightarrow> sunxi_iommu_irq v hw s \<noteq> None) \<and>
    (\<forall>s'. sunxi_iommu_irq v hw s = Some s' \<longrightarrow> (\<exists>w addr. critical iommu_lock w (io s) (io s') \<and> s' = s\<lparr>io := io s'\<rparr> \<and>
      writes w = irq_tlb_writes (plat s) addr @ irq_ptw_writes v (plat s) addr @
        [(IOMMU_INT_CLR_REG, st), (IOMMU_RESET_REG, NOT ((st OR l1 OR l2) AND 0xffff)), (IOMMU_RESET_REG, 0xffffffff)]))"
proof (intro conjI allI impI)
  show "sunxi_iommu_irq v hw s \<noteq> None" if "invalidation_ends hw IOMMU_TLB_IVLD_ENABLE_REG \<and>
      invalidation_ends hw IOMMU_PC_IVLD_ENABLE_REG \<and> fault_known 0 (st OR l1 OR l2) s"
    using irq_returns assms that by (metis option.distinct(1))
  fix s' assume "sunxi_iommu_irq v hw s = Some s'"
  then obtain w addr where "critical iommu_lock w (io s) (io s')" "s' = s\<lparr>io := io s'\<rparr>"
    "writes w = irq_tlb_writes (plat s) addr @ irq_ptw_writes v (plat s) addr @
       [(IOMMU_INT_CLR_REG, st), (IOMMU_RESET_REG, NOT ((st OR (l1 OR l2)) AND 0xffff)), (IOMMU_RESET_REG, 0xffffffff)]"
    using irq_shape [OF _ assms] by blast
  then show "\<exists>w addr. critical iommu_lock w (io s) (io s') \<and> s' = s\<lparr>io := io s'\<rparr> \<and>
      writes w = irq_tlb_writes (plat s) addr @ irq_ptw_writes v (plat s) addr @
        [(IOMMU_INT_CLR_REG, st), (IOMMU_RESET_REG, NOT ((st OR l1 OR l2) AND 0xffff)), (IOMMU_RESET_REG, 0xffffffff)]"
    unfolding or.assoc by blast
qed

theorem irq_acknowledges_witness:
  "\<exists>s' w W. sunxi_iommu_irq AW_IOMMU_PGTABLE_V1 (ex_hw 2) ex_state = Some s' \<and> critical iommu_lock w [] (io s') \<and>
    writes w = W @ [(0x104, 2), (0x10, 0xfffffffd), (0x10, 0xffffffff)]"
proof -
  have "ffs32 2 = Some 1" by (simp add: ffs32_def upt_rec numeral_eq_Suc bit_Suc)
  then have known: "fault_known 0 2 ex_state" by (simp add: fault_known_def ex_state_def ex_plat_def)
  have st: "irq_status (ex_hw 2) (io ex_state) = (2, 2, 2)"
    by (simp add: irq_status_def ex_hw_def Let_def)
  have ends: "invalidation_ends (ex_hw 2) a" for a by (simp add: invalidation_ends_def ex_hw_def)
  obtain s' where s': "sunxi_iommu_irq AW_IOMMU_PGTABLE_V1 (ex_hw 2) ex_state = Some s'"
    using irq_acknowledges [OF st] ends known by fastforce
  then show ?thesis using irq_acknowledges [OF st] by (fastforce simp: v1_regs ex_state_def)
qed

text \<open>
  A domain is allocated once: when there is none and memory suffices, \<open>sunxi_iommu_domain_alloc\<close>
  returns a live domain in which no address translates, and every later request of either type
  returns the same domain and changes nothing.
\<close>

theorem domain_alloc_once:
  assumes "hw_ok hw" "v1_inv v s" "global_sunxi_iommu_domain s = None" "ty \<noteq> IOMMU_DOMAIN_OTHER"
    and "alloc_domain al = Some a" "alloc_pgd al = Some p" "alloc_sg al = Some sg" "aligned 14 p"
  shows "\<exists>s'. sunxi_iommu_domain_alloc v hw al ty s = Some (Some a, s') \<and> v1_inv v s' \<and>
    (\<forall>w. xlate v a w s' = Some 0) \<and>
    (\<forall>al' ty'. ty' \<noteq> IOMMU_DOMAIN_OTHER \<longrightarrow> sunxi_iommu_domain_alloc v hw al' ty' s' = Some (Some a, s'))"
proof -
  define g1 where "g1 = pgt s\<lparr>mem := memset0 (unat (NUM_ENTRIES_PDE v)) p (mem (pgt s))\<rparr>"
  define s1 where "s1 = s\<lparr>pgt := g1, domains := (domains s)(a \<mapsto> \<lparr>pgtable = p, sg_buffer = sg\<rparr>),
      global_sunxi_iommu_domain := Some a\<rparr>"
  have d: "domains s1 a = Some \<lparr>pgtable = p, sg_buffer = sg\<rparr>" by (simp add: s1_def)
  obtain ret s2 b where i: "sunxi_iommu_hw_init hw a s1 = Some (ret, s2)"
    "s2 = s1\<lparr>io := io s2, iommu_hw_init_flag := b\<rparr>"
    using hw_init_shape [OF assms(1) d] by metis
  have flds: "domains s2 = domains s1" "global_sunxi_iommu_domain s2 = Some a" "pgt s2 = g1"
    by (subst i(2), simp add: s1_def)+
  define s' where "s' = (if iommu_hw_init_flag s then s1 else s2)"
  have eq: "sunxi_iommu_domain_alloc v hw al ty s = Some (Some a, s')"
    using assms(3-7) i(1)
    by (cases ty) (simp_all add: sunxi_iommu_domain_alloc_def sunxi_pgtable_alloc_def s'_def s1_def g1_def Let_def)
  have inv: "v1_inv v s'"
    using inv_domain_alloc [OF assms(1,2) _ eq] assms(6,8) by simp
  have f: "domains s' a = Some \<lparr>pgtable = p, sg_buffer = sg\<rparr>" "global_sunxi_iommu_domain s' = Some a" "pgt s' = g1"
    using flds d by (auto simp: s'_def s1_def)
  have "pt_lookup v p (mem g1) P = None" for P
  proof -
    let ?i = "P div npte v mod 4096"
    have "\<exists>k < 4096. cell p ?i = cell p k" by (rule exI [of _ ?i]) simp
    then have "mem g1 (cell p ?i) = 0" by (simp add: g1_def NUM_PDE memset0_apply)
    then show ?thesis by (simp add: pt_lookup_def dent_valid_def Let_def)
  qed
  then have "xlate v a w s' = Some 0" for w by (intro xlate_unmapped [OF f(1)]) (simp add: f(3))
  moreover have "sunxi_iommu_domain_alloc v hw al' ty' s' = Some (Some a, s')" if "ty' \<noteq> IOMMU_DOMAIN_OTHER" for al' ty'
    using that f(2) by (simp add: sunxi_iommu_domain_alloc_def)
  ultimately show ?thesis using eq inv by blast
qed

definition ex_allocs :: domain_allocs where
  "ex_allocs = \<lparr>alloc_domain = Some 0x1000, alloc_pgd = Some 0x40004000, alloc_sg = Some 0x50000000\<rparr>"

theorem domain_alloc_once_witness:
  "\<exists>s'. sunxi_iommu_domain_alloc AW_IOMMU_PGTABLE_V1 (ex_hw 0) ex_allocs IOMMU_DOMAIN_DMA (v1_start (ex_plat 0x12))
      = Some (Some 0x1000, s') \<and> xlate AW_IOMMU_PGTABLE_V1 0x1000 0x12345 s' = Some 0"
proof -
  have al: "aligned 14 (0x40004000 :: u64)" by (simp add: addr_simps)
  have g: "global_sunxi_iommu_domain (v1_start p) = None" for p by (simp add: v1_start_def)
  have a: "alloc_domain ex_allocs = Some 0x1000" "alloc_pgd ex_allocs = Some 0x40004000" "alloc_sg ex_allocs = Some 0x50000000"
    by (simp_all add: ex_allocs_def)
  show ?thesis
    using domain_alloc_once [OF ex_hw_ok v1_start_inv g domain_type.distinct(3) a al] by blast
qed

text \<open>
  \<open>sunxi_iommu_domain_free\<close> returns every second-level table of the domain to the cache and the
  domain is gone; but the global pointer still names it, so the next \<open>sunxi_iommu_domain_alloc\<close>
  returns the freed domain.
\<close>

theorem domain_free_dangling:
  assumes "hw_ok hw" "v1_inv v s" "domains s a = Some d"
  shows "\<exists>s'. sunxi_iommu_domain_free v hw a s = Some s' \<and> iopte_live (pgt s') = [] \<and> domains s' a = None \<and>
    sunxi_iommu_domain_alloc v hw al IOMMU_DOMAIN_DMA s' = Some (Some a, s')"
proof -
  have wf: "pt_wf v (pgtable d) (pgt s)" "global_sunxi_iommu_domain s = Some a"
    using assms(2,3) unfolding v1_inv_def dom_inv_def by blast+
  obtain ret t where "sunxi_tlb_flush hw (io s @ [Lock dt_lock]) = Some (ret, t)"
    using flush_shape [OF assms(1)] by blast
  then show ?thesis
    using assms(3) wf(2) clear_spec(2) [OF wf(1)]
    by (simp add: sunxi_iommu_domain_free_def sunxi_iommu_domain_alloc_def)
qed

theorem domain_free_dangling_witness:
  "\<exists>s'. sunxi_iommu_domain_free AW_IOMMU_PGTABLE_V1 (ex_hw 0) 0x1000 ex_state = Some s' \<and> domains s' 0x1000 = None \<and>
    sunxi_iommu_domain_alloc AW_IOMMU_PGTABLE_V1 (ex_hw 0) ex_allocs IOMMU_DOMAIN_DMA s' = Some (Some 0x1000, s')"
proof -
  have "v1_inv AW_IOMMU_PGTABLE_V1 ex_state"
    using ex_state_wf by (auto simp: v1_inv_def dom_inv_def ex_state_def split: if_splits)
  then show ?thesis using domain_free_dangling [OF ex_hw_ok _ ex_state_domain] by blast
qed

end
