(* ===== verification/Iommu_Probe.thy ===== *)
theory Iommu_Probe
  imports Iommu_Steps
begin

text \<open>
  The v1 driver's platform data, probing and removal, suspend and resume, the device group and the
  performance counters.  Probing acquires resources of the kernel one after the other; \<open>probe_env\<close>
  gives the outcome of each request, and the state records which resources are held, the number of
  entries of the reserved-region list, and whether the globals \<open>global_iommu_dev\<close> and \<open>dma_dev\<close> are set.
\<close>

section \<open>Platform data\<close>

definition mk_plat :: "u32 \<Rightarrow> u32 \<Rightarrow> u32 \<Rightarrow> u32 \<Rightarrow> string list \<Rightarrow> plat_data" where
  "mk_plat ver prefetch tlb ptw names =
     \<lparr>version = ver, tlb_prefetch = prefetch, tlb_invalid_mode = tlb, ptw_invalid_mode = ptw,
      master = map Some names @ replicate (8 - length names) None\<rparr>"

definition iommu_v10_sun50iw6_data :: plat_data where
  "iommu_v10_sun50iw6_data = mk_plat 0x10 0x7f 0x0 0x0 [''DE'', ''VE_R'', ''DI'', ''VE'', ''CSI'', ''VP9'']"

definition iommu_v11_sun8iw15_data :: plat_data where
  "iommu_v11_sun8iw15_data = mk_plat 0x11 0x5f 0x0 0x0
     [''DE'', ''E_EDMA'', ''E_FE'', ''VE'', ''CSI'', ''G2D'', ''E_BE'', ''DEBUG_MODE'']"

definition iommu_v12_sun8iw19_data :: plat_data where
  "iommu_v12_sun8iw19_data = mk_plat 0x12 0x0 0x1 0x0
     [''DE'', ''EISE'', ''AI'', ''VE'', ''CSI'', ''ISP'', ''G2D'', ''DEBUG_MODE'']"

definition iommu_v12_sun50iw9_data :: plat_data where
  "iommu_v12_sun50iw9_data = mk_plat 0x12 0x0 0x1 0x0
     [''DE'', ''DI'', ''VE_R'', ''VE'', ''CSI0'', ''CSI1'', ''G2D'', ''DEBUG_MODE'']"

definition iommu_v13_sun50iw10_data :: plat_data where
  "iommu_v13_sun50iw10_data = mk_plat 0x13 0x0 0x1 0x0
     [''DE0'', ''DE1'', ''VE'', ''CSI'', ''ISP'', ''G2D'', ''EINK'', ''DEBUG_MODE'']"

definition iommu_v14_sun50iw12_data :: plat_data where
  "iommu_v14_sun50iw12_data = mk_plat 0x14 0x3007f 0x1 0x1
     [''VE'', ''VE_R'', ''TVD_MBUS'', ''TVD_AXI'', ''TVCAP'', ''AV1'', ''TVFE'', ''DEBUG_MODE'']"

definition iommu_v14_sun8iw20_data :: plat_data where
  "iommu_v14_sun8iw20_data = mk_plat 0x14 0x30016 0x1 0x1 [''VE'', ''CSI'', ''DE'', ''G2D'', ''DI'', ''DEBUG_MODE'']"

definition iommu_v14_sun8iw21_data :: plat_data where
  "iommu_v14_sun8iw21_data = mk_plat 0x14 0x30077 0x1 0x1
     [''VE'', ''CSI'', ''DE'', ''G2D'', ''ISP'', ''RISCV'', ''NPU'', ''DEBUG_MODE'']"

definition iommu_v15_sun55iw3_data :: plat_data where
  "iommu_v15_sun55iw3_data = mk_plat 0x15 0x30000 0x1 0x1
     [''ISP'', ''CSI'', ''VE0'', ''VE1'', ''G2D'', ''DE'', ''DI'', ''DEBUG_MODE'']"

definition sunxi_iommu_dt_ids :: "(string \<times> plat_data) list" where
  "sunxi_iommu_dt_ids =
     [(''allwinner,iommu-v10-sun50iw6'', iommu_v10_sun50iw6_data),
      (''allwinner,iommu-v11-sun8iw15'', iommu_v11_sun8iw15_data),
      (''allwinner,iommu-v12-sun8iw19'', iommu_v12_sun8iw19_data),
      (''allwinner,iommu-v12-sun50iw9'', iommu_v12_sun50iw9_data),
      (''allwinner,iommu-v13-sun50iw10'', iommu_v13_sun50iw10_data),
      (''allwinner,iommu-v14-sun50iw12'', iommu_v14_sun50iw12_data),
      (''allwinner,iommu-v14-sun8iw20'', iommu_v14_sun8iw20_data),
      (''allwinner,iommu-v14-sun8iw21'', iommu_v14_sun8iw21_data),
      (''allwinner,iommu-v14-sun20iw1'', iommu_v14_sun8iw20_data),
      (''allwinner,iommu-v15-sun55iw3'', iommu_v15_sun55iw3_data)]"

section \<open>Probing\<close>

datatype resource = PTE_CACHE | DEVM_MEM | IOMAP | IRQ | CLK | PM_RUNTIME | SYSFS_FILES | SYSFS_IOMMU | IOMMU_REG
  | PLAT_MEM | MASTER_NAME | CLK_ARRAY

record probe_env =
  env_cache :: bool
  env_mem :: bool
  env_res :: bool
  env_iomap :: bool
  env_irq :: int
  env_request_irq :: int
  env_clk :: bool
  env_plat :: plat_data
  env_version_reg :: u32
  env_parent :: bool
  env_sysfs_add :: int
  env_register :: int

record probe_state =
  held :: "resource list"
  dev_bypass :: u32
  dev_irq :: int
  rsv_entries :: nat
  global_iommu_dev :: bool
  dma_dev :: bool

definition acquire :: "resource \<Rightarrow> 'a probe_state_scheme \<Rightarrow> 'a probe_state_scheme" where
  "acquire r s = s\<lparr>held := r # held s\<rparr>"

definition release :: "resource \<Rightarrow> 'a probe_state_scheme \<Rightarrow> 'a probe_state_scheme" where
  "release r s = s\<lparr>held := remove1 r (held s)\<rparr>"

text \<open>
  The three unwinding labels of the function, each falling through to the next.
\<close>

definition err_res :: "'a probe_state_scheme \<Rightarrow> 'a probe_state_scheme" where
  "err_res s = release PTE_CACHE s"

definition err_irq :: "'a probe_state_scheme \<Rightarrow> 'a probe_state_scheme" where
  "err_irq s = err_res (release IOMAP s)"

definition err_clk :: "'a probe_state_scheme \<Rightarrow> 'a probe_state_scheme" where
  "err_clk s = err_irq (release IRQ s)"

definition sunxi_iommu_probe :: "probe_env \<Rightarrow> probe_state \<Rightarrow> int \<times> probe_state" where
  "sunxi_iommu_probe e s =
     (if \<not> env_cache e then (- ENOMEM, s) else
      let s = acquire PTE_CACHE s in
      if \<not> env_mem e then (- ENOMEM, s) else
      let s = acquire DEVM_MEM s in
      if \<not> env_res e then (- ENOENT, err_res s) else
      if \<not> env_iomap e then (- ENOENT, err_res s) else
      let s = (acquire IOMAP s)\<lparr>dev_bypass := DEFAULT_BYPASS_VALUE\<rparr> in
      if env_irq e \<le> 0 then (- ENOENT, err_irq s) else
      let ret = env_request_irq e in
      if ret < 0 then (ret, err_irq s) else
      let s = (acquire IRQ s)\<lparr>dev_irq := env_irq e\<rparr> in
      if \<not> env_clk e then (- ENOENT, err_clk s) else
      let s = acquire CLK s; s = s\<lparr>global_iommu_dev := True\<rparr> in
      if version (env_plat e) \<noteq> env_version_reg e then (ret, err_clk s) else
      let s = (if env_parent e then acquire PM_RUNTIME s else s);
          s = acquire SYSFS_FILES s;
          ret = env_sysfs_add e in
      if ret \<noteq> 0 then (ret, err_clk s) else
      let s = acquire SYSFS_IOMMU s; ret = env_register e in
      if ret \<noteq> 0 then (ret, err_clk s) else
      let s = acquire IOMMU_REG s in
      (0, s\<lparr>rsv_entries := 0, dma_dev := True\<rparr>))"

definition sunxi_iommu_remove :: "probe_state \<Rightarrow> int \<times> probe_state" where
  "sunxi_iommu_remove s =
     (0, (fold release [PTE_CACHE, IRQ, IOMAP, SYSFS_FILES, SYSFS_IOMMU, IOMMU_REG] s)\<lparr>rsv_entries := 0, global_iommu_dev := False\<rparr>)"

section \<open>Power management\<close>

datatype clk_op = clk_disable_unprepare | clk_prepare_enable

definition sunxi_iommu_suspend :: "int \<times> clk_op list" where
  "sunxi_iommu_suspend = (0, [clk_disable_unprepare])"

definition sunxi_iommu_resume :: "hw \<Rightarrow> v1_state \<Rightarrow> (int \<times> clk_op list \<times> v1_state) option" where
  "sunxi_iommu_resume hw s =
     (case global_sunxi_iommu_domain s of
        None \<Rightarrow> Some (0, [clk_prepare_enable], s)
      | Some d \<Rightarrow> do {
          (err, s) \<leftarrow> sunxi_iommu_hw_init hw d s;
          Some (err, [clk_prepare_enable], s)
        })"

text \<open>
  \<open>sunxi_iommu_device_group\<close> without the notifier: the group is made once.  \<open>iommu_group_alloc\<close>
  returns an error pointer on failure, which is stored in the global all the same.
\<close>

datatype group_ptr = Group nat | Err_ptr int

definition sunxi_iommu_device_group ::
  "bool \<Rightarrow> group_ptr \<Rightarrow> group_ptr option \<Rightarrow> group_ptr \<times> group_ptr option" where
  "sunxi_iommu_device_group kzalloc_ok alloced global_group =
     (case global_group of
        None \<Rightarrow>
          if \<not> kzalloc_ok then (Err_ptr (- ENOMEM), None)
          else (case alloced of
                  Err_ptr e \<Rightarrow> (Err_ptr (- EBUSY), Some (Err_ptr e))
                | Group g \<Rightarrow> (Group g, Some (Group g)))
      | Some g \<Rightarrow> (g, Some g))"

section \<open>Performance counters\<close>

definition sunxi_iommu_enable_show :: "hw \<Rightarrow> trace \<Rightarrow> nat \<times> trace" where
  "sunxi_iommu_enable_show hw t =
     (let (data, t) = sunxi_iommu_read hw IOMMU_PMU_ENABLE_REG (t @ [Lock iommu_lock])
      in (if data AND 0x1 \<noteq> 0 then 1 else 0, t @ [Unlock iommu_lock]))"

text \<open>
  \<open>val\<close> is the result of \<open>kstrtoul\<close> on the text written, \<open>None\<close> when it is not a number.
\<close>

definition sunxi_iommu_enable_store :: "hw \<Rightarrow> u64 option \<Rightarrow> nat \<Rightarrow> trace \<Rightarrow> (int \<times> trace) option" where
  "sunxi_iommu_enable_store hw val count t =
     (case val of
        None \<Rightarrow> Some (- EINVAL, t)
      | Some val \<Rightarrow>
          if val \<noteq> 0 then do {
            let (data, t) = sunxi_iommu_read hw IOMMU_PMU_ENABLE_REG (t @ [Lock iommu_lock]);
            let t = sunxi_iommu_write IOMMU_PMU_ENABLE_REG (data OR 0x1) t;
            let (data, t) = sunxi_iommu_read hw IOMMU_PMU_CLR_REG t;
            let t = sunxi_iommu_write IOMMU_PMU_CLR_REG (data OR 0x1) t;
            (retval, t) \<leftarrow> sunxi_wait_when hw IOMMU_PMU_CLR_REG 0x1 1 t;
            Some (int count, t @ [Unlock iommu_lock])
          } else do {
            let (data, t) = sunxi_iommu_read hw IOMMU_PMU_CLR_REG (t @ [Lock iommu_lock]);
            let t = sunxi_iommu_write IOMMU_PMU_CLR_REG (data OR 0x1) t;
            (retval, t) \<leftarrow> sunxi_wait_when hw IOMMU_PMU_CLR_REG 0x1 1 t;
            let (data, t) = sunxi_iommu_read hw IOMMU_PMU_ENABLE_REG t;
            let t = sunxi_iommu_write IOMMU_PMU_ENABLE_REG (data AND NOT 0x1) t;
            Some (int count, t @ [Unlock iommu_lock])
          })"

record micro_tlb =
  access_count :: u64
  hit_count :: u64
  latency :: u64
  max_latency :: u32

record iommu_profile =
  macrotlb_access_count :: u64
  macrotlb_hit_count :: u64
  ptwcache_access_count :: u64
  ptwcache_hit_count :: u64
  micro_tlbs :: "micro_tlb list"

definition read_wide :: "hw \<Rightarrow> u32 \<Rightarrow> u32 \<Rightarrow> u32 \<Rightarrow> trace \<Rightarrow> u64 \<times> trace" where
  "read_wide hw high low m t =
     (let (h, t) = sunxi_iommu_read hw high t;
          (l, t) = sunxi_iommu_read hw low t
      in (push_bit 32 (ucast (h AND m)) OR ucast l, t))"

fun map_trace :: "('a \<Rightarrow> trace \<Rightarrow> 'b \<times> trace) \<Rightarrow> 'a list \<Rightarrow> trace \<Rightarrow> 'b list \<times> trace" where
  "map_trace f [] t = ([], t)"
| "map_trace f (x # xs) t = (let (y, t) = f x t; (ys, t) = map_trace f xs t in (y # ys, t))"

definition read_access_hit :: "hw \<Rightarrow> nat \<Rightarrow> trace \<Rightarrow> (u64 \<times> u64) \<times> trace" where
  "read_access_hit hw i t =
     (let (a, t) = read_wide hw (IOMMU_PMU_ACCESS_HIGH_REG i) (IOMMU_PMU_ACCESS_LOW_REG i) 0x7ff t;
          (h, t) = read_wide hw (IOMMU_PMU_HIT_HIGH_REG i) (IOMMU_PMU_HIT_LOW_REG i) 0x7ff t
      in ((a, h), t))"

definition profilling_read :: "hw \<Rightarrow> trace \<Rightarrow> iommu_profile \<times> trace" where
  "profilling_read hw t =
     (let t = t @ [Lock iommu_lock];
          (ah, t) = map_trace (read_access_hit hw) [0..<7] t;
          ((ma, mh), t) = read_access_hit hw 7 t;
          ((pa, ph), t) = read_access_hit hw 8 t;
          (tl, t) = map_trace (\<lambda>i. read_wide hw (IOMMU_PMU_TL_HIGH_REG i) (IOMMU_PMU_TL_LOW_REG i) 0x3ffff) [0..<7] t;
          (ml, t) = map_trace (\<lambda>i. sunxi_iommu_read hw (IOMMU_PMU_ML_REG i)) [0..<7] t
      in (\<lparr>macrotlb_access_count = ma, macrotlb_hit_count = mh, ptwcache_access_count = pa, ptwcache_hit_count = ph,
           micro_tlbs = map (\<lambda>i. \<lparr>access_count = fst (ah ! i), hit_count = snd (ah ! i), latency = tl ! i, max_latency = ml ! i\<rparr>) [0..<7]\<rparr>,
          t @ [Unlock iommu_lock]))"

text \<open>
  \<open>sunxi_iommu_profilling_show\<close> prints the counters through the pointer it has just freed: with no
  memory it dereferences a null pointer, otherwise a freed one.  Both are \<open>None\<close>.
\<close>

definition sunxi_iommu_profilling_show :: "hw \<Rightarrow> bool \<Rightarrow> trace \<Rightarrow> iommu_profile option \<times> trace" where
  "sunxi_iommu_profilling_show hw kmalloc_ok t =
     (if \<not> kmalloc_ok then (None, t) else (None, snd (profilling_read hw t)))"

section \<open>Properties\<close>

definition probe_start :: probe_state where
  "probe_start = \<lparr>held = [], dev_bypass = 0, dev_irq = 0, rsv_entries = 0, global_iommu_dev = False, dma_dev = False\<rparr>"

lemmas probe_simps = sunxi_iommu_probe_def probe_start_def acquire_def release_def err_res_def err_irq_def err_clk_def Let_def

text \<open>
  A probe that fails gives back the interrupt, the register mapping and the table cache; the
  only exception is the failure of \<open>devm_kzalloc\<close>, after which the cache stays allocated.  The clock,
  once prepared, and the sysfs files, once created, are not given back on any path.
\<close>

theorem probe_unwinds:
  assumes "sunxi_iommu_probe e probe_start = (ret, s)" "ret \<noteq> 0"
  shows "IRQ \<notin> set (held s) \<and> IOMAP \<notin> set (held s) \<and> IOMMU_REG \<notin> set (held s) \<and>
    (PTE_CACHE \<in> set (held s) \<longleftrightarrow> env_cache e \<and> \<not> env_mem e) \<and>
    (CLK \<in> set (held s) \<longleftrightarrow> global_iommu_dev s)"
  using assms by (auto simp: probe_simps errno_simps split: if_splits)

definition ex_env :: probe_env where
  "ex_env = \<lparr>env_cache = True, env_mem = True, env_res = True, env_iomap = True, env_irq = 90, env_request_irq = 0,
     env_clk = True, env_plat = iommu_v12_sun50iw9_data, env_version_reg = 0x12, env_parent = True,
     env_sysfs_add = 0, env_register = 0\<rparr>"

theorem probe_unwinds_witness:
  "\<exists>s. sunxi_iommu_probe (ex_env\<lparr>env_sysfs_add := - 12\<rparr>) probe_start = (- 12, s) \<and> IRQ \<notin> set (held s) \<and> CLK \<in> set (held s)"
proof -
  obtain s where s: "sunxi_iommu_probe (ex_env\<lparr>env_sysfs_add := - 12\<rparr>) probe_start = (- 12, s)" "global_iommu_dev s"
    by (simp add: probe_simps ex_env_def iommu_v12_sun50iw9_data_def mk_plat_def)
  with probe_unwinds [OF s(1)] show ?thesis by simp
qed

text \<open>
  When the version register does not match the device tree, the probe reports success although
  it has released the interrupt, the register mapping and the table cache again and has not
  registered with the IOMMU core; the global device pointer stays set.
\<close>

theorem probe_mismatch_succeeds:
  assumes "env_cache e" "env_mem e" "env_res e" "env_iomap e" "0 < env_irq e" "env_request_irq e = 0" "env_clk e"
    and "version (env_plat e) \<noteq> env_version_reg e"
  shows "\<exists>s. sunxi_iommu_probe e probe_start = (0, s) \<and> set (held s) = {DEVM_MEM, CLK} \<and> global_iommu_dev s"
  using assms by (auto simp: probe_simps)

theorem probe_mismatch_succeeds_witness:
  "\<exists>s. sunxi_iommu_probe (ex_env\<lparr>env_version_reg := 0x14\<rparr>) probe_start = (0, s) \<and> IRQ \<notin> set (held s)"
  using probe_mismatch_succeeds [of "ex_env\<lparr>env_version_reg := 0x14\<rparr>"]
  by (auto simp: ex_env_def iommu_v12_sun50iw9_data_def mk_plat_def)

lemma read_wide_unat:
  assumes "n \<le> 32"
  shows "unat (push_bit 32 (ucast ((h :: u32) AND mask n)) OR ucast (l :: u32) :: u64) = (unat h mod 2 ^ n) * 2 ^ 32 + unat l"
proof -
  let ?H = "ucast (h AND mask n) :: u64"
  have h: "unat ?H = unat h mod 2 ^ n"
  proof -
    have "unat (h AND mask n) < 2 ^ 32" using unsigned_less [of "h AND mask n", where ?'a = nat] by simp
    then have "unat ?H = unat (h AND mask n)" by (simp add: unsigned_ucast_eq take_bit_eq_mod)
    also have "\<dots> = unat (take_bit n h)" by (simp add: take_bit_eq_mask)
    also have "\<dots> = take_bit n (unat h)" by (rule unsigned_take_bit_eq)
    finally show ?thesis by (simp add: take_bit_eq_mod)
  qed
  have "unat h mod 2 ^ n < 2 ^ 32"
    using unsigned_less [of h, where ?'a = nat] by (intro le_less_trans [OF mod_less_eq_dividend]) simp
  then have "unat (push_bit 32 ?H) = (unat h mod 2 ^ n) * 2 ^ 32"
    using h by (simp add: push_bit_eq_mult unat_word_ariths)
  moreover have "push_bit 32 ?H OR ucast l = push_bit 32 ?H + ucast l"
    by (rule disjunctive_add [symmetric]) (auto simp: bit_simps dest: bit_imp_le_length)
  moreover have lt: "unat l < 2 ^ 32" using unsigned_less [of l, where ?'a = nat] by simp
  moreover from lt have "unat (ucast l :: u64) = unat l" by (simp add: unsigned_ucast_eq take_bit_eq_mod)
  ultimately show ?thesis
    using \<open>unat h mod 2 ^ n < 2 ^ 32\<close> by (simp add: unat_word_ariths)
qed

text \<open>
  A wide counter is put together from the low bits of its high register and its low register
  without loss: eleven high bits for the access and hit counts.
\<close>

lemma read_wide_value:
  "unat (fst (read_wide hw high low 0x7ff t)) =
     (unat (reg hw t high) mod 2 ^ 11) * 2 ^ 32 + unat (reg hw (t @ [Rd high]) low)"
proof -
  have m: "(0x7ff :: u32) = mask 11" by (simp add: mask_eq_exp_minus_1)
  show ?thesis
    unfolding read_wide_def sunxi_iommu_read_def prod.case Let_def fst_conv m by (rule read_wide_unat) simp
qed

end
