(* ===== verification/Iommu_V2.thy ===== *)
theory Iommu_V2
  imports Iommu_V1
begin

text \<open>
  The driver \<open>sunxi-iommu-v2.c\<close>, for a device with two identical register sets of six masters each:
  registers, masters, initialisation and TLB maintenance, mapping and unmapping, domains, client
  devices, test accesses and the interrupt handler.  Names that the v1 driver has too carry the
  suffix \<open>_v2\<close> (\<open>_V2\<close> for registers).  The driver's state has the fields of the v1 driver's, with
  twelve masters instead of seven; the records are shared.  The build is the one for Linux 6.1
  and later, as for v1; shifting 1 by 32 or more positions is a result \<open>None\<close>.
\<close>

section \<open>Registers\<close>

named_theorems v2_regs "register offsets of the IOMMU with two register sets"

definition IOMMU_VERSION_REG_V2 :: u32 where [v2_regs]: "IOMMU_VERSION_REG_V2 = 0x0000"
definition IOMMU_RESET_REG_V2 :: u32 where [v2_regs]: "IOMMU_RESET_REG_V2 = 0x0010"
definition IOMMU_ENABLE_REG_V2 :: u32 where [v2_regs]: "IOMMU_ENABLE_REG_V2 = 0x0014"
definition IOMMU_AUTO_GATING_REG_V2 :: u32 where [v2_regs]: "IOMMU_AUTO_GATING_REG_V2 = 0x001c"
definition IOMMU_TTB_REG_V2 :: u32 where [v2_regs]: "IOMMU_TTB_REG_V2 = 0x0020"
definition IOMMU_TLB_ENABLE_REG_V2 :: u32 where [v2_regs]: "IOMMU_TLB_ENABLE_REG_V2 = 0x0028"
definition IOMMU_TLB_PREFETCH_REG_V2 :: u32 where [v2_regs]: "IOMMU_TLB_PREFETCH_REG_V2 = 0x002c"
definition IOMMU_TLB_FLUSH_ENABLE_REG_V2 :: u32 where [v2_regs]: "IOMMU_TLB_FLUSH_ENABLE_REG_V2 = 0x0030"
definition IOMMU_TLB_IVLD_MODE_SEL_REG_V2 :: u32 where [v2_regs]: "IOMMU_TLB_IVLD_MODE_SEL_REG_V2 = 0x0040"
definition IOMMU_TLB_IVLD_START_ADDR_REG_V2 :: u32 where [v2_regs]: "IOMMU_TLB_IVLD_START_ADDR_REG_V2 = 0x0044"
definition IOMMU_TLB_IVLD_END_ADDR_REG_V2 :: u32 where [v2_regs]: "IOMMU_TLB_IVLD_END_ADDR_REG_V2 = 0x0048"
definition IOMMU_TLB_IVLD_ADDR_REG_V2 :: u32 where [v2_regs]: "IOMMU_TLB_IVLD_ADDR_REG_V2 = 0x004c"
definition IOMMU_TLB_IVLD_ADDR_MASK_REG_V2 :: u32 where [v2_regs]: "IOMMU_TLB_IVLD_ADDR_MASK_REG_V2 = 0x0050"
definition IOMMU_TLB_IVLD_ENABLE_REG_V2 :: u32 where [v2_regs]: "IOMMU_TLB_IVLD_ENABLE_REG_V2 = 0x0054"
definition IOMMU_PC_IVLD_MODE_SEL_REG_V2 :: u32 where [v2_regs]: "IOMMU_PC_IVLD_MODE_SEL_REG_V2 = 0x0060"
definition IOMMU_PC_IVLD_ADDR_REG_V2 :: u32 where [v2_regs]: "IOMMU_PC_IVLD_ADDR_REG_V2 = 0x0064"
definition IOMMU_PC_IVLD_START_ADDR_REG_V2 :: u32 where [v2_regs]: "IOMMU_PC_IVLD_START_ADDR_REG_V2 = 0x0068"
definition IOMMU_PC_IVLD_ENABLE_REG_V2 :: u32 where [v2_regs]: "IOMMU_PC_IVLD_ENABLE_REG_V2 = 0x006c"
definition IOMMU_PC_IVLD_END_ADDR_REG_V2 :: u32 where [v2_regs]: "IOMMU_PC_IVLD_END_ADDR_REG_V2 = 0x0070"
definition IOMMU_INT_ENABLE_REG_V2 :: u32 where [v2_regs]: "IOMMU_INT_ENABLE_REG_V2 = 0x0080"
definition IOMMU_INT_CLR_REG_V2 :: u32 where [v2_regs]: "IOMMU_INT_CLR_REG_V2 = 0x0084"
definition IOMMU_INT_STA_REG_V2 :: u32 where [v2_regs]: "IOMMU_INT_STA_REG_V2 = 0x0088"
definition IOMMU_INT_ERR_LOW_ADDR7_REG_V2 :: u32 where [v2_regs]: "IOMMU_INT_ERR_LOW_ADDR7_REG_V2 = 0x008c"
definition IOMMU_INT_ERR_HIGH_ADDR7_REG_V2 :: u32 where [v2_regs]: "IOMMU_INT_ERR_HIGH_ADDR7_REG_V2 = 0x0090"
definition IOMMU_INT_ERR_LOW_ADDR8_REG_V2 :: u32 where [v2_regs]: "IOMMU_INT_ERR_LOW_ADDR8_REG_V2 = 0x0094"
definition IOMMU_INT_ERR_HIGH_ADDR8_REG_V2 :: u32 where [v2_regs]: "IOMMU_INT_ERR_HIGH_ADDR8_REG_V2 = 0x0098"
definition IOMMU_INT_ERR_DATA7_REG_V2 :: u32 where [v2_regs]: "IOMMU_INT_ERR_DATA7_REG_V2 = 0x009c"
definition IOMMU_INT_ERR_DATA8_REG_V2 :: u32 where [v2_regs]: "IOMMU_INT_ERR_DATA8_REG_V2 = 0x00a0"
definition IOMMU_L1PG_INT_REG_V2 :: u32 where [v2_regs]: "IOMMU_L1PG_INT_REG_V2 = 0x00b0"
definition IOMMU_L2PG_INT_REG_V2 :: u32 where [v2_regs]: "IOMMU_L2PG_INT_REG_V2 = 0x00b4"
definition IOMMU_LOW_VA_REG_V2 :: u32 where [v2_regs]: "IOMMU_LOW_VA_REG_V2 = 0x00c0"
definition IOMMU_HIGH_VA_REG_V2 :: u32 where [v2_regs]: "IOMMU_HIGH_VA_REG_V2 = 0x00c4"
definition IOMMU_VA_DATA_REG_V2 :: u32 where [v2_regs]: "IOMMU_VA_DATA_REG_V2 = 0x00c8"
definition IOMMU_VA_CONFIG_REG_V2 :: u32 where [v2_regs]: "IOMMU_VA_CONFIG_REG_V2 = 0x00cc"
definition IOMMU_PMU_ENABLE_REG_V2 :: u32 where [v2_regs]: "IOMMU_PMU_ENABLE_REG_V2 = 0x00e0"
definition IOMMU_PMU_CLR_REG_V2 :: u32 where [v2_regs]: "IOMMU_PMU_CLR_REG_V2 = 0x00e4"
definition IOMMU_PMU_ACCESS_LOW7_REG_V2 :: u32 where [v2_regs]: "IOMMU_PMU_ACCESS_LOW7_REG_V2 = 0x00f0"
definition IOMMU_PMU_ACCESS_HIGH7_REG_V2 :: u32 where [v2_regs]: "IOMMU_PMU_ACCESS_HIGH7_REG_V2 = 0x00f4"
definition IOMMU_PMU_HIT_LOW7_REG_V2 :: u32 where [v2_regs]: "IOMMU_PMU_HIT_LOW7_REG_V2 = 0x00f8"
definition IOMMU_PMU_HIT_HIGH7_REG_V2 :: u32 where [v2_regs]: "IOMMU_PMU_HIT_HIGH7_REG_V2 = 0x00fc"
definition IOMMU_PMU_ACCESS_LOW8_REG_V2 :: u32 where [v2_regs]: "IOMMU_PMU_ACCESS_LOW8_REG_V2 = 0x0100"
definition IOMMU_PMU_ACCESS_HIGH8_REG_V2 :: u32 where [v2_regs]: "IOMMU_PMU_ACCESS_HIGH8_REG_V2 = 0x0104"
definition IOMMU_PMU_HIT_LOW8_REG_V2 :: u32 where [v2_regs]: "IOMMU_PMU_HIT_LOW8_REG_V2 = 0x0108"
definition IOMMU_PMU_HIT_HIGH8_REG_V2 :: u32 where [v2_regs]: "IOMMU_PMU_HIT_HIGH8_REG_V2 = 0x010c"

definition IOMMU_TLB_IVLD_ADDR_ALIGN_SHIFT :: nat where [v2_regs]: "IOMMU_TLB_IVLD_ADDR_ALIGN_SHIFT = 12"
definition IOMMU_PC_IVLD_ADDR_ALIGN_SHIFT :: nat where [v2_regs]: "IOMMU_PC_IVLD_ADDR_ALIGN_SHIFT = 22"
definition IOMMU_MIC_BASE_OFFSET :: u32 where [v2_regs]: "IOMMU_MIC_BASE_OFFSET = 0x400"
definition IOMMU_MIC_MAX_MASTER :: u32 where [v2_regs]: "IOMMU_MIC_MAX_MASTER = 6"
definition IOMMU_PER_SET_ADDR_SIZE :: u32 where [v2_regs]: "IOMMU_PER_SET_ADDR_SIZE = 0x10000"
definition IOMMU_HW_SET_COUNT :: u32 where [v2_regs]: "IOMMU_HW_SET_COUNT = 2"

text \<open>
  The registers of one master's micro TLB.
\<close>

definition IOMMU_MIC_BYP_REG :: "u32 \<Rightarrow> u32" where
  "IOMMU_MIC_BYP_REG master_id = 0x200 * master_id + 0x0004 + IOMMU_MIC_BASE_OFFSET"

definition IOMMU_MIC_TLB_FLUSH_ENABLE_REG :: "u32 \<Rightarrow> u32" where
  "IOMMU_MIC_TLB_FLUSH_ENABLE_REG master_id = 0x200 * master_id + 0x0018 + IOMMU_MIC_BASE_OFFSET"

definition IOMMU_MIC_INT_ERR_LOW_ADDR_REG :: "u32 \<Rightarrow> u32" where
  "IOMMU_MIC_INT_ERR_LOW_ADDR_REG master_id = 0x200 * master_id + 0x003c + IOMMU_MIC_BASE_OFFSET"

definition IOMMU_MIC_INT_ERR_HIGH_ADDR_REG :: "u32 \<Rightarrow> u32" where
  "IOMMU_MIC_INT_ERR_HIGH_ADDR_REG master_id = 0x200 * master_id + 0x0040 + IOMMU_MIC_BASE_OFFSET"

definition IOMMU_MIC_INT_ERR_DATA_REG :: "u32 \<Rightarrow> u32" where
  "IOMMU_MIC_INT_ERR_DATA_REG master_id = 0x200 * master_id + 0x0044 + IOMMU_MIC_BASE_OFFSET"

definition IOMMU_MIC_PMU_ACCESS_LOW_REG :: "u32 \<Rightarrow> u32" where
  "IOMMU_MIC_PMU_ACCESS_LOW_REG master_id = 0x200 * master_id + 0x0060 + IOMMU_MIC_BASE_OFFSET"

definition IOMMU_MIC_PMU_ACCESS_HIGH_REG :: "u32 \<Rightarrow> u32" where
  "IOMMU_MIC_PMU_ACCESS_HIGH_REG master_id = 0x200 * master_id + 0x0064 + IOMMU_MIC_BASE_OFFSET"

definition IOMMU_MIC_PMU_HIT_LOW_REG :: "u32 \<Rightarrow> u32" where
  "IOMMU_MIC_PMU_HIT_LOW_REG master_id = 0x200 * master_id + 0x0068 + IOMMU_MIC_BASE_OFFSET"

definition IOMMU_MIC_PMU_HIT_HIGH_REG :: "u32 \<Rightarrow> u32" where
  "IOMMU_MIC_PMU_HIT_HIGH_REG master_id = 0x200 * master_id + 0x006c + IOMMU_MIC_BASE_OFFSET"

definition DEFAULT_BYPASS_VALUE_V2 :: u32 where
  "DEFAULT_BYPASS_VALUE_V2 = 0x7f"

text \<open>
  A register that both sets have is written in both; reading it reads both and keeps the first.
\<close>

definition WRITE_EQUAL_REG :: "u32 \<Rightarrow> u32 \<Rightarrow> trace \<Rightarrow> trace" where
  "WRITE_EQUAL_REG offset_in_instance val t =
     (let t = sunxi_iommu_write offset_in_instance val t
      in sunxi_iommu_write (offset_in_instance + IOMMU_PER_SET_ADDR_SIZE) val t)"

definition READ_EQUAL_REG :: "hw \<Rightarrow> u32 \<Rightarrow> trace \<Rightarrow> u32 \<times> trace" where
  "READ_EQUAL_REG hw offset_in_instance t =
     (let (ret0, t) = sunxi_iommu_read hw offset_in_instance t;
          (ret1, t) = sunxi_iommu_read hw (offset_in_instance + IOMMU_PER_SET_ADDR_SIZE) t
      in (ret0, t))"

text \<open>
  The condition \<open>(read a & m) || (read (set size + a) & m)\<close>: the second set is read only when the
  first is idle.
\<close>

definition set_busy :: "hw \<Rightarrow> u32 \<Rightarrow> u32 \<Rightarrow> trace \<Rightarrow> bool \<times> trace" where
  "set_busy hw offset m t =
     (let (b, t) = reg_busy hw offset m t
      in if b then (True, t) else reg_busy hw (IOMMU_PER_SET_ADDR_SIZE + offset) m t)"

section \<open>Masters\<close>

definition sunxi_iommu_register_fault_cb_v2 :: "nat \<Rightarrow> u32 \<Rightarrow> v1_state \<Rightarrow> v1_state option" where
  "sunxi_iommu_register_fault_cb_v2 cb master_id s =
     (if unat master_id < length (fault_notify_cbs s)
      then Some (s\<lparr>fault_notify_cbs := (fault_notify_cbs s)[unat master_id := Some cb]\<rparr>)
      else None)"

definition instance_offset :: "u32 \<Rightarrow> u32" where
  "instance_offset master_id = (master_id div IOMMU_MIC_MAX_MASTER) * IOMMU_PER_SET_ADDR_SIZE"

definition sunxi_reset_device_iommu_v2 :: "hw \<Rightarrow> u32 \<Rightarrow> trace \<Rightarrow> trace" where
  "sunxi_reset_device_iommu_v2 hw master_id t =
     (let offset = instance_offset master_id;
          b = push_bit (unat (master_id mod IOMMU_MIC_MAX_MASTER)) 1;
          (regval, t) = sunxi_iommu_read hw (IOMMU_RESET_REG_V2 + offset) t;
          t = sunxi_iommu_write (IOMMU_RESET_REG_V2 + offset) (regval AND NOT b) t;
          (regval, t) = sunxi_iommu_read hw (IOMMU_RESET_REG_V2 + offset) t
      in if regval AND b = 0 then sunxi_iommu_write (IOMMU_RESET_REG_V2 + offset) (regval OR b) t else t)"

definition sunxi_enable_device_iommu_unlocked :: "u32 \<Rightarrow> bool \<Rightarrow> v1_state \<Rightarrow> v1_state option" where
  "sunxi_enable_device_iommu_unlocked master_id flag s =
     (if unat master_id < 32 then
        let b = push_bit (unat master_id) 1;
            bp = (if flag then bypass s AND NOT b else bypass s OR b);
            offset = instance_offset master_id;
            master_id = master_id mod IOMMU_MIC_MAX_MASTER
        in Some (s\<lparr>bypass := bp,
                   io := sunxi_iommu_write (offset + IOMMU_MIC_BYP_REG master_id) (if flag then 0 else 1) (io s)\<rparr>)
      else None)"

definition sunxi_enable_device_iommu_v2 :: "u32 \<Rightarrow> bool \<Rightarrow> v1_state \<Rightarrow> v1_state option" where
  "sunxi_enable_device_iommu_v2 master_id flag s = do {
     s \<leftarrow> sunxi_enable_device_iommu_unlocked master_id flag (s\<lparr>io := io s @ [Lock iommu_lock]\<rparr>);
     Some (s\<lparr>io := io s @ [Unlock iommu_lock]\<rparr>)
   }"

section \<open>Initialisation and TLB maintenance\<close>

text \<open>
  \<open>sunxi_tlb_flush\<close> flushes the macro TLB of each set and the micro TLBs of its masters one by one,
  and collects the flushes that time out in a bit map: bit \<open>8 * i + j\<close> for master \<open>j\<close> of set \<open>i\<close>,
  the macro TLB sharing the bit of master 0.
\<close>

definition flush_reg :: "hw \<Rightarrow> u32 \<Rightarrow> u32 \<Rightarrow> nat \<Rightarrow> u32 \<Rightarrow> trace \<Rightarrow> (u32 \<times> trace) option" where
  "flush_reg hw target_reg_offset val b ret t = do {
     let t = sunxi_iommu_write target_reg_offset val t;
     (r, t) \<leftarrow> sunxi_wait_when_v2 hw (reg_busy hw target_reg_offset 0xffffffff) 2 t;
     Some (if r \<noteq> 0 then ret OR push_bit b 1 else ret, t)
   }"

fun flush_masters :: "hw \<Rightarrow> nat \<Rightarrow> nat list \<Rightarrow> u32 \<Rightarrow> trace \<Rightarrow> (u32 \<times> trace) option" where
  "flush_masters hw i [] ret t = Some (ret, t)"
| "flush_masters hw i (j # js) ret t = do {
     (ret, t) \<leftarrow> flush_reg hw (IOMMU_PER_SET_ADDR_SIZE * of_nat i + IOMMU_MIC_TLB_FLUSH_ENABLE_REG (of_nat j)) 0x1
                  (i * (unat IOMMU_MIC_MAX_MASTER + 2) + j) ret t;
     flush_masters hw i js ret t
   }"

fun flush_sets :: "hw \<Rightarrow> nat list \<Rightarrow> u32 \<Rightarrow> trace \<Rightarrow> (u32 \<times> trace) option" where
  "flush_sets hw [] ret t = Some (ret, t)"
| "flush_sets hw (i # is) ret t = do {
     (ret, t) \<leftarrow> flush_reg hw (IOMMU_PER_SET_ADDR_SIZE * of_nat i + IOMMU_TLB_FLUSH_ENABLE_REG_V2) 0x3
                  (i * (unat IOMMU_MIC_MAX_MASTER + 2)) ret t;
     (ret, t) \<leftarrow> flush_masters hw i [0..<unat IOMMU_MIC_MAX_MASTER] ret t;
     flush_sets hw is ret t
   }"

definition sunxi_tlb_flush_v2 :: "hw \<Rightarrow> trace \<Rightarrow> (int \<times> trace) option" where
  "sunxi_tlb_flush_v2 hw t = do {
     (ret, t) \<leftarrow> flush_sets hw [0..<unat IOMMU_HW_SET_COUNT] 0 t;
     Some (if ret \<noteq> 0 then - ETIMEDOUT else 0, t)
   }"

fun init_bypass :: "nat list \<Rightarrow> v1_state \<Rightarrow> v1_state option" where
  "init_bypass [] s = Some s"
| "init_bypass (i # is) s = do {
     s \<leftarrow> sunxi_enable_device_iommu_unlocked (of_nat i) (\<not> drop_bit i (bypass s) AND 0x1 \<noteq> 0) s;
     init_bypass is s
   }"

definition sunxi_iommu_hw_init_v2 :: "hw \<Rightarrow> u64 \<Rightarrow> v1_state \<Rightarrow> (int \<times> v1_state) option" where
  "sunxi_iommu_hw_init_v2 hw input_domain s = do {
     sunxi_domain \<leftarrow> domains s input_domain;
     let t = io s @ [Lock iommu_lock];
     let t = WRITE_EQUAL_REG IOMMU_TTB_REG_V2 (ucast (drop_bit 14 (pgtable sunxi_domain))) t;
     let t = WRITE_EQUAL_REG IOMMU_TLB_PREFETCH_REG_V2 (tlb_prefetch (plat s)) t;
     let t = (if version (plat s) \<ge> IOMMU_VERSION_V12
              then WRITE_EQUAL_REG IOMMU_TLB_IVLD_MODE_SEL_REG_V2 (tlb_invalid_mode (plat s)) t else t);
     let t = (if version (plat s) \<ge> IOMMU_VERSION_V14
              then WRITE_EQUAL_REG IOMMU_PC_IVLD_MODE_SEL_REG_V2 (ptw_invalid_mode (plat s)) t else t);
     let t = WRITE_EQUAL_REG IOMMU_INT_ENABLE_REG_V2 0x3003f t;
     s \<leftarrow> init_bypass [0..<unat (IOMMU_MIC_MAX_MASTER * IOMMU_HW_SET_COUNT)] (s\<lparr>io := t\<rparr>);
     (ret, t) \<leftarrow> sunxi_tlb_flush_v2 hw (io s);
     if ret \<noteq> 0 then Some (ret, s\<lparr>io := t @ [Unlock iommu_lock]\<rparr>)
     else
       let t = WRITE_EQUAL_REG IOMMU_AUTO_GATING_REG_V2 0x1 t;
           t = WRITE_EQUAL_REG IOMMU_ENABLE_REG_V2 IOMMU_ENABLE t;
           (iommu_enable, t) = READ_EQUAL_REG hw IOMMU_ENABLE_REG_V2 t;
           (iommu_enable, t) = (if iommu_enable \<noteq> 0x1 then READ_EQUAL_REG hw IOMMU_ENABLE_REG_V2 t
                                else (iommu_enable, t))
       in if iommu_enable \<noteq> 0x1 then Some (- ENODEV, s\<lparr>io := t @ [Unlock iommu_lock]\<rparr>)
          else Some (0, s\<lparr>io := t @ [Unlock iommu_lock], iommu_hw_init_flag := True\<rparr>)
   }"

definition sunxi_tlb_invalid_v2 ::
  "hw \<Rightarrow> plat_data \<Rightarrow> u64 \<Rightarrow> u64 \<Rightarrow> trace \<Rightarrow> (int \<times> trace) option" where
  "sunxi_tlb_invalid_v2 hw p iova iova_mask t = do {
     let t = t @ [Lock iommu_lock];
     let t = (if version p \<ge> IOMMU_VERSION_V12 then
                WRITE_EQUAL_REG IOMMU_TLB_IVLD_END_ADDR_REG_V2
                  (ucast (drop_bit IOMMU_TLB_IVLD_ADDR_ALIGN_SHIFT iova_mask))
                  (WRITE_EQUAL_REG IOMMU_TLB_IVLD_START_ADDR_REG_V2
                    (ucast (drop_bit IOMMU_TLB_IVLD_ADDR_ALIGN_SHIFT iova)) t)
              else
                WRITE_EQUAL_REG IOMMU_TLB_IVLD_ADDR_MASK_REG_V2 (ucast iova_mask)
                  (WRITE_EQUAL_REG IOMMU_TLB_IVLD_ADDR_REG_V2 (ucast iova) t));
     let t = WRITE_EQUAL_REG IOMMU_TLB_IVLD_ENABLE_REG_V2 0x1 t;
     (ret, t) \<leftarrow> sunxi_wait_when_v2 hw (set_busy hw IOMMU_TLB_IVLD_ENABLE_REG_V2 0x1) 2 t;
     Some (ret, t @ [Unlock iommu_lock])
   }"

definition sunxi_ptw_cache_invalid_v2 ::
  "hw \<Rightarrow> plat_data \<Rightarrow> u64 \<Rightarrow> u64 \<Rightarrow> trace \<Rightarrow> (int \<times> trace) option" where
  "sunxi_ptw_cache_invalid_v2 hw p iova_start iova_end t = do {
     let t = t @ [Lock iommu_lock];
     let t = (if version p \<ge> IOMMU_VERSION_V14 then
                WRITE_EQUAL_REG IOMMU_PC_IVLD_END_ADDR_REG_V2
                  (ucast (drop_bit IOMMU_PC_IVLD_ADDR_ALIGN_SHIFT iova_end))
                  (WRITE_EQUAL_REG IOMMU_PC_IVLD_START_ADDR_REG_V2
                    (ucast (drop_bit IOMMU_PC_IVLD_ADDR_ALIGN_SHIFT iova_start)) t)
              else WRITE_EQUAL_REG IOMMU_PC_IVLD_ADDR_REG_V2 (ucast iova_start) t);
     let t = WRITE_EQUAL_REG IOMMU_PC_IVLD_ENABLE_REG_V2 0x1 t;
     (ret, t) \<leftarrow> sunxi_wait_when_v2 hw (set_busy hw IOMMU_PC_IVLD_ENABLE_REG_V2 0x1) 2 t;
     Some (ret, t @ [Unlock iommu_lock])
   }"

definition sunxi_zap_tlb_v2 :: "pgver \<Rightarrow> hw \<Rightarrow> plat_data \<Rightarrow> u64 \<Rightarrow> u64 \<Rightarrow> trace \<Rightarrow> trace option" where
  "sunxi_zap_tlb_v2 v hw p iova sz =
     (if version p \<le> IOMMU_VERSION_V11 then calls
        [sunxi_tlb_invalid_v2 hw p iova pt_mask32,
         sunxi_tlb_invalid_v2 hw p (iova + SPAGE_SIZE) pt_mask32,
         sunxi_tlb_invalid_v2 hw p (iova + sz) pt_mask32,
         sunxi_tlb_invalid_v2 hw p (iova + sz + SPAGE_SIZE) pt_mask32,
         sunxi_ptw_cache_invalid_v2 hw p iova 0,
         sunxi_ptw_cache_invalid_v2 hw p (iova + SPD_SIZE v) 0,
         sunxi_ptw_cache_invalid_v2 hw p (iova + sz) 0,
         sunxi_ptw_cache_invalid_v2 hw p (iova + sz + SPD_SIZE v) 0]
      else if version p \<le> IOMMU_VERSION_V13 then calls
        [sunxi_tlb_invalid_v2 hw p iova (iova + 2 * SPAGE_SIZE),
         sunxi_tlb_invalid_v2 hw p (iova + sz - SPAGE_SIZE) (iova + sz + 8 * SPAGE_SIZE),
         sunxi_ptw_cache_invalid_v2 hw p iova 0,
         sunxi_ptw_cache_invalid_v2 hw p (iova + sz) 0,
         sunxi_ptw_cache_invalid_v2 hw p (iova + SPD_SIZE v) 0,
         sunxi_ptw_cache_invalid_v2 hw p (iova + sz + SPD_SIZE v) 0,
         sunxi_ptw_cache_invalid_v2 hw p (iova + sz + 2 * SPD_SIZE v) 0]
      else calls
        [sunxi_tlb_invalid_v2 hw p iova (iova + 2 * SPAGE_SIZE),
         sunxi_tlb_invalid_v2 hw p (iova + sz - SPAGE_SIZE) (iova + sz + 8 * SPAGE_SIZE),
         sunxi_ptw_cache_invalid_v2 hw p iova (iova + SPD_SIZE v),
         sunxi_ptw_cache_invalid_v2 hw p (iova + sz - SPD_SIZE v) (iova + sz)])"

section \<open>Mapping\<close>

definition sunxi_iommu_map_v2 ::
  "pgver \<Rightarrow> slab \<Rightarrow> u64 \<Rightarrow> u64 \<Rightarrow> u64 \<Rightarrow> u64 \<Rightarrow> u32 \<Rightarrow> v1_state \<Rightarrow> (int \<times> v1_state) option"
where
  "sunxi_iommu_map_v2 v zalloc domain iova paddr sz prot s = do {
     sunxi_domain \<leftarrow> domains s domain;
     let iova_start = iova AND IOMMU_PT_MASK;
     let iova_end = SPAGE_ALIGN (iova + sz);
     let t = io s @ [Lock dt_lock];
     (ret, g) \<leftarrow> sunxi_pgtable_prepare_l1_tables v zalloc (pgtable sunxi_domain) iova_start iova_end prot (pgt s);
     if ret \<noteq> 0 then Some (- ENOMEM, s\<lparr>pgt := g, io := t @ [Unlock dt_lock]\<rparr>)
     else do {
       (r, g) \<leftarrow> sunxi_pgtable_prepare_l2_tables v (pgtable sunxi_domain) iova_start iova_end paddr prot g;
       Some (0, s\<lparr>pgt := g, io := t @ [Unlock dt_lock]\<rparr>)
     }
   }"

partial_function (option) unmap_loop_v2 ::
  "pgver \<Rightarrow> hw \<Rightarrow> plat_data \<Rightarrow> u64 \<Rightarrow> u64 \<Rightarrow> u64 \<Rightarrow> pgtable_state \<Rightarrow> trace \<Rightarrow> (pgtable_state \<times> trace) option"
where
  "unmap_loop_v2 v hw p pgd iova_start iova_end g t =
     (if iova_start < iova_end then
        let (ret, g) = sunxi_pgtable_delete_l2_tables v pgd iova_start iova_end g;
            iova_tail_size = (of_int ret :: u32)
        in if version p < IOMMU_VERSION_V14 then do {
             (r, t) \<leftarrow> sunxi_ptw_cache_invalid_v2 hw p iova_start 0 t;
             unmap_loop_v2 v hw p pgd (iova_start + ucast iova_tail_size) iova_end g t
           }
           else unmap_loop_v2 v hw p pgd (iova_start + ucast iova_tail_size) iova_end g t
      else Some (g, t))"

definition sunxi_iommu_unmap_v2 ::
  "pgver \<Rightarrow> hw \<Rightarrow> u64 \<Rightarrow> u64 \<Rightarrow> u64 \<Rightarrow> iotlb_gather \<Rightarrow> v1_state \<Rightarrow> (u64 \<times> iotlb_gather \<times> v1_state) option"
where
  "sunxi_iommu_unmap_v2 v hw domain iova sz gather s = do {
     sunxi_domain \<leftarrow> domains s domain;
     let iova_start = iova AND IOMMU_PT_MASK;
     let iova_end = SPAGE_ALIGN (iova + sz);
     let gather = (if gather_start gather > iova_start then gather\<lparr>gather_start := iova_start\<rparr> else gather);
     let gather = (if gather_end gather < iova_end then gather\<lparr>gather_end := iova_end\<rparr> else gather);
     let t = io s @ [Lock dt_lock];
     t \<leftarrow> calls (if version (plat s) \<ge> IOMMU_VERSION_V12
                 then [sunxi_tlb_invalid_v2 hw (plat s) iova_start iova_end] else []) t;
     t \<leftarrow> calls (if version (plat s) \<ge> IOMMU_VERSION_V14
                 then [sunxi_ptw_cache_invalid_v2 hw (plat s) iova_start iova_end] else []) t;
     (g, t) \<leftarrow> unmap_loop_v2 v hw (plat s) (pgtable sunxi_domain) iova_start iova_end (pgt s) t;
     Some (sz, gather, s\<lparr>pgt := g, io := t @ [Unlock dt_lock]\<rparr>)
   }"

definition sunxi_iommu_iotlb_sync_map_v2 ::
  "pgver \<Rightarrow> hw \<Rightarrow> u64 \<Rightarrow> u64 \<Rightarrow> u64 \<Rightarrow> v1_state \<Rightarrow> v1_state option" where
  "sunxi_iommu_iotlb_sync_map_v2 v hw domain iova sz s = do {
     sunxi_domain \<leftarrow> domains s domain;
     t \<leftarrow> sunxi_zap_tlb_v2 v hw (plat s) iova sz (io s @ [Lock dt_lock]);
     Some (s\<lparr>io := t @ [Unlock dt_lock]\<rparr>)
   }"

definition sunxi_iommu_iotlb_sync_v2 ::
  "pgver \<Rightarrow> hw \<Rightarrow> u64 \<Rightarrow> iotlb_gather \<Rightarrow> v1_state \<Rightarrow> v1_state option" where
  "sunxi_iommu_iotlb_sync_v2 v hw domain gather s =
     (if version (plat s) \<ge> IOMMU_VERSION_V14 then Some s
      else do {
        sunxi_domain \<leftarrow> domains s domain;
        t \<leftarrow> sunxi_zap_tlb_v2 v hw (plat s) (gather_start gather) (gather_end gather - gather_start gather)
              (io s @ [Lock dt_lock]);
        Some (s\<lparr>io := t @ [Unlock dt_lock]\<rparr>)
      })"

definition sunxi_iommu_iova_to_phys_v2 :: "pgver \<Rightarrow> u64 \<Rightarrow> u64 \<Rightarrow> v1_state \<Rightarrow> (u64 \<times> v1_state) option" where
  "sunxi_iommu_iova_to_phys_v2 v domain iova s = do {
     sunxi_domain \<leftarrow> domains s domain;
     let t = io s @ [Lock dt_lock];
     let ret = sunxi_pgtable_iova_to_phys v (pgtable sunxi_domain) iova (pgt s);
     Some (ret, s\<lparr>io := t @ [Unlock dt_lock]\<rparr>)
   }"

section \<open>Domains and client devices\<close>

definition sunxi_iommu_domain_alloc_v2 ::
  "pgver \<Rightarrow> hw \<Rightarrow> domain_allocs \<Rightarrow> domain_type \<Rightarrow> v1_state \<Rightarrow> (u64 option \<times> v1_state) option" where
  "sunxi_iommu_domain_alloc_v2 v hw a ty s =
     (if ty = IOMMU_DOMAIN_OTHER then Some (None, s)
      else case global_sunxi_iommu_domain s of
        Some d \<Rightarrow> Some (Some d, s)
      | None \<Rightarrow>
        (case alloc_domain a of
           None \<Rightarrow> Some (None, s)
         | Some d \<Rightarrow>
           let (pg, g) = sunxi_pgtable_alloc v a (pgt s) in
           case pg of
             None \<Rightarrow> Some (None, s)
           | Some pgd \<Rightarrow>
             (case alloc_sg a of
                None \<Rightarrow> Some (None, s\<lparr>pgt := g\<rparr>)
              | Some sg \<Rightarrow>
                let s = s\<lparr>pgt := g,
                          domains := (domains s)(d \<mapsto> \<lparr>pgtable = pgd, sg_buffer = sg\<rparr>),
                          global_sunxi_iommu_domain := Some d\<rparr>
                in if \<not> iommu_hw_init_flag s then do {
                     (ret, s) \<leftarrow> sunxi_iommu_hw_init_v2 hw d s;
                     Some (Some d, s)
                   }
                   else Some (Some d, s))))"

definition sunxi_iommu_domain_free_v2 :: "pgver \<Rightarrow> hw \<Rightarrow> u64 \<Rightarrow> v1_state \<Rightarrow> v1_state option" where
  "sunxi_iommu_domain_free_v2 v hw domain s = do {
     sunxi_domain \<leftarrow> domains s domain;
     let t = io s @ [Lock dt_lock];
     let g = sunxi_pgtable_clear v (pgtable sunxi_domain) (pgt s);
     (ret, t) \<leftarrow> sunxi_tlb_flush_v2 hw t;
     Some (s\<lparr>pgt := g, io := t @ [Unlock dt_lock], domains := (domains s)(domain := None)\<rparr>)
   }"

definition sunxi_iommu_attach_dev_v2 :: "u64 \<Rightarrow> nat \<Rightarrow> int" where
  "sunxi_iommu_attach_dev_v2 domain dev = 0"

definition sunxi_iommu_probe_device_finalize_v2 :: "nat \<Rightarrow> v1_state \<Rightarrow> v1_state option" where
  "sunxi_iommu_probe_device_finalize_v2 dev s = do {
     owner \<leftarrow> dev_priv s dev;
     sunxi_enable_device_iommu_v2 (owner_tlbid owner) (owner_flag owner) s
   }"

definition sunxi_iommu_probe_device_v2 :: "nat \<Rightarrow> v1_state \<Rightarrow> int" where
  "sunxi_iommu_probe_device_v2 dev s = (if dev_priv s dev = None then - ENODEV else 0)"

definition sunxi_iommu_release_device_v2 :: "nat \<Rightarrow> v1_state \<Rightarrow> v1_state option" where
  "sunxi_iommu_release_device_v2 dev s =
     (case dev_priv s dev of
        None \<Rightarrow> Some s
      | Some owner \<Rightarrow> do {
          s \<leftarrow> sunxi_enable_device_iommu_v2 (owner_tlbid owner) False s;
          Some (s\<lparr>dev_priv := (dev_priv s)(dev := None)\<rparr>)
        })"

definition sunxi_iommu_of_xlate_v2 ::
  "bool \<Rightarrow> bool \<Rightarrow> bool \<Rightarrow> nat \<Rightarrow> u32 \<Rightarrow> u32 \<Rightarrow> v1_state \<Rightarrow> int \<times> v1_state" where
  "sunxi_iommu_of_xlate_v2 sysmmu data kzalloc_ok dev arg0 arg1 s =
     (if \<not> sysmmu then (- ENODEV, s)
      else if \<not> data then (- ENODEV, s)
      else if dev_priv s dev = None then
        if \<not> kzalloc_ok then (- ENOMEM, s)
        else (0, s\<lparr>dev_priv := (dev_priv s)(dev \<mapsto>
                \<lparr>owner_tlbid = arg0, owner_flag = (arg1 \<noteq> 0)\<rparr>)\<rparr>)
      else (0, s))"

section \<open>Test accesses\<close>

definition sunxi_set_debug_mode_v2 :: "trace \<Rightarrow> trace" where
  "sunxi_set_debug_mode_v2 = WRITE_EQUAL_REG IOMMU_VA_CONFIG_REG_V2 0x80000000"

definition sunxi_set_prefetch_mode_v2 :: "trace \<Rightarrow> trace" where
  "sunxi_set_prefetch_mode_v2 = WRITE_EQUAL_REG IOMMU_VA_CONFIG_REG_V2 0x00000000"

definition sunxi_iova_test_write_v2 :: "hw \<Rightarrow> u64 \<Rightarrow> u32 \<Rightarrow> trace \<Rightarrow> (int \<times> trace) option" where
  "sunxi_iova_test_write_v2 hw iova val t =
     (let t = WRITE_EQUAL_REG IOMMU_LOW_VA_REG_V2 (ucast (iova AND 0xFFFFFFFF)) t;
          t = WRITE_EQUAL_REG IOMMU_HIGH_VA_REG_V2 (ucast (drop_bit 32 iova AND 0xFFFFFFFF)) t;
          t = WRITE_EQUAL_REG IOMMU_VA_DATA_REG_V2 val t;
          t = WRITE_EQUAL_REG IOMMU_VA_CONFIG_REG_V2 0x80000100 t;
          t = WRITE_EQUAL_REG IOMMU_VA_CONFIG_REG_V2 0x80000101 t
      in sunxi_wait_when_v2 hw (set_busy hw IOMMU_VA_CONFIG_REG_V2 0x1) 1 t)"

text \<open>
  \<open>READ_EQUAL_REG\<close> has the type \<open>int\<close>, so the value is sign-extended to \<open>unsigned long\<close>.
\<close>

definition sunxi_iova_test_read_v2 :: "hw \<Rightarrow> u64 \<Rightarrow> trace \<Rightarrow> (u64 \<times> trace) option" where
  "sunxi_iova_test_read_v2 hw iova t = do {
     let t = WRITE_EQUAL_REG IOMMU_LOW_VA_REG_V2 (ucast (iova AND 0xFFFFFFFF)) t;
     let t = WRITE_EQUAL_REG IOMMU_HIGH_VA_REG_V2 (ucast (drop_bit 32 iova AND 0xFFFFFFFF)) t;
     let t = WRITE_EQUAL_REG IOMMU_VA_CONFIG_REG_V2 0x80000000 t;
     let t = WRITE_EQUAL_REG IOMMU_VA_CONFIG_REG_V2 0x80000001 t;
     (retval, t) \<leftarrow> sunxi_wait_when_v2 hw (set_busy hw IOMMU_VA_CONFIG_REG_V2 0x1) 1 t;
     if retval \<noteq> 0 then Some (0, t)
     else
       let (retval, t) = READ_EQUAL_REG hw IOMMU_VA_DATA_REG_V2 t
       in Some (scast retval, t)
   }"

section \<open>The interrupt handler\<close>

definition sunxi_iova_invalid_helper_v2 :: "pgver \<Rightarrow> u64 \<Rightarrow> v1_state \<Rightarrow> int option" where
  "sunxi_iova_invalid_helper_v2 v iova s = do {
     d \<leftarrow> global_sunxi_iommu_domain s;
     sunxi_domain \<leftarrow> domains s d;
     Some (sunxi_pgtable_invalid_helper v (pgtable sunxi_domain) iova (pgt s))
   }"

text \<open>
  The registers that describe a fault: those of the first micro TLB in ascending order whose status
  bit is set, or of the first-level or the second-level walk.  Printing the name of master \<open>i\<close> of
  set \<open>index\<close> reads entry \<open>6 * index + i\<close> of an array of twelve.
\<close>

definition err_regs_v2 :: "nat \<Rightarrow> u32 \<times> u32 \<times> u32" where
  "err_regs_v2 i =
     (if i < 7 then (IOMMU_MIC_INT_ERR_LOW_ADDR_REG (of_nat i), IOMMU_MIC_INT_ERR_HIGH_ADDR_REG (of_nat i),
                     IOMMU_MIC_INT_ERR_DATA_REG (of_nat i))
      else if i = 7 then (IOMMU_INT_ERR_LOW_ADDR7_REG_V2, IOMMU_INT_ERR_HIGH_ADDR7_REG_V2, IOMMU_INT_ERR_DATA7_REG_V2)
      else (IOMMU_INT_ERR_LOW_ADDR8_REG_V2, IOMMU_INT_ERR_HIGH_ADDR8_REG_V2, IOMMU_INT_ERR_DATA8_REG_V2))"

definition irq_fault_regs_v2 ::
  "hw \<Rightarrow> plat_data \<Rightarrow> nat \<Rightarrow> u32 \<Rightarrow> u32 \<Rightarrow> trace \<Rightarrow> (u64 \<times> u32 \<times> trace) option" where
  "irq_fault_regs_v2 hw p index offset inter_status_reg t =
     (case fault_source inter_status_reg of
        None \<Rightarrow> Some (0, 0, t)
      | Some i \<Rightarrow>
          if i < 7 \<and> \<not> index * unat IOMMU_MIC_MAX_MASTER + i < length (master p) then None
          else
            let (low_reg, high_reg, err_reg) = err_regs_v2 i;
                (low, t) = sunxi_iommu_read hw (offset + low_reg) t;
                (high, t) = sunxi_iommu_read hw (offset + high_reg) t;
                addr_reg = ucast low OR push_bit 32 (ucast high);
                (data_reg, t) = sunxi_iommu_read hw (offset + err_reg) t
            in Some (addr_reg, data_reg, t))"

definition irq_notify_v2 :: "pgver \<Rightarrow> nat \<Rightarrow> u32 \<Rightarrow> u64 \<Rightarrow> v1_state \<Rightarrow> trace \<Rightarrow> trace option" where
  "irq_notify_v2 v index int_masterid_bitmap addr_reg s t =
     (if int_masterid_bitmap AND 0x80000000 = 0 then do {
        r \<leftarrow> sunxi_iova_invalid_helper_v2 v addr_reg s;
        ffs \<leftarrow> ffs32 (int_masterid_bitmap AND 0xffff);
        let master_id = index * unat IOMMU_MIC_MAX_MASTER + ffs;
        if master_id < length (master (plat s)) \<and> master_id < length (fault_notify_cbs s) then
          Some (case fault_notify_cbs s ! master_id of None \<Rightarrow> t | Some cb \<Rightarrow> t @ [Callback cb])
        else None
      }
      else Some t)"

definition irq_invalid_tlb_v2 :: "hw \<Rightarrow> plat_data \<Rightarrow> u32 \<Rightarrow> u64 \<Rightarrow> trace \<Rightarrow> trace option" where
  "irq_invalid_tlb_v2 hw p offset addr_reg t = do {
     t \<leftarrow> (if version p \<le> IOMMU_VERSION_V11 then do {
             let t = sunxi_iommu_write (offset + IOMMU_TLB_IVLD_ADDR_REG_V2) (ucast addr_reg) t;
             let t = sunxi_iommu_write (offset + IOMMU_TLB_IVLD_ADDR_MASK_REG_V2) (ucast IOMMU_PT_MASK) t;
             let t = sunxi_iommu_write (offset + IOMMU_TLB_IVLD_ENABLE_REG_V2) 0x1 t;
             t \<leftarrow> spin_while hw (offset + IOMMU_TLB_IVLD_ENABLE_REG_V2) 0x1 t;
             let t = sunxi_iommu_write (offset + IOMMU_TLB_IVLD_ADDR_REG_V2) (ucast (addr_reg + 0x2000)) t;
             Some (sunxi_iommu_write (offset + IOMMU_TLB_IVLD_ADDR_MASK_REG_V2) (ucast IOMMU_PT_MASK) t)
           }
           else
             let t = sunxi_iommu_write (offset + IOMMU_TLB_IVLD_START_ADDR_REG_V2)
                       (ucast (drop_bit IOMMU_TLB_IVLD_ADDR_ALIGN_SHIFT addr_reg)) t
             in Some (sunxi_iommu_write (offset + IOMMU_TLB_IVLD_END_ADDR_REG_V2)
                        (ucast (drop_bit IOMMU_TLB_IVLD_ADDR_ALIGN_SHIFT (addr_reg + 4 * SPAGE_SIZE))) t));
     let t = sunxi_iommu_write (offset + IOMMU_TLB_IVLD_ENABLE_REG_V2) 0x1 t;
     spin_while hw (offset + IOMMU_TLB_IVLD_ENABLE_REG_V2) 0x1 t
   }"

definition irq_invalid_ptw_v2 :: "pgver \<Rightarrow> hw \<Rightarrow> plat_data \<Rightarrow> u32 \<Rightarrow> u64 \<Rightarrow> trace \<Rightarrow> trace option" where
  "irq_invalid_ptw_v2 v hw p offset addr_reg t = do {
     t \<leftarrow> (if version p \<le> IOMMU_VERSION_V13 then do {
             let t = sunxi_iommu_write (offset + IOMMU_PC_IVLD_ADDR_REG_V2) (ucast addr_reg) t;
             let t = sunxi_iommu_write (offset + IOMMU_PC_IVLD_ENABLE_REG_V2) 0x1 t;
             t \<leftarrow> spin_while hw (offset + IOMMU_PC_IVLD_ENABLE_REG_V2) 0x1 t;
             Some (sunxi_iommu_write (offset + IOMMU_PC_IVLD_ADDR_REG_V2) (ucast (addr_reg + 0x200000)) t)
           }
           else
             let t = sunxi_iommu_write (offset + IOMMU_PC_IVLD_START_ADDR_REG_V2)
                       (ucast (drop_bit IOMMU_PC_IVLD_ADDR_ALIGN_SHIFT addr_reg)) t
             in Some (sunxi_iommu_write (offset + IOMMU_PC_IVLD_END_ADDR_REG_V2)
                        (ucast (drop_bit IOMMU_PC_IVLD_ADDR_ALIGN_SHIFT (addr_reg + 2 * SPD_SIZE v))) t));
     let t = sunxi_iommu_write (offset + IOMMU_PC_IVLD_ENABLE_REG_V2) 0x1 t;
     spin_while hw (offset + IOMMU_PC_IVLD_ENABLE_REG_V2) 0x1 t
   }"

definition dump_int_from_one_instance :: "pgver \<Rightarrow> hw \<Rightarrow> nat \<Rightarrow> v1_state \<Rightarrow> v1_state option" where
  "dump_int_from_one_instance v hw index s = do {
     let offset = of_nat index * IOMMU_PER_SET_ADDR_SIZE;
     let t = io s @ [Lock iommu_lock];
     let (r, t) = sunxi_iommu_read hw (offset + IOMMU_INT_STA_REG_V2) t;
     let inter_status_reg = r AND 0x3ffff;
     let (l1_pgint_reg, t) = sunxi_iommu_read hw (offset + IOMMU_L1PG_INT_REG_V2) t;
     let (l2_pgint_reg, t) = sunxi_iommu_read hw (offset + IOMMU_L2PG_INT_REG_V2) t;
     let int_masterid_bitmap = inter_status_reg OR l1_pgint_reg OR l2_pgint_reg;
     (addr_reg, data_reg, t) \<leftarrow> irq_fault_regs_v2 hw (plat s) index offset inter_status_reg t;
     t \<leftarrow> irq_notify_v2 v index int_masterid_bitmap addr_reg s t;
     t \<leftarrow> irq_invalid_tlb_v2 hw (plat s) offset addr_reg t;
     t \<leftarrow> irq_invalid_ptw_v2 v hw (plat s) offset addr_reg t;
     let t = sunxi_iommu_write (offset + IOMMU_INT_CLR_REG_V2) inter_status_reg t;
     let inter_status_reg = (inter_status_reg OR (l1_pgint_reg OR l2_pgint_reg)) AND 0xffff;
     let t = sunxi_iommu_write (offset + IOMMU_RESET_REG_V2) (NOT inter_status_reg) t;
     let t = sunxi_iommu_write (offset + IOMMU_RESET_REG_V2) 0xffffffff t;
     Some (s\<lparr>io := t @ [Unlock iommu_lock]\<rparr>)
   }"

text \<open>
  \<open>irq1\<close> is the number of the second set's interrupt.
\<close>

definition sunxi_iommu_irq_v2 :: "pgver \<Rightarrow> hw \<Rightarrow> int \<Rightarrow> int \<Rightarrow> v1_state \<Rightarrow> v1_state option" where
  "sunxi_iommu_irq_v2 v hw irq1 irq s = dump_int_from_one_instance v hw (if irq = irq1 then 1 else 0) s"

end
