(* ===== verification/Iommu_V2_Tlb.thy ===== *)
theory Iommu_V2_Tlb
  imports Iommu_Steps Iommu_V2
begin

text \<open>
  The register sequences of the v2 driver: every operation that polls the device returns, its
  writes are known exactly, and registers common to both register sets receive the same values.
  The shared unmap sequence is interpreted on the driver's functions.
\<close>

section \<open>Polling\<close>

lemma cond_polled_grows:
  assumes "reads_only c R" "cond_polled c R r t t'"
  shows "grows t [] t'" "r = 0 \<or> r = - ETIMEDOUT"
proof -
  obtain w where w: "t' = snd (c (t @ w))" "set w \<subseteq> poll_any R" "r = (if fst (c (t @ w)) then - ETIMEDOUT else 0)"
    using assms(2) unfolding cond_polled_def by blast
  obtain x where x: "c (t @ w) = (fst (c (t @ w)), (t @ w) @ x)" "set x \<subseteq> poll_any R"
    using reads_onlyE [OF assms(1), of "t @ w"] by metis
  have "t' = t @ (w @ x)" using w(1) x(1) by (metis append.assoc snd_conv)
  moreover have "quiet e \<and> writes [e] = []" if "e \<in> poll_any R" for e
    using that by (auto simp: poll_any_def quiet_def)
  then have "(\<forall>e \<in> set y. quiet e) \<and> writes y = []" if "set y \<subseteq> poll_any R" for y
    using that by (induction y) (auto simp: writes_def)
  then have "(\<forall>e \<in> set (w @ x). quiet e) \<and> writes (w @ x) = []" using w(2) x(2) by auto
  ultimately show "grows t [] t'" unfolding grows_def by blast
  show "r = 0 \<or> r = - ETIMEDOUT" using w(3) by auto
qed

lemma wait_v2_ok:
  assumes "hw_ok hw" "ms \<le> 2" "reads_only c R"
  obtains r t' where "sunxi_wait_when_v2 hw c ms t = Some (r, t')" "grows t [] t'" "r = 0 \<or> r = - ETIMEDOUT"
    "cond_polled c R r t t'"
  using assms wait_when_v2_returns cond_polled_grows [OF assms(3)] unfolding hw_ok_def by metis

lemma set_busy_reads: "reads_only (set_busy hw offset m) {offset, IOMMU_PER_SET_ADDR_SIZE + offset}"
  by (auto simp: reads_only_def set_busy_def reg_busy_def sunxi_iommu_read_def)

section \<open>Both register sets\<close>

definition both :: "u32 \<Rightarrow> u32 \<Rightarrow> (u32 \<times> u32) list" where
  "both a x = [(a, x), (a + IOMMU_PER_SET_ADDR_SIZE, x)]"

lemma write_equal_trace:
  "WRITE_EQUAL_REG a x t = t @ [Wr a x, Wr (a + IOMMU_PER_SET_ADDR_SIZE) x]"
  by (simp add: WRITE_EQUAL_REG_def sunxi_iommu_write_def)

lemma grows_write_equal: "grows t (both a x) (WRITE_EQUAL_REG a x t)"
  by (auto simp: grows_def write_equal_trace both_def quiet_def)

lemma read_equal_trace:
  "READ_EQUAL_REG hw a t = (reg hw t a, t @ [Rd a, Rd (a + IOMMU_PER_SET_ADDR_SIZE)])"
  by (simp add: READ_EQUAL_REG_def sunxi_iommu_read_def)

lemma grows_read_equal: "grows t [] (snd (READ_EQUAL_REG hw a t))"
  by (auto simp: grows_def read_equal_trace quiet_def)

text \<open>
  The writes of a list that go to the common registers of set \<open>i\<close> (those below the registers of the
  masters), by their offset in the set.
\<close>

definition common_writes :: "nat \<Rightarrow> (u32 \<times> u32) list \<Rightarrow> (nat \<times> u32) list" where
  "common_writes i W = map (\<lambda>(a, x). (unat a mod 0x10000, x))
     (filter (\<lambda>(a, x). unat a div 0x10000 = i \<and> unat a mod 0x10000 < 0x400) W)"

lemma common_writes_simps [simp]:
  "common_writes i [] = []" "common_writes i (V @ W) = common_writes i V @ common_writes i W"
  "common_writes i ((a, x) # W) =
     (if unat a div 0x10000 = i \<and> unat a mod 0x10000 < 0x400 then (unat a mod 0x10000, x) # common_writes i W
      else common_writes i W)"
  by (simp_all add: common_writes_def)

lemma critical_grows:
  assumes "grows (t @ [Lock l]) W t'"
  obtains w where "critical l w t (t' @ [Unlock l])" "writes w = W"
  using assms by (auto simp: grows_def critical_def)

section \<open>Invalidation\<close>

definition tlb_writes_v2 :: "plat_data \<Rightarrow> u64 \<Rightarrow> u64 \<Rightarrow> (u32 \<times> u32) list" where
  "tlb_writes_v2 p iova iova_mask =
     (if version p \<ge> IOMMU_VERSION_V12
      then both IOMMU_TLB_IVLD_START_ADDR_REG_V2 (ucast (drop_bit 12 iova)) @
           both IOMMU_TLB_IVLD_END_ADDR_REG_V2 (ucast (drop_bit 12 iova_mask))
      else both IOMMU_TLB_IVLD_ADDR_REG_V2 (ucast iova) @ both IOMMU_TLB_IVLD_ADDR_MASK_REG_V2 (ucast iova_mask)) @
     both IOMMU_TLB_IVLD_ENABLE_REG_V2 1"

definition ptw_writes_v2 :: "plat_data \<Rightarrow> u64 \<Rightarrow> u64 \<Rightarrow> (u32 \<times> u32) list" where
  "ptw_writes_v2 p iova_start iova_end =
     (if version p \<ge> IOMMU_VERSION_V14
      then both IOMMU_PC_IVLD_START_ADDR_REG_V2 (ucast (drop_bit 22 iova_start)) @
           both IOMMU_PC_IVLD_END_ADDR_REG_V2 (ucast (drop_bit 22 iova_end))
      else both IOMMU_PC_IVLD_ADDR_REG_V2 (ucast iova_start)) @
     both IOMMU_PC_IVLD_ENABLE_REG_V2 1"

lemma grows_both_list:
  "grows t W (t @ map (\<lambda>(a, x). Wr a x) W)"
proof -
  have "writes (map (\<lambda>(a, x). Wr a x) W) = W" by (induction W) auto
  moreover have "\<forall>e \<in> set (map (\<lambda>(a, x). Wr a x) W). quiet e" by (auto simp: quiet_def)
  ultimately show ?thesis unfolding grows_def by blast
qed

lemma tlb_invalid_v2_critical:
  assumes "hw_ok hw"
  obtains r t' w where "sunxi_tlb_invalid_v2 hw p a b t = Some (r, t')" "critical iommu_lock w t t'"
    "writes w = tlb_writes_v2 p a b" "r = 0 \<or> r = - ETIMEDOUT"
proof -
  let ?t = "(t @ [Lock iommu_lock]) @ map (\<lambda>(a, x). Wr a x) (tlb_writes_v2 p a b)"
  obtain r t' where r: "sunxi_wait_when_v2 hw (set_busy hw IOMMU_TLB_IVLD_ENABLE_REG_V2 1) 2 ?t = Some (r, t')"
    "grows ?t [] t'" "r = 0 \<or> r = - ETIMEDOUT"
    using wait_v2_ok [OF assms order_refl set_busy_reads] by metis
  have eq: "sunxi_tlb_invalid_v2 hw p a b t = Some (r, t' @ [Unlock iommu_lock])"
    using r(1) by (auto simp: sunxi_tlb_invalid_v2_def tlb_writes_v2_def both_def write_equal_trace Let_def
        IOMMU_TLB_IVLD_ADDR_ALIGN_SHIFT_def split: if_splits)
  from grows_trans [OF grows_both_list r(2)] show thesis
    by (metis append_Nil2 critical_grows eq r(3) that)
qed

lemma ptw_invalid_v2_critical:
  assumes "hw_ok hw"
  obtains r t' w where "sunxi_ptw_cache_invalid_v2 hw p a b t = Some (r, t')" "critical iommu_lock w t t'"
    "writes w = ptw_writes_v2 p a b" "r = 0 \<or> r = - ETIMEDOUT"
proof -
  let ?t = "(t @ [Lock iommu_lock]) @ map (\<lambda>(a, x). Wr a x) (ptw_writes_v2 p a b)"
  obtain r t' where r: "sunxi_wait_when_v2 hw (set_busy hw IOMMU_PC_IVLD_ENABLE_REG_V2 1) 2 ?t = Some (r, t')"
    "grows ?t [] t'" "r = 0 \<or> r = - ETIMEDOUT"
    using wait_v2_ok [OF assms order_refl set_busy_reads] by metis
  have eq: "sunxi_ptw_cache_invalid_v2 hw p a b t = Some (r, t' @ [Unlock iommu_lock])"
    using r(1) by (auto simp: sunxi_ptw_cache_invalid_v2_def ptw_writes_v2_def both_def write_equal_trace Let_def
        IOMMU_PC_IVLD_ADDR_ALIGN_SHIFT_def split: if_splits)
  from grows_trans [OF grows_both_list r(2)] show thesis
    by (metis append_Nil2 critical_grows eq r(3) that)
qed

lemma invalid_v2_extends:
  assumes "hw_ok hw"
  shows "\<exists>r t'. sunxi_tlb_invalid_v2 hw p a b t = Some (r, t') \<and> extends t t'"
    "\<exists>r t'. sunxi_ptw_cache_invalid_v2 hw p a b t = Some (r, t') \<and> extends t t'"
  using tlb_invalid_v2_critical [OF assms] ptw_invalid_v2_critical [OF assms] critical_extends by metis+

interpretation drv2: unmap_driver hw "sunxi_tlb_invalid_v2 hw" "sunxi_ptw_cache_invalid_v2 hw"
  "\<lambda>v. unmap_loop_v2 v hw" "\<lambda>v. sunxi_iommu_unmap_v2 v hw" for hw
proof (unfold_locales, goal_cases)
  case (1 p a b t) then show ?case by (rule invalid_v2_extends)
next
  case (2 p a b t) then show ?case by (rule invalid_v2_extends)
next
  case 3 show ?case by (subst unmap_loop_v2.simps) simp
next
  case 4 show ?case by (simp only: sunxi_iommu_unmap_v2_def)
qed

lemma map_v2_as_v1:
  "sunxi_iommu_map_v2 v zalloc domain iova paddr sz prot s =
     map_option (\<lambda>(ret, mapped, s'). (ret, s')) (sunxi_iommu_map v zalloc domain iova paddr sz prot s)"
  by (auto simp: sunxi_iommu_map_v2_def sunxi_iommu_map_def Let_def split: option.splits bind_splits)

lemma iova_to_phys_v2_as_v1: "sunxi_iommu_iova_to_phys_v2 = sunxi_iommu_iova_to_phys"
  by (intro ext) (simp add: sunxi_iommu_iova_to_phys_v2_def sunxi_iommu_iova_to_phys_def Let_def)

section \<open>Flushing\<close>

text \<open>
  The flush registers in the order the driver writes them: the macro TLB of a set, then its masters.
\<close>

definition flush_regs :: "nat \<Rightarrow> (u32 \<times> u32) list" where
  "flush_regs i = (IOMMU_PER_SET_ADDR_SIZE * of_nat i + IOMMU_TLB_FLUSH_ENABLE_REG_V2, 3) #
     map (\<lambda>j. (IOMMU_PER_SET_ADDR_SIZE * of_nat i + IOMMU_MIC_TLB_FLUSH_ENABLE_REG (of_nat j), 1)) [0..<6]"

lemma flush_reg_shape:
  assumes "hw_ok hw"
  obtains ret' t' where "flush_reg hw a x b ret t = Some (ret', t')" "grows t [(a, x)] t'"
proof -
  obtain r t' where r: "sunxi_wait_when_v2 hw (reg_busy hw a 0xffffffff) 2 (sunxi_iommu_write a x t) = Some (r, t')"
    "grows (sunxi_iommu_write a x t) [] t'"
    using wait_v2_ok [OF assms order_refl reg_busy_reads] by metis
  with grows_trans [OF grows_write r(2)] show thesis
    by (intro that [of "if r \<noteq> 0 then ret OR push_bit b 1 else ret" t']) (simp_all add: flush_reg_def)
qed

lemma flush_masters_shape:
  assumes "hw_ok hw"
  shows "\<exists>ret' t'. flush_masters hw i js ret t = Some (ret', t') \<and> grows t
    (map (\<lambda>j. (IOMMU_PER_SET_ADDR_SIZE * of_nat i + IOMMU_MIC_TLB_FLUSH_ENABLE_REG (of_nat j), 1)) js) t'"
proof (induction js arbitrary: ret t)
  case (Cons j js)
  obtain r1 t1 where 1: "flush_reg hw (IOMMU_PER_SET_ADDR_SIZE * of_nat i + IOMMU_MIC_TLB_FLUSH_ENABLE_REG (of_nat j)) 1
      (i * (unat IOMMU_MIC_MAX_MASTER + 2) + j) ret t = Some (r1, t1)"
    "grows t [(IOMMU_PER_SET_ADDR_SIZE * of_nat i + IOMMU_MIC_TLB_FLUSH_ENABLE_REG (of_nat j), 1)] t1"
    by (rule flush_reg_shape [OF assms])
  from Cons [of r1 t1] obtain r2 t2 where "flush_masters hw i js r1 t1 = Some (r2, t2)"
    "grows t1 (map (\<lambda>j. (IOMMU_PER_SET_ADDR_SIZE * of_nat i + IOMMU_MIC_TLB_FLUSH_ENABLE_REG (of_nat j), 1)) js) t2"
    by blast
  with 1 grows_trans [OF 1(2)] show ?case by auto
qed (simp add: grows_refl)

lemma flush_sets_shape:
  assumes "hw_ok hw"
  shows "\<exists>ret' t'. flush_sets hw is ret t = Some (ret', t') \<and> grows t (concat (map flush_regs is)) t'"
proof (induction "is" arbitrary: ret t)
  case (Cons i js)
  let ?a = "IOMMU_PER_SET_ADDR_SIZE * of_nat i + IOMMU_TLB_FLUSH_ENABLE_REG_V2"
  obtain r1 t1 where 1: "flush_reg hw ?a 3 (i * (unat IOMMU_MIC_MAX_MASTER + 2)) ret t = Some (r1, t1)"
    "grows t [(?a, 3)] t1"
    by (rule flush_reg_shape [OF assms])
  obtain r2 t2 where 2: "flush_masters hw i [0..<unat IOMMU_MIC_MAX_MASTER] r1 t1 = Some (r2, t2)"
    "grows t1 (map (\<lambda>j. (IOMMU_PER_SET_ADDR_SIZE * of_nat i + IOMMU_MIC_TLB_FLUSH_ENABLE_REG (of_nat j), 1)) [0..<6]) t2"
    using flush_masters_shape [OF assms, of i "[0..<unat IOMMU_MIC_MAX_MASTER]" r1 t1]
    by (auto simp: IOMMU_MIC_MAX_MASTER_def)
  obtain r3 t3 where 3: "flush_sets hw js r2 t2 = Some (r3, t3)" "grows t2 (concat (map flush_regs js)) t3"
    using Cons [of r2 t2] by blast
  have "flush_sets hw (i # js) ret t = Some (r3, t3)"
    by (simp only: flush_sets.simps 1(1) 2(1) 3(1) bind.bind_lunit prod.case)
  moreover have "grows t (concat (map flush_regs (i # js))) t3"
    using grows_trans [OF grows_trans [OF 1(2) 2(2)] 3(2)] by (simp add: flush_regs_def)
  ultimately show ?case by blast
qed (simp add: grows_refl)

lemma flush_v2_shape:
  assumes "hw_ok hw"
  obtains ret t' where "sunxi_tlb_flush_v2 hw t = Some (ret, t')" "grows t (flush_regs 0 @ flush_regs 1) t'"
    "ret = 0 \<or> ret = - ETIMEDOUT"
proof -
  have "[0..<unat IOMMU_HW_SET_COUNT] = [0, 1]" by (simp add: IOMMU_HW_SET_COUNT_def upt_rec)
  then obtain r t' where "flush_sets hw [0..<unat IOMMU_HW_SET_COUNT] 0 t = Some (r, t')"
    "grows t (flush_regs 0 @ flush_regs 1) t'"
    using flush_sets_shape [OF assms, of "[0..<unat IOMMU_HW_SET_COUNT]" 0 t] by auto
  then show thesis by (intro that [of "if r \<noteq> 0 then - ETIMEDOUT else 0" t']) (auto simp: sunxi_tlb_flush_v2_def)
qed

section \<open>Masters\<close>

definition byp_reg :: "nat \<Rightarrow> u32" where
  "byp_reg i = of_nat (i div 6) * IOMMU_PER_SET_ADDR_SIZE + IOMMU_MIC_BYP_REG (of_nat (i mod 6))"

lemma enable_unlocked_eq:
  assumes "unat i < 32"
  shows "sunxi_enable_device_iommu_unlocked i f s = Some (s\<lparr>
     bypass := (if f then bypass s AND NOT (push_bit (unat i) 1) else bypass s OR push_bit (unat i) 1),
     io := io s @ [Wr (byp_reg (unat i)) (if f then 0 else 1)]\<rparr>)"
proof -
  have "instance_offset i + IOMMU_MIC_BYP_REG (i mod IOMMU_MIC_MAX_MASTER) = byp_reg (unat i)"
    by (simp add: instance_offset_def byp_reg_def IOMMU_MIC_MAX_MASTER_def unat_div [symmetric] unat_mod [symmetric]
        word_arith_nat_div word_arith_nat_mod)
  with assms show ?thesis
    by (simp add: sunxi_enable_device_iommu_unlocked_def sunxi_iommu_write_def Let_def)
qed

lemma drop_bit_and_1: "drop_bit i (x :: u32) AND 1 \<noteq> 0 \<longleftrightarrow> bit x i"
  by (simp add: and_one_eq odd_iff_mod_2_eq_one [symmetric] bit_iff_odd_drop_bit)

lemma bypass_kept:
  "(if \<not> drop_bit i x AND 1 \<noteq> 0 then x AND NOT (push_bit i 1) else x OR push_bit i 1) = (x :: u32)"
proof -
  show ?thesis using drop_bit_and_1 [of i x] by (auto intro!: bit_word_eqI simp: bit_simps)
qed

lemma init_bypass_eq:
  assumes "\<forall>i \<in> set is. i < 32"
  shows "init_bypass is s = Some (s\<lparr>io := io s @ map (\<lambda>i. Wr (byp_reg i) (if bit (bypass s) i then 1 else 0)) is\<rparr>)"
  using assms
proof (induction "is" arbitrary: s)
  case (Cons i js)
  have u: "unat (of_nat i :: u32) = i" using Cons.prems by (simp add: unat_of_nat_eq)
  have e: "sunxi_enable_device_iommu_unlocked (of_nat i) (\<not> drop_bit i (bypass s) AND 1 \<noteq> 0) s =
      Some (s\<lparr>io := io s @ [Wr (byp_reg i) (if bit (bypass s) i then 1 else 0)]\<rparr>)"
    using Cons.prems enable_unlocked_eq [of "of_nat i" "\<not> drop_bit i (bypass s) AND 1 \<noteq> 0" s] bypass_kept [of i "bypass s"]
      drop_bit_and_1 [of i "bypass s"] by (auto simp: u split: if_splits)
  show ?case unfolding init_bypass.simps e using Cons by simp
qed simp

section \<open>Initialisation\<close>

definition init_cmds_v2 :: "v1_state \<Rightarrow> u64 \<Rightarrow> (u32 \<times> u32) list" where
  "init_cmds_v2 s pgd =
     both IOMMU_TTB_REG_V2 (ucast (drop_bit 14 pgd)) @ both IOMMU_TLB_PREFETCH_REG_V2 (tlb_prefetch (plat s)) @
     (if version (plat s) \<ge> IOMMU_VERSION_V12 then both IOMMU_TLB_IVLD_MODE_SEL_REG_V2 (tlb_invalid_mode (plat s)) else []) @
     (if version (plat s) \<ge> IOMMU_VERSION_V14 then both IOMMU_PC_IVLD_MODE_SEL_REG_V2 (ptw_invalid_mode (plat s)) else []) @
     both IOMMU_INT_ENABLE_REG_V2 0x3003f @
     map (\<lambda>i. (byp_reg i, if bit (bypass s) i then 1 else 0)) [0..<12]"

definition init_writes_v2 :: "v1_state \<Rightarrow> u64 \<Rightarrow> (u32 \<times> u32) list" where
  "init_writes_v2 s pgd = init_cmds_v2 s pgd @ flush_regs 0 @ flush_regs 1"

definition enable_writes_v2 :: "(u32 \<times> u32) list" where
  "enable_writes_v2 = both IOMMU_AUTO_GATING_REG_V2 1 @ both IOMMU_ENABLE_REG_V2 IOMMU_ENABLE"

lemma hw_init_v2_flushed:
  assumes d: "domains s domain = Some d"
  defines "t0 \<equiv> (io s @ [Lock iommu_lock]) @ map (\<lambda>(a, x). Wr a x) (init_cmds_v2 s (pgtable d))"
  shows "sunxi_iommu_hw_init_v2 hw domain s = do {
     (ret, t) \<leftarrow> sunxi_tlb_flush_v2 hw t0;
     if ret \<noteq> 0 then Some (ret, s\<lparr>io := t @ [Unlock iommu_lock]\<rparr>)
     else
       let t = WRITE_EQUAL_REG IOMMU_AUTO_GATING_REG_V2 0x1 t;
           t = WRITE_EQUAL_REG IOMMU_ENABLE_REG_V2 IOMMU_ENABLE t;
           (iommu_enable, t) = READ_EQUAL_REG hw IOMMU_ENABLE_REG_V2 t;
           (iommu_enable, t) = (if iommu_enable \<noteq> 0x1 then READ_EQUAL_REG hw IOMMU_ENABLE_REG_V2 t
                                else (iommu_enable, t))
       in if iommu_enable \<noteq> 0x1 then Some (- ENODEV, s\<lparr>io := t @ [Unlock iommu_lock]\<rparr>)
          else Some (0, s\<lparr>io := t @ [Unlock iommu_lock], iommu_hw_init_flag := True\<rparr>)
   }"
proof -
  have n: "unat (IOMMU_MIC_MAX_MASTER * IOMMU_HW_SET_COUNT) = 12"
    by (simp add: IOMMU_MIC_MAX_MASTER_def IOMMU_HW_SET_COUNT_def)
  have b: "init_bypass [0..<12] (s\<lparr>io := t\<rparr>) =
      Some (s\<lparr>io := t @ map (\<lambda>i. Wr (byp_reg i) (if bit (bypass s) i then 1 else 0)) [0..<12]\<rparr>)" for t
    using init_bypass_eq [of "[0..<12]" "s\<lparr>io := t\<rparr>"] by (simp del: upt_Suc upt_rec_numeral)
  define c where "c = both IOMMU_TTB_REG_V2 (ucast (drop_bit 14 (pgtable d))) @
     both IOMMU_TLB_PREFETCH_REG_V2 (tlb_prefetch (plat s)) @
     (if version (plat s) \<ge> IOMMU_VERSION_V12 then both IOMMU_TLB_IVLD_MODE_SEL_REG_V2 (tlb_invalid_mode (plat s)) else []) @
     (if version (plat s) \<ge> IOMMU_VERSION_V14 then both IOMMU_PC_IVLD_MODE_SEL_REG_V2 (ptw_invalid_mode (plat s)) else []) @
     both IOMMU_INT_ENABLE_REG_V2 0x3003f"
  define t1 where "t1 = (io s @ [Lock iommu_lock]) @ map (\<lambda>(a, x). Wr a x) c"
  have t0: "t1 @ map (\<lambda>i. Wr (byp_reg i) (if bit (bypass s) i then 1 else 0)) [0..<12] = t0"
    by (simp add: t0_def t1_def init_cmds_v2_def c_def comp_def del: upt_Suc upt_rec_numeral)
  have pre: "WRITE_EQUAL_REG IOMMU_INT_ENABLE_REG_V2 0x3003f
      (if version (plat s) \<ge> IOMMU_VERSION_V14 then WRITE_EQUAL_REG IOMMU_PC_IVLD_MODE_SEL_REG_V2 (ptw_invalid_mode (plat s))
        (if version (plat s) \<ge> IOMMU_VERSION_V12 then WRITE_EQUAL_REG IOMMU_TLB_IVLD_MODE_SEL_REG_V2 (tlb_invalid_mode (plat s))
          (WRITE_EQUAL_REG IOMMU_TLB_PREFETCH_REG_V2 (tlb_prefetch (plat s)) (WRITE_EQUAL_REG IOMMU_TTB_REG_V2 (ucast (drop_bit 14 (pgtable d))) (io s @ [Lock iommu_lock])))
         else WRITE_EQUAL_REG IOMMU_TLB_PREFETCH_REG_V2 (tlb_prefetch (plat s)) (WRITE_EQUAL_REG IOMMU_TTB_REG_V2 (ucast (drop_bit 14 (pgtable d))) (io s @ [Lock iommu_lock])))
       else if version (plat s) \<ge> IOMMU_VERSION_V12 then WRITE_EQUAL_REG IOMMU_TLB_IVLD_MODE_SEL_REG_V2 (tlb_invalid_mode (plat s))
          (WRITE_EQUAL_REG IOMMU_TLB_PREFETCH_REG_V2 (tlb_prefetch (plat s)) (WRITE_EQUAL_REG IOMMU_TTB_REG_V2 (ucast (drop_bit 14 (pgtable d))) (io s @ [Lock iommu_lock])))
         else WRITE_EQUAL_REG IOMMU_TLB_PREFETCH_REG_V2 (tlb_prefetch (plat s)) (WRITE_EQUAL_REG IOMMU_TTB_REG_V2 (ucast (drop_bit 14 (pgtable d))) (io s @ [Lock iommu_lock]))) = t1"
    by (simp add: write_equal_trace both_def t1_def c_def)
  have io2: "s\<lparr>io := t0, io := x\<rparr> = s\<lparr>io := x\<rparr>" "io (s\<lparr>io := x\<rparr>) = x" for x by simp_all
  show ?thesis
    unfolding sunxi_iommu_hw_init_v2_def Let_def d n bind.bind_lunit pre b t0 io2 by (rule refl)
qed

lemma hw_init_v2_shape:
  assumes hw: "hw_ok hw" and d: "domains s domain = Some d"
  obtains ret s' w where "sunxi_iommu_hw_init_v2 hw domain s = Some (ret, s')"
    "critical iommu_lock w (io s) (io s')"
    "s' = s\<lparr>io := io s', iommu_hw_init_flag := iommu_hw_init_flag s \<or> ret = 0\<rparr>"
    "ret \<in> {0, - ETIMEDOUT, - ENODEV}"
    "writes w = init_writes_v2 s (pgtable d) @ (if ret = - ETIMEDOUT then [] else enable_writes_v2)"
proof -
  let ?t0 = "(io s @ [Lock iommu_lock]) @ map (\<lambda>(a, x). Wr a x) (init_cmds_v2 s (pgtable d))"
  obtain ret t where f: "sunxi_tlb_flush_v2 hw ?t0 = Some (ret, t)" "grows ?t0 (flush_regs 0 @ flush_regs 1) t"
    "ret = 0 \<or> ret = - ETIMEDOUT"
    by (rule flush_v2_shape [OF hw])
  have g: "grows (io s @ [Lock iommu_lock]) (init_writes_v2 s (pgtable d)) t"
    using grows_trans [OF grows_both_list f(2)] by (simp add: init_writes_v2_def)
  note init = hw_init_v2_flushed [OF d, of hw, unfolded f(1) bind.bind_lunit prod.case]
  show thesis
  proof (cases "ret = 0")
    case False
    with f(3) init have "sunxi_iommu_hw_init_v2 hw domain s = Some (- ETIMEDOUT, s\<lparr>io := t @ [Unlock iommu_lock]\<rparr>)"
      by simp
    moreover obtain w where "critical iommu_lock w (io s) (t @ [Unlock iommu_lock])" "writes w = init_writes_v2 s (pgtable d)"
      by (rule critical_grows [OF g])
    ultimately show thesis by (intro that [of "- ETIMEDOUT" "s\<lparr>io := t @ [Unlock iommu_lock]\<rparr>" w]) (simp_all add: errno_simps)
  next
    case True
    define t1 where "t1 = WRITE_EQUAL_REG IOMMU_ENABLE_REG_V2 IOMMU_ENABLE (WRITE_EQUAL_REG IOMMU_AUTO_GATING_REG_V2 1 t)"
    define t2 where "t2 = snd (READ_EQUAL_REG hw IOMMU_ENABLE_REG_V2 t1)"
    define t3 where "t3 = snd (READ_EQUAL_REG hw IOMMU_ENABLE_REG_V2 t2)"
    have g1: "grows (io s @ [Lock iommu_lock]) (init_writes_v2 s (pgtable d) @ enable_writes_v2) t1"
      using grows_trans [OF g grows_trans [OF grows_write_equal grows_write_equal]]
      by (simp add: t1_def enable_writes_v2_def)
    from grows_trans [OF this grows_read_equal] have g2: "grows (io s @ [Lock iommu_lock]) (init_writes_v2 s (pgtable d) @ enable_writes_v2) t2"
      by (simp add: t2_def)
    from grows_trans [OF this grows_read_equal] have g3: "grows (io s @ [Lock iommu_lock]) (init_writes_v2 s (pgtable d) @ enable_writes_v2) t3"
      by (simp add: t3_def)
    obtain x1 x2 where x: "READ_EQUAL_REG hw IOMMU_ENABLE_REG_V2 t1 = (x1, t2)" "READ_EQUAL_REG hw IOMMU_ENABLE_REG_V2 t2 = (x2, t3)"
      by (simp add: t2_def t3_def prod_eq_iff)
    define u where "u = (if x1 = 1 then t2 else t3)"
    define r where "r = (if x1 = 1 \<or> x2 = 1 then 0 else - ENODEV)"
    have if2: "(if x1 \<noteq> 1 then (x2, t3) else (x1, t2)) = (if x1 \<noteq> 1 then x2 else x1, u)" by (simp add: u_def)
    have t: "\<not> ret \<noteq> 0" using True by simp
    have init1: "sunxi_iommu_hw_init_v2 hw domain s =
       (if (if x1 \<noteq> 1 then x2 else x1) \<noteq> 1 then Some (- ENODEV, s\<lparr>io := u @ [Unlock iommu_lock]\<rparr>)
        else Some (0, s\<lparr>io := u @ [Unlock iommu_lock], iommu_hw_init_flag := True\<rparr>))"
      unfolding init if_not_P [OF t] Let_def t1_def [symmetric] x prod.case if2 by (rule refl)
    have eq: "sunxi_iommu_hw_init_v2 hw domain s =
        Some (r, s\<lparr>io := u @ [Unlock iommu_lock], iommu_hw_init_flag := iommu_hw_init_flag s \<or> r = 0\<rparr>)"
      unfolding init1 by (simp add: r_def errno_simps)
    have "grows (io s @ [Lock iommu_lock]) (init_writes_v2 s (pgtable d) @ enable_writes_v2) u"
      using g2 g3 by (simp add: u_def)
    from critical_grows [OF this] obtain w where "critical iommu_lock w (io s) (u @ [Unlock iommu_lock])"
      "writes w = init_writes_v2 s (pgtable d) @ enable_writes_v2" .
    moreover have "r \<in> {0, - ETIMEDOUT, - ENODEV}" "r \<noteq> - ETIMEDOUT" by (simp_all add: r_def errno_simps)
    ultimately show thesis by (intro that [OF eq, of w]) simp_all
  qed
qed

end
