(* ===== verification/Iommu_V3.thy ===== *)
theory Iommu_V3
  imports Iommu_V2
begin

text \<open>
  The driver \<open>sunxi-iommu-v3.c\<close>: one register set at the offsets of v1, with 34-bit fault and test
  addresses in pairs of registers, page numbers instead of addresses in the invalidation registers,
  eight names of masters and seven bypass bits and fault callbacks.  Names that the other drivers
  have too carry the suffix \<open>_v3\<close>; registers at the same offset as in v1 are the v1 constants.
\<close>

section \<open>Registers\<close>

named_theorems v3_regs "register offsets of the v3 driver that differ from v1"

definition IOMMU_L1PG_INT_REG_V3 :: u32 where [v3_regs]: "IOMMU_L1PG_INT_REG_V3 = 0x01B0"
definition IOMMU_L2PG_INT_REG_V3 :: u32 where [v3_regs]: "IOMMU_L2PG_INT_REG_V3 = 0x01B4"
definition IOMMU_LOW_VA_REG_V3 :: u32 where [v3_regs]: "IOMMU_LOW_VA_REG_V3 = 0x01C0"
definition IOMMU_HIGH_VA_REG_V3 :: u32 where [v3_regs]: "IOMMU_HIGH_VA_REG_V3 = 0x01C4"
definition IOMMU_VA_DATA_REG_V3 :: u32 where [v3_regs]: "IOMMU_VA_DATA_REG_V3 = 0x01C8"
definition IOMMU_VA_CONFIG_REG_V3 :: u32 where [v3_regs]: "IOMMU_VA_CONFIG_REG_V3 = 0x01CC"

definition IOMMU_INT_ERR_LOW_ADDR_REG_V3 :: "nat \<Rightarrow> u32" where
  "IOMMU_INT_ERR_LOW_ADDR_REG_V3 i =
     [0x0110, 0x0118, 0x0120, 0x0128, 0x0130, 0x0138, 0x0140, 0x0148, 0x0150] ! i"

definition IOMMU_INT_ERR_HIGH_ADDR_REG_V3 :: "nat \<Rightarrow> u32" where
  "IOMMU_INT_ERR_HIGH_ADDR_REG_V3 i =
     [0x0114, 0x011C, 0x0124, 0x012C, 0x0134, 0x013C, 0x0144, 0x014C, 0x0154] ! i"

definition IOMMU_INT_ERR_DATA_REG_V3 :: "nat \<Rightarrow> u32" where
  "IOMMU_INT_ERR_DATA_REG_V3 i =
     [0x0160, 0x0164, 0x0168, 0x016C, 0x0170, 0x0174, 0x0178, 0x017C, 0x0180] ! i"

section \<open>Masters\<close>

definition sunxi_iommu_register_fault_cb_v3 :: "nat \<Rightarrow> u32 \<Rightarrow> v1_state \<Rightarrow> v1_state option" where
  "sunxi_iommu_register_fault_cb_v3 cb master_id s =
     (if unat master_id < length (fault_notify_cbs s)
      then Some (s\<lparr>fault_notify_cbs := (fault_notify_cbs s)[unat master_id := Some cb]\<rparr>)
      else None)"

definition sunxi_reset_device_iommu_v3 :: "hw \<Rightarrow> u32 \<Rightarrow> trace \<Rightarrow> trace" where
  "sunxi_reset_device_iommu_v3 hw master_id t =
     (let b = push_bit (unat master_id) 1;
          (regval, t) = sunxi_iommu_read hw IOMMU_RESET_REG t;
          t = sunxi_iommu_write IOMMU_RESET_REG (regval AND NOT b) t;
          (regval, t) = sunxi_iommu_read hw IOMMU_RESET_REG t
      in if regval AND b = 0 then sunxi_iommu_write IOMMU_RESET_REG (regval OR b) t else t)"

definition sunxi_enable_device_iommu_v3 :: "u32 \<Rightarrow> bool \<Rightarrow> v1_state \<Rightarrow> v1_state option" where
  "sunxi_enable_device_iommu_v3 master_id flag s =
     (if unat master_id < length master_id_bitmap then
        let b = master_id_bitmap ! unat master_id;
            bp = (if flag then bypass s AND NOT b else bypass s OR b);
            t = io s @ [Lock iommu_lock];
            t = sunxi_iommu_write IOMMU_BYPASS_REG bp t;
            t = t @ [Unlock iommu_lock]
        in Some (s\<lparr>bypass := bp, io := t\<rparr>)
      else None)"

section \<open>Initialisation and TLB maintenance\<close>

definition sunxi_tlb_flush_v3 :: "hw \<Rightarrow> trace \<Rightarrow> (int \<times> trace) option" where
  "sunxi_tlb_flush_v3 hw t =
     (let t = sunxi_iommu_write IOMMU_TLB_FLUSH_ENABLE_REG 0x0003007f t
      in sunxi_wait_when hw IOMMU_TLB_FLUSH_ENABLE_REG 0xffffffff 2 t)"

definition sunxi_iommu_hw_init_v3 :: "hw \<Rightarrow> u64 \<Rightarrow> v1_state \<Rightarrow> (int \<times> v1_state) option" where
  "sunxi_iommu_hw_init_v3 hw input_domain s = do {
     sunxi_domain \<leftarrow> domains s input_domain;
     let t = io s @ [Lock iommu_lock];
     let t = sunxi_iommu_write IOMMU_TTB_REG (ucast (drop_bit 14 (pgtable sunxi_domain))) t;
     let t = sunxi_iommu_write IOMMU_TLB_PREFETCH_REG (tlb_prefetch (plat s)) t;
     let t = (if version (plat s) \<ge> IOMMU_VERSION_V12
              then sunxi_iommu_write IOMMU_TLB_IVLD_MODE_SEL_REG (tlb_invalid_mode (plat s)) t else t);
     let t = (if version (plat s) \<ge> IOMMU_VERSION_V14
              then sunxi_iommu_write IOMMU_PC_IVLD_MODE_SEL_REG (ptw_invalid_mode (plat s)) t else t);
     let t = sunxi_iommu_write IOMMU_INT_ENABLE_REG 0x3003f t;
     let t = sunxi_iommu_write IOMMU_BYPASS_REG (bypass s) t;
     (ret, t) \<leftarrow> sunxi_tlb_flush_v3 hw t;
     if ret \<noteq> 0 then Some (ret, s\<lparr>io := t @ [Unlock iommu_lock]\<rparr>)
     else
       let t = sunxi_iommu_write IOMMU_AUTO_GATING_REG 0x1 t;
           t = sunxi_iommu_write IOMMU_ENABLE_REG IOMMU_ENABLE t;
           (iommu_enable, t) = sunxi_iommu_read hw IOMMU_ENABLE_REG t;
           (iommu_enable, t) = (if iommu_enable \<noteq> 0x1 then sunxi_iommu_read hw IOMMU_ENABLE_REG t
                                else (iommu_enable, t))
       in if iommu_enable \<noteq> 0x1 then Some (- ENODEV, s\<lparr>io := t @ [Unlock iommu_lock]\<rparr>)
          else Some (0, s\<lparr>io := t @ [Unlock iommu_lock], iommu_hw_init_flag := True\<rparr>)
   }"

definition sunxi_tlb_invalid_v3 ::
  "hw \<Rightarrow> plat_data \<Rightarrow> u64 \<Rightarrow> u64 \<Rightarrow> trace \<Rightarrow> (int \<times> trace) option" where
  "sunxi_tlb_invalid_v3 hw p iova iova_mask t = do {
     let t = t @ [Lock iommu_lock];
     let t = (if version p \<ge> IOMMU_VERSION_V12 then
                sunxi_iommu_write IOMMU_TLB_IVLD_END_ADDR_REG
                  (ucast (drop_bit IOMMU_TLB_IVLD_ADDR_ALIGN_SHIFT iova_mask))
                  (sunxi_iommu_write IOMMU_TLB_IVLD_START_ADDR_REG
                    (ucast (drop_bit IOMMU_TLB_IVLD_ADDR_ALIGN_SHIFT iova)) t)
              else
                sunxi_iommu_write IOMMU_TLB_IVLD_ADDR_MASK_REG (ucast iova_mask)
                  (sunxi_iommu_write IOMMU_TLB_IVLD_ADDR_REG (ucast iova) t));
     let t = sunxi_iommu_write IOMMU_TLB_IVLD_ENABLE_REG 0x1 t;
     (ret, t) \<leftarrow> sunxi_wait_when hw IOMMU_TLB_IVLD_ENABLE_REG 0x1 2 t;
     Some (ret, t @ [Unlock iommu_lock])
   }"

definition sunxi_ptw_cache_invalid_v3 ::
  "hw \<Rightarrow> plat_data \<Rightarrow> u64 \<Rightarrow> u64 \<Rightarrow> trace \<Rightarrow> (int \<times> trace) option" where
  "sunxi_ptw_cache_invalid_v3 hw p iova_start iova_end t = do {
     let t = t @ [Lock iommu_lock];
     let t = (if version p \<ge> IOMMU_VERSION_V14 then
                sunxi_iommu_write IOMMU_PC_IVLD_END_ADDR_REG
                  (ucast (drop_bit IOMMU_PC_IVLD_ADDR_ALIGN_SHIFT iova_end))
                  (sunxi_iommu_write IOMMU_PC_IVLD_START_ADDR_REG
                    (ucast (drop_bit IOMMU_PC_IVLD_ADDR_ALIGN_SHIFT iova_start)) t)
              else sunxi_iommu_write IOMMU_PC_IVLD_ADDR_REG (ucast iova_start) t);
     let t = sunxi_iommu_write IOMMU_PC_IVLD_ENABLE_REG 0x1 t;
     (ret, t) \<leftarrow> sunxi_wait_when hw IOMMU_PC_IVLD_ENABLE_REG 0x1 2 t;
     Some (ret, t @ [Unlock iommu_lock])
   }"

definition sunxi_zap_tlb_v3 :: "pgver \<Rightarrow> hw \<Rightarrow> plat_data \<Rightarrow> u64 \<Rightarrow> u64 \<Rightarrow> trace \<Rightarrow> trace option" where
  "sunxi_zap_tlb_v3 v hw p iova sz =
     (if version p \<le> IOMMU_VERSION_V11 then calls
        [sunxi_tlb_invalid_v3 hw p iova pt_mask32,
         sunxi_tlb_invalid_v3 hw p (iova + SPAGE_SIZE) pt_mask32,
         sunxi_tlb_invalid_v3 hw p (iova + sz) pt_mask32,
         sunxi_tlb_invalid_v3 hw p (iova + sz + SPAGE_SIZE) pt_mask32,
         sunxi_ptw_cache_invalid_v3 hw p iova 0,
         sunxi_ptw_cache_invalid_v3 hw p (iova + SPD_SIZE v) 0,
         sunxi_ptw_cache_invalid_v3 hw p (iova + sz) 0,
         sunxi_ptw_cache_invalid_v3 hw p (iova + sz + SPD_SIZE v) 0]
      else if version p \<le> IOMMU_VERSION_V13 then calls
        [sunxi_tlb_invalid_v3 hw p iova (iova + 2 * SPAGE_SIZE),
         sunxi_tlb_invalid_v3 hw p (iova + sz - SPAGE_SIZE) (iova + sz + 8 * SPAGE_SIZE),
         sunxi_ptw_cache_invalid_v3 hw p iova 0,
         sunxi_ptw_cache_invalid_v3 hw p (iova + sz) 0,
         sunxi_ptw_cache_invalid_v3 hw p (iova + SPD_SIZE v) 0,
         sunxi_ptw_cache_invalid_v3 hw p (iova + sz + SPD_SIZE v) 0,
         sunxi_ptw_cache_invalid_v3 hw p (iova + sz + 2 * SPD_SIZE v) 0]
      else calls
        [sunxi_tlb_invalid_v3 hw p iova (iova + 2 * SPAGE_SIZE),
         sunxi_tlb_invalid_v3 hw p (iova + sz - SPAGE_SIZE) (iova + sz + 8 * SPAGE_SIZE),
         sunxi_ptw_cache_invalid_v3 hw p iova (iova + SPD_SIZE v),
         sunxi_ptw_cache_invalid_v3 hw p (iova + sz - SPD_SIZE v) (iova + sz)])"

section \<open>Mapping\<close>

definition sunxi_iommu_map_v3 ::
  "pgver \<Rightarrow> slab \<Rightarrow> u64 \<Rightarrow> u64 \<Rightarrow> u64 \<Rightarrow> u64 \<Rightarrow> u32 \<Rightarrow> v1_state \<Rightarrow> (int \<times> v1_state) option"
where
  "sunxi_iommu_map_v3 v zalloc domain iova paddr sz prot s = do {
     sunxi_domain \<leftarrow> domains s domain;
     let iova_start = iova AND IOMMU_PT_MASK;
     let iova_end = SPAGE_ALIGN (iova + sz);
     let t = io s @ [Lock dt_lock];
     (ret, g) \<leftarrow> sunxi_pgtable_prepare_l1_tables v zalloc (pgtable sunxi_domain) iova_start iova_end prot (pgt s);
     if ret \<noteq> 0 then Some (- ENOMEM, s\<lparr>pgt := g, io := t @ [Unlock dt_lock]\<rparr>)
     else do {
       (r, g) \<leftarrow> sunxi_pgtable_prepare_l2_tables v (pgtable sunxi_domain) iova_start iova_end paddr prot g;
       Some (0, s\<lparr>pgt := g, io := t @ [Unlock dt_lock]\<rparr>)
     }
   }"

partial_function (option) unmap_loop_v3 ::
  "pgver \<Rightarrow> hw \<Rightarrow> plat_data \<Rightarrow> u64 \<Rightarrow> u64 \<Rightarrow> u64 \<Rightarrow> pgtable_state \<Rightarrow> trace \<Rightarrow> (pgtable_state \<times> trace) option"
where
  "unmap_loop_v3 v hw p pgd iova_start iova_end g t =
     (if iova_start < iova_end then
        let (ret, g) = sunxi_pgtable_delete_l2_tables v pgd iova_start iova_end g;
            iova_tail_size = (of_int ret :: u32)
        in if version p < IOMMU_VERSION_V14 then do {
             (r, t) \<leftarrow> sunxi_ptw_cache_invalid_v3 hw p iova_start 0 t;
             unmap_loop_v3 v hw p pgd (iova_start + ucast iova_tail_size) iova_end g t
           }
           else unmap_loop_v3 v hw p pgd (iova_start + ucast iova_tail_size) iova_end g t
      else Some (g, t))"

definition sunxi_iommu_unmap_v3 ::
  "pgver \<Rightarrow> hw \<Rightarrow> u64 \<Rightarrow> u64 \<Rightarrow> u64 \<Rightarrow> iotlb_gather \<Rightarrow> v1_state \<Rightarrow> (u64 \<times> iotlb_gather \<times> v1_state) option"
where
  "sunxi_iommu_unmap_v3 v hw domain iova sz gather s = do {
     sunxi_domain \<leftarrow> domains s domain;
     let iova_start = iova AND IOMMU_PT_MASK;
     let iova_end = SPAGE_ALIGN (iova + sz);
     let gather = (if gather_start gather > iova_start then gather\<lparr>gather_start := iova_start\<rparr> else gather);
     let gather = (if gather_end gather < iova_end then gather\<lparr>gather_end := iova_end\<rparr> else gather);
     let t = io s @ [Lock dt_lock];
     t \<leftarrow> calls (if version (plat s) \<ge> IOMMU_VERSION_V12
                 then [sunxi_tlb_invalid_v3 hw (plat s) iova_start iova_end] else []) t;
     t \<leftarrow> calls (if version (plat s) \<ge> IOMMU_VERSION_V14
                 then [sunxi_ptw_cache_invalid_v3 hw (plat s) iova_start iova_end] else []) t;
     (g, t) \<leftarrow> unmap_loop_v3 v hw (plat s) (pgtable sunxi_domain) iova_start iova_end (pgt s) t;
     Some (sz, gather, s\<lparr>pgt := g, io := t @ [Unlock dt_lock]\<rparr>)
   }"

definition sunxi_iommu_iotlb_sync_map_v3 ::
  "pgver \<Rightarrow> hw \<Rightarrow> u64 \<Rightarrow> u64 \<Rightarrow> u64 \<Rightarrow> v1_state \<Rightarrow> v1_state option" where
  "sunxi_iommu_iotlb_sync_map_v3 v hw domain iova sz s = do {
     sunxi_domain \<leftarrow> domains s domain;
     t \<leftarrow> sunxi_zap_tlb_v3 v hw (plat s) iova sz (io s @ [Lock dt_lock]);
     Some (s\<lparr>io := t @ [Unlock dt_lock]\<rparr>)
   }"

definition sunxi_iommu_iotlb_sync_v3 ::
  "pgver \<Rightarrow> hw \<Rightarrow> u64 \<Rightarrow> iotlb_gather \<Rightarrow> v1_state \<Rightarrow> v1_state option" where
  "sunxi_iommu_iotlb_sync_v3 v hw domain gather s =
     (if version (plat s) \<ge> IOMMU_VERSION_V14 then Some s
      else do {
        sunxi_domain \<leftarrow> domains s domain;
        t \<leftarrow> sunxi_zap_tlb_v3 v hw (plat s) (gather_start gather) (gather_end gather - gather_start gather)
              (io s @ [Lock dt_lock]);
        Some (s\<lparr>io := t @ [Unlock dt_lock]\<rparr>)
      })"

definition sunxi_iommu_iova_to_phys_v3 :: "pgver \<Rightarrow> u64 \<Rightarrow> u64 \<Rightarrow> v1_state \<Rightarrow> (u64 \<times> v1_state) option" where
  "sunxi_iommu_iova_to_phys_v3 v domain iova s = do {
     sunxi_domain \<leftarrow> domains s domain;
     let t = io s @ [Lock dt_lock];
     let ret = sunxi_pgtable_iova_to_phys v (pgtable sunxi_domain) iova (pgt s);
     Some (ret, s\<lparr>io := t @ [Unlock dt_lock]\<rparr>)
   }"

section \<open>Domains and client devices\<close>

definition sunxi_iommu_domain_alloc_v3 ::
  "pgver \<Rightarrow> hw \<Rightarrow> domain_allocs \<Rightarrow> domain_type \<Rightarrow> v1_state \<Rightarrow> (u64 option \<times> v1_state) option" where
  "sunxi_iommu_domain_alloc_v3 v hw a ty s =
     (if ty = IOMMU_DOMAIN_OTHER then Some (None, s)
      else case global_sunxi_iommu_domain s of
        Some d \<Rightarrow> Some (Some d, s)
      | None \<Rightarrow>
        (case alloc_domain a of
           None \<Rightarrow> Some (None, s)
         | Some d \<Rightarrow>
           let (pg, g) = sunxi_pgtable_alloc v a (pgt s) in
           case pg of
             None \<Rightarrow> Some (None, s)
           | Some pgd \<Rightarrow>
             (case alloc_sg a of
                None \<Rightarrow> Some (None, s\<lparr>pgt := g\<rparr>)
              | Some sg \<Rightarrow>
                let s = s\<lparr>pgt := g,
                          domains := (domains s)(d \<mapsto> \<lparr>pgtable = pgd, sg_buffer = sg\<rparr>),
                          global_sunxi_iommu_domain := Some d\<rparr>
                in if \<not> iommu_hw_init_flag s then do {
                     (ret, s) \<leftarrow> sunxi_iommu_hw_init_v3 hw d s;
                     Some (Some d, s)
                   }
                   else Some (Some d, s))))"

definition sunxi_iommu_domain_free_v3 :: "pgver \<Rightarrow> hw \<Rightarrow> u64 \<Rightarrow> v1_state \<Rightarrow> v1_state option" where
  "sunxi_iommu_domain_free_v3 v hw domain s = do {
     sunxi_domain \<leftarrow> domains s domain;
     let t = io s @ [Lock dt_lock];
     let g = sunxi_pgtable_clear v (pgtable sunxi_domain) (pgt s);
     (ret, t) \<leftarrow> sunxi_tlb_flush_v3 hw t;
     Some (s\<lparr>pgt := g, io := t @ [Unlock dt_lock], domains := (domains s)(domain := None)\<rparr>)
   }"

definition sunxi_iommu_attach_dev_v3 :: "u64 \<Rightarrow> nat \<Rightarrow> int" where
  "sunxi_iommu_attach_dev_v3 domain dev = 0"

definition sunxi_iommu_probe_device_finalize_v3 :: "nat \<Rightarrow> v1_state \<Rightarrow> v1_state option" where
  "sunxi_iommu_probe_device_finalize_v3 dev s = do {
     owner \<leftarrow> dev_priv s dev;
     sunxi_enable_device_iommu_v3 (owner_tlbid owner) (owner_flag owner) s
   }"

definition sunxi_iommu_probe_device_v3 :: "nat \<Rightarrow> v1_state \<Rightarrow> int" where
  "sunxi_iommu_probe_device_v3 dev s = (if dev_priv s dev = None then - ENODEV else 0)"

definition sunxi_iommu_release_device_v3 :: "nat \<Rightarrow> v1_state \<Rightarrow> v1_state option" where
  "sunxi_iommu_release_device_v3 dev s =
     (case dev_priv s dev of
        None \<Rightarrow> Some s
      | Some owner \<Rightarrow> do {
          s \<leftarrow> sunxi_enable_device_iommu_v3 (owner_tlbid owner) False s;
          Some (s\<lparr>dev_priv := (dev_priv s)(dev := None)\<rparr>)
        })"

definition sunxi_iommu_of_xlate_v3 ::
  "bool \<Rightarrow> bool \<Rightarrow> bool \<Rightarrow> nat \<Rightarrow> u32 \<Rightarrow> u32 \<Rightarrow> v1_state \<Rightarrow> int \<times> v1_state" where
  "sunxi_iommu_of_xlate_v3 sysmmu data kzalloc_ok dev arg0 arg1 s =
     (if \<not> sysmmu then (- ENODEV, s)
      else if \<not> data then (- ENODEV, s)
      else if dev_priv s dev = None then
        if \<not> kzalloc_ok then (- ENOMEM, s)
        else (0, s\<lparr>dev_priv := (dev_priv s)(dev \<mapsto>
                \<lparr>owner_tlbid = arg0, owner_flag = (arg1 \<noteq> 0)\<rparr>)\<rparr>)
      else (0, s))"

section \<open>Test accesses\<close>

definition sunxi_set_debug_mode_v3 :: "trace \<Rightarrow> trace" where
  "sunxi_set_debug_mode_v3 = sunxi_iommu_write IOMMU_VA_CONFIG_REG_V3 0x80000000"

definition sunxi_set_prefetch_mode_v3 :: "trace \<Rightarrow> trace" where
  "sunxi_set_prefetch_mode_v3 = sunxi_iommu_write IOMMU_VA_CONFIG_REG_V3 0x00000000"

definition sunxi_iova_test_write_v3 :: "hw \<Rightarrow> u64 \<Rightarrow> u32 \<Rightarrow> trace \<Rightarrow> (int \<times> trace) option" where
  "sunxi_iova_test_write_v3 hw iova val t =
     (let t = sunxi_iommu_write IOMMU_LOW_VA_REG_V3 (ucast (iova AND 0xFFFFFFFF)) t;
          t = sunxi_iommu_write IOMMU_HIGH_VA_REG_V3 (ucast (drop_bit 32 iova AND 0xFFFFFFFF)) t;
          t = sunxi_iommu_write IOMMU_VA_DATA_REG_V3 val t;
          t = sunxi_iommu_write IOMMU_VA_CONFIG_REG_V3 0x80000100 t;
          t = sunxi_iommu_write IOMMU_VA_CONFIG_REG_V3 0x80000101 t
      in sunxi_wait_when hw IOMMU_VA_CONFIG_REG_V3 0x1 1 t)"

definition sunxi_iova_test_read_v3 :: "hw \<Rightarrow> u64 \<Rightarrow> trace \<Rightarrow> (u64 \<times> trace) option" where
  "sunxi_iova_test_read_v3 hw iova t = do {
     let t = sunxi_iommu_write IOMMU_LOW_VA_REG_V3 (ucast (iova AND 0xFFFFFFFF)) t;
     let t = sunxi_iommu_write IOMMU_HIGH_VA_REG_V3 (ucast (drop_bit 32 iova AND 0xFFFFFFFF)) t;
     let t = sunxi_iommu_write IOMMU_VA_CONFIG_REG_V3 0x80000000 t;
     let t = sunxi_iommu_write IOMMU_VA_CONFIG_REG_V3 0x80000001 t;
     (retval, t) \<leftarrow> sunxi_wait_when hw IOMMU_VA_CONFIG_REG_V3 0x1 1 t;
     if retval \<noteq> 0 then Some (0, t)
     else
       let (retval, t) = sunxi_iommu_read hw IOMMU_VA_DATA_REG_V3 t
       in Some (ucast retval, t)
   }"

section \<open>The interrupt handler\<close>

definition sunxi_iova_invalid_helper_v3 :: "pgver \<Rightarrow> u64 \<Rightarrow> v1_state \<Rightarrow> int option" where
  "sunxi_iova_invalid_helper_v3 v iova s = do {
     d \<leftarrow> global_sunxi_iommu_domain s;
     sunxi_domain \<leftarrow> domains s d;
     Some (sunxi_pgtable_invalid_helper v (pgtable sunxi_domain) iova (pgt s))
   }"

text \<open>
  The first-level walk is the one source whose data register is read before the high half of the
  address.
\<close>

definition irq_fault_regs_v3 :: "hw \<Rightarrow> plat_data \<Rightarrow> u32 \<Rightarrow> trace \<Rightarrow> (u64 \<times> u32 \<times> trace) option" where
  "irq_fault_regs_v3 hw p inter_status_reg t =
     (case fault_source inter_status_reg of
        None \<Rightarrow> Some (0, 0, t)
      | Some i \<Rightarrow>
          if i < 7 \<and> \<not> i < length (master p) then None
          else if i = 7 then
            let (low, t) = sunxi_iommu_read hw (IOMMU_INT_ERR_LOW_ADDR_REG_V3 7) t;
                (data_reg, t) = sunxi_iommu_read hw (IOMMU_INT_ERR_DATA_REG_V3 7) t;
                (high, t) = sunxi_iommu_read hw (IOMMU_INT_ERR_HIGH_ADDR_REG_V3 7) t
            in Some (ucast low OR push_bit 32 (ucast high), data_reg, t)
          else
            let (low, t) = sunxi_iommu_read hw (IOMMU_INT_ERR_LOW_ADDR_REG_V3 i) t;
                (high, t) = sunxi_iommu_read hw (IOMMU_INT_ERR_HIGH_ADDR_REG_V3 i) t;
                (data_reg, t) = sunxi_iommu_read hw (IOMMU_INT_ERR_DATA_REG_V3 i) t
            in Some (ucast low OR push_bit 32 (ucast high), data_reg, t))"

definition irq_notify_v3 :: "pgver \<Rightarrow> u32 \<Rightarrow> u64 \<Rightarrow> v1_state \<Rightarrow> trace \<Rightarrow> trace option" where
  "irq_notify_v3 v int_masterid_bitmap addr_reg s t =
     (if int_masterid_bitmap AND 0x80000000 = 0 then do {
        r \<leftarrow> sunxi_iova_invalid_helper_v3 v addr_reg s;
        master_id \<leftarrow> ffs32 (int_masterid_bitmap AND 0xffff);
        if master_id < length (master (plat s)) \<and> master_id < length (fault_notify_cbs s) then
          Some (case fault_notify_cbs s ! master_id of None \<Rightarrow> t | Some cb \<Rightarrow> t @ [Callback cb])
        else None
      }
      else Some t)"

definition irq_invalid_tlb_v3 :: "hw \<Rightarrow> plat_data \<Rightarrow> u64 \<Rightarrow> trace \<Rightarrow> trace option" where
  "irq_invalid_tlb_v3 hw p addr_reg t = do {
     t \<leftarrow> (if version p \<le> IOMMU_VERSION_V11 then do {
             let t = sunxi_iommu_write IOMMU_TLB_IVLD_ADDR_REG (ucast addr_reg) t;
             let t = sunxi_iommu_write IOMMU_TLB_IVLD_ADDR_MASK_REG (ucast IOMMU_PT_MASK) t;
             let t = sunxi_iommu_write IOMMU_TLB_IVLD_ENABLE_REG 0x1 t;
             t \<leftarrow> spin_while hw IOMMU_TLB_IVLD_ENABLE_REG 0x1 t;
             let t = sunxi_iommu_write IOMMU_TLB_IVLD_ADDR_REG (ucast (addr_reg + 0x2000)) t;
             Some (sunxi_iommu_write IOMMU_TLB_IVLD_ADDR_MASK_REG (ucast IOMMU_PT_MASK) t)
           }
           else
             let t = sunxi_iommu_write IOMMU_TLB_IVLD_START_ADDR_REG
                       (ucast (drop_bit IOMMU_TLB_IVLD_ADDR_ALIGN_SHIFT addr_reg)) t
             in Some (sunxi_iommu_write IOMMU_TLB_IVLD_END_ADDR_REG
                        (ucast (drop_bit IOMMU_TLB_IVLD_ADDR_ALIGN_SHIFT (addr_reg + 4 * SPAGE_SIZE))) t));
     let t = sunxi_iommu_write IOMMU_TLB_IVLD_ENABLE_REG 0x1 t;
     spin_while hw IOMMU_TLB_IVLD_ENABLE_REG 0x1 t
   }"

definition irq_invalid_ptw_v3 :: "pgver \<Rightarrow> hw \<Rightarrow> plat_data \<Rightarrow> u64 \<Rightarrow> trace \<Rightarrow> trace option" where
  "irq_invalid_ptw_v3 v hw p addr_reg t = do {
     t \<leftarrow> (if version p \<le> IOMMU_VERSION_V13 then do {
             let t = sunxi_iommu_write IOMMU_PC_IVLD_ADDR_REG (ucast addr_reg) t;
             let t = sunxi_iommu_write IOMMU_PC_IVLD_ENABLE_REG 0x1 t;
             t \<leftarrow> spin_while hw IOMMU_PC_IVLD_ENABLE_REG 0x1 t;
             Some (sunxi_iommu_write IOMMU_PC_IVLD_ADDR_REG (ucast (addr_reg + 0x200000)) t)
           }
           else
             let t = sunxi_iommu_write IOMMU_PC_IVLD_START_ADDR_REG
                       (ucast (drop_bit IOMMU_PC_IVLD_ADDR_ALIGN_SHIFT addr_reg)) t
             in Some (sunxi_iommu_write IOMMU_PC_IVLD_END_ADDR_REG
                        (ucast (drop_bit IOMMU_PC_IVLD_ADDR_ALIGN_SHIFT (addr_reg + 2 * SPD_SIZE v))) t));
     let t = sunxi_iommu_write IOMMU_PC_IVLD_ENABLE_REG 0x1 t;
     spin_while hw IOMMU_PC_IVLD_ENABLE_REG 0x1 t
   }"

definition sunxi_iommu_irq_v3 :: "pgver \<Rightarrow> hw \<Rightarrow> v1_state \<Rightarrow> v1_state option" where
  "sunxi_iommu_irq_v3 v hw s = do {
     let t = io s @ [Lock iommu_lock];
     let (r, t) = sunxi_iommu_read hw IOMMU_INT_STA_REG t;
     let inter_status_reg = r AND 0x3ffff;
     let (l1_pgint_reg, t) = sunxi_iommu_read hw IOMMU_L1PG_INT_REG_V3 t;
     let (l2_pgint_reg, t) = sunxi_iommu_read hw IOMMU_L2PG_INT_REG_V3 t;
     let int_masterid_bitmap = inter_status_reg OR l1_pgint_reg OR l2_pgint_reg;
     (addr_reg, data_reg, t) \<leftarrow> irq_fault_regs_v3 hw (plat s) inter_status_reg t;
     t \<leftarrow> irq_notify_v3 v int_masterid_bitmap addr_reg s t;
     t \<leftarrow> irq_invalid_tlb_v3 hw (plat s) addr_reg t;
     t \<leftarrow> irq_invalid_ptw_v3 v hw (plat s) addr_reg t;
     let t = sunxi_iommu_write IOMMU_INT_CLR_REG inter_status_reg t;
     let inter_status_reg = (inter_status_reg OR (l1_pgint_reg OR l2_pgint_reg)) AND 0xffff;
     let t = sunxi_iommu_write IOMMU_RESET_REG (NOT inter_status_reg) t;
     let t = sunxi_iommu_write IOMMU_RESET_REG 0xffffffff t;
     Some (s\<lparr>io := t @ [Unlock iommu_lock]\<rparr>)
   }"

end
