(* ===== verification/Iommu_Drivers.thy ===== *)
theory Iommu_Drivers
  imports Iommu_V2_Tlb Iommu_V3
begin

text \<open>
  The three drivers side by side.  Their map and unmap operations have the same effect on the page
  table, whatever their devices do and whichever versions they are; the shared statements are
  proved for any two drivers with the unmap sequence, in a locale with two instances of it.
\<close>

section \<open>The v3 driver\<close>

definition tlb_cmds_v3 :: "plat_data \<Rightarrow> u64 \<Rightarrow> u64 \<Rightarrow> trace" where
  "tlb_cmds_v3 p iova iova_mask =
     (if version p \<ge> IOMMU_VERSION_V12
      then [Wr IOMMU_TLB_IVLD_START_ADDR_REG (ucast (drop_bit 12 iova)), Wr IOMMU_TLB_IVLD_END_ADDR_REG (ucast (drop_bit 12 iova_mask))]
      else [Wr IOMMU_TLB_IVLD_ADDR_REG (ucast iova), Wr IOMMU_TLB_IVLD_ADDR_MASK_REG (ucast iova_mask)]) @
     [Wr IOMMU_TLB_IVLD_ENABLE_REG 1]"

definition ptw_cmds_v3 :: "plat_data \<Rightarrow> u64 \<Rightarrow> u64 \<Rightarrow> trace" where
  "ptw_cmds_v3 p iova_start iova_end =
     (if version p \<ge> IOMMU_VERSION_V14
      then [Wr IOMMU_PC_IVLD_START_ADDR_REG (ucast (drop_bit 22 iova_start)), Wr IOMMU_PC_IVLD_END_ADDR_REG (ucast (drop_bit 22 iova_end))]
      else [Wr IOMMU_PC_IVLD_ADDR_REG (ucast iova_start)]) @
     [Wr IOMMU_PC_IVLD_ENABLE_REG 1]"

lemma cmds_v3_quiet: "\<forall>e \<in> set (tlb_cmds_v3 p a b). quiet e" "\<forall>e \<in> set (ptw_cmds_v3 p a b). quiet e"
  by (auto simp: tlb_cmds_v3_def ptw_cmds_v3_def quiet_def)

lemma invalid_v3_extends:
  assumes "hw_ok hw"
  shows "\<exists>r t'. sunxi_tlb_invalid_v3 hw p a b t = Some (r, t') \<and> extends t t'"
    "\<exists>r t'. sunxi_ptw_cache_invalid_v3 hw p a b t = Some (r, t') \<and> extends t t'"
proof -
  obtain r t' where w: "sunxi_wait_when hw IOMMU_TLB_IVLD_ENABLE_REG 1 2 (t @ [Lock iommu_lock] @ tlb_cmds_v3 p a b) = Some (r, t')"
    "polled hw IOMMU_TLB_IVLD_ENABLE_REG 1 r (t @ [Lock iommu_lock] @ tlb_cmds_v3 p a b) t'"
    using wait_ok [OF assms order_refl] .
  then have "sunxi_tlb_invalid_v3 hw p a b t = Some (r, t' @ [Unlock iommu_lock])"
    by (auto simp: sunxi_tlb_invalid_v3_def tlb_cmds_v3_def sunxi_iommu_write_def Let_def
        IOMMU_TLB_IVLD_ADDR_ALIGN_SHIFT_def split: if_splits)
  moreover have "extends t (t' @ [Unlock iommu_lock])"
    using polled_critical [OF w(2) cmds_v3_quiet(1)] critical_extends by metis
  ultimately show "\<exists>r t'. sunxi_tlb_invalid_v3 hw p a b t = Some (r, t') \<and> extends t t'" by blast
next
  obtain r t' where w: "sunxi_wait_when hw IOMMU_PC_IVLD_ENABLE_REG 1 2 (t @ [Lock iommu_lock] @ ptw_cmds_v3 p a b) = Some (r, t')"
    "polled hw IOMMU_PC_IVLD_ENABLE_REG 1 r (t @ [Lock iommu_lock] @ ptw_cmds_v3 p a b) t'"
    using wait_ok [OF assms order_refl] .
  then have "sunxi_ptw_cache_invalid_v3 hw p a b t = Some (r, t' @ [Unlock iommu_lock])"
    by (auto simp: sunxi_ptw_cache_invalid_v3_def ptw_cmds_v3_def sunxi_iommu_write_def Let_def
        IOMMU_PC_IVLD_ADDR_ALIGN_SHIFT_def split: if_splits)
  moreover have "extends t (t' @ [Unlock iommu_lock])"
    using polled_critical [OF w(2) cmds_v3_quiet(2)] critical_extends by metis
  ultimately show "\<exists>r t'. sunxi_ptw_cache_invalid_v3 hw p a b t = Some (r, t') \<and> extends t t'" by blast
qed

interpretation drv3: unmap_driver hw "sunxi_tlb_invalid_v3 hw" "sunxi_ptw_cache_invalid_v3 hw"
  "\<lambda>v. unmap_loop_v3 v hw" "\<lambda>v. sunxi_iommu_unmap_v3 v hw" for hw
proof (unfold_locales, goal_cases)
  case (1 p a b t) then show ?case by (rule invalid_v3_extends)
next
  case (2 p a b t) then show ?case by (rule invalid_v3_extends)
next
  case 3 show ?case by (subst unmap_loop_v3.simps) simp
next
  case 4 show ?case by (simp only: sunxi_iommu_unmap_v3_def)
qed

lemma map_v3_as_v2: "sunxi_iommu_map_v3 = sunxi_iommu_map_v2"
  by (intro ext) (simp only: sunxi_iommu_map_v3_def sunxi_iommu_map_v2_def)

lemma iova_to_phys_v3_as_v1: "sunxi_iommu_iova_to_phys_v3 = sunxi_iommu_iova_to_phys"
  by (intro ext) (simp add: sunxi_iommu_iova_to_phys_v3_def sunxi_iommu_iova_to_phys_def Let_def)

lemma same_code_v3:
  "sunxi_tlb_flush_v3 = sunxi_tlb_flush" "sunxi_enable_device_iommu_v3 = sunxi_enable_device_iommu"
  "sunxi_reset_device_iommu_v3 = sunxi_reset_device_iommu"
  by (intro ext, simp only: sunxi_tlb_flush_v3_def sunxi_tlb_flush_def sunxi_enable_device_iommu_v3_def
      sunxi_enable_device_iommu_def sunxi_reset_device_iommu_v3_def sunxi_reset_device_iommu_def)+

section \<open>Two drivers on one table\<close>

context unmap_driver
begin

lemma unmap_by_loop:
  assumes hw: "hw_ok hw" and d: "domains s domain = Some d" and args: "core_range v iova sz"
  shows "\<exists>t0. unmap v domain iova sz gather s = do {
     (g, t) \<leftarrow> loop v (plat s) (pgtable d) iova (iova + sz) (pgt s) t0;
     Some (sz, gathered iova (iova + sz) gather, s\<lparr>pgt := g, io := t @ [Unlock dt_lock]\<rparr>) }"
proof -
  have al: "aligned 12 iova" "aligned 12 (iova + sz)" using core_range_pages [OF args] by metis+
  obtain t1 t2 where "calls (if version (plat s) \<ge> IOMMU_VERSION_V12
        then [tlb_inv (plat s) iova (iova + sz)] else []) (io s @ [Lock dt_lock]) = Some t1"
      "calls (if version (plat s) \<ge> IOMMU_VERSION_V14
        then [ptw_inv (plat s) iova (iova + sz)] else []) t1 = Some t2"
    using calls_opt_extends [OF hw] by metis
  then have "unmap v domain iova sz gather s = do {
     (g, t) \<leftarrow> loop v (plat s) (pgtable d) iova (iova + sz) (pgt s) t2;
     Some (sz, gathered iova (iova + sz) gather, s\<lparr>pgt := g, io := t @ [Unlock dt_lock]\<rparr>) }"
    unfolding unmap_eq page_align [OF al(1)] SPAGE_ALIGN_aligned [OF al(2)] Let_def using d
    by (auto simp: gathered_def min_def max_def)
  then show ?thesis by blast
qed

end

locale driver_pair =
  a: unmap_driver hwa tlba ptwa loopa unmapa + b: unmap_driver hwb tlbb ptwb loopb unmapb
  for hwa tlba ptwa loopa unmapa hwb tlbb ptwb loopb unmapb
begin

definition joint where
  "joint v pa pb pgd E Q g t =
     (case (loopa v pa pgd (page Q) (page E) g (fst t), loopb v pb pgd (page Q) (page E) g (snd t)) of
        (Some (g1, t1), Some (g2, t2)) \<Rightarrow> if g1 = g2 then Some (g1, (t1, t2)) else None
      | _ \<Rightarrow> None)"

lemma joint_step:
  assumes "hw_ok hwa" "hw_ok hwb" "Q < E" "E \<le> 4096 * npte v"
    "sunxi_pgtable_delete_l2_tables v pgd (page Q) (page E) g = (int (4096 * n), g')" "4096 * n < 2 ^ 32"
  shows "\<exists>t'. True \<and> joint v pa pb pgd E Q g t = joint v pa pb pgd E (Q + n) g' t'"
proof -
  obtain t1 t2 where "loopa v pa pgd (page Q) (page E) g (fst t) = loopa v pa pgd (page (Q + n)) (page E) g' t1"
    "loopb v pb pgd (page Q) (page E) g (snd t) = loopb v pb pgd (page (Q + n)) (page E) g' t2"
    using a.loop_step [OF assms(1,3-6)] b.loop_step [OF assms(2-6)] by metis
  then show ?thesis by (intro exI [of _ "(t1, t2)"]) (simp add: joint_def)
qed

lemma joint_hole:
  assumes "hw_ok hwa" "hw_ok hwb" "Q < E" "E \<le> 4096 * npte v" "E \<le> Q + 2 ^ 12" "\<not> dent_valid pgd (mem g) (Q div npte v)"
  shows "\<exists>t'. True \<and> joint v pa pb pgd E Q g t = Some (g, t')"
proof -
  obtain t1 t2 where "loopa v pa pgd (page Q) (page E) g (fst t) = Some (g, t1)"
    "loopb v pb pgd (page Q) (page E) g (snd t) = Some (g, t2)"
    using a.loop_hole [OF assms(1,3-6)] b.loop_hole [OF assms(2-6)] by metis
  then show ?thesis by (simp add: joint_def)
qed

lemma loops_agree:
  assumes hw: "hw_ok hwa" "hw_ok hwb" and wf: "pt_wf v pgd g" and PE: "P \<le> E" "E \<le> 4096 * npte v" "E \<le> P + 2 ^ 12"
  shows "\<exists>g' t1 t2. loopa v pa pgd (page P) (page E) g ta = Some (g', t1) \<and>
    loopb v pb pgd (page P) (page E) g tb = Some (g', t2)"
proof -
  have slab: "slab_ok v pgd (\<lambda>_. None)" by (simp add: slab_ok_def)
  have "\<exists>g' t' R. joint v pa pb pgd E P g (ta, tb) = Some (g', t') \<and> True \<and> (pt_wf v pgd g' \<and> slab_ok v pgd (\<lambda>_. None)) \<and>
      P \<le> R \<and> R \<le> E \<and>
      (\<forall>Q < 4096 * npte v. (if Q < 4096 * npte v then pt_lookup v pgd (mem g') Q else None) =
        (if P \<le> Q \<and> Q < R then None else if Q < 4096 * npte v then pt_lookup v pgd (mem g) Q else None)) \<and>
      (R < E \<longrightarrow> \<not> (R < 4096 * npte v \<and> dent_valid pgd (mem g') (R div npte v)))"
    using PE
    by (intro pt.unmap_any [where rel = "\<lambda>_ _. True" and ?P0.0 = P and loop = "joint v pa pb pgd E"] conjI wf slab)
      (auto simp: joint_def a.loop_done b.loop_done simp del: upt_Suc intro!: joint_step [OF hw, simplified] joint_hole [OF hw, simplified])
  then show ?thesis by (auto simp: joint_def split: option.splits if_splits)
qed

lemma unmap_agree:
  assumes hw: "hw_ok hwa" "hw_ok hwb" and wf: "pt_wf v (pgtable d) (pgt sa)" and args: "core_range v iova sz"
    and d: "domains sa domain = Some d" "domains sb domain = Some d" and same: "pgt sb = pgt sa"
  shows "\<exists>g t1 t2.
    unmapa v domain iova sz gather sa = Some (sz, gathered iova (iova + sz) gather, sa\<lparr>pgt := g, io := t1\<rparr>) \<and>
    unmapb v domain iova sz gather sb = Some (sz, gathered iova (iova + sz) gather, sb\<lparr>pgt := g, io := t2\<rparr>)"
proof -
  obtain b where b: "bit pgsize_bitmap b" "unat sz = 2 ^ b" using args unfolding core_range_def by blast
  obtain P n where P: "iova = page P" "iova + sz = page (P + n)" "P + n \<le> 4096 * npte v" "unat sz = 4096 * n"
    using core_range_pages [OF args] by metis
  have "(2::nat) ^ b \<le> 2 ^ 24" using b(1) by (intro power_increasing) (auto simp: pgsize_bits)
  then have n: "P + n \<le> P + 2 ^ 12" using b(2) P(4) by simp
  obtain ta tb where u: "unmapa v domain iova sz gather sa = do {
       (g, t) \<leftarrow> loopa v (plat sa) (pgtable d) iova (iova + sz) (pgt sa) ta;
       Some (sz, gathered iova (iova + sz) gather, sa\<lparr>pgt := g, io := t @ [Unlock dt_lock]\<rparr>) }"
    "unmapb v domain iova sz gather sb = do {
       (g, t) \<leftarrow> loopb v (plat sb) (pgtable d) iova (iova + sz) (pgt sb) tb;
       Some (sz, gathered iova (iova + sz) gather, sb\<lparr>pgt := g, io := t @ [Unlock dt_lock]\<rparr>) }"
    using a.unmap_by_loop [OF hw(1) d(1) args] b.unmap_by_loop [OF hw(2) d(2) args] by metis
  obtain g t1 t2 where l: "loopa v (plat sa) (pgtable d) iova (iova + sz) (pgt sa) ta = Some (g, t1)"
    "loopb v (plat sb) (pgtable d) iova (iova + sz) (pgt sb) tb = Some (g, t2)"
    using loops_agree [OF hw wf _ P(3) n] unfolding same P(2) unfolding P(1) by force
  show ?thesis
    by (intro exI [of _ g] exI [of _ "t1 @ [Unlock dt_lock]"] exI [of _ "t2 @ [Unlock dt_lock]"]) (simp add: u l)
qed

end

interpretation v12: driver_pair hwa "sunxi_tlb_invalid hwa" "sunxi_ptw_cache_invalid hwa" "\<lambda>v. unmap_loop v hwa"
  "\<lambda>v. sunxi_iommu_unmap v hwa" hwb "sunxi_tlb_invalid_v2 hwb" "sunxi_ptw_cache_invalid_v2 hwb"
  "\<lambda>v. unmap_loop_v2 v hwb" "\<lambda>v. sunxi_iommu_unmap_v2 v hwb" for hwa hwb
  by unfold_locales

interpretation v13: driver_pair hwa "sunxi_tlb_invalid hwa" "sunxi_ptw_cache_invalid hwa" "\<lambda>v. unmap_loop v hwa"
  "\<lambda>v. sunxi_iommu_unmap v hwa" hwb "sunxi_tlb_invalid_v3 hwb" "sunxi_ptw_cache_invalid_v3 hwb"
  "\<lambda>v. unmap_loop_v3 v hwb" "\<lambda>v. sunxi_iommu_unmap_v3 v hwb" for hwa hwb
  by unfold_locales

section \<open>Properties\<close>

text \<open>
  C15.  The three drivers are the same page-table machine.  On one table, with the arguments the IOMMU
  core passes, whatever their devices do and whichever hardware versions they drive:
  \<open>map\<close> of v2 and v3 returns what \<open>map_pages\<close> of v1 returns and leaves the same table, \<open>unmap\<close> of all
  three returns the same size, gathers the same range and leaves the same table, and all three
  translate alike.
\<close>

theorem drivers_agree:
  assumes "hw_ok hw1" "hw_ok hw2" "hw_ok hw3" "pt_wf v (pgtable d) g" "core_range v iova sz"
    and "domains s1 domain = Some d" "domains s2 domain = Some d" "domains s3 domain = Some d"
    and "pgt s1 = g" "pgt s2 = g" "pgt s3 = g"
  shows "(\<exists>g' t1 t2 t3 gather'.
      sunxi_iommu_unmap v hw1 domain iova sz gather s1 = Some (sz, gather', s1\<lparr>pgt := g', io := t1\<rparr>) \<and>
      sunxi_iommu_unmap_v2 v hw2 domain iova sz gather s2 = Some (sz, gather', s2\<lparr>pgt := g', io := t2\<rparr>) \<and>
      sunxi_iommu_unmap_v3 v hw3 domain iova sz gather s3 = Some (sz, gather', s3\<lparr>pgt := g', io := t3\<rparr>)) \<and>
    sunxi_iommu_map_v2 v zalloc domain iova paddr sz prot s =
      map_option (\<lambda>(ret, mapped, s'). (ret, s')) (sunxi_iommu_map v zalloc domain iova paddr sz prot s) \<and>
    sunxi_iommu_map_v3 v zalloc domain iova paddr sz prot s =
      map_option (\<lambda>(ret, mapped, s'). (ret, s')) (sunxi_iommu_map v zalloc domain iova paddr sz prot s) \<and>
    sunxi_iommu_iova_to_phys_v2 v domain w s = sunxi_iommu_iova_to_phys v domain w s \<and>
    sunxi_iommu_iova_to_phys_v3 v domain w s = sunxi_iommu_iova_to_phys v domain w s"
proof -
  have wf: "pt_wf v (pgtable d) (pgt s1)" and same: "pgt s2 = pgt s1" "pgt s3 = pgt s1"
    using assms(4,9-11) by simp_all
  obtain g1 t1 t2 where 12: "sunxi_iommu_unmap v hw1 domain iova sz gather s1 = Some (sz, gathered iova (iova + sz) gather, s1\<lparr>pgt := g1, io := t1\<rparr>)"
    "sunxi_iommu_unmap_v2 v hw2 domain iova sz gather s2 = Some (sz, gathered iova (iova + sz) gather, s2\<lparr>pgt := g1, io := t2\<rparr>)"
    using v12.unmap_agree [OF assms(1,2) wf assms(5-7) same(1)] by blast
  obtain g2 t1' t3 where 13: "sunxi_iommu_unmap v hw1 domain iova sz gather s1 = Some (sz, gathered iova (iova + sz) gather, s1\<lparr>pgt := g2, io := t1'\<rparr>)"
    "sunxi_iommu_unmap_v3 v hw3 domain iova sz gather s3 = Some (sz, gathered iova (iova + sz) gather, s3\<lparr>pgt := g2, io := t3\<rparr>)"
    using v13.unmap_agree [OF assms(1,3) wf assms(5,6,8) same(2)] by blast
  have "s1\<lparr>pgt := g1, io := t1\<rparr> = s1\<lparr>pgt := g2, io := t1'\<rparr>" using 12(1) 13(1) by simp
  then have "pgt (s1\<lparr>pgt := g1, io := t1\<rparr>) = pgt (s1\<lparr>pgt := g2, io := t1'\<rparr>)" by (rule arg_cong)
  then have "g2 = g1" by simp
  with 12 13(2) have "\<exists>g' t1 t2 t3 gather'.
      sunxi_iommu_unmap v hw1 domain iova sz gather s1 = Some (sz, gather', s1\<lparr>pgt := g', io := t1\<rparr>) \<and>
      sunxi_iommu_unmap_v2 v hw2 domain iova sz gather s2 = Some (sz, gather', s2\<lparr>pgt := g', io := t2\<rparr>) \<and>
      sunxi_iommu_unmap_v3 v hw3 domain iova sz gather s3 = Some (sz, gather', s3\<lparr>pgt := g', io := t3\<rparr>)" by blast
  then show ?thesis by (simp only: map_v2_as_v1 map_v3_as_v2 iova_to_phys_v2_as_v1 iova_to_phys_v3_as_v1 simp_thms)
qed

theorem drivers_agree_witness:
  "\<exists>s g' t1 t2 t3 gather'. pgt s \<noteq> pgt ex_state \<and>
      sunxi_iommu_unmap AW_IOMMU_PGTABLE_V1 (ex_hw 0) 0x1000 0x10000 0x4000 \<lparr>gather_start = 0xffff0000, gather_end = 0\<rparr> s
        = Some (0x4000, gather', s\<lparr>pgt := g', io := t1\<rparr>) \<and>
      sunxi_iommu_unmap_v2 AW_IOMMU_PGTABLE_V1 (ex_hw 1) 0x1000 0x10000 0x4000 \<lparr>gather_start = 0xffff0000, gather_end = 0\<rparr>
        (s\<lparr>plat := ex_plat 0x14\<rparr>) = Some (0x4000, gather', s\<lparr>plat := ex_plat 0x14, pgt := g', io := t2\<rparr>) \<and>
      sunxi_iommu_unmap_v3 AW_IOMMU_PGTABLE_V1 (ex_hw 2) 0x1000 0x10000 0x4000 \<lparr>gather_start = 0xffff0000, gather_end = 0\<rparr> s
        = Some (0x4000, gather', s\<lparr>pgt := g', io := t3\<rparr>)"
proof -
  obtain s where s: "sunxi_iommu_map AW_IOMMU_PGTABLE_V1 ex_zalloc 0x1000 0x10000 0x80000000 0x4000 3 ex_state = Some (0, Some 0x4000, s)"
    "domains s 0x1000 = Some ex_domain" "pt_wf AW_IOMMU_PGTABLE_V1 (pgtable ex_domain) (pgt s)"
    "\<forall>w. in_range 0x10000 0x4000 w \<longrightarrow> xlate AW_IOMMU_PGTABLE_V1 0x1000 w s \<noteq> Some 0"
    by (rule ex_mapped)
  have cr: "core_range AW_IOMMU_PGTABLE_V1 0x10000 0x4000" using ex_args by (simp add: core_args_def)
  have "xlate AW_IOMMU_PGTABLE_V1 0x1000 0x12345 s \<noteq> Some 0" using s(4) by (simp add: in_range_def)
  moreover have "xlate AW_IOMMU_PGTABLE_V1 0x1000 0x12345 ex_state = Some 0"
    by (rule xlate_unmapped [OF ex_state_domain]) (simp add: pt_lookup_def dent_valid_def ex_state_def)
  ultimately have ne: "pgt s \<noteq> pgt ex_state" using s(2) ex_state_domain by (auto simp: xlate_lookup)
  have d: "domains (s\<lparr>plat := ex_plat 0x14\<rparr>) 0x1000 = Some ex_domain" "pgt (s\<lparr>plat := ex_plat 0x14\<rparr>) = pgt s"
    using s(2) by simp_all
  from drivers_agree [OF ex_hw_ok ex_hw_ok ex_hw_ok s(3) cr s(2) d(1) s(2) refl d(2) refl,
      of 0 "\<lparr>gather_start = 0xffff0000, gather_end = 0\<rparr>" 1 2] ne
  show ?thesis by blast
qed

end
