(* ===== verification/Iommu_V2_Props.thy ===== *)
theory Iommu_V2_Props
  imports Iommu_Drivers
begin

text \<open>
  The properties of the v2 driver's own part: initialisation of the two register sets, bypass of the
  twelve masters, and the interrupt handler of one register set.
\<close>

section \<open>Initialisation\<close>

lemma upt_12: "[0..<12] = [0, 1, 2, 3, 4, 5, 6, 7, 8, 9, 10, 11::nat]"
  by (simp add: upt_rec)

lemma upt_6: "[0..<6] = [0, 1, 2, 3, 4, 5::nat]"
  by (simp add: upt_rec)

lemma common_both:
  assumes "unat a < 0x400"
  shows "common_writes 0 (both a x) = [(unat a, x)]" "common_writes (Suc 0) (both a x) = [(unat a, x)]"
proof -
  have "unat (a + IOMMU_PER_SET_ADDR_SIZE) = unat a + 0x10000"
    using assms by (simp add: unat_word_ariths IOMMU_PER_SET_ADDR_SIZE_def)
  with assms show "common_writes 0 (both a x) = [(unat a, x)]" "common_writes (Suc 0) (both a x) = [(unat a, x)]"
    by (simp_all add: both_def)
qed

lemma common_flush:
  "common_writes 0 (flush_regs 0 @ flush_regs 1) = [(0x30, 3)]"
  "common_writes (Suc 0) (flush_regs 0 @ flush_regs 1) = [(0x30, 3)]"
  by (simp_all add: flush_regs_def upt_6 IOMMU_MIC_TLB_FLUSH_ENABLE_REG_def v2_regs)

lemma common_bypass: "i \<le> 1 \<Longrightarrow> common_writes i (map (\<lambda>j. (byp_reg j, f j)) [0..<12]) = []"
  unfolding upt_12 by (simp add: byp_reg_def IOMMU_MIC_BYP_REG_def v2_regs)

lemma common_init:
  "common_writes 0 (init_writes_v2 s pgd) = common_writes 1 (init_writes_v2 s pgd)"
  "common_writes 0 enable_writes_v2 = common_writes 1 enable_writes_v2"
proof -
  show "common_writes 0 enable_writes_v2 = common_writes 1 enable_writes_v2"
    by (simp add: enable_writes_v2_def common_both v2_regs)
  have b: "common_writes 0 (map (\<lambda>j. (byp_reg j, f j)) [0..<12]) = []"
    "common_writes (Suc 0) (map (\<lambda>j. (byp_reg j, f j)) [0..<12]) = []" for f
    by (rule common_bypass; simp)+
  show "common_writes 0 (init_writes_v2 s pgd) = common_writes 1 (init_writes_v2 s pgd)"
    using common_flush b unfolding init_writes_v2_def init_cmds_v2_def
    by (simp add: common_both v2_regs del: upt_Suc upt_rec_numeral)
qed

section \<open>Masters\<close>

lemma byp_reg_unat: "i < 12 \<Longrightarrow> unat (byp_reg i) = (i div 6) * 0x10000 + (i mod 6) * 0x200 + 0x404"
proof -
  assume "i < 12"
  then have "i \<in> set [0..<12]" by simp
  then show ?thesis unfolding upt_12 by (auto simp: byp_reg_def IOMMU_MIC_BYP_REG_def v2_regs)
qed

lemma byp_reg_inj:
  assumes "i < 12" "j < 12" "byp_reg i = byp_reg j" shows "i = j"
proof -
  have eq: "i div 6 * 0x10000 + i mod 6 * 0x200 = j div 6 * 0x10000 + j mod 6 * 0x200"
    using assms byp_reg_unat [of i] byp_reg_unat [of j] by simp
  have "i mod 6 < 6" "j mod 6 < 6" by simp_all
  with eq have d: "i div 6 = j div 6" by linarith
  with eq have "i mod 6 = j mod 6" by simp
  with d show ?thesis by (metis div_mult_mod_eq)
qed

lemma enable_device_v2_eq:
  assumes "unat i < 32"
  shows "\<exists>s'. sunxi_enable_device_iommu_v2 i f s = Some s' \<and>
    (\<forall>n. bit (bypass s') n = (if n = unat i then \<not> f else bit (bypass s) n)) \<and>
    io s' = io s @ [Lock iommu_lock, Wr (byp_reg (unat i)) (if f then 0 else 1), Unlock iommu_lock] \<and>
    s' = s\<lparr>bypass := bypass s', io := io s'\<rparr>"
proof -
  have "bit (if f then x AND NOT (push_bit (unat i) 1) else x OR push_bit (unat i) 1) n =
      (if n = unat i then \<not> f else bit x n)" for n and x :: u32
    using assms by (cases "n < 32") (auto simp: bit_simps dest: bit_imp_le_length)
  then show ?thesis
    by (simp add: sunxi_enable_device_iommu_v2_def enable_unlocked_eq [OF assms])
qed

section \<open>The interrupt handler of one register set\<close>

lemma irq_fault_regs_v2_grows:
  "irq_fault_regs_v2 hw p i offset r t = Some (a, x, t') \<Longrightarrow> grows t [] t'"
  by (auto simp: irq_fault_regs_v2_def grows_def sunxi_iommu_read_def quiet_def split: option.splits if_splits prod.splits)

lemma irq_notify_v2_grows: "irq_notify_v2 v i m a s t = Some t' \<Longrightarrow> grows t [] t'"
  by (auto simp: irq_notify_v2_def grows_def quiet_def Option.bind_eq_Some_conv Let_def split: if_splits option.splits)

definition irq_tlb_writes_v2 :: "plat_data \<Rightarrow> u32 \<Rightarrow> u64 \<Rightarrow> (u32 \<times> u32) list" where
  "irq_tlb_writes_v2 p offset a =
     (if version p \<le> IOMMU_VERSION_V11 then
        [(offset + IOMMU_TLB_IVLD_ADDR_REG_V2, ucast a), (offset + IOMMU_TLB_IVLD_ADDR_MASK_REG_V2, ucast IOMMU_PT_MASK),
         (offset + IOMMU_TLB_IVLD_ENABLE_REG_V2, 1), (offset + IOMMU_TLB_IVLD_ADDR_REG_V2, ucast (a + 0x2000)),
         (offset + IOMMU_TLB_IVLD_ADDR_MASK_REG_V2, ucast IOMMU_PT_MASK)]
      else [(offset + IOMMU_TLB_IVLD_START_ADDR_REG_V2, ucast (drop_bit 12 a)),
            (offset + IOMMU_TLB_IVLD_END_ADDR_REG_V2, ucast (drop_bit 12 (a + 4 * SPAGE_SIZE)))]) @
     [(offset + IOMMU_TLB_IVLD_ENABLE_REG_V2, 1)]"

definition irq_ptw_writes_v2 :: "pgver \<Rightarrow> plat_data \<Rightarrow> u32 \<Rightarrow> u64 \<Rightarrow> (u32 \<times> u32) list" where
  "irq_ptw_writes_v2 v p offset a =
     (if version p \<le> IOMMU_VERSION_V13 then
        [(offset + IOMMU_PC_IVLD_ADDR_REG_V2, ucast a), (offset + IOMMU_PC_IVLD_ENABLE_REG_V2, 1),
         (offset + IOMMU_PC_IVLD_ADDR_REG_V2, ucast (a + 0x200000))]
      else [(offset + IOMMU_PC_IVLD_START_ADDR_REG_V2, ucast (drop_bit 22 a)),
            (offset + IOMMU_PC_IVLD_END_ADDR_REG_V2, ucast (drop_bit 22 (a + 2 * SPD_SIZE v)))]) @
     [(offset + IOMMU_PC_IVLD_ENABLE_REG_V2, 1)]"

lemma spin_grows_from:
  assumes "spin_while hw offset m (t @ map (\<lambda>(a, x). Wr a x) W) = Some t'"
  shows "grows t W t'"
  using grows_trans [OF grows_both_list grows_spin [OF assms]] by simp

lemma irq_invalid_tlb_v2_grows:
  assumes "irq_invalid_tlb_v2 hw p offset a t = Some t'" shows "grows t (irq_tlb_writes_v2 p offset a) t'"
proof (cases "version p \<le> IOMMU_VERSION_V11")
  case True
  with assms obtain t1 where t1: "spin_while hw (offset + IOMMU_TLB_IVLD_ENABLE_REG_V2) 1 (t @ map (\<lambda>(a, x). Wr a x)
      [(offset + IOMMU_TLB_IVLD_ADDR_REG_V2, ucast a), (offset + IOMMU_TLB_IVLD_ADDR_MASK_REG_V2, ucast IOMMU_PT_MASK),
         (offset + IOMMU_TLB_IVLD_ENABLE_REG_V2, 1)]) = Some t1"
    "spin_while hw (offset + IOMMU_TLB_IVLD_ENABLE_REG_V2) 1 (t1 @ map (\<lambda>(a, x). Wr a x)
      [(offset + IOMMU_TLB_IVLD_ADDR_REG_V2, ucast (a + 0x2000)),
         (offset + IOMMU_TLB_IVLD_ADDR_MASK_REG_V2, ucast IOMMU_PT_MASK), (offset + IOMMU_TLB_IVLD_ENABLE_REG_V2, 1)]) = Some t'"
    by (auto simp: irq_invalid_tlb_v2_def sunxi_iommu_write_def Option.bind_eq_Some_conv Let_def)
  show ?thesis using grows_trans [OF spin_grows_from [OF t1(1)] spin_grows_from [OF t1(2)]] True
    by (simp add: irq_tlb_writes_v2_def)
next
  case False
  with assms have "spin_while hw (offset + IOMMU_TLB_IVLD_ENABLE_REG_V2) 1 (t @ map (\<lambda>(a, x). Wr a x)
      [(offset + IOMMU_TLB_IVLD_START_ADDR_REG_V2, ucast (drop_bit 12 a)),
       (offset + IOMMU_TLB_IVLD_END_ADDR_REG_V2, ucast (drop_bit 12 (a + 4 * SPAGE_SIZE))),
       (offset + IOMMU_TLB_IVLD_ENABLE_REG_V2, 1)]) = Some t'"
    by (auto simp: irq_invalid_tlb_v2_def sunxi_iommu_write_def Let_def IOMMU_TLB_IVLD_ADDR_ALIGN_SHIFT_def)
  from spin_grows_from [OF this] False show ?thesis by (simp add: irq_tlb_writes_v2_def)
qed

lemma irq_invalid_ptw_v2_grows:
  assumes "irq_invalid_ptw_v2 v hw p offset a t = Some t'" shows "grows t (irq_ptw_writes_v2 v p offset a) t'"
proof (cases "version p \<le> IOMMU_VERSION_V13")
  case True
  with assms obtain t1 where t1: "spin_while hw (offset + IOMMU_PC_IVLD_ENABLE_REG_V2) 1 (t @ map (\<lambda>(a, x). Wr a x)
      [(offset + IOMMU_PC_IVLD_ADDR_REG_V2, ucast a), (offset + IOMMU_PC_IVLD_ENABLE_REG_V2, 1)]) = Some t1"
    "spin_while hw (offset + IOMMU_PC_IVLD_ENABLE_REG_V2) 1 (t1 @ map (\<lambda>(a, x). Wr a x)
      [(offset + IOMMU_PC_IVLD_ADDR_REG_V2, ucast (a + 0x200000)), (offset + IOMMU_PC_IVLD_ENABLE_REG_V2, 1)]) = Some t'"
    by (auto simp: irq_invalid_ptw_v2_def sunxi_iommu_write_def Option.bind_eq_Some_conv Let_def)
  show ?thesis using grows_trans [OF spin_grows_from [OF t1(1)] spin_grows_from [OF t1(2)]] True
    by (simp add: irq_ptw_writes_v2_def)
next
  case False
  with assms have "spin_while hw (offset + IOMMU_PC_IVLD_ENABLE_REG_V2) 1 (t @ map (\<lambda>(a, x). Wr a x)
      [(offset + IOMMU_PC_IVLD_START_ADDR_REG_V2, ucast (drop_bit 22 a)),
       (offset + IOMMU_PC_IVLD_END_ADDR_REG_V2, ucast (drop_bit 22 (a + 2 * SPD_SIZE v))),
       (offset + IOMMU_PC_IVLD_ENABLE_REG_V2, 1)]) = Some t'"
    by (auto simp: irq_invalid_ptw_v2_def sunxi_iommu_write_def Let_def IOMMU_PC_IVLD_ADDR_ALIGN_SHIFT_def)
  from spin_grows_from [OF this] False show ?thesis by (simp add: irq_ptw_writes_v2_def)
qed

text \<open>
  The values the handler of set \<open>index\<close> reads first, and its last three writes.
\<close>

definition irq_status_v2 :: "hw \<Rightarrow> u32 \<Rightarrow> trace \<Rightarrow> u32 \<times> u32 \<times> u32" where
  "irq_status_v2 hw offset t =
     (let t0 = t @ [Lock iommu_lock] in
      (reg hw t0 (offset + IOMMU_INT_STA_REG_V2) AND 0x3ffff,
       reg hw (t0 @ [Rd (offset + IOMMU_INT_STA_REG_V2)]) (offset + IOMMU_L1PG_INT_REG_V2),
       reg hw (t0 @ [Rd (offset + IOMMU_INT_STA_REG_V2), Rd (offset + IOMMU_L1PG_INT_REG_V2)]) (offset + IOMMU_L2PG_INT_REG_V2)))"

definition irq_ack_v2 :: "u32 \<Rightarrow> u32 \<Rightarrow> u32 \<Rightarrow> u32 \<Rightarrow> (u32 \<times> u32) list" where
  "irq_ack_v2 offset st l1 l2 = [(offset + IOMMU_INT_CLR_REG_V2, st),
     (offset + IOMMU_RESET_REG_V2, NOT ((st OR (l1 OR l2)) AND 0xffff)), (offset + IOMMU_RESET_REG_V2, 0xffffffff)]"

lemma irq_v2_shape:
  assumes "dump_int_from_one_instance v hw index s = Some s'"
    and off: "offset = of_nat index * IOMMU_PER_SET_ADDR_SIZE" and st: "irq_status_v2 hw offset (io s) = (st, l1, l2)"
  obtains w addr t where "critical iommu_lock w (io s) (io s')" "s' = s\<lparr>io := io s'\<rparr>"
    "writes w = irq_tlb_writes_v2 (plat s) offset addr @ irq_ptw_writes_v2 v (plat s) offset addr @ irq_ack_v2 offset st l1 l2"
    "irq_notify_v2 v index (st OR l1 OR l2) addr s t \<noteq> None"
proof -
  let ?t0 = "io s @ [Lock iommu_lock]"
  let ?t1 = "?t0 @ [Rd (offset + IOMMU_INT_STA_REG_V2), Rd (offset + IOMMU_L1PG_INT_REG_V2), Rd (offset + IOMMU_L2PG_INT_REG_V2)]"
  from assms obtain addr data t2 t3 t4 t5 where f: "irq_fault_regs_v2 hw (plat s) index offset st ?t1 = Some (addr, data, t2)"
    and n: "irq_notify_v2 v index (st OR l1 OR l2) addr s t2 = Some t3"
    "irq_invalid_tlb_v2 hw (plat s) offset addr t3 = Some t4" "irq_invalid_ptw_v2 v hw (plat s) offset addr t4 = Some t5"
    and s': "s' = s\<lparr>io := (t5 @ map (\<lambda>(a, x). Wr a x) (irq_ack_v2 offset st l1 l2)) @ [Unlock iommu_lock]\<rparr>"
    by (auto simp: dump_int_from_one_instance_def irq_status_v2_def irq_ack_v2_def sunxi_iommu_read_def sunxi_iommu_write_def Let_def
        Option.bind_eq_Some_conv)
  have "grows ?t0 [] ?t1" by (auto simp: grows_def quiet_def)
  from grows_trans [OF this irq_fault_regs_v2_grows [OF f]] irq_notify_v2_grows [OF n(1)]
  have "grows ?t0 [] t3" using grows_trans by fastforce
  from grows_trans [OF grows_trans [OF grows_trans [OF this irq_invalid_tlb_v2_grows [OF n(2)]] irq_invalid_ptw_v2_grows [OF n(3)]] grows_both_list]
  obtain w where w: "critical iommu_lock w (io s) ((t5 @ map (\<lambda>(a, x). Wr a x) (irq_ack_v2 offset st l1 l2)) @ [Unlock iommu_lock])"
    "writes w = irq_tlb_writes_v2 (plat s) offset addr @ irq_ptw_writes_v2 v (plat s) offset addr @ irq_ack_v2 offset st l1 l2"
    using critical_grows by (metis append.assoc append_Nil)
  with s' n(1) show thesis by (intro that [of w addr t2]) auto
qed

lemma irq_invalid_v2_returns:
  assumes "invalidation_ends hw (offset + IOMMU_TLB_IVLD_ENABLE_REG_V2)" "invalidation_ends hw (offset + IOMMU_PC_IVLD_ENABLE_REG_V2)"
  shows "\<exists>t'. irq_invalid_tlb_v2 hw p offset a t = Some t'" "\<exists>t'. irq_invalid_ptw_v2 v hw p offset a t = Some t'"
proof -
  obtain f g where "\<And>t. spin_while hw (offset + IOMMU_TLB_IVLD_ENABLE_REG_V2) 1 t = Some (f t)"
    "\<And>t. spin_while hw (offset + IOMMU_PC_IVLD_ENABLE_REG_V2) 1 t = Some (g t)"
    using spin_while_some [OF assms(1)] spin_while_some [OF assms(2)] by metis
  then show "\<exists>t'. irq_invalid_tlb_v2 hw p offset a t = Some t'" "\<exists>t'. irq_invalid_ptw_v2 v hw p offset a t = Some t'"
    by (simp_all add: irq_invalid_tlb_v2_def irq_invalid_ptw_v2_def Let_def)
qed

text \<open>
  What the handler of set \<open>index\<close> needs in order to return.
\<close>

definition serviceable :: "hw \<Rightarrow> nat \<Rightarrow> u32 \<Rightarrow> u32 \<Rightarrow> v1_state \<Rightarrow> bool" where
  "serviceable hw index st bitmap s \<longleftrightarrow>
     invalidation_ends hw (of_nat index * IOMMU_PER_SET_ADDR_SIZE + IOMMU_TLB_IVLD_ENABLE_REG_V2) \<and>
     invalidation_ends hw (of_nat index * IOMMU_PER_SET_ADDR_SIZE + IOMMU_PC_IVLD_ENABLE_REG_V2) \<and>
     fault_known (index * 6) bitmap s \<and>
     (\<forall>i. fault_source st = Some i \<and> i < 7 \<longrightarrow> index * 6 + i < length (master (plat s)))"

lemma irq_v2_returns:
  assumes "serviceable hw index st (st OR l1 OR l2) s"
    and "irq_status_v2 hw (of_nat index * IOMMU_PER_SET_ADDR_SIZE) (io s) = (st, l1, l2)"
  shows "\<exists>s'. dump_int_from_one_instance v hw index s = Some s'"
proof -
  let ?o = "of_nat index * IOMMU_PER_SET_ADDR_SIZE"
  have c: "invalidation_ends hw (?o + IOMMU_TLB_IVLD_ENABLE_REG_V2)" "invalidation_ends hw (?o + IOMMU_PC_IVLD_ENABLE_REG_V2)"
    "fault_known (index * 6) (st OR l1 OR l2) s" "\<And>i. fault_source st = Some i \<Longrightarrow> i < 7 \<Longrightarrow> index * 6 + i < length (master (plat s))"
    using assms(1) unfolding serviceable_def by blast+
  have n: "\<exists>t'. irq_notify_v2 v index (st OR l1 OR l2) a s t = Some t'" for a t
    using c(3) by (auto simp: fault_known_def irq_notify_v2_def sunxi_iova_invalid_helper_v2_def IOMMU_MIC_MAX_MASTER_def Let_def)
  have "\<exists>r. irq_fault_regs_v2 hw (plat s) index ?o st t = Some r" for t
    using c(4) by (auto simp: irq_fault_regs_v2_def IOMMU_MIC_MAX_MASTER_def case_prod_unfold Let_def split: option.split)
  with n irq_invalid_v2_returns [OF c(1,2)] obtain f g h k where
    "\<And>a t. irq_notify_v2 v index (st OR l1 OR l2) a s t = Some (f a t)"
    "\<And>t. irq_fault_regs_v2 hw (plat s) index ?o st t = Some (g t)"
    "\<And>a t. irq_invalid_tlb_v2 hw (plat s) ?o a t = Some (h a t)" "\<And>a t. irq_invalid_ptw_v2 v hw (plat s) ?o a t = Some (k a t)"
    by metis
  with assms(2) show ?thesis
    by (auto simp: dump_int_from_one_instance_def irq_status_v2_def sunxi_iommu_read_def Let_def case_prod_unfold)
qed

lemma irq_writes_in_set:
  assumes "index \<le> 1" "(a, x) \<in> set (irq_tlb_writes_v2 p (of_nat index * IOMMU_PER_SET_ADDR_SIZE) addr @
      irq_ptw_writes_v2 v p (of_nat index * IOMMU_PER_SET_ADDR_SIZE) addr @
      irq_ack_v2 (of_nat index * IOMMU_PER_SET_ADDR_SIZE) st l1 l2)"
  shows "unat a div 0x10000 = index"
proof -
  have "index = 0 \<or> index = 1" using assms(1) by auto
  then show ?thesis
    using assms(2) by (auto simp: irq_tlb_writes_v2_def irq_ptw_writes_v2_def irq_ack_v2_def v2_regs split: if_splits)
qed

section \<open>Properties\<close>

definition ex_state_v2 :: v1_state where
  "ex_state_v2 = ex_state\<lparr>plat := (ex_plat 0x14)\<lparr>master := map Some
     [''ISP'', ''CSI'', ''VE0'', ''VE1'', ''G2D'', ''DE'', ''DI'', ''NPU'', ''GPU'', ''RV'', ''EINK'', ''DEBUG'']\<rparr>,
     fault_notify_cbs := replicate 12 None\<rparr>"

lemma ex_v2_domain: "domains ex_state_v2 0x1000 = Some ex_domain"
  by (simp add: ex_state_v2_def ex_state_def)

text \<open>
  C21.  \<open>sunxi_iommu_hw_init\<close> of the v2 driver returns whatever the device does.  Under \<open>iommu_lock\<close> it
  programs the table base, prefetch, the invalidation modes the version has and the interrupt mask,
  then the bypass register of each of the twelve masters with the master's bit of the bypass word,
  which it does not change, then flushes all TLBs; translation is enabled after a complete flush
  only.  The common registers of both register sets receive the same writes in the same order.
\<close>

theorem hw_init_v2_order:
  assumes "hw_ok hw" "domains s domain = Some d"
  shows "\<exists>ret s' w. sunxi_iommu_hw_init_v2 hw domain s = Some (ret, s') \<and>
    critical iommu_lock w (io s) (io s') \<and> ret \<in> {0, - ETIMEDOUT, - ENODEV} \<and>
    writes w = init_writes_v2 s (pgtable d) @ (if ret = - ETIMEDOUT then [] else enable_writes_v2) \<and>
    common_writes 0 (writes w) = common_writes 1 (writes w) \<and>
    s' = s\<lparr>io := io s', iommu_hw_init_flag := iommu_hw_init_flag s \<or> ret = 0\<rparr>"
proof -
  obtain ret s' w where i: "sunxi_iommu_hw_init_v2 hw domain s = Some (ret, s')"
    "critical iommu_lock w (io s) (io s')"
    "s' = s\<lparr>io := io s', iommu_hw_init_flag := iommu_hw_init_flag s \<or> ret = 0\<rparr>"
    "ret \<in> {0, - ETIMEDOUT, - ENODEV}"
    "writes w = init_writes_v2 s (pgtable d) @ (if ret = - ETIMEDOUT then [] else enable_writes_v2)"
    by (rule hw_init_v2_shape [OF assms])
  have "common_writes 0 (writes w) = common_writes 1 (writes w)"
    unfolding i(5) common_writes_simps using common_init by (cases "ret = - ETIMEDOUT") simp_all
  with i show ?thesis by blast
qed

theorem hw_init_v2_order_witness:
  "\<exists>ret s' w. sunxi_iommu_hw_init_v2 (ex_hw 0) 0x1000 ex_state_v2 = Some (ret, s') \<and>
    critical iommu_lock w [] (io s') \<and> take 2 (writes w) = [(0x20, 0x10001), (0x10020, 0x10001)]"
  using hw_init_v2_order [OF ex_hw_ok ex_v2_domain, of 0]
  by (fastforce simp: ex_state_v2_def ex_state_def init_writes_v2_def init_cmds_v2_def both_def ex_domain_def v2_regs drop_bit_eq_div)

text \<open>
  The default bypass word has the bits of masters 0 to 6 only: with it, initialisation switches
  translation on for the masters 7 to 11 before any client of them exists.
\<close>

lemma default_bypass_v2:
  assumes "bypass s = DEFAULT_BYPASS_VALUE_V2" "i < 12"
  shows "(byp_reg i, if i < 7 then 1 else 0) \<in> set (init_writes_v2 s pgd)"
proof -
  have m: "DEFAULT_BYPASS_VALUE_V2 = mask 7" by (simp add: DEFAULT_BYPASS_VALUE_V2_def mask_eq_exp_minus_1)
  have "bit (bypass s) i \<longleftrightarrow> i < 7" using assms by (simp add: m bit_simps)
  then show ?thesis using assms(2) by (auto simp: init_writes_v2_def init_cmds_v2_def simp del: upt_Suc upt_rec_numeral)
qed

text \<open>
  C28.  The interrupt handler of one register set of the v2 driver touches that set only.  It returns
  on a device that finishes its invalidations, when there is a domain and the faulting masters are
  among the twelve; when it returns, it has run one critical section of \<open>iommu_lock\<close> in which every write goes to a register
  of the set whose interrupt it serves, and whose last three writes acknowledge exactly the status
  it read and pulse the reset bits of exactly the masters named.  For the second set, a status whose
  first fault is that of bit 6 makes it read past the end of the array of master names instead.
\<close>

theorem irq_v2_own_set:
  assumes "irq_status_v2 hw (if irq = irq1 then IOMMU_PER_SET_ADDR_SIZE else 0) (io s) = (st, l1, l2)"
  shows "(serviceable hw (if irq = irq1 then 1 else 0) st (st OR l1 OR l2) s \<longrightarrow> sunxi_iommu_irq_v2 v hw irq1 irq s \<noteq> None) \<and>
    (\<forall>s'. sunxi_iommu_irq_v2 v hw irq1 irq s = Some s' \<longrightarrow>
      (\<exists>w W. critical iommu_lock w (io s) (io s') \<and> s' = s\<lparr>io := io s'\<rparr> \<and>
        writes w = W @ irq_ack_v2 (if irq = irq1 then IOMMU_PER_SET_ADDR_SIZE else 0) st l1 l2 \<and>
        (\<forall>(a, x) \<in> set (writes w). unat a div 0x10000 = (if irq = irq1 then 1 else 0)))) \<and>
    (irq = irq1 \<and> fault_source st = Some 6 \<and> length (master (plat s)) = 12 \<longrightarrow>
      sunxi_iommu_irq_v2 v hw irq1 irq s = None)"
proof (intro conjI allI impI)
  assume "serviceable hw (if irq = irq1 then 1 else 0) st (st OR l1 OR l2) s"
  moreover have "irq_status_v2 hw (of_nat (if irq = irq1 then 1 else 0) * IOMMU_PER_SET_ADDR_SIZE) (io s) = (st, l1, l2)"
    using assms by (cases "irq = irq1") simp_all
  ultimately show "sunxi_iommu_irq_v2 v hw irq1 irq s \<noteq> None"
    using irq_v2_returns unfolding sunxi_iommu_irq_v2_def by fastforce
next
  define index :: nat where "index = (if irq = irq1 then 1 else 0)"
  have off: "(if irq = irq1 then IOMMU_PER_SET_ADDR_SIZE else 0) = of_nat index * IOMMU_PER_SET_ADDR_SIZE"
    and le: "index \<le> 1" by (simp_all add: index_def)
  note st = assms [unfolded off]
  fix s' assume "sunxi_iommu_irq_v2 v hw irq1 irq s = Some s'"
  then have "dump_int_from_one_instance v hw index s = Some s'" by (simp add: sunxi_iommu_irq_v2_def index_def)
  from irq_v2_shape [OF this refl st] obtain w addr where w: "critical iommu_lock w (io s) (io s')" "s' = s\<lparr>io := io s'\<rparr>"
    "writes w = irq_tlb_writes_v2 (plat s) (of_nat index * IOMMU_PER_SET_ADDR_SIZE) addr @
      irq_ptw_writes_v2 v (plat s) (of_nat index * IOMMU_PER_SET_ADDR_SIZE) addr @
      irq_ack_v2 (of_nat index * IOMMU_PER_SET_ADDR_SIZE) st l1 l2" by blast
  have "\<forall>(a, x) \<in> set (writes w). unat a div 0x10000 = index"
    unfolding w(3) using irq_writes_in_set [OF le] by blast
  with w show "\<exists>w W. critical iommu_lock w (io s) (io s') \<and> s' = s\<lparr>io := io s'\<rparr> \<and>
        writes w = W @ irq_ack_v2 (if irq = irq1 then IOMMU_PER_SET_ADDR_SIZE else 0) st l1 l2 \<and>
        (\<forall>(a, x) \<in> set (writes w). unat a div 0x10000 = (if irq = irq1 then 1 else 0))"
    unfolding off index_def [symmetric] by (metis append.assoc)
next
  assume a: "irq = irq1 \<and> fault_source st = Some 6 \<and> length (master (plat s)) = 12"
  then have "irq_fault_regs_v2 hw (plat s) 1 IOMMU_PER_SET_ADDR_SIZE st t = None" for t
    by (simp add: irq_fault_regs_v2_def IOMMU_MIC_MAX_MASTER_def)
  with a assms show "sunxi_iommu_irq_v2 v hw irq1 irq s = None"
    by (auto simp: sunxi_iommu_irq_v2_def dump_int_from_one_instance_def irq_status_v2_def sunxi_iommu_read_def Let_def)
qed

theorem irq_v2_own_set_witness:
  "\<exists>s' w W. sunxi_iommu_irq_v2 AW_IOMMU_PGTABLE_V1 (ex_hw 2) 91 91 ex_state_v2 = Some s' \<and>
    critical iommu_lock w [] (io s') \<and> writes w = W @ [(0x10084, 2), (0x10010, 0xfffffffd), (0x10010, 0xffffffff)] \<and>
    sunxi_iommu_irq_v2 AW_IOMMU_PGTABLE_V1 (ex_hw 64) 91 91 ex_state_v2 = None"
proof -
  have st: "irq_status_v2 (ex_hw x) (if (91::int) = 91 then IOMMU_PER_SET_ADDR_SIZE else 0) (io ex_state_v2) = (x AND 0x3ffff, x, x)" for x
    by (simp add: irq_status_v2_def ex_hw_def Let_def)
  have f1: "fault_source 2 = Some 1" "fault_source 64 = Some 6" by (simp_all add: fault_source_def upt_rec)
  have "ffs32 2 = Some 1" by (simp add: ffs32_def upt_rec numeral_eq_Suc bit_Suc)
  moreover have "invalidation_ends (ex_hw 2) a" for a by (simp add: invalidation_ends_def ex_hw_def)
  ultimately have "serviceable (ex_hw 2) 1 2 2 ex_state_v2"
    using f1(1) by (simp add: serviceable_def fault_known_def ex_state_v2_def ex_state_def)
  then have "\<exists>s'. sunxi_iommu_irq_v2 AW_IOMMU_PGTABLE_V1 (ex_hw 2) 91 91 ex_state_v2 = Some s'"
    using irq_v2_own_set [OF st [of 2]] by fastforce
  moreover have "sunxi_iommu_irq_v2 AW_IOMMU_PGTABLE_V1 (ex_hw 64) 91 91 ex_state_v2 = None"
    using irq_v2_own_set [OF st [of 64]] f1(2) by (simp add: ex_state_v2_def ex_state_def)
  ultimately show ?thesis
    using irq_v2_own_set [OF st [of 2]] by (fastforce simp: irq_ack_v2_def v2_regs ex_state_v2_def ex_state_def)
qed

end
