(* ===== verification/Iommu_Common.thy ===== *)
theory Iommu_Common
  imports Prelude
begin

text \<open>
  \<open>sunxi-iommu-common.c\<close>: the reserved and pre-mapped address ranges that client devices request in
  the device tree, and the functions of the v1 driver that collect and hand them out.  The device
  tree is a parameter: \<open>dt_find\<close> tells whether a property exists, \<open>dt_read\<close> is the result of
  \<open>of_property_read_variable_u64_array\<close> (a count or an error, and the values read).  \<open>alloc k\<close> tells
  whether the \<open>k\<close>-th call of \<open>iommu_alloc_resv_region\<close> succeeds.
\<close>

datatype resv_type = IOMMU_RESV_DIRECT | IOMMU_RESV_RESERVED

record resv_region =
  rr_start :: u64
  rr_length :: u64
  rr_prot :: u32
  rr_type :: resv_type

record dt_node =
  dt_find :: "string \<Rightarrow> bool"
  dt_read :: "string \<Rightarrow> int \<times> u64 list"

definition supported_region :: "(string \<times> resv_type) list" where
  "supported_region = [(''sunxi-iova-reserve'', IOMMU_RESV_RESERVED), (''sunxi-iova-premap'', IOMMU_RESV_DIRECT)]"

definition REGION_CNT_MAX :: nat where
  "REGION_CNT_MAX = 8"

definition overlaps :: "resv_region \<Rightarrow> resv_region \<Rightarrow> bool" where
  "overlaps walk region \<longleftrightarrow>
     \<not> (rr_start walk > rr_start region + rr_length region \<or>
        rr_start walk + rr_length walk < rr_start region)"

record rsv_state =
  rsv_list :: "resv_region list"
  rsv_calls :: nat
  rsv_warnings :: "(resv_region \<times> resv_region) list"

definition add_region :: "(nat \<Rightarrow> bool) \<Rightarrow> resv_type \<Rightarrow> u64 list \<Rightarrow> nat \<Rightarrow> rsv_state \<Rightarrow> rsv_state" where
  "add_region alloc ty array j s =
     (let s1 = s\<lparr>rsv_calls := Suc (rsv_calls s)\<rparr> in
      if alloc (rsv_calls s) then
        let region = \<lparr>rr_start = array ! (j * 2), rr_length = array ! (j * 2 + 1), rr_prot = 3, rr_type = ty\<rparr>
        in s1\<lparr>rsv_warnings := rsv_warnings s @ map (\<lambda>walk. (walk, region)) (filter (\<lambda>walk. overlaps walk region) (rsv_list s)),
              rsv_list := rsv_list s @ [region]\<rparr>
      else s1)"

definition check_property :: "dt_node \<Rightarrow> (nat \<Rightarrow> bool) \<Rightarrow> string \<times> resv_type \<Rightarrow> rsv_state \<Rightarrow> rsv_state" where
  "check_property node alloc = (\<lambda>(name, ty) s.
     if \<not> dt_find node name then s
     else
       let (count, array) = dt_read node name in
       if count \<le> 0 then s
       else if count mod 2 \<noteq> 0 then s
       else fold (add_region alloc ty array) [0..<nat (count div 2)] s)"

definition sunxi_iommu_check_cmd :: "dt_node \<Rightarrow> bool \<Rightarrow> (nat \<Rightarrow> bool) \<Rightarrow> rsv_state \<Rightarrow> int \<times> rsv_state" where
  "sunxi_iommu_check_cmd node kzalloc_ok alloc s =
     (if \<not> kzalloc_ok then (- ENOMEM, s)
      else (0, fold (check_property node alloc) supported_region s))"

text \<open>
  \<open>bus_for_each_dev\<close> calls the function for every device of the bus until one call returns nonzero.
\<close>

fun init_reserve_mem :: "dt_node list \<Rightarrow> bool \<Rightarrow> (nat \<Rightarrow> bool) \<Rightarrow> rsv_state \<Rightarrow> int \<times> rsv_state" where
  "init_reserve_mem [] kz alloc s = (0, s)"
| "init_reserve_mem (node # nodes) kz alloc s =
     (let (ret, s) = sunxi_iommu_check_cmd node kz alloc s
      in if ret \<noteq> 0 then (ret, s) else init_reserve_mem nodes kz alloc s)"

fun copy_regions :: "(nat \<Rightarrow> bool) \<Rightarrow> nat \<Rightarrow> resv_region list \<Rightarrow> resv_region list \<Rightarrow> resv_region list option" where
  "copy_regions alloc k [] head = Some head"
| "copy_regions alloc k (entry # es) head =
     (if alloc k then copy_regions alloc (Suc k) es (head @ [entry]) else None)"

definition sunxi_iommu_get_resv_regions ::
  "dt_node list \<Rightarrow> bool \<Rightarrow> (nat \<Rightarrow> bool) \<Rightarrow> (nat \<Rightarrow> bool) \<Rightarrow> resv_region list \<Rightarrow> rsv_state \<Rightarrow>
     (resv_region list \<times> rsv_state) option" where
  "sunxi_iommu_get_resv_regions bus kz alloc alloc2 head s =
     (let s = (if rsv_list s = [] then snd (init_reserve_mem bus kz alloc s) else s) in
      if rsv_list s = [] then Some (head, s)
      else map_option (\<lambda>h. (h, s)) (copy_regions alloc2 0 (rsv_list s) head))"

definition sunxi_iommu_dump_rsv_list :: "resv_region list \<Rightarrow> (u64 \<times> u64) list" where
  "sunxi_iommu_dump_rsv_list l = map (\<lambda>r. (rr_start r, rr_length r)) l"

section \<open>What the device tree asks for\<close>

definition regions_of :: "resv_type \<Rightarrow> u64 list \<Rightarrow> resv_region list" where
  "regions_of ty xs = map (\<lambda>j. \<lparr>rr_start = xs ! (j * 2), rr_length = xs ! (j * 2 + 1), rr_prot = 3, rr_type = ty\<rparr>)
     [0..<length xs div 2]"

definition requested :: "dt_node \<Rightarrow> string \<times> resv_type \<Rightarrow> resv_region list" where
  "requested node = (\<lambda>(name, ty).
     if dt_find node name \<and> fst (dt_read node name) > 0 \<and> even (fst (dt_read node name))
     then regions_of ty (snd (dt_read node name)) else [])"

definition dt_ok :: "dt_node \<Rightarrow> bool" where
  "dt_ok node \<longleftrightarrow> (\<forall>name. fst (dt_read node name) > 0 \<longrightarrow>
     fst (dt_read node name) = int (length (snd (dt_read node name))) \<and>
     length (snd (dt_read node name)) \<le> REGION_CNT_MAX)"

lemma add_regions:
  assumes "\<And>k. alloc k"
  shows "rsv_list (fold (add_region alloc ty xs) [0..<n] s) = rsv_list s @
    map (\<lambda>j. \<lparr>rr_start = xs ! (j * 2), rr_length = xs ! (j * 2 + 1), rr_prot = 3, rr_type = ty\<rparr>) [0..<n]"
  by (induction n) (simp_all add: add_region_def assms Let_def)

lemma check_property_list:
  assumes "\<And>k. alloc k" "dt_ok node"
  shows "rsv_list (check_property node alloc nt s) = rsv_list s @ requested node nt"
proof (cases nt)
  case (Pair name ty)
  obtain c xs where r: "dt_read node name = (c, xs)" by (cases "dt_read node name")
  have "c > 0 \<Longrightarrow> c = int (length xs)"
    using assms(2) [unfolded dt_ok_def, THEN spec, of name] r by simp
  then have "c > 0 \<Longrightarrow> nat (c div 2) = length xs div 2" by (simp add: nat_div_distrib)
  then have f: "c > 0 \<Longrightarrow> rsv_list (fold (add_region alloc ty xs) [0..<nat (c div 2)] s) = rsv_list s @ regions_of ty xs"
    unfolding add_regions [OF assms(1)] regions_of_def by simp
  have ev: "even c \<longleftrightarrow> c mod 2 = 0" by presburger
  show ?thesis
    unfolding Pair check_property_def requested_def prod.case r fst_conv snd_conv ev Let_def
    using f by (cases "c > 0") simp_all
qed

definition rsv_pairwise :: "rsv_state \<Rightarrow> bool" where
  "rsv_pairwise s \<longleftrightarrow> (\<forall>i j. i < j \<longrightarrow> j < length (rsv_list s) \<longrightarrow> overlaps (rsv_list s ! i) (rsv_list s ! j) \<longrightarrow>
     (rsv_list s ! i, rsv_list s ! j) \<in> set (rsv_warnings s))"

lemma add_region_pairwise:
  assumes "rsv_pairwise s" shows "rsv_pairwise (add_region alloc ty xs j s)"
proof (cases "alloc (rsv_calls s)")
  case True
  define r where "r = \<lparr>rr_start = xs ! (j * 2), rr_length = xs ! (j * 2 + 1), rr_prot = 3, rr_type = ty\<rparr>"
  let ?l = "rsv_list s" and ?s = "add_region alloc ty xs j s"
  have l: "rsv_list ?s = ?l @ [r]"
    and w: "set (rsv_warnings ?s) = set (rsv_warnings s) \<union> {(w, r) |w. w \<in> set ?l \<and> overlaps w r}"
    using True by (auto simp: add_region_def r_def Let_def)
  have "((?l @ [r]) ! i, (?l @ [r]) ! k) \<in> set (rsv_warnings ?s)"
    if ik: "i < k" "k < length ?l + 1" "overlaps ((?l @ [r]) ! i) ((?l @ [r]) ! k)" for i k
  proof (cases "k < length ?l")
    case True
    then show ?thesis using assms ik unfolding rsv_pairwise_def w by (auto simp: nth_append)
  next
    case False
    then have "k = length ?l" "i < length ?l" using ik by auto
    then show ?thesis using ik(3) unfolding w by (auto simp: nth_append)
  qed
  then show ?thesis unfolding rsv_pairwise_def l by auto
qed (use assms in \<open>simp add: add_region_def rsv_pairwise_def\<close>)

lemma check_property_pairwise: "rsv_pairwise s \<Longrightarrow> rsv_pairwise (check_property node alloc nt s)"
proof -
  have "rsv_pairwise s \<Longrightarrow> rsv_pairwise (fold (add_region alloc ty xs) js s)" for ty xs js
    by (induction js arbitrary: s) (auto intro: add_region_pairwise)
  then show "rsv_pairwise s \<Longrightarrow> rsv_pairwise (check_property node alloc nt s)"
    by (auto simp: check_property_def split: prod.splits)
qed

section \<open>Properties\<close>

text \<open>
  C12.  When memory suffices, \<open>sunxi_iommu_check_cmd\<close> appends exactly the regions that the two
  properties of the node describe, the reserved ones first and each in the order of the tree (a
  property that is missing, empty, unreadable or of odd length contributes nothing); a node
  contributes at most eight.  Two regions of the list that overlap have been reported.
\<close>

theorem check_cmd_regions:
  assumes "\<And>k. alloc k" "dt_ok node" "rsv_pairwise s"
  shows "\<exists>s'. sunxi_iommu_check_cmd node True alloc s = (0, s') \<and>
    rsv_list s' = rsv_list s @ requested node (''sunxi-iova-reserve'', IOMMU_RESV_RESERVED) @
      requested node (''sunxi-iova-premap'', IOMMU_RESV_DIRECT) \<and>
    length (rsv_list s') \<le> length (rsv_list s) + 8 \<and> rsv_pairwise s'"
proof -
  have len: "length (requested node (name, ty)) \<le> 4" for name ty
    using assms(2) [unfolded dt_ok_def, THEN spec, of name] by (auto simp: requested_def regions_of_def REGION_CNT_MAX_def)
  show ?thesis
    using assms(3) len [of "''sunxi-iova-reserve''" IOMMU_RESV_RESERVED] len [of "''sunxi-iova-premap''" IOMMU_RESV_DIRECT]
    by (simp add: sunxi_iommu_check_cmd_def supported_region_def check_property_list [OF assms(1,2)] check_property_pairwise)
qed

definition ex_node :: dt_node where
  "ex_node = \<lparr>dt_find = (\<lambda>name. name = ''sunxi-iova-reserve''), dt_read = (\<lambda>name. (2, [0x40000000, 0x2000000]))\<rparr>"

theorem check_cmd_regions_witness:
  "rsv_list (snd (sunxi_iommu_check_cmd ex_node True (\<lambda>k. True) \<lparr>rsv_list = [], rsv_calls = 0, rsv_warnings = []\<rparr>)) =
     [\<lparr>rr_start = 0x40000000, rr_length = 0x2000000, rr_prot = 3, rr_type = IOMMU_RESV_RESERVED\<rparr>]"
proof -
  have "dt_ok ex_node" by (simp add: dt_ok_def ex_node_def REGION_CNT_MAX_def)
  moreover have "rsv_pairwise \<lparr>rsv_list = [], rsv_calls = 0, rsv_warnings = []\<rparr>" by (simp add: rsv_pairwise_def)
  ultimately show ?thesis
    using check_cmd_regions [of "\<lambda>k. True" ex_node, OF TrueI]
    by (fastforce simp: requested_def regions_of_def ex_node_def)
qed

text \<open>
  The overlap test never misses a common address, and it also reports two regions that only
  touch: without wrap-around it holds exactly when the closed intervals meet.
\<close>

lemma overlaps_closed:
  assumes "unat (rr_start a) + unat (rr_length a) < 2 ^ 64" "unat (rr_start b) + unat (rr_length b) < 2 ^ 64"
  shows "overlaps a b \<longleftrightarrow>
    (\<exists>x. unat (rr_start a) \<le> x \<and> x \<le> unat (rr_start a) + unat (rr_length a) \<and>
         unat (rr_start b) \<le> x \<and> x \<le> unat (rr_start b) + unat (rr_length b))"
proof -
  have "unat (rr_start a + rr_length a) = unat (rr_start a) + unat (rr_length a)"
    "unat (rr_start b + rr_length b) = unat (rr_start b) + unat (rr_length b)"
    using assms by (simp_all add: unat_word_ariths)
  then show ?thesis
    unfolding overlaps_def word_less_nat_alt
    by (auto intro!: exI [of _ "max (unat (rr_start a)) (unat (rr_start b))"])
qed

lemma touching_overlap:
  "overlaps \<lparr>rr_start = 0x1000, rr_length = 0x1000, rr_prot = 3, rr_type = IOMMU_RESV_DIRECT\<rparr>
     \<lparr>rr_start = 0x2000, rr_length = 0x1000, rr_prot = 3, rr_type = IOMMU_RESV_DIRECT\<rparr>"
  by (subst overlaps_closed) (auto intro!: exI [of _ "0x2000"])

end
