(* ===== verification/Pgtable_Dump.thy ===== *)
theory Pgtable_Dump
  imports Pgtable_Interface
begin

text \<open>
  The dump of the page table (\<open>sunxi_pgtable_dump\<close>): the regions it prints, as records in the order
  of printing.  The text of a line and the truncation at the end of the buffer are left out; a
  region carries all that a line shows.  The correctness lemma relates the regions to the pages of
  the table: they list every valid page once, in ascending order.
\<close>

record dump_region =
  access_mask :: u32
  region_size :: u64
  region_phys :: u64
  region_iova :: u64

definition region_ended :: "u32 \<Rightarrow> bool" where
  "region_ended pent \<longleftrightarrow> pent AND SUNXI_PTE_PAGE_VALID = 0"

definition access_mask_changed :: "u32 \<Rightarrow> u32 \<Rightarrow> bool" where
  "access_mask_changed pent old_mask \<longleftrightarrow>
     old_mask \<noteq> pent AND (SUNXI_PTE_PAGE_READABLE OR SUNXI_PTE_PAGE_WRITABLE)"

definition flush_region :: "dump_region list \<times> dump_region \<Rightarrow> dump_region list \<times> dump_region" where
  "flush_region = (\<lambda>(out, r). (out @ [r], r\<lparr>region_size := 0, access_mask := 0\<rparr>))"

definition dump_pte ::
  "pgver \<Rightarrow> nat \<Rightarrow> nat \<Rightarrow> u32 \<Rightarrow> dump_region list \<times> dump_region \<Rightarrow> dump_region list \<times> dump_region" where
  "dump_pte v i j pent = (\<lambda>(out, r).
     let (out, r) =
           (if region_size r \<noteq> 0 \<and>
               (region_ended pent \<or> access_mask r \<noteq> 0 \<and> access_mask_changed pent (access_mask r))
            then flush_region (out, r) else (out, r))
     in if pent AND SUNXI_PTE_PAGE_VALID \<noteq> 0 then
          let r = (if region_size r = 0 then
                     r\<lparr>region_iova := push_bit (IOMMU_PD_SHIFT v) (of_nat i) + push_bit IOMMU_PT_SHIFT (of_nat j),
                       region_phys := iommu_phy_to_cpu_phy v (IOPTE_TO_PFN v pent),
                       access_mask := pent AND (SUNXI_PTE_PAGE_READABLE OR SUNXI_PTE_PAGE_WRITABLE)\<rparr>
                   else r)
          in (out, r\<lparr>region_size := region_size r + push_bit IOMMU_PT_SHIFT 1\<rparr>)
        else (out, r))"

definition dump_dent ::
  "pgver \<Rightarrow> u64 \<Rightarrow> (u64 \<Rightarrow> u32) \<Rightarrow> nat \<Rightarrow> dump_region list \<times> dump_region \<Rightarrow> dump_region list \<times> dump_region" where
  "dump_dent v pgtable m i st =
     (let dent = pgtable + 4 * of_nat i in
      if \<not> IS_VALID (m dent) then (if region_size (snd st) \<noteq> 0 then flush_region st else st)
      else
        let pent = iopte_offset v (m dent) 0
        in fold (\<lambda>j. dump_pte v i j (m (pent + 4 * of_nat j))) [0..<unat (NUM_ENTRIES_PTE v)] st)"

definition sunxi_pgtable_dump :: "pgver \<Rightarrow> u64 \<Rightarrow> (u64 \<Rightarrow> u32) \<Rightarrow> dump_region list" where
  "sunxi_pgtable_dump v pgtable m =
     (let r0 = \<lparr>access_mask = 0, region_size = 0, region_phys = 0, region_iova = 0\<rparr>;
          (out, r) = fold (dump_dent v pgtable m) [0..<unat (NUM_ENTRIES_PDE v)] ([], r0)
      in if region_size r \<noteq> 0 then out @ [r] else out)"

section \<open>The pages a region covers\<close>

definition region_pages :: "dump_region \<Rightarrow> nat list" where
  "region_pages r = [unat (region_iova r) div 4096..<unat (region_iova r) div 4096 + unat (region_size r) div 4096]"

definition page_valid :: "pgver \<Rightarrow> u64 \<Rightarrow> (u64 \<Rightarrow> u32) \<Rightarrow> nat \<Rightarrow> bool" where
  "page_valid v pgd m P \<longleftrightarrow> dent_valid pgd m (P div npte v) \<and>
     bit (m (cell (dent_table v pgd m (P div npte v)) (P mod npte v))) 1"

definition dump_inv :: "pgver \<Rightarrow> u64 \<Rightarrow> (u64 \<Rightarrow> u32) \<Rightarrow> nat \<Rightarrow> dump_region list \<times> dump_region \<Rightarrow> bool" where
  "dump_inv v pgd m P = (\<lambda>(out, r).
     (\<exists>n \<le> P. region_size r = of_nat (4096 * n) \<and> (0 < n \<longrightarrow> region_iova r = page (P - n)) \<and>
        concat (map region_pages out) @ [P - n..<P] = filter (page_valid v pgd m) [0..<P]))"

lemma valid_bit: "e AND SUNXI_PTE_PAGE_VALID = 0 \<longleftrightarrow> \<not> bit e 1"
  unfolding SUNXI_PTE_PAGE_VALID_def by (simp add: bit_iff_and_push_bit_not_eq_0)

lemma region_pages_run:
  assumes "P \<le> 4096 * npte v" "n \<le> P" "region_size r = of_nat (4096 * n)" "0 < n" "region_iova r = page (P - n)"
  shows "region_pages r = [P - n..<P]"
proof -
  have "unat (region_iova r) = 4096 * (P - n)" unfolding assms(5) using assms(1) by (intro unat_page [where v = v]) simp
  moreover have "unat (region_size r) = 4096 * n"
    unfolding assms(3) using assms(1,2) npages_le [of v] by (intro unat_of_nat_eq) simp
  ultimately show ?thesis using assms(2) by (simp add: region_pages_def)
qed

lemma size_zero: "P \<le> 4096 * npte v \<Longrightarrow> n \<le> P \<Longrightarrow> (of_nat (4096 * n) :: u64) = 0 \<longleftrightarrow> n = 0"
proof -
  assume "P \<le> 4096 * npte v" "n \<le> P"
  then have "unat (of_nat (4096 * n) :: u64) = 4096 * n" using npages_le [of v] by (intro unat_of_nat_eq) simp
  then show ?thesis by (metis mult_eq_0_iff unat_eq_0 zero_neq_numeral)
qed

lemma flush_inv:
  assumes inv: "dump_inv v pgd m P (out, r)" and P: "P \<le> 4096 * npte v" and nz: "region_size r \<noteq> 0"
  shows "dump_inv v pgd m P (flush_region (out, r))"
proof -
  obtain n where n: "n \<le> P" "region_size r = of_nat (4096 * n)" "0 < n \<longrightarrow> region_iova r = page (P - n)"
    "concat (map region_pages out) @ [P - n..<P] = filter (page_valid v pgd m) [0..<P]"
    using inv by (auto simp: dump_inv_def)
  have "0 < n" using nz n(2) by (cases n) auto
  then have "region_pages r = [P - n..<P]" using n P by (intro region_pages_run) auto
  with n(4) show ?thesis by (auto simp: dump_inv_def flush_region_def intro!: exI [of _ 0])
qed

lemma run_snoc: "n \<le> P \<Longrightarrow> [P - n..<P] @ [P] = [P - n..<Suc P]"
  by simp

lemma dump_pte_inv:
  assumes inv: "dump_inv v pgd m P (out, r)" and P: "P < 4096 * npte v" and ij: "P = i * npte v + j" "j < npte v"
    and e: "bit e 1 = page_valid v pgd m P"
  shows "dump_inv v pgd m (Suc P) (dump_pte v i j e (out, r))"
proof -
  let ?fl = "region_size r \<noteq> 0 \<and> (region_ended e \<or> access_mask r \<noteq> 0 \<and> access_mask_changed e (access_mask r))"
  obtain out1 r1 where s1: "(out1, r1) = (if ?fl then flush_region (out, r) else (out, r))" by (metis surj_pair)
  have i1: "dump_inv v pgd m P (out1, r1)" unfolding s1 using inv flush_inv [OF inv] P by auto
  obtain n where n: "n \<le> P" "region_size r1 = of_nat (4096 * n)" "0 < n \<longrightarrow> region_iova r1 = page (P - n)"
    "concat (map region_pages out1) @ [P - n..<P] = filter (page_valid v pgd m) [0..<P]"
    using i1 by (auto simp: dump_inv_def)
  have z: "region_size r1 = 0 \<longleftrightarrow> n = 0" unfolding n(2) using P n(1) by (intro size_zero [where v = v]) auto
  have addr: "push_bit (IOMMU_PD_SHIFT v) (of_nat i) + push_bit IOMMU_PT_SHIFT (of_nat j) = page P"
    by (cases v) (simp_all add: page_def ij push_bit_eq_mult npte_def IOMMU_PT_SHIFT_def algebra_simps)
  have eq: "dump_pte v i j e (out, r) =
     (if bit e 1 then
        let r2 = (if region_size r1 = 0 then
                     r1\<lparr>region_iova := page P, region_phys := iommu_phy_to_cpu_phy v (IOPTE_TO_PFN v e),
                       access_mask := e AND (SUNXI_PTE_PAGE_READABLE OR SUNXI_PTE_PAGE_WRITABLE)\<rparr> else r1)
        in (out1, r2\<lparr>region_size := region_size r2 + 4096\<rparr>)
      else (out1, r1))"
    unfolding dump_pte_def prod.case s1 [symmetric] addr valid_bit by (simp add: IOMMU_PT_SHIFT_def Let_def)
  show ?thesis
  proof (cases "bit e 1")
    case False
    then have "n = 0" using s1 z by (auto simp: region_ended_def valid_bit flush_region_def split: if_splits)
    with False eq n e show ?thesis by (auto simp: dump_inv_def intro!: exI [of _ 0])
  next
    case True
    obtain r2 where r2: "dump_pte v i j e (out, r) = (out1, r2)" "region_size r2 = of_nat (4096 * n) + 4096"
      "region_iova r2 = page (P - n)"
      using True eq z n(2,3) by (cases "n = 0") (auto simp: Let_def simp del: of_nat_mult)
    have "region_size r2 = of_nat (4096 * Suc n)" using r2(2) by simp
    moreover have "concat (map region_pages out1) @ [P - n..<Suc P] = filter (page_valid v pgd m) [0..<Suc P]"
      using n(4) run_snoc [OF n(1)] True e by (simp del: upt_Suc add: upt_Suc_append [of 0 P] flip: append_assoc)
        (metis append_assoc n(4))
    ultimately show ?thesis
      unfolding r2(1) dump_inv_def prod.case using n(1) r2(3) by (intro exI [of _ "Suc n"]) (simp del: upt_Suc)
  qed
qed

lemma dump_dent_inv:
  assumes inv: "dump_inv v pgd m (i * npte v) st" and i: "i < 4096"
  shows "dump_inv v pgd m (Suc i * npte v) (dump_dent v pgd m i st)"
proof (cases "dent_valid pgd m i")
  case False
  have bound: "i * npte v \<le> 4096 * npte v" using i by simp
  define st1 where "st1 = (if region_size (snd st) \<noteq> 0 then flush_region st else st)"
  have "dump_inv v pgd m (i * npte v) st1"
    using inv flush_inv [of v pgd m "i * npte v" "fst st" "snd st"] bound by (auto simp: st1_def)
  moreover have "region_size (snd st1) = 0"
    by (auto simp: st1_def flush_region_def split: prod.split)
  ultimately have n0: "concat (map region_pages (fst st1)) = filter (page_valid v pgd m) [0..<i * npte v]"
    using size_zero [OF bound] by (cases st1) (auto simp: dump_inv_def)
  have "\<not> page_valid v pgd m P" if "i * npte v \<le> P" "P < Suc i * npte v" for P
  proof -
    have "P div npte v = i" using that by (intro div_nat_eqI) (auto simp: mult.commute)
    with False show ?thesis by (simp add: page_valid_def)
  qed
  then have "filter (page_valid v pgd m) [i * npte v..<i * npte v + npte v] = []" by (auto simp: filter_empty_conv)
  moreover have "[0..<Suc i * npte v] = [0..<i * npte v] @ [i * npte v..<i * npte v + npte v]"
    using upt_add_eq_append [of 0 "i * npte v" "npte v"] by (simp add: add.commute)
  ultimately have "dump_inv v pgd m (Suc i * npte v) st1"
    using n0 \<open>region_size (snd st1) = 0\<close> by (cases st1) (auto simp: dump_inv_def intro!: exI [of _ 0])
  moreover have "dump_dent v pgd m i st = st1"
    using False by (simp add: dump_dent_def st1_def dent_valid_def cell_def Let_def)
  ultimately show ?thesis by simp
next
  case True
  let ?t = "dent_table v pgd m i"
  have "unat (page 0) div 4096 mod npte v = 0" by (simp add: page_def)
  then have off: "iopte_offset v (m (cell pgd i)) 0 = ?t"
    by (simp add: iopte_offset_cell dent_table_def)
  let ?f = "\<lambda>j. dump_pte v i j (m (?t + 4 * of_nat j))"
  have "dump_inv v pgd m (i * npte v + k) (fold ?f [0..<k] st)" if "k \<le> npte v" for k
    using that
  proof (induction k)
    case 0 with inv show ?case by simp
  next
    case (Suc k)
    let ?P = "i * npte v + k"
    have k: "k < npte v" using Suc.prems by simp
    have "?P < Suc i * npte v" using k by simp
    also have "\<dots> \<le> 4096 * npte v" using i by (intro mult_le_mono1) simp
    finally have P: "?P < 4096 * npte v" .
    have "?P div npte v = i" "?P mod npte v = k" using k by simp_all
    then have e: "bit (m (?t + 4 * of_nat k)) 1 = page_valid v pgd m ?P"
      using True by (simp add: page_valid_def cell_def)
    have "dump_inv v pgd m ?P (fold ?f [0..<k] st)" using Suc by simp
    then show ?case
      using dump_pte_inv [OF _ P refl k e, of "fst (fold ?f [0..<k] st)" "snd (fold ?f [0..<k] st)"] by simp
  qed
  from this [of "npte v"] have "dump_inv v pgd m (Suc i * npte v) (fold ?f [0..<npte v] st)"
    by (simp add: add.commute)
  moreover have "dump_dent v pgd m i st = fold ?f [0..<npte v] st"
    using True off by (simp add: dump_dent_def dent_valid_def cell_def unat_NUM_PTE Let_def)
  ultimately show ?thesis by simp
qed

lemma dump_pages:
  "concat (map region_pages (sunxi_pgtable_dump v pgd m)) = filter (page_valid v pgd m) [0..<4096 * npte v]"
proof -
  let ?r0 = "\<lparr>access_mask = 0, region_size = 0, region_phys = 0, region_iova = 0\<rparr>"
  have "dump_inv v pgd m (k * npte v) (fold (dump_dent v pgd m) [0..<k] ([], ?r0))" if "k \<le> 4096" for k
    using that
  proof (induction k)
    case 0 show ?case by (simp add: dump_inv_def)
  next
    case (Suc k) then show ?case using dump_dent_inv [of v pgd m k] by simp
  qed
  from this [of 4096] obtain out r where
    f: "fold (dump_dent v pgd m) [0..<4096] ([], ?r0) = (out, r)" "dump_inv v pgd m (4096 * npte v) (out, r)"
    by (cases "fold (dump_dent v pgd m) [0..<4096] ([], ?r0)") auto
  then have d: "sunxi_pgtable_dump v pgd m = (if region_size r \<noteq> 0 then fst (flush_region (out, r)) else out)"
    by (simp add: sunxi_pgtable_dump_def NUM_PDE flush_region_def)
  show ?thesis
  proof (cases "region_size r = 0")
    case True
    with f(2) d show ?thesis using size_zero [of "4096 * npte v" v] by (auto simp: dump_inv_def)
  next
    case False
    obtain n where "n \<le> 4096 * npte v" "region_size r = of_nat (4096 * n)"
      "0 < n \<longrightarrow> region_iova r = page (4096 * npte v - n)"
      "concat (map region_pages out) @ [4096 * npte v - n..<4096 * npte v] = filter (page_valid v pgd m) [0..<4096 * npte v]"
      using f(2) by (auto simp: dump_inv_def)
    moreover from this False have "0 < n" by (cases n) auto
    ultimately show ?thesis using d False region_pages_run [of "4096 * npte v" v n r] by (simp add: flush_region_def)
  qed
qed

text \<open>
  C11.  The regions that \<open>sunxi_pgtable_dump\<close> prints list exactly the pages whose directory entry and
  page entry are valid, every page once and in ascending order.
\<close>

theorem dump_lists_pages:
  "concat (map region_pages (sunxi_pgtable_dump v pgd m)) =
     filter (\<lambda>P. IS_VALID (m (iopde_offset v pgd (page P))) \<and>
        m (iopte_offset v (m (iopde_offset v pgd (page P))) (page P)) AND SUNXI_PTE_PAGE_VALID \<noteq> 0) [0..<4096 * npte v]"
proof -
  have "page_valid v pgd m P \<longleftrightarrow> IS_VALID (m (iopde_offset v pgd (page P))) \<and>
        m (iopte_offset v (m (iopde_offset v pgd (page P))) (page P)) AND SUNXI_PTE_PAGE_VALID \<noteq> 0"
    if "P < 4096 * npte v" for P
    using walk_page(1) [OF that, of pgd] walk_page(2) [OF that, of m pgd]
    by (simp add: page_valid_def dent_valid_def valid_bit)
  then show ?thesis unfolding dump_pages by (intro filter_cong) auto
qed

end
