(* ===== verification/Iommu_V2_Probe.thy ===== *)
theory Iommu_V2_Probe
  imports Iommu_Probe Iommu_V2_Props Iommu_Common Pgtable_Dump
begin

text \<open>
  The parts of the v2 and v3 drivers that talk to the kernel: the platform data read from the device
  tree, probing and removal, suspend and resume, the group of devices, the performance counters and
  the dump of the page table.  What the kernel answers is an argument: \<open>of_node\<close> holds the
  properties of the device-tree node, \<open>probe_env_v2\<close> and \<open>probe_env_v3\<close> the outcome of each request.
\<close>

section \<open>Platform data\<close>

record of_node =
  of_version :: "u32 option"
  of_ptw_invalid_mode :: "u32 option"
  of_tlb_invalid_mode :: "u32 option"
  of_masters :: "string list option"

text \<open>
  A property that is missing leaves the zero of \<open>memset\<close>.  A buffer of 16 bytes filled by
  \<open>strncpy\<close> holds the first 16 characters of the name; a name of 16 characters or more is not
  terminated in it.
\<close>

definition of_u32 :: "u32 option \<Rightarrow> u32" where
  "of_u32 p = (case p of None \<Rightarrow> 0 | Some v \<Rightarrow> v)"

function read_masters ::
  "nat \<Rightarrow> (nat \<Rightarrow> bool) \<Rightarrow> string list \<Rightarrow> nat \<Rightarrow> string option list \<Rightarrow> int \<times> string option list" where
  "read_masters limit alloc names i ms =
     (if i < limit \<and> i < length names then
        if \<not> alloc i then (- ENOMEM, ms[i := None])
        else read_masters limit alloc names (Suc i) (ms[i := Some (take 16 (names ! i))])
      else (0, ms))"
  by pat_completeness auto
termination by (relation "measure (\<lambda>(limit, _, _, i, _). limit - i)") auto

declare read_masters.simps [simp del]

definition init_plat_data_from_ofnode_v2 :: "(nat \<Rightarrow> bool) \<Rightarrow> of_node \<Rightarrow> int \<times> plat_data" where
  "init_plat_data_from_ofnode_v2 alloc node =
     (let n = unat (IOMMU_MIC_MAX_MASTER * IOMMU_HW_SET_COUNT);
          data = \<lparr>version = of_u32 (of_version node), tlb_prefetch = 0,
                  tlb_invalid_mode = of_u32 (of_tlb_invalid_mode node),
                  ptw_invalid_mode = of_u32 (of_ptw_invalid_mode node), master = replicate n None\<rparr>
      in case of_masters node of
           None \<Rightarrow> (- ENODATA, data)
         | Some names \<Rightarrow>
             if names = [] then (- ENODATA, data)
             else let (ret, ms) = read_masters n alloc names 0 (master data) in (ret, data\<lparr>master := ms\<rparr>))"

definition IOMMU_MIC_MAX_MASTER_V3 :: nat where
  "IOMMU_MIC_MAX_MASTER_V3 = 8"

definition init_plat_data_from_ofnode_v3 :: "(nat \<Rightarrow> bool) \<Rightarrow> of_node \<Rightarrow> int \<times> plat_data" where
  "init_plat_data_from_ofnode_v3 alloc node =
     (let data = \<lparr>version = of_u32 (of_version node), tlb_prefetch = 0,
                  tlb_invalid_mode = of_u32 (of_tlb_invalid_mode node),
                  ptw_invalid_mode = of_u32 (of_ptw_invalid_mode node),
                  master = replicate IOMMU_MIC_MAX_MASTER_V3 None\<rparr>
      in case of_masters node of
           None \<Rightarrow> (- ENODATA, data)
         | Some names \<Rightarrow>
             if names = [] then (- ENODATA, data)
             else let (ret, ms) = read_masters IOMMU_MIC_MAX_MASTER_V3 alloc names 0 (master data)
                  in (ret, data\<lparr>master := ms\<rparr>))"

section \<open>Probing, v2\<close>

datatype plat_ptr = Plat_null | Plat plat_data | Plat_freed plat_data

record probe_env_v2 =
  env2_cache :: bool
  env2_mem :: bool
  env2_res :: bool
  env2_iomap :: bool
  env2_irq :: "nat \<Rightarrow> int"
  env2_request_irq :: "nat \<Rightarrow> int"
  env2_clock_names :: "string list"
  env2_clk_array :: bool
  env2_clk_get :: "string \<Rightarrow> bool"
  env2_plat_mem :: bool
  env2_name_mem :: "nat \<Rightarrow> bool"
  env2_node :: of_node
  env2_version_reg :: u32
  env2_parent :: bool
  env2_sysfs_add :: int
  env2_register :: int

record probe_state_v2 = probe_state +
  dev_irqs :: "int list"
  dev_clk :: "string list option"
  dev_plat :: plat_ptr

text \<open>
  The loop over the interrupts of the two sets: \<open>Inl\<close> is the jump to \<open>err_irq\<close> with the value of
  \<open>ret\<close>; \<open>Inr\<close> carries the \<open>ret\<close> of the last request.
\<close>

fun request_irqs :: "probe_env_v2 \<Rightarrow> nat list \<Rightarrow> int \<Rightarrow> probe_state_v2 \<Rightarrow> (int + int) \<times> probe_state_v2" where
  "request_irqs e [] ret s = (Inr ret, s)"
| "request_irqs e (i # is) ret s =
     (if env2_irq e i \<le> 0 then (Inl (- ENOENT), s)
      else let ret = env2_request_irq e i in
        if ret < 0 then (Inl ret, s)
        else request_irqs e is ret ((acquire IRQ s)\<lparr>dev_irqs := (dev_irqs s)[i := env2_irq e i]\<rparr>))"

definition err_clk_v2 :: "probe_state_v2 \<Rightarrow> probe_state_v2" where
  "err_clk_v2 s = err_irq (fold (\<lambda>_. release IRQ) [0..<unat IOMMU_HW_SET_COUNT] s)"

text \<open>
  The label \<open>err_plat\<close> frees the names and the platform data, to which the device still points.
\<close>

fun free_names :: "string option list \<Rightarrow> 'a probe_state_scheme \<Rightarrow> 'a probe_state_scheme" where
  "free_names [] s = s"
| "free_names (None # ms) s = free_names ms s"
| "free_names (Some _ # ms) s = free_names ms (release MASTER_NAME s)"

fun alloc_names :: "string option list \<Rightarrow> 'a probe_state_scheme \<Rightarrow> 'a probe_state_scheme" where
  "alloc_names [] s = s"
| "alloc_names (None # ms) s = alloc_names ms s"
| "alloc_names (Some _ # ms) s = alloc_names ms (acquire MASTER_NAME s)"

definition err_plat :: "probe_state_v2 \<Rightarrow> probe_state_v2" where
  "err_plat s =
     err_clk_v2 (case dev_plat s of
        Plat p \<Rightarrow> release PLAT_MEM (free_names (master p) (s\<lparr>dev_plat := Plat_freed p\<rparr>))
      | _ \<Rightarrow> s)"

text \<open>
  The clocks: the array is written without a test for failure of \<open>kzalloc\<close>, so \<open>None\<close> is the store
  through a null pointer.
\<close>

definition sunxi_iommu_probe_v2 :: "probe_env_v2 \<Rightarrow> probe_state_v2 \<Rightarrow> (int \<times> probe_state_v2) option" where
  "sunxi_iommu_probe_v2 e s =
     (if \<not> env2_cache e then Some (- ENOMEM, s) else
      let s = acquire PTE_CACHE s in
      if \<not> env2_mem e then Some (- ENOMEM, s) else
      let s = (acquire DEVM_MEM s)\<lparr>dev_irqs := replicate (unat IOMMU_HW_SET_COUNT) 0, dev_clk := None, dev_plat := Plat_null\<rparr> in
      if \<not> env2_res e then Some (- ENOENT, err_res s) else
      if \<not> env2_iomap e then Some (- ENOENT, err_res s) else
      let s = (acquire IOMAP s)\<lparr>dev_bypass := DEFAULT_BYPASS_VALUE_V2\<rparr> in
      case request_irqs e [0..<unat IOMMU_HW_SET_COUNT] 0 s of
        (Inl ret, s) \<Rightarrow> Some (ret, err_irq s)
      | (Inr ret, s) \<Rightarrow>
          if env2_clock_names e = [] then Some (ret, err_clk_v2 s) else
          if \<not> env2_clk_array e then None else
          let s = acquire CLK_ARRAY s in
          if \<not> list_all (env2_clk_get e) (env2_clock_names e) then Some (- ENOENT, err_clk_v2 (s\<lparr>dev_clk := None\<rparr>)) else
          let s = fold (\<lambda>_. acquire CLK) (env2_clock_names e) (s\<lparr>dev_clk := Some (env2_clock_names e)\<rparr>);
              s = s\<lparr>global_iommu_dev := True\<rparr> in
          if \<not> env2_plat_mem e then Some (- ENOMEM, err_plat s) else
          let s = acquire PLAT_MEM s;
              (ret, p) = init_plat_data_from_ofnode_v2 (env2_name_mem e) (env2_node e);
              s = (alloc_names (master p) s)\<lparr>dev_plat := Plat p\<rparr> in
          if ret \<noteq> 0 then Some (ret, err_plat s) else
          if version p \<noteq> env2_version_reg e then Some (ret, err_plat s) else
          let s = (if env2_parent e then acquire PM_RUNTIME s else s);
              s = acquire SYSFS_FILES s;
              ret = env2_sysfs_add e in
          if ret \<noteq> 0 then Some (ret, err_plat s) else
          let s = acquire SYSFS_IOMMU s; ret = env2_register e in
          if ret \<noteq> 0 then Some (ret, err_plat s) else
          let s = acquire IOMMU_REG s in
          Some (0, s\<lparr>rsv_entries := 0, dma_dev := True\<rparr>))"

definition sunxi_iommu_remove_v2 :: "probe_state_v2 \<Rightarrow> int \<times> probe_state_v2" where
  "sunxi_iommu_remove_v2 s =
     (let s = (release PTE_CACHE s)\<lparr>rsv_entries := 0\<rparr>;
          s = fold (\<lambda>_. release IRQ) [0..<unat IOMMU_HW_SET_COUNT] s;
          s = fold release [IOMAP, SYSFS_FILES, SYSFS_IOMMU, IOMMU_REG] s
      in (0, s\<lparr>global_iommu_dev := False\<rparr>))"

section \<open>Probing, v3\<close>

record probe_env_v3 =
  env3_cache :: bool
  env3_mem :: bool
  env3_res :: bool
  env3_iomap :: bool
  env3_irq :: int
  env3_request_irq :: int
  env3_clk :: bool
  env3_plat_mem :: bool
  env3_name_mem :: "nat \<Rightarrow> bool"
  env3_node :: of_node
  env3_version_reg :: u32
  env3_parent :: bool
  env3_sysfs_add :: int
  env3_register :: int

record probe_state_v3 = probe_state +
  dev_plat3 :: "plat_data option"

text \<open>
  Here the platform data and the names are device-managed: the kernel frees them when the probe fails
  or the device goes.
\<close>

definition sunxi_iommu_probe_v3 :: "probe_env_v3 \<Rightarrow> probe_state_v3 \<Rightarrow> int \<times> probe_state_v3" where
  "sunxi_iommu_probe_v3 e s =
     (if \<not> env3_cache e then (- ENOMEM, s) else
      let s = acquire PTE_CACHE s in
      if \<not> env3_mem e then (- ENOMEM, s) else
      let s = (acquire DEVM_MEM s)\<lparr>dev_plat3 := None\<rparr> in
      if \<not> env3_res e then (- ENOENT, err_res s) else
      if \<not> env3_iomap e then (- ENOENT, err_res s) else
      let s = (acquire IOMAP s)\<lparr>dev_bypass := DEFAULT_BYPASS_VALUE\<rparr> in
      if env3_irq e \<le> 0 then (- ENOENT, err_irq s) else
      let ret = env3_request_irq e in
      if ret < 0 then (ret, err_irq s) else
      let s = (acquire IRQ s)\<lparr>dev_irq := env3_irq e\<rparr> in
      if \<not> env3_clk e then (- ENOENT, err_clk s) else
      let s = acquire CLK s; s = s\<lparr>global_iommu_dev := True\<rparr> in
      if \<not> env3_plat_mem e then (- ENOMEM, err_clk s) else
      let (ret, p) = init_plat_data_from_ofnode_v3 (env3_name_mem e) (env3_node e);
          s = s\<lparr>dev_plat3 := Some p\<rparr> in
      if ret \<noteq> 0 then (ret, err_clk s) else
      if version p \<noteq> env3_version_reg e then (ret, err_clk s) else
      let s = (if env3_parent e then acquire PM_RUNTIME s else s);
          s = acquire SYSFS_FILES s;
          ret = env3_sysfs_add e in
      if ret \<noteq> 0 then (ret, err_clk s) else
      let s = acquire SYSFS_IOMMU s; ret = env3_register e in
      if ret \<noteq> 0 then (ret, err_clk s) else
      let s = acquire IOMMU_REG s in
      (0, s\<lparr>rsv_entries := 0, dma_dev := True\<rparr>))"

definition sunxi_iommu_remove_v3 :: "probe_state_v3 \<Rightarrow> int \<times> probe_state_v3" where
  "sunxi_iommu_remove_v3 s =
     (0, (fold release [PTE_CACHE, IRQ, IOMAP, SYSFS_FILES, SYSFS_IOMMU, IOMMU_REG] s)\<lparr>rsv_entries := 0, global_iommu_dev := False\<rparr>)"

section \<open>Power management\<close>

text \<open>
  The clocks are walked up to the null pointer at the end of the array; after a failed \<open>devm_clk_get\<close>
  the device has no array, and the walk reads through a null pointer.
\<close>

definition sunxi_iommu_suspend_v2 :: "string list option \<Rightarrow> (int \<times> (string \<times> clk_op) list) option" where
  "sunxi_iommu_suspend_v2 clk = do {
     cs \<leftarrow> clk;
     Some (0, map (\<lambda>c. (c, clk_disable_unprepare)) cs)
   }"

definition sunxi_iommu_resume_v2 ::
  "hw \<Rightarrow> string list option \<Rightarrow> v1_state \<Rightarrow> (int \<times> (string \<times> clk_op) list \<times> v1_state) option" where
  "sunxi_iommu_resume_v2 hw clk s = do {
     cs \<leftarrow> clk;
     let ops = map (\<lambda>c. (c, clk_prepare_enable)) cs;
     case global_sunxi_iommu_domain s of
       None \<Rightarrow> Some (0, ops, s)
     | Some d \<Rightarrow> do {
         (err, s) \<leftarrow> sunxi_iommu_hw_init_v2 hw d s;
         Some (err, ops, s)
       }
   }"

definition sunxi_iommu_suspend_v3 :: "int \<times> clk_op list" where
  "sunxi_iommu_suspend_v3 = (0, [clk_disable_unprepare])"

definition sunxi_iommu_resume_v3 :: "hw \<Rightarrow> v1_state \<Rightarrow> (int \<times> clk_op list \<times> v1_state) option" where
  "sunxi_iommu_resume_v3 hw s =
     (case global_sunxi_iommu_domain s of
        None \<Rightarrow> Some (0, [clk_prepare_enable], s)
      | Some d \<Rightarrow> do {
          (err, s) \<leftarrow> sunxi_iommu_hw_init_v3 hw d s;
          Some (err, [clk_prepare_enable], s)
        })"

section \<open>Groups\<close>

text \<open>
  \<open>sunxi_iommu_set_dma_parms\<close> as it is compiled for kernels without group notifiers: the largest
  segment of the device, or an error.
\<close>

definition sunxi_iommu_set_dma_parms_v2 :: "bool \<Rightarrow> int \<times> u32 option" where
  "sunxi_iommu_set_dma_parms_v2 devm_ok = (if \<not> devm_ok then (- ENOMEM, None) else (0, Some (mask 32)))"

text \<open>
  In v1 and v3 the function is the notifier of older kernels: \<open>bound\<close> says whether the event is the
  binding of a driver, \<open>old\<close> is the setting before.
\<close>

definition sunxi_iommu_set_dma_parms :: "bool \<Rightarrow> bool \<Rightarrow> u32 option \<Rightarrow> int \<times> u32 option" where
  "sunxi_iommu_set_dma_parms bound devm_ok old =
     (if \<not> bound then (0, old) else if \<not> devm_ok then (- ENOMEM, None) else (0, Some (mask 32)))"

definition sunxi_iommu_set_dma_parms_v3 :: "bool \<Rightarrow> bool \<Rightarrow> u32 option \<Rightarrow> int \<times> u32 option" where
  "sunxi_iommu_set_dma_parms_v3 bound devm_ok old =
     (if \<not> bound then (0, old) else if \<not> devm_ok then (- ENOMEM, None) else (0, Some (mask 32)))"

definition sunxi_iommu_device_group_v2 ::
  "bool \<Rightarrow> group_ptr \<Rightarrow> group_ptr option \<Rightarrow> group_ptr \<times> group_ptr option" where
  "sunxi_iommu_device_group_v2 kzalloc_ok alloced global_group =
     (case global_group of
        None \<Rightarrow>
          if \<not> kzalloc_ok then (Err_ptr (- ENOMEM), None)
          else (case alloced of
                  Err_ptr e \<Rightarrow> (Err_ptr (- EBUSY), Some (Err_ptr e))
                | Group g \<Rightarrow> (Group g, Some (Group g)))
      | Some g \<Rightarrow> (g, Some g))"

definition sunxi_iommu_device_group_v3 ::
  "bool \<Rightarrow> group_ptr \<Rightarrow> group_ptr option \<Rightarrow> group_ptr \<times> group_ptr option" where
  "sunxi_iommu_device_group_v3 kzalloc_ok alloced global_group =
     (case global_group of
        None \<Rightarrow>
          if \<not> kzalloc_ok then (Err_ptr (- ENOMEM), None)
          else (case alloced of
                  Err_ptr e \<Rightarrow> (Err_ptr (- EBUSY), Some (Err_ptr e))
                | Group g \<Rightarrow> (Group g, Some (Group g)))
      | Some g \<Rightarrow> (g, Some g))"

section \<open>Dumps\<close>

definition sunxi_iova_invalid_helper :: "pgver \<Rightarrow> u64 \<Rightarrow> v1_state \<Rightarrow> int option" where
  "sunxi_iova_invalid_helper v iova s = do {
     d \<leftarrow> global_sunxi_iommu_domain s;
     sunxi_domain \<leftarrow> domains s d;
     Some (sunxi_pgtable_invalid_helper v (pgtable sunxi_domain) iova (pgt s))
   }"

text \<open>
  What \<open>sunxi_iommu_dump_pgtable\<close> prints: the reserved regions, then the mapped regions of the
  global domain.
\<close>

definition sunxi_iommu_dump_pgtable :: "pgver \<Rightarrow> rsv_state \<Rightarrow> v1_state \<Rightarrow> ((u64 \<times> u64) list \<times> dump_region list) option" where
  "sunxi_iommu_dump_pgtable v rsv s = do {
     d \<leftarrow> global_sunxi_iommu_domain s;
     sunxi_domain \<leftarrow> domains s d;
     Some (sunxi_iommu_dump_rsv_list (rsv_list rsv), sunxi_pgtable_dump v (pgtable sunxi_domain) (mem (pgt s)))
   }"

definition sunxi_iommu_dump_pgtable_v2 :: "pgver \<Rightarrow> rsv_state \<Rightarrow> v1_state \<Rightarrow> ((u64 \<times> u64) list \<times> dump_region list) option" where
  "sunxi_iommu_dump_pgtable_v2 v rsv s = do {
     d \<leftarrow> global_sunxi_iommu_domain s;
     sunxi_domain \<leftarrow> domains s d;
     Some (sunxi_iommu_dump_rsv_list (rsv_list rsv), sunxi_pgtable_dump v (pgtable sunxi_domain) (mem (pgt s)))
   }"

definition sunxi_iommu_dump_pgtable_v3 :: "pgver \<Rightarrow> rsv_state \<Rightarrow> v1_state \<Rightarrow> ((u64 \<times> u64) list \<times> dump_region list) option" where
  "sunxi_iommu_dump_pgtable_v3 v rsv s = do {
     d \<leftarrow> global_sunxi_iommu_domain s;
     sunxi_domain \<leftarrow> domains s d;
     Some (sunxi_iommu_dump_rsv_list (rsv_list rsv), sunxi_pgtable_dump v (pgtable sunxi_domain) (mem (pgt s)))
   }"

definition sunxi_iommu_get_resv_regions_v3 ::
  "dt_node list \<Rightarrow> bool \<Rightarrow> (nat \<Rightarrow> bool) \<Rightarrow> (nat \<Rightarrow> bool) \<Rightarrow> resv_region list \<Rightarrow> rsv_state \<Rightarrow>
     (resv_region list \<times> rsv_state) option" where
  "sunxi_iommu_get_resv_regions_v3 bus kz alloc alloc2 head s =
     (let s = (if rsv_list s = [] then snd (init_reserve_mem bus kz alloc s) else s) in
      if rsv_list s = [] then Some (head, s)
      else map_option (\<lambda>h. (h, s)) (copy_regions alloc2 0 (rsv_list s) head))"

section \<open>Performance counters\<close>

definition sunxi_iommu_enable_show_v2 :: "hw \<Rightarrow> trace \<Rightarrow> nat \<times> trace" where
  "sunxi_iommu_enable_show_v2 hw t =
     (let (data, t) = READ_EQUAL_REG hw IOMMU_PMU_ENABLE_REG_V2 (t @ [Lock iommu_lock])
      in (if data AND 0x1 \<noteq> 0 then 1 else 0, t @ [Unlock iommu_lock]))"

text \<open>
  The condition that \<open>sunxi_iommu_enable_store\<close> polls uses the macro for both sets where the other
  callers read one register each, so its second half reads the second set and a set after it.
\<close>

definition clr_busy_v2 :: "hw \<Rightarrow> trace \<Rightarrow> bool \<times> trace" where
  "clr_busy_v2 hw t =
     (let (a, t) = READ_EQUAL_REG hw IOMMU_PMU_CLR_REG_V2 t in
      if a AND 0x1 \<noteq> 0 then (True, t)
      else let (b, t) = READ_EQUAL_REG hw (IOMMU_PER_SET_ADDR_SIZE + IOMMU_PMU_CLR_REG_V2) t
           in (b AND 0x1 \<noteq> 0, t))"

definition sunxi_iommu_enable_store_v2 :: "hw \<Rightarrow> u64 option \<Rightarrow> nat \<Rightarrow> trace \<Rightarrow> (int \<times> trace) option" where
  "sunxi_iommu_enable_store_v2 hw val count t =
     (case val of
        None \<Rightarrow> Some (- EINVAL, t)
      | Some val \<Rightarrow>
          if val \<noteq> 0 then do {
            let (data, t) = READ_EQUAL_REG hw IOMMU_PMU_ENABLE_REG_V2 (t @ [Lock iommu_lock]);
            let t = WRITE_EQUAL_REG IOMMU_PMU_ENABLE_REG_V2 (data OR 0x1) t;
            let (data, t) = READ_EQUAL_REG hw IOMMU_PMU_CLR_REG_V2 t;
            let t = WRITE_EQUAL_REG IOMMU_PMU_CLR_REG_V2 (data OR 0x1) t;
            (retval, t) \<leftarrow> sunxi_wait_when_v2 hw (clr_busy_v2 hw) 1 t;
            Some (int count, t @ [Unlock iommu_lock])
          } else do {
            let (data, t) = READ_EQUAL_REG hw IOMMU_PMU_CLR_REG_V2 (t @ [Lock iommu_lock]);
            let t = WRITE_EQUAL_REG IOMMU_PMU_CLR_REG_V2 (data OR 0x1) t;
            (retval, t) \<leftarrow> sunxi_wait_when_v2 hw (clr_busy_v2 hw) 1 t;
            let (data, t) = READ_EQUAL_REG hw IOMMU_PMU_ENABLE_REG_V2 t;
            let t = WRITE_EQUAL_REG IOMMU_PMU_ENABLE_REG_V2 (data AND NOT 0x1) t;
            Some (int count, t @ [Unlock iommu_lock])
          })"

text \<open>
  One set's record of \<open>sunxi_iommu_profilling_show\<close>.  The latencies are never assigned; \<open>junk\<close> is
  what the allocated memory held.
\<close>

definition read_set_v2 :: "hw \<Rightarrow> (nat \<Rightarrow> u64 \<times> u32) \<Rightarrow> nat \<Rightarrow> trace \<Rightarrow> iommu_profile \<times> trace" where
  "read_set_v2 hw junk i t =
     (let off = of_nat i * IOMMU_PER_SET_ADDR_SIZE;
          (ma, t) = read_wide hw (off + IOMMU_PMU_ACCESS_HIGH7_REG_V2) (off + IOMMU_PMU_ACCESS_LOW7_REG_V2) 0x7ff t;
          (mh, t) = read_wide hw (off + IOMMU_PMU_HIT_HIGH7_REG_V2) (off + IOMMU_PMU_HIT_LOW7_REG_V2) 0x7ff t;
          (pa, t) = read_wide hw (off + IOMMU_PMU_ACCESS_HIGH8_REG_V2) (off + IOMMU_PMU_ACCESS_LOW8_REG_V2) 0x7ff t;
          (ph, t) = read_wide hw (off + IOMMU_PMU_HIT_HIGH8_REG_V2) (off + IOMMU_PMU_HIT_LOW8_REG_V2) 0x7ff t;
          (ms, t) = map_trace (\<lambda>j t.
             let (a, t) = read_wide hw (off + IOMMU_MIC_PMU_ACCESS_HIGH_REG 0) (off + IOMMU_MIC_PMU_ACCESS_LOW_REG 0) 0x7ff t;
                 (h, t) = read_wide hw (off + IOMMU_MIC_PMU_HIT_HIGH_REG 0) (off + IOMMU_MIC_PMU_HIT_LOW_REG 0) 0x7ff t
             in (\<lparr>access_count = a, hit_count = h, latency = fst (junk j), max_latency = snd (junk j)\<rparr>, t))
             [0..<unat IOMMU_MIC_MAX_MASTER] t
      in (\<lparr>macrotlb_access_count = ma, macrotlb_hit_count = mh, ptwcache_access_count = pa, ptwcache_hit_count = ph,
           micro_tlbs = ms\<rparr>, t))"

definition profilling_read_v2 :: "hw \<Rightarrow> (nat \<Rightarrow> nat \<Rightarrow> u64 \<times> u32) \<Rightarrow> trace \<Rightarrow> iommu_profile list \<times> trace" where
  "profilling_read_v2 hw junk t =
     (let (ps, t) = map_trace (\<lambda>i. read_set_v2 hw (junk i) i) [0..<unat IOMMU_HW_SET_COUNT] (t @ [Lock iommu_lock])
      in (ps, t @ [Unlock iommu_lock]))"

text \<open>
  The labels and values of the lines, in the order of printing; \<open>None\<close> stands for the name of a
  master that the device tree does not give.
\<close>

definition set_lines_v2 :: "plat_data \<Rightarrow> nat \<Rightarrow> iommu_profile \<Rightarrow> (string option \<times> string \<times> u64) list" where
  "set_lines_v2 p i r =
     (let iommu = Some (''iommu'' @ [''0'', ''1''] ! i) in
     [(iommu, ''macrotlb_access_count'', macrotlb_access_count r),
      (iommu, ''macrotlb_hit_count'', macrotlb_hit_count r),
      (iommu, ''ptwcache_access_count'', ptwcache_access_count r),
      (iommu, ''ptwcache_hit_count'', ptwcache_hit_count r)]) @
     concat (map (\<lambda>j.
       let name = master p ! (i * unat IOMMU_MIC_MAX_MASTER + j); m = micro_tlbs r ! j in
         [(name, ''access_count'', access_count m), (name, ''hit_count'', hit_count m),
          (name, ''total_latency'', latency m), (name, ''max_latency'', ucast (max_latency m))])
       [0..<unat IOMMU_MIC_MAX_MASTER])"

text \<open>
  The text goes to a scratch buffer that is freed; \<open>emit\<close> is the number of bytes \<open>sysfs_emit_at\<close>
  reports for a line at an offset.  The result is the length returned, \<open>None\<close> when it was never
  assigned, and the contents of the caller's buffer.
\<close>

definition sunxi_iommu_profilling_show_v2 ::
  "hw \<Rightarrow> bool \<Rightarrow> bool \<Rightarrow> (nat \<Rightarrow> nat \<Rightarrow> u64 \<times> u32) \<Rightarrow> (nat \<Rightarrow> string option \<times> string \<times> u64 \<Rightarrow> nat) \<Rightarrow>
     plat_data \<Rightarrow> string \<Rightarrow> trace \<Rightarrow> (nat option \<times> string) \<times> trace" where
  "sunxi_iommu_profilling_show_v2 hw profile_ok tmp_ok junk emit p buf t =
     (if \<not> profile_ok \<or> \<not> tmp_ok then ((None, buf), t)
      else let (ps, t) = profilling_read_v2 hw junk t;
               out_len = fold (\<lambda>l out_len. out_len + emit out_len l)
                 (concat (map (\<lambda>i. set_lines_v2 p i (ps ! i)) [0..<unat IOMMU_HW_SET_COUNT])) 0
           in ((Some out_len, buf), t))"

definition sunxi_iommu_enable_show_v3 :: "hw \<Rightarrow> trace \<Rightarrow> nat \<times> trace" where
  "sunxi_iommu_enable_show_v3 hw t =
     (let (data, t) = sunxi_iommu_read hw IOMMU_PMU_ENABLE_REG (t @ [Lock iommu_lock])
      in (if data AND 0x1 \<noteq> 0 then 1 else 0, t @ [Unlock iommu_lock]))"

definition sunxi_iommu_enable_store_v3 :: "hw \<Rightarrow> u64 option \<Rightarrow> nat \<Rightarrow> trace \<Rightarrow> (int \<times> trace) option" where
  "sunxi_iommu_enable_store_v3 hw val count t =
     (case val of
        None \<Rightarrow> Some (- EINVAL, t)
      | Some val \<Rightarrow>
          if val \<noteq> 0 then do {
            let (data, t) = sunxi_iommu_read hw IOMMU_PMU_ENABLE_REG (t @ [Lock iommu_lock]);
            let t = sunxi_iommu_write IOMMU_PMU_ENABLE_REG (data OR 0x1) t;
            let (data, t) = sunxi_iommu_read hw IOMMU_PMU_CLR_REG t;
            let t = sunxi_iommu_write IOMMU_PMU_CLR_REG (data OR 0x1) t;
            (retval, t) \<leftarrow> sunxi_wait_when hw IOMMU_PMU_CLR_REG 0x1 1 t;
            Some (int count, t @ [Unlock iommu_lock])
          } else do {
            let (data, t) = sunxi_iommu_read hw IOMMU_PMU_CLR_REG (t @ [Lock iommu_lock]);
            let t = sunxi_iommu_write IOMMU_PMU_CLR_REG (data OR 0x1) t;
            (retval, t) \<leftarrow> sunxi_wait_when hw IOMMU_PMU_CLR_REG 0x1 1 t;
            let (data, t) = sunxi_iommu_read hw IOMMU_PMU_ENABLE_REG t;
            let t = sunxi_iommu_write IOMMU_PMU_ENABLE_REG (data AND NOT 0x1) t;
            Some (int count, t @ [Unlock iommu_lock])
          })"

definition profilling_read_v3 :: "hw \<Rightarrow> trace \<Rightarrow> iommu_profile \<times> trace" where
  "profilling_read_v3 hw t =
     (let t = t @ [Lock iommu_lock];
          (ah, t) = map_trace (read_access_hit hw) [0..<7] t;
          ((ma, mh), t) = read_access_hit hw 7 t;
          ((pa, ph), t) = read_access_hit hw 8 t;
          (tl, t) = map_trace (\<lambda>i. read_wide hw (IOMMU_PMU_TL_HIGH_REG i) (IOMMU_PMU_TL_LOW_REG i) 0x3ffff) [0..<7] t;
          (ml, t) = map_trace (\<lambda>i. sunxi_iommu_read hw (IOMMU_PMU_ML_REG i)) [0..<7] t
      in (\<lparr>macrotlb_access_count = ma, macrotlb_hit_count = mh, ptwcache_access_count = pa, ptwcache_hit_count = ph,
           micro_tlbs = map (\<lambda>i. \<lparr>access_count = fst (ah ! i), hit_count = snd (ah ! i), latency = tl ! i, max_latency = ml ! i\<rparr>) [0..<7]\<rparr>,
          t @ [Unlock iommu_lock]))"

definition sunxi_iommu_profilling_show_v3 :: "hw \<Rightarrow> bool \<Rightarrow> trace \<Rightarrow> iommu_profile option \<times> trace" where
  "sunxi_iommu_profilling_show_v3 hw kmalloc_ok t =
     (if \<not> kmalloc_ok then (None, t) else (None, snd (profilling_read_v3 hw t)))"

section \<open>The platform data\<close>

lemma read_masters_spec:
  assumes "read_masters limit alloc names i ms = (ret, ms')" "length ms = limit"
  shows "length ms' = limit \<and> ret \<in> {0, - ENOMEM} \<and> (\<forall>j < i. j < limit \<longrightarrow> ms' ! j = ms ! j) \<and>
    (\<forall>j < limit. i \<le> j \<longrightarrow> ms' ! j \<in> {None, ms ! j, Some (take 16 (names ! j))}) \<and>
    (ret = 0 \<longrightarrow> (\<forall>j < limit. i \<le> j \<longrightarrow> ms' ! j = (if j < length names then Some (take 16 (names ! j)) else ms ! j)))"
  using assms
proof (induction limit alloc names i ms arbitrary: ret ms' rule: read_masters.induct)
  case (1 limit alloc names i ms)
  show ?case
  proof (cases "i < limit \<and> i < length names \<and> alloc i")
    case True
    then have "read_masters limit alloc names (Suc i) (ms[i := Some (take 16 (names ! i))]) = (ret, ms')"
      using 1(2) by (subst (asm) read_masters.simps) simp
    from 1(1) [OF _ _ this] True 1(3) show ?thesis
      by (auto simp: nth_list_update less_Suc_eq Suc_le_eq split: if_splits) (metis le_neq_implies_less)+
  next
    case False
    then show ?thesis using 1(2,3) by (subst (asm) read_masters.simps) (auto simp: nth_list_update errno_simps split: if_splits)
  qed
qed

definition well_typed_plat :: "nat \<Rightarrow> plat_data \<Rightarrow> bool" where
  "well_typed_plat n p \<longleftrightarrow> length (master p) = n \<and> list_all (\<lambda>m. case m of None \<Rightarrow> True | Some x \<Rightarrow> length x \<le> 16) (master p)"

lemma masters_typed:
  assumes "read_masters n alloc names 0 (replicate n None) = (ret, ms)"
  shows "length ms = n" "list_all (\<lambda>m. case m of None \<Rightarrow> True | Some x \<Rightarrow> length x \<le> 16) ms" "ret \<in> {0, - ENOMEM}"
    "ret = 0 \<Longrightarrow> ms = map Some (map (take 16) (take n names)) @ replicate (n - length names) None"
proof -
  have l: "length (replicate n None) = n" by simp
  note r = read_masters_spec [OF assms l]
  then show "length ms = n" "ret \<in> {0, - ENOMEM}" by simp_all
  show "list_all (\<lambda>m. case m of None \<Rightarrow> True | Some x \<Rightarrow> length x \<le> 16) ms"
    using r by (fastforce simp: list_all_length split: option.splits)
  show "ms = map Some (map (take 16) (take n names)) @ replicate (n - length names) None" if "ret = 0"
    using r that by (intro nth_equalityI) (auto simp: nth_append min_def)
qed

lemma masters_v2: "unat (IOMMU_MIC_MAX_MASTER * IOMMU_HW_SET_COUNT) = 12"
  by (simp add: IOMMU_MIC_MAX_MASTER_def IOMMU_HW_SET_COUNT_def)

text \<open>
  C9.  The platform data read from the device tree is well typed whatever the node contains and
  wherever memory runs out: the table of the v2 driver has twelve slots and that of v3 eight, no name
  exceeds its buffer of 16 bytes, and the result is success, \<open>-ENODATA\<close> or \<open>-ENOMEM\<close>.  On success the
  slots hold the names of the node in their order, cut to 16 characters, as many as fit, and the rest
  are null.  The prefetch setting is always zero.
\<close>

theorem plat_data_typed:
  assumes "init_plat_data_from_ofnode_v2 alloc node = (ret2, p2)" "init_plat_data_from_ofnode_v3 alloc node = (ret3, p3)"
  shows "well_typed_plat 12 p2 \<and> well_typed_plat 8 p3 \<and> {ret2, ret3} \<subseteq> {0, - ENODATA, - ENOMEM} \<and>
    tlb_prefetch p2 = 0 \<and> tlb_prefetch p3 = 0 \<and>
    (ret2 = 0 \<longrightarrow> (\<exists>names. of_masters node = Some names \<and> names \<noteq> [] \<and>
      master p2 = map Some (map (take 16) (take 12 names)) @ replicate (12 - length names) None)) \<and>
    (ret3 = 0 \<longrightarrow> (\<exists>names. of_masters node = Some names \<and> names \<noteq> [] \<and>
      master p3 = map Some (map (take 16) (take 8 names)) @ replicate (8 - length names) None))"
proof (cases "\<exists>names. of_masters node = Some names \<and> names \<noteq> []")
  case False
  then show ?thesis using assms
    by (auto simp: init_plat_data_from_ofnode_v2_def init_plat_data_from_ofnode_v3_def well_typed_plat_def Let_def
        masters_v2 IOMMU_MIC_MAX_MASTER_V3_def list_all_length errno_simps split: option.splits if_splits)
next
  case True
  then obtain names where names: "of_masters node = Some names" "names \<noteq> []" by blast
  obtain ms2 where m2: "read_masters 12 alloc names 0 (replicate 12 None) = (ret2, ms2)" "master p2 = ms2" "tlb_prefetch p2 = 0"
    using assms(1) names by (auto simp: init_plat_data_from_ofnode_v2_def masters_v2 Let_def split: prod.splits)
  obtain ms3 where m3: "read_masters 8 alloc names 0 (replicate 8 None) = (ret3, ms3)" "master p3 = ms3" "tlb_prefetch p3 = 0"
    using assms(2) names
    by (auto simp: init_plat_data_from_ofnode_v3_def IOMMU_MIC_MAX_MASTER_V3_def Let_def split: prod.splits)
  show ?thesis
    using masters_typed [OF m2(1)] masters_typed [OF m3(1)] m2(2,3) m3(2,3) names by (auto simp: well_typed_plat_def)
qed

definition ex_node :: of_node where
  "ex_node = \<lparr>of_version = Some 0x20, of_ptw_invalid_mode = Some 1, of_tlb_invalid_mode = Some 1,
     of_masters = Some [''ISP'', ''CSI'', ''VE0_DECODER_READ_PORT'']\<rparr>"

theorem plat_data_typed_witness:
  "well_typed_plat 12 (snd (init_plat_data_from_ofnode_v2 (\<lambda>_. True) ex_node)) \<and>
   well_typed_plat 8 (snd (init_plat_data_from_ofnode_v3 (\<lambda>i. i < 2) ex_node))"
proof -
  have "well_typed_plat 12 (snd (init_plat_data_from_ofnode_v2 a ex_node)) \<and>
      well_typed_plat 8 (snd (init_plat_data_from_ofnode_v3 a ex_node))" for a
    using plat_data_typed [of a ex_node] by (metis prod.collapse)
  then show ?thesis by blast
qed

text \<open>
  A name of 16 characters or more fills its buffer without a terminator.
\<close>

lemma name_not_terminated:
  "init_plat_data_from_ofnode_v2 (\<lambda>_. True) ex_node =
     (0, \<lparr>version = 0x20, tlb_prefetch = 0, tlb_invalid_mode = 1, ptw_invalid_mode = 1,
          master = [Some ''ISP'', Some ''CSI'', Some ''VE0_DECODER_READ''] @ replicate 9 None\<rparr>)"
  by (simp add: init_plat_data_from_ofnode_v2_def ex_node_def of_u32_def masters_v2 read_masters.simps
      numeral_eq_Suc Let_def)

section \<open>Unwinding\<close>

definition names_held :: "string option list \<Rightarrow> nat" where
  "names_held ms = length (filter (\<lambda>m. m \<noteq> None) ms)"

lemma remove1_replicate: "remove1 x (replicate n y @ xs) = (if x = y \<and> n > 0 then replicate (n - 1) y @ xs else replicate n y @ remove1 x xs)"
  by (cases n) (auto simp: remove1_append)

lemma alloc_names_eq: "alloc_names ms s = s\<lparr>held := replicate (names_held ms) MASTER_NAME @ held s\<rparr>"
proof (induction ms arbitrary: s)
  case (Cons m ms)
  then show ?case by (cases m) (simp_all add: names_held_def acquire_def replicate_app_Cons_same)
qed (simp add: names_held_def)

lemma free_names_eq: "free_names ms s = s\<lparr>held := (remove1 MASTER_NAME ^^ names_held ms) (held s)\<rparr>"
proof (induction ms arbitrary: s)
  case (Cons m ms)
  then show ?case by (cases m) (simp_all add: names_held_def release_def funpow_swap1)
qed (simp add: names_held_def)

lemma remove_names_skip: "x \<noteq> y \<Longrightarrow> (remove1 x ^^ n) (y # ys) = y # (remove1 x ^^ n) ys"
  by (induction n) auto

lemma remove_names_same: "(remove1 x ^^ n) (replicate n x @ ys) = ys"
  by (induction n) (auto simp: funpow_swap1)

lemma fold_acquire: "fold (\<lambda>_. acquire r) xs s = s\<lparr>held := replicate (length xs) r @ held s\<rparr>"
  by (induction xs arbitrary: s) (simp_all add: acquire_def replicate_app_Cons_same)

definition probe_start_v2 :: probe_state_v2 where
  "probe_start_v2 = \<lparr>held = [], dev_bypass = 0, dev_irq = 0, rsv_entries = 0, global_iommu_dev = False, dma_dev = False,
     dev_irqs = [], dev_clk = None, dev_plat = Plat_null\<rparr>"

lemma two_sets: "[0..<unat IOMMU_HW_SET_COUNT] = [0, 1]"
  by (simp add: IOMMU_HW_SET_COUNT_def upt_rec)

lemmas probe2_simps = sunxi_iommu_probe_v2_def probe_start_v2_def err_plat_def err_clk_v2_def err_irq_def err_res_def
  acquire_def release_def alloc_names_eq free_names_eq fold_acquire two_sets remove1_replicate remove_names_skip remove_names_same Let_def

text \<open>
  How far a probe gets: \<open>irqs_requested\<close> is everything up to the second interrupt, \<open>plat_read\<close> the clocks
  and the platform data after it.
\<close>

definition irqs_requested :: "probe_env_v2 \<Rightarrow> bool" where
  "irqs_requested e \<longleftrightarrow> env2_cache e \<and> env2_mem e \<and> env2_res e \<and> env2_iomap e \<and> (\<forall>i < 2. 0 < env2_irq e i \<and> 0 \<le> env2_request_irq e i)"

definition plat_read :: "probe_env_v2 \<Rightarrow> bool" where
  "plat_read e \<longleftrightarrow> env2_clock_names e \<noteq> [] \<and> list_all (env2_clk_get e) (env2_clock_names e) \<and> env2_plat_mem e \<and>
     fst (init_plat_data_from_ofnode_v2 (env2_name_mem e) (env2_node e)) = 0"

lemma less_two: "(\<forall>i < 2. P i) \<longleftrightarrow> P 0 \<and> P (Suc 0)"
  by (auto simp: less_Suc_eq numeral_2_eq_2)

text \<open>
  C10.  A v2 probe that does not register with the IOMMU core leaves no register mapping, platform
  data or master name allocated, and no table cache unless the allocation of the device structure
  failed; the interrupt of the first set stays requested exactly when the second one cannot be had.
  It nevertheless reports success, and does so exactly when the interrupts are requested and the
  device tree names no clocks (then the probe returns what the last request returned), or all is read and the
  device tree names a version other than the hardware's; in the second case, and whenever a step
  after reading the platform data fails, the global device is left pointing at the freed platform data.
\<close>

theorem probe_v2_unwinds:
  assumes "sunxi_iommu_probe_v2 e probe_start_v2 = Some (ret, s)" "IOMMU_REG \<notin> set (held s)"
  defines "p \<equiv> snd (init_plat_data_from_ofnode_v2 (env2_name_mem e) (env2_node e))"
  shows "IOMAP \<notin> set (held s) \<and> PLAT_MEM \<notin> set (held s) \<and> MASTER_NAME \<notin> set (held s) \<and>
    (PTE_CACHE \<in> set (held s) \<longleftrightarrow> env2_cache e \<and> \<not> env2_mem e) \<and>
    (IRQ \<in> set (held s) \<longleftrightarrow> env2_cache e \<and> env2_mem e \<and> env2_res e \<and> env2_iomap e \<and>
      0 < env2_irq e 0 \<and> 0 \<le> env2_request_irq e 0 \<and> (env2_irq e 1 \<le> 0 \<or> env2_request_irq e 1 < 0)) \<and>
    (irqs_requested e \<and> env2_clock_names e = [] \<longrightarrow> ret = env2_request_irq e 1 \<and> \<not> global_iommu_dev s) \<and>
    (irqs_requested e \<and> plat_read e \<longrightarrow> global_iommu_dev s \<and> dev_plat s = Plat_freed p) \<and>
    (ret = 0 \<longleftrightarrow> irqs_requested e \<and>
      (env2_clock_names e = [] \<and> env2_request_irq e 1 = 0 \<or> plat_read e \<and> version p \<noteq> env2_version_reg e))"
  using assms(1,2) unfolding p_def
  by (auto simp: probe2_simps irqs_requested_def plat_read_def less_two errno_simps split: if_splits prod.splits)

definition ex_env_v2 :: probe_env_v2 where
  "ex_env_v2 = \<lparr>env2_cache = True, env2_mem = True, env2_res = True, env2_iomap = True, env2_irq = (\<lambda>i. 90 + int i),
     env2_request_irq = (\<lambda>_. 0), env2_clock_names = [''iommu''], env2_clk_array = True, env2_clk_get = (\<lambda>_. True),
     env2_plat_mem = True, env2_name_mem = (\<lambda>_. True), env2_node = ex_node, env2_version_reg = 0x21,
     env2_parent = True, env2_sysfs_add = 0, env2_register = 0\<rparr>"

theorem probe_v2_unwinds_witness:
  "(\<exists>s p. sunxi_iommu_probe_v2 ex_env_v2 probe_start_v2 = Some (0, s) \<and> dev_plat s = Plat_freed p \<and> global_iommu_dev s) \<and>
   (\<exists>s. sunxi_iommu_probe_v2 (ex_env_v2\<lparr>env2_clock_names := []\<rparr>) probe_start_v2 = Some (0, s) \<and> \<not> global_iommu_dev s)"
proof
  obtain r s where s: "sunxi_iommu_probe_v2 ex_env_v2 probe_start_v2 = Some (r, s)" "IOMMU_REG \<notin> set (held s)"
    by (auto simp: probe2_simps ex_env_v2_def name_not_terminated)
  have "irqs_requested ex_env_v2" "plat_read ex_env_v2" "env2_version_reg ex_env_v2 = 0x21"
    "version (snd (init_plat_data_from_ofnode_v2 (env2_name_mem ex_env_v2) (env2_node ex_env_v2))) = 0x20"
    by (simp_all add: irqs_requested_def plat_read_def ex_env_v2_def name_not_terminated)
  with probe_v2_unwinds [OF s] s(1)
  show "\<exists>s p. sunxi_iommu_probe_v2 ex_env_v2 probe_start_v2 = Some (0, s) \<and> dev_plat s = Plat_freed p \<and> global_iommu_dev s" by simp
next
  let ?e = "ex_env_v2\<lparr>env2_clock_names := []\<rparr>"
  obtain r s where s: "sunxi_iommu_probe_v2 ?e probe_start_v2 = Some (r, s)" "IOMMU_REG \<notin> set (held s)"
    by (auto simp: probe2_simps ex_env_v2_def)
  have "irqs_requested ?e" "env2_clock_names ?e = []" "env2_request_irq ?e 1 = 0" by (simp_all add: irqs_requested_def ex_env_v2_def)
  with probe_v2_unwinds [OF s] s(1)
  show "\<exists>s. sunxi_iommu_probe_v2 ?e probe_start_v2 = Some (0, s) \<and> \<not> global_iommu_dev s" by simp
qed

lemma probe_v2_null_store:
  "sunxi_iommu_probe_v2 (ex_env_v2\<lparr>env2_clk_array := False\<rparr>) probe_start_v2 = None"
  by (simp add: probe2_simps ex_env_v2_def)

text \<open>
  Removal after a successful probe: the platform data, the names, the array of clocks and the enabled
  clocks are never given back.
\<close>

lemma remove_v2_leaks:
  assumes "sunxi_iommu_probe_v2 e probe_start_v2 = Some (0, s)" "IOMMU_REG \<in> set (held s)"
  shows "set (held (snd (sunxi_iommu_remove_v2 s))) \<subseteq> {PLAT_MEM, MASTER_NAME, CLK_ARRAY, CLK, DEVM_MEM, PM_RUNTIME} \<and>
    {PLAT_MEM, CLK_ARRAY, CLK} \<subseteq> set (held (snd (sunxi_iommu_remove_v2 s)))"
  using assms by (auto simp: probe2_simps sunxi_iommu_remove_v2_def errno_simps split: if_splits prod.splits)

section \<open>The v3 driver against v1\<close>

lemma pm_same_code_v3:
  "sunxi_iommu_suspend_v3 = sunxi_iommu_suspend"
  "sunxi_iommu_device_group_v3 = sunxi_iommu_device_group"
  "sunxi_iommu_device_group_v2 = sunxi_iommu_device_group"
  "sunxi_iommu_get_resv_regions_v3 = sunxi_iommu_get_resv_regions"
  "sunxi_iommu_enable_show_v3 = sunxi_iommu_enable_show"
  "sunxi_iommu_enable_store_v3 = sunxi_iommu_enable_store"
  "profilling_read_v3 = profilling_read"
  by (simp_all add: fun_eq_iff sunxi_iommu_suspend_v3_def sunxi_iommu_suspend_def sunxi_iommu_device_group_v3_def
      sunxi_iommu_device_group_def sunxi_iommu_device_group_v2_def sunxi_iommu_get_resv_regions_v3_def
      sunxi_iommu_get_resv_regions_def sunxi_iommu_enable_show_v3_def sunxi_iommu_enable_show_def
      sunxi_iommu_enable_store_v3_def sunxi_iommu_enable_store_def profilling_read_v3_def profilling_read_def)

text \<open>
  The v1 probe fed with the platform data that v3 reads from the device tree.
\<close>

definition env_of_v3 :: "probe_env_v3 \<Rightarrow> plat_data \<Rightarrow> probe_env" where
  "env_of_v3 e p = \<lparr>env_cache = env3_cache e, env_mem = env3_mem e, env_res = env3_res e, env_iomap = env3_iomap e,
     env_irq = env3_irq e, env_request_irq = env3_request_irq e, env_clk = env3_clk e, env_plat = p,
     env_version_reg = env3_version_reg e, env_parent = env3_parent e, env_sysfs_add = env3_sysfs_add e,
     env_register = env3_register e\<rparr>"

lemma probe_v3_as_v1:
  assumes "env3_plat_mem e" "init_plat_data_from_ofnode_v3 (env3_name_mem e) (env3_node e) = (0, p)" "env3_request_irq e \<le> 0"
  shows "map_prod id probe_state.truncate (sunxi_iommu_probe_v3 e s) =
    sunxi_iommu_probe (env_of_v3 e p) (probe_state.truncate s)"
  using assms
  by (simp add: sunxi_iommu_probe_v3_def sunxi_iommu_probe_def env_of_v3_def err_res_def err_irq_def err_clk_def
      acquire_def release_def Let_def probe_state.defs)

section \<open>The counters of v2\<close>

lemma clr_busy_reads:
  "reads_only (clr_busy_v2 hw) {IOMMU_PMU_CLR_REG_V2, IOMMU_PMU_CLR_REG_V2 + IOMMU_PER_SET_ADDR_SIZE,
     IOMMU_PER_SET_ADDR_SIZE + IOMMU_PMU_CLR_REG_V2, IOMMU_PER_SET_ADDR_SIZE + IOMMU_PMU_CLR_REG_V2 + IOMMU_PER_SET_ADDR_SIZE}"
  by (auto simp: reads_only_def clr_busy_v2_def READ_EQUAL_REG_def sunxi_iommu_read_def)

lemma enable_store_v2_returns:
  assumes "hw_ok hw"
  shows "\<exists>t'. sunxi_iommu_enable_store_v2 hw (Some val) count t = Some (int count, t')"
proof -
  have w: "\<exists>r u'. sunxi_wait_when_v2 hw (clr_busy_v2 hw) 1 u = Some (r, u')" for u
    using wait_v2_ok [OF assms _ clr_busy_reads, of 1] by (metis one_le_numeral)
  then obtain f g where "sunxi_wait_when_v2 hw (clr_busy_v2 hw) 1 u = Some (f u, g u)" for u by metis
  then show ?thesis by (simp add: sunxi_iommu_enable_store_v2_def case_prod_unfold Let_def)
qed

text \<open>
  When the first set is idle the poll goes on to read the register of a third set, which the device
  does not have.
\<close>

lemma clr_busy_third_set:
  assumes "reg hw t IOMMU_PMU_CLR_REG_V2 AND 0x1 = 0"
  shows "snd (clr_busy_v2 hw t) = t @ [Rd 0xe4, Rd 0x100e4, Rd 0x100e4, Rd 0x200e4]"
  using assms by (simp add: clr_busy_v2_def READ_EQUAL_REG_def sunxi_iommu_read_def v2_regs)

lemma map_trace_length: "length (fst (map_trace f xs t)) = length xs"
  by (induction xs arbitrary: t) (auto simp: case_prod_unfold Let_def)

lemma map_trace_each:
  assumes "\<And>x t. P (fst (f x t))"
  shows "list_all P (fst (map_trace f xs t))"
  using assms by (induction xs arbitrary: t) (auto simp: case_prod_unfold Let_def)

text \<open>
  The counters of every master of a set are read from the registers of its first master: on a device
  whose registers do not change in between, all six rows show the same numbers.
\<close>

lemma profile_v2_one_master:
  assumes "\<And>t t' a. reg hw t a = reg hw t' a"
  shows "\<exists>a h. list_all (\<lambda>m. access_count m = a \<and> hit_count m = h) (micro_tlbs (fst (read_set_v2 hw junk i t)))"
proof -
  define off where "off = of_nat i * IOMMU_PER_SET_ADDR_SIZE"
  define rv where "rv x y = fst (read_wide hw x y 0x7ff [])" for x y
  have w: "fst (read_wide hw x y 0x7ff t) = rv x y" for x y t
    using assms [of t x "[]"] assms [of "t @ [Rd x]" y "[Rd x]"]
    by (simp add: rv_def read_wide_def sunxi_iommu_read_def Let_def case_prod_unfold)
  let ?a = "rv (off + IOMMU_MIC_PMU_ACCESS_HIGH_REG 0) (off + IOMMU_MIC_PMU_ACCESS_LOW_REG 0)"
  let ?h = "rv (off + IOMMU_MIC_PMU_HIT_HIGH_REG 0) (off + IOMMU_MIC_PMU_HIT_LOW_REG 0)"
  have "list_all (\<lambda>m. access_count m = ?a \<and> hit_count m = ?h) (micro_tlbs (fst (read_set_v2 hw junk i t)))"
    unfolding read_set_v2_def Let_def case_prod_unfold off_def [symmetric] fst_conv iommu_profile.simps
    by (rule map_trace_each) (simp add: w case_prod_unfold Let_def)
  then show ?thesis by blast
qed

text \<open>
  The caller's buffer is never written.
\<close>

lemma profilling_v2_prints_nothing:
  "snd (fst (sunxi_iommu_profilling_show_v2 hw profile_ok tmp_ok junk emit p buf t)) = buf"
  by (simp add: sunxi_iommu_profilling_show_v2_def case_prod_unfold Let_def)

end
