(* ===== verification/Iommu_Trace.thy ===== *)
theory Iommu_Trace
  imports Mmio
begin

text \<open>
  The record of allocated device addresses that the IOMMU drivers keep when
  \<open>CONFIG_AW_IOMMU_IOVA_TRACE\<close> is set: two singly linked lists of \<open>sunxi_iommu_iova_info\<close>, the
  addresses in use and those given back.  The nodes live on a heap; \<open>kmalloc\<close> hands out a node with
  whatever contents its memory had, or nothing.  A result \<open>None\<close> is a run that dereferences a null, freed
  or wild pointer, writes past \<open>dev_name\<close>, or walks a cycle forever.  The code is the same in the
  three drivers, but for the test for an empty list in \<open>sunxi_iommu_free_iova\<close>, which v2 lacks.
\<close>

section \<open>State\<close>

record iova_info =
  dev_name :: string
  info_iova :: u64
  info_size :: u64
  timestamp :: u64
  info_next :: "nat option"

record iova_trace =
  info_heap :: "nat \<rightharpoonup> iova_info"
  info_head :: "nat option"
  info_tail :: "nat option"
  info_head_free :: "nat option"
  info_tail_free :: "nat option"

type_synonym iova_entry = "string \<times> u64 \<times> u64 \<times> u64"

definition entry_of :: "iova_info \<Rightarrow> iova_entry" where
  "entry_of n = (dev_name n, info_iova n, info_size n, timestamp n)"

section \<open>Operations\<close>

partial_function (option) iova_show_loop :: "(nat \<rightharpoonup> iova_info) \<Rightarrow> nat option \<Rightarrow> iova_entry list option" where
  "iova_show_loop h info_p =
     (case info_p of
        None \<Rightarrow> Some []
      | Some p \<Rightarrow> do {
          n \<leftarrow> h p;
          out \<leftarrow> iova_show_loop h (info_next n);
          Some (entry_of n # out)
        })"

definition iova_show :: "iova_trace \<Rightarrow> iova_entry list option" where
  "iova_show s = iova_show_loop (info_heap s) (info_head s)"


text \<open>
  \<open>strcpy\<close> into the 32 bytes of \<open>dev_name\<close> needs room for the terminator.
\<close>

definition copy_name :: "string \<Rightarrow> iova_info \<Rightarrow> iova_info option" where
  "copy_name name n = (if length name < 32 then Some (n\<lparr>dev_name := name\<rparr>) else None)"

text \<open>
  \<open>tail->next = p\<close> through the tail pointer of a list.
\<close>

definition link_tail :: "nat option \<Rightarrow> nat \<Rightarrow> (nat \<rightharpoonup> iova_info) \<Rightarrow> (nat \<rightharpoonup> iova_info) option" where
  "link_tail tail p h = do {
     q \<leftarrow> tail;
     n \<leftarrow> h q;
     Some (h(q \<mapsto> n\<lparr>info_next := Some p\<rparr>))
   }"

definition sunxi_iommu_alloc_iova ::
  "(nat \<times> iova_info) option \<Rightarrow> string \<Rightarrow> u64 \<Rightarrow> u64 \<Rightarrow> u64 \<Rightarrow> iova_trace \<Rightarrow> iova_trace option" where
  "sunxi_iommu_alloc_iova kmalloc name iova sz now s = do {
     (p, junk) \<leftarrow> kmalloc;
     let h = (info_heap s)(p \<mapsto> junk);
     s \<leftarrow> (if info_head s = None then Some (s\<lparr>info_heap := h, info_head := Some p, info_tail := Some p\<rparr>)
           else do {
             h \<leftarrow> link_tail (info_tail s) p h;
             Some (s\<lparr>info_heap := h, info_tail := Some p\<rparr>)
           });
     n \<leftarrow> info_heap s p;
     n \<leftarrow> copy_name name n;
     let n = n\<lparr>info_iova := iova, info_size := sz, timestamp := now\<rparr>;
     Some (s\<lparr>info_heap := (info_heap s)(p \<mapsto> n)\<rparr>)
   }"

text \<open>
  The search of \<open>sunxi_iommu_free_iova\<close>: the node found, if any, and the node before it.
\<close>

partial_function (option) find_info ::
  "(nat \<rightharpoonup> iova_info) \<Rightarrow> u64 \<Rightarrow> u64 \<Rightarrow> nat option \<Rightarrow> nat option \<Rightarrow> (nat option \<times> nat option) option" where
  "find_info h iova sz info_prev info_p =
     (case info_p of
        None \<Rightarrow> Some (info_prev, None)
      | Some p \<Rightarrow> do {
          n \<leftarrow> h p;
          if info_iova n = iova \<and> info_size n = sz then Some (info_prev, info_p)
          else find_info h iova sz info_p (info_next n)
        })"

definition unlink_info :: "nat \<Rightarrow> nat option \<Rightarrow> iova_trace \<Rightarrow> iova_trace option" where
  "unlink_info p info_prev s = do {
     n \<leftarrow> info_heap s p;
     if Some p = info_head s then Some (s\<lparr>info_head := info_next n\<rparr>)
     else do {
       q \<leftarrow> info_prev;
       m \<leftarrow> info_heap s q;
       if Some p = info_tail s then
         Some (s\<lparr>info_tail := info_prev, info_heap := (info_heap s)(q \<mapsto> m\<lparr>info_next := None\<rparr>)\<rparr>)
       else Some (s\<lparr>info_heap := (info_heap s)(q \<mapsto> m\<lparr>info_next := info_next n\<rparr>)\<rparr>)
     }
   }"

definition sunxi_iommu_free_iova_v2 ::
  "(nat \<times> iova_info) option \<Rightarrow> u64 \<Rightarrow> u64 \<Rightarrow> iova_trace \<Rightarrow> iova_trace option" where
  "sunxi_iommu_free_iova_v2 kmalloc iova sz s = do {
     (info_prev, info_p) \<leftarrow> find_info (info_heap s) iova sz (info_head s) (info_head s);
     (q, junk) \<leftarrow> kmalloc;
     let h = (info_heap s)(q \<mapsto> junk);
     s \<leftarrow> (if info_head_free s = None
           then Some (s\<lparr>info_heap := h, info_head_free := Some q, info_tail_free := Some q\<rparr>)
           else do {
             h \<leftarrow> link_tail (info_tail_free s) q h;
             Some (s\<lparr>info_heap := h, info_tail_free := Some q\<rparr>)
           });
     p \<leftarrow> info_p;
     n \<leftarrow> info_heap s p;
     m \<leftarrow> info_heap s q;
     m \<leftarrow> copy_name (dev_name n) m;
     let m = m\<lparr>info_iova := info_iova n, info_size := info_size n, timestamp := timestamp n\<rparr>;
     s \<leftarrow> unlink_info p info_prev (s\<lparr>info_heap := (info_heap s)(q \<mapsto> m)\<rparr>);
     Some (s\<lparr>info_heap := (info_heap s)(p := None)\<rparr>)
   }"

definition sunxi_iommu_free_iova ::
  "(nat \<times> iova_info) option \<Rightarrow> u64 \<Rightarrow> u64 \<Rightarrow> iova_trace \<Rightarrow> iova_trace option" where
  "sunxi_iommu_free_iova kmalloc iova sz s =
     (if info_head s = None then Some s
      else do {
        (info_prev, info_p) \<leftarrow> find_info (info_heap s) iova sz (info_head s) (info_head s);
        (q, junk) \<leftarrow> kmalloc;
        let h = (info_heap s)(q \<mapsto> junk);
        s \<leftarrow> (if info_head_free s = None
              then Some (s\<lparr>info_heap := h, info_head_free := Some q, info_tail_free := Some q\<rparr>)
              else do {
                h \<leftarrow> link_tail (info_tail_free s) q h;
                Some (s\<lparr>info_heap := h, info_tail_free := Some q\<rparr>)
              });
        p \<leftarrow> info_p;
        n \<leftarrow> info_heap s p;
        m \<leftarrow> info_heap s q;
        m \<leftarrow> copy_name (dev_name n) m;
        let m = m\<lparr>info_iova := info_iova n, info_size := info_size n, timestamp := timestamp n\<rparr>;
        s \<leftarrow> unlink_info p info_prev (s\<lparr>info_heap := (info_heap s)(q \<mapsto> m)\<rparr>);
        Some (s\<lparr>info_heap := (info_heap s)(p := None)\<rparr>)
      })"

section \<open>Lists on the heap\<close>

text \<open>
  \<open>info_seg h p as q\<close>: following \<open>next\<close> from \<open>p\<close> visits the nodes \<open>as\<close> and ends at \<open>q\<close>.  A list with a head and
  a tail pointer is such a segment whose tail pointer names its last node; the tail pointer of an
  empty list is arbitrary.  The code does not write the \<open>next\<close> of a new node, so the last node points
  anywhere: \<open>q\<close> is what the memory held.
\<close>

fun info_seg :: "(nat \<rightharpoonup> iova_info) \<Rightarrow> nat option \<Rightarrow> nat list \<Rightarrow> nat option \<Rightarrow> bool" where
  "info_seg h p [] q \<longleftrightarrow> p = q"
| "info_seg h p (a # as) q \<longleftrightarrow> p = Some a \<and> (\<exists>n. h a = Some n \<and> info_seg h (info_next n) as q)"

definition infos :: "(nat \<rightharpoonup> iova_info) \<Rightarrow> nat list \<Rightarrow> iova_entry list" where
  "infos h as = map (\<lambda>a. entry_of (the (h a))) as"

definition qlist :: "(nat \<rightharpoonup> iova_info) \<Rightarrow> nat option \<Rightarrow> nat option \<Rightarrow> nat list \<Rightarrow> nat option \<Rightarrow> bool" where
  "qlist h hp tp xs u \<longleftrightarrow> info_seg h hp xs u \<and> distinct xs \<and> (xs \<noteq> [] \<longrightarrow> tp = Some (last xs))"




lemma infos_append [simp]: "infos h (as @ bs) = infos h as @ infos h bs"
  by (simp add: infos_def)

lemma info_seg_head_None: "info_seg h p as None \<Longrightarrow> p = None \<longleftrightarrow> as = []"
  by (cases as) auto


lemma iova_show_loop_None [simp]: "iova_show_loop h None = Some []"
  by (subst iova_show_loop.simps) simp

lemma infos_Nil [simp]: "infos h [] = []"
  by (simp add: infos_def)








section \<open>What the lists hold\<close>

text \<open>
  The state holds the lists \<open>L\<close> and \<open>F\<close>, which end at the pointers \<open>u\<close> and \<open>v\<close>.
\<close>

definition rep :: "iova_trace \<Rightarrow> iova_entry list \<Rightarrow> iova_entry list \<Rightarrow> nat option \<Rightarrow> nat option \<Rightarrow> bool" where
  "rep s L F u v \<longleftrightarrow> (\<exists>xs fs. qlist (info_heap s) (info_head s) (info_tail s) xs u \<and>
     qlist (info_heap s) (info_head_free s) (info_tail_free s) fs v \<and> set xs \<inter> set fs = {} \<and> (fs = [] \<longrightarrow> v = None) \<and>
     L = infos (info_heap s) xs \<and> F = infos (info_heap s) fs \<and> (\<forall>e \<in> set L. length (fst e) < 32))"





section \<open>Removal\<close>

definition info_matches :: "u64 \<Rightarrow> u64 \<Rightarrow> iova_entry \<Rightarrow> bool" where
  "info_matches iova sz e \<longleftrightarrow> fst (snd e) = iova \<and> fst (snd (snd e)) = sz"





lemma free_v1_as_v2: "info_head s \<noteq> None \<Longrightarrow> sunxi_iommu_free_iova k iova sz s = sunxi_iommu_free_iova_v2 k iova sz s"
  by (simp only: sunxi_iommu_free_iova_def sunxi_iommu_free_iova_v2_def if_False)

section \<open>The trace as two lists\<close>





lemma rep_nonempty:
  assumes "rep s L F u v" "L \<noteq> []"
  shows "info_head s \<noteq> None"
proof -
  obtain xs fs where "info_seg (info_heap s) (info_head s) xs u" "L = infos (info_heap s) xs"
    using assms(1) unfolding rep_def qlist_def by blast
  with assms(2) show ?thesis by (cases xs) auto
qed







lemma iova_show_loop_wild: "iova_show_loop h (Some p) = None" if "h p = None"
  using that by (subst iova_show_loop.simps) simp


section \<open>Where the trace fails\<close>

lemma next_not_initialised:
  assumes "info_head s = None" "length name < 32" "info_next junk = Some w" "info_heap s w = None" "w \<noteq> p"
  shows "\<exists>s'. sunxi_iommu_alloc_iova (Some (p, junk)) name iova sz now s = Some s' \<and> iova_show s' = None"
  using assms iova_show_loop.simps [of _ "Some p"]
  by (auto simp: sunxi_iommu_alloc_iova_def copy_name_def iova_show_def iova_show_loop_wild)

lemma find_info_none:
  assumes "info_seg h p as None" "\<forall>e \<in> set (infos h as). \<not> info_matches iova sz e"
  shows "\<exists>prev'. find_info h iova sz prev p = Some (prev', None)"
  using assms
proof (induction as arbitrary: p prev)
  case Nil then show ?case by (subst find_info.simps) simp
next
  case (Cons a as)
  then obtain n where n: "p = Some a" "h a = Some n" "info_seg h (info_next n) as None" by auto
  have "\<not> (info_iova n = iova \<and> info_size n = sz)" "\<forall>e \<in> set (infos h as). \<not> info_matches iova sz e"
    using Cons.prems(2) n(2) by (auto simp: infos_def info_matches_def entry_of_def)
  with n Cons.IH [OF n(3), of "Some a"] show ?case by (subst find_info.simps) auto
qed

text \<open>
  Giving back an address that is not in the trace: after its warning the code copies from the null
  pointer the search ended with.  The v2 driver does so for an empty trace as well, where the others
  return.
\<close>

lemma free_v2_unknown:
  assumes "rep s L F None v" "\<forall>e \<in> set L. \<not> info_matches iova sz e"
  shows "sunxi_iommu_free_iova_v2 k iova sz s = None"
proof -
  obtain xs where "info_seg (info_heap s) (info_head s) xs None" "L = infos (info_heap s) xs"
    using assms(1) by (auto simp: rep_def qlist_def)
  with assms(2) obtain prev where "find_info (info_heap s) iova sz (info_head s) (info_head s) = Some (prev, None)"
    using find_info_none by blast
  then show ?thesis
    by (cases k) (auto simp: sunxi_iommu_free_iova_v2_def Let_def Option.bind_eq_None_conv)
qed

lemma free_unknown:
  assumes "rep s L F None v" "\<forall>e \<in> set L. \<not> info_matches iova sz e"
  shows "sunxi_iommu_free_iova k iova sz s = (if L = [] then Some s else None)"
proof (cases "L = []")
  case True
  with assms(1) have "info_head s = None" by (auto simp: rep_def qlist_def infos_def)
  with True show ?thesis by (simp add: sunxi_iommu_free_iova_def)
next
  case False
  then show ?thesis using free_v1_as_v2 rep_nonempty [OF assms(1)] free_v2_unknown [OF assms] by auto
qed

end
