(* ===== verification/Iommu_Debug.thy ===== *)
theory Iommu_Debug
  imports Iommu_Steps
begin

text \<open>
  The test bench \<open>sunxi-iommu-debug.c\<close> (\<open>CONFIG_AW_IOMMU_TESTS\<close>): debugfs files whose reading runs a
  test of the DMA interface or of the driver's debug mode.  The kernel's answers are arguments: the
  record \<open>bench_env\<close> gives the answer to the n-th request.  The two tests under
  \<open>RAND_VA_SWEEP_TEST\<close> and \<open>TLB_STRESS_SWEEP_TEST\<close>, which nothing defines, are the stubs the file has
  for them; \<open>Iommu_Sweeps\<close> has the tests themselves.
\<close>

section \<open>Helpers\<close>

definition size_to_string :: "u64 \<Rightarrow> string" where
  "size_to_string sz =
     (if sz = 0x1000 then ''4K'' else if sz = 0x2000 then ''8K'' else if sz = 0x4000 then ''16K''
      else if sz = 0x10000 then ''64K'' else if sz = 0x200000 then ''2M'' else if sz = 0x100000 then ''1M''
      else if sz = 0x400000 then ''4M'' else if sz = 0x800000 then ''8M'' else if sz = 0x1000000 then ''16M''
      else if sz = 0x2000000 then ''32M'' else ''unknown size, please add to _size_to_string'')"

record fib_state =
  cur :: u64
  prev :: u64

definition fib_init :: fib_state where
  "fib_init = \<lparr>cur = 1, prev = 1\<rparr>"

text \<open>
  The sum passes through an \<open>int\<close>: it is cut to 32 bits and extended with its sign.
\<close>

definition get_next_fib :: "fib_state \<Rightarrow> u64 \<times> fib_state" where
  "get_next_fib f =
     (let nxt = scast (ucast (cur f + prev f) :: u32) :: u64
      in (nxt, \<lparr>cur = nxt, prev = cur f\<rparr>))"

section \<open>Timing of the DMA interface\<close>

definition elapsed_ns :: "u64 \<times> u64 \<Rightarrow> u64 \<times> u64 \<Rightarrow> u64" where
  "elapsed_ns before after = (fst after - fst before) * 1000000000 + (snd after - snd before)"

datatype timing_line = Failed_line | Times string string "u64 list" u64

definition times_line :: "string \<Rightarrow> string \<Rightarrow> u64 list \<Rightarrow> timing_line" where
  "times_line label op ns = Times label op ns (sum_list ns div 10)"

text \<open>
  \<open>map_clock e i\<close> and \<open>unmap_clock e i\<close> are the clock readings around the i-th mapping and unmapping
  of experiment \<open>e\<close>; \<open>map_fails e i\<close> says that the mapping is refused.
\<close>

fun profiling_experiments ::
  "(nat \<Rightarrow> nat \<Rightarrow> (u64 \<times> u64) \<times> (u64 \<times> u64)) \<Rightarrow> (nat \<Rightarrow> nat \<Rightarrow> (u64 \<times> u64) \<times> (u64 \<times> u64)) \<Rightarrow>
   (nat \<Rightarrow> nat \<Rightarrow> bool) \<Rightarrow> (nat \<times> string) list \<Rightarrow> timing_line list" where
  "profiling_experiments map_clock unmap_clock map_fails [] = []"
| "profiling_experiments map_clock unmap_clock map_fails ((e, label) # es) =
     (if list_ex (map_fails e) [0..<10] then [Failed_line]
      else times_line label ''dma_map_single_attrs'' (map (\<lambda>i. case map_clock e i of (b, a) \<Rightarrow> elapsed_ns b a) [0..<10]) #
           times_line label ''dma_unmap_single_attrs'' (map (\<lambda>i. case unmap_clock e i of (b, a) \<Rightarrow> elapsed_ns b a) [0..<10]) #
           profiling_experiments map_clock unmap_clock map_fails es)"

definition iommu_debug_profiling_fast_dma_api_show ::
  "bool \<Rightarrow> (nat \<Rightarrow> nat \<Rightarrow> (u64 \<times> u64) \<times> (u64 \<times> u64)) \<Rightarrow> (nat \<Rightarrow> nat \<Rightarrow> (u64 \<times> u64) \<times> (u64 \<times> u64)) \<Rightarrow>
   (nat \<Rightarrow> nat \<Rightarrow> bool) \<Rightarrow> int \<times> timing_line list" where
  "iommu_debug_profiling_fast_dma_api_show virt_ok map_clock unmap_clock map_fails =
     (if \<not> virt_ok then (0, [])
      else (0, profiling_experiments map_clock unmap_clock map_fails [(0, ''not coherent''), (1, ''coherent'')]))"

section \<open>Sweeps over the address space\<close>

record bench_env =
  env_dma :: "nat \<Rightarrow> u64"
  env_node :: "nat \<Rightarrow> bool"
  env_pages :: "nat \<Rightarrow> bool"

record bench =
  requests :: nat
  mapped :: "u64 list"
  nodes :: nat
  pages :: nat
  log :: "string list"

definition DMA_MAPPING_ERROR :: u64 where
  "DMA_MAPPING_ERROR = 0xffffffffffffffff"

definition sweep_max :: u64 where
  "sweep_max = 0x8000000"

definition request :: "bench \<Rightarrow> bench" where
  "request s = s\<lparr>requests := requests s + 1\<rparr>"

definition dma_map_single :: "bench_env \<Rightarrow> bench \<Rightarrow> u64 \<times> bench" where
  "dma_map_single k s =
     (let a = env_dma k (requests s); s = request s
      in (a, if a = DMA_MAPPING_ERROR then s else s\<lparr>mapped := mapped s @ [a]\<rparr>))"

text \<open>
  \<open>memset\<close> on a node that could not be allocated writes through a null pointer: \<open>None\<close>.
\<close>

definition new_node :: "bench_env \<Rightarrow> bench \<Rightarrow> bench option" where
  "new_node k s = (if env_node k (requests s) then Some ((request s)\<lparr>nodes := nodes s + 1\<rparr>) else None)"

partial_function (option) sweep_map ::
  "bench_env \<Rightarrow> u64 \<Rightarrow> u64 \<Rightarrow> u64 list \<Rightarrow> bench \<Rightarrow> (int \<times> u64 list \<times> bench) option" where
  "sweep_map k sz iova addrs s =
     (if iova < sweep_max then
        let (a, s) = dma_map_single k s in
        do {
          s \<leftarrow> new_node k s;
          if a = 0 \<or> a = DMA_MAPPING_ERROR then Some (- ENOMEM, addrs @ [a], s)
          else sweep_map k sz (iova + sz) (addrs @ [a]) s
        }
      else Some (0, addrs, s))"

fun sweep_unmap :: "u64 list \<Rightarrow> bench \<Rightarrow> bench" where
  "sweep_unmap [] s = s\<lparr>nodes := nodes s - 1\<rparr>"
| "sweep_unmap (a # as) s =
     (if a = 0 then s\<lparr>nodes := nodes s - 1\<rparr>
      else sweep_unmap as (s\<lparr>mapped := remove1 a (mapped s), nodes := nodes s - 1\<rparr>))"

definition full_va_sweep :: "bench_env \<Rightarrow> u64 \<Rightarrow> bench \<Rightarrow> (int \<times> bench) option" where
  "full_va_sweep k sz s = do {
     s \<leftarrow> new_node k s;
     if \<not> env_pages k (requests s) then Some (if sz > 0x2000 then 0 else - ENOMEM, request s)
     else do {
       let s = (request s)\<lparr>pages := pages s + 1\<rparr>;
       (ret, addrs, s) \<leftarrow> sweep_map k sz 0 [] s;
       if ret \<noteq> 0 then Some (ret, s)
       else let s = sweep_unmap addrs s in Some (0, s\<lparr>pages := pages s - 1\<rparr>)
     }
   }"

definition rand_va_sweep :: "u64 \<Rightarrow> bench \<Rightarrow> (int \<times> bench) option" where
  "rand_va_sweep sz s = Some (0, s)"

definition tlb_stress_sweep :: "bench \<Rightarrow> (int \<times> bench) option" where
  "tlb_stress_sweep s = Some (0, s)"

definition ds_printf :: "string \<Rightarrow> bench \<Rightarrow> bench" where
  "ds_printf msg s = s\<lparr>log := log s @ [msg]\<rparr>"

fun run_tests :: "(string \<times> (bench \<Rightarrow> (int \<times> bench) option)) list \<Rightarrow> bench \<Rightarrow> (int \<times> bench) option" where
  "run_tests [] s = Some (0, s)"
| "run_tests ((msg, test) # ts) s = do {
     (ret, s) \<leftarrow> test (ds_printf msg s);
     if ret \<noteq> 0 then Some (- EINVAL, ds_printf ''  -> FAILED'' s)
     else run_tests ts (ds_printf ''  -> SUCCEEDED'' s)
   }"

definition va_tests :: "bench_env \<Rightarrow> u64 list \<Rightarrow> (string \<times> (bench \<Rightarrow> (int \<times> bench) option)) list" where
  "va_tests k sizes =
     concat (map (\<lambda>sz. map (\<lambda>i. (''Full VA sweep @'' @ size_to_string sz @ '' '' @ i, full_va_sweep k sz)) [''0'', ''1'']) sizes) @
     [(''bonus map:'', full_va_sweep k 0x1000)] @
     concat (map (\<lambda>sz. map (\<lambda>i. (''Rand VA sweep @'' @ size_to_string sz @ '' '' @ i, rand_va_sweep sz)) [''0'', ''1'']) sizes) @
     [(''TLB stress sweep'', tlb_stress_sweep), (''second bonus map:'', full_va_sweep k 0x1000)]"

definition functional_dma_api_va_test :: "bench_env \<Rightarrow> u64 list \<Rightarrow> bench \<Rightarrow> (int \<times> bench) option" where
  "functional_dma_api_va_test k sizes s = run_tests (va_tests k sizes) s"

text \<open>
  The array of sizes ends with a zero.
\<close>

definition iommu_iova_alloc_strategy_stress_show :: "bench_env \<Rightarrow> bench \<Rightarrow> (int \<times> bench) option" where
  "iommu_iova_alloc_strategy_stress_show k s =
     functional_dma_api_va_test k (takeWhile (\<lambda>sz. sz \<noteq> 0) [0x1000, 0x2000, 0x4000, 0x10000, 0]) s"

section \<open>A coherent buffer\<close>

definition coherent_size :: nat where
  "coherent_size = 1024 * 742"

definition memset8 :: "nat \<Rightarrow> u8 \<Rightarrow> (nat \<Rightarrow> u8) \<Rightarrow> (nat \<Rightarrow> u8)" where
  "memset8 n c data = (\<lambda>j. if j < n then c else data j)"

fun coherent_loop :: "nat list \<Rightarrow> (nat \<Rightarrow> u8) \<Rightarrow> int \<times> (nat \<Rightarrow> u8)" where
  "coherent_loop [] data = (0, data)"
| "coherent_loop (i # is) data =
     (let ind = 1024 * i;
          val = of_nat (i mod 255) :: u8;
          data = memset8 coherent_size 0xa5 data;
          data = data(ind := val);
          data = data(ind := data ind + 1)
      in if unat (data ind) \<noteq> unat val + 1 then (- EINVAL, data) else coherent_loop is data)"

text \<open>
  The result and the number of buffers allocated and freed.
\<close>

definition functional_dma_api_alloc_test :: "bool \<Rightarrow> (nat \<Rightarrow> u8) \<Rightarrow> int \<times> nat \<times> nat" where
  "functional_dma_api_alloc_test alloc_ok data =
     (if \<not> alloc_ok then (- EINVAL, 0, 0)
      else let (ret, data) = coherent_loop [0..<742] data in (ret, 1, 1))"

definition iommu_kvirtual_addr_rdwr_show :: "bool \<Rightarrow> (nat \<Rightarrow> u8) \<Rightarrow> int \<times> nat \<times> nat" where
  "iommu_kvirtual_addr_rdwr_show alloc_ok data = functional_dma_api_alloc_test alloc_ok data"

definition functional_dma_api_ion_test :: int where
  "functional_dma_api_ion_test = 0"

definition iommu_ion_interface_test_show :: int where
  "iommu_ion_interface_test_show = functional_dma_api_ion_test"

section \<open>Access through the debug mode\<close>

text \<open>
  The device is made to write and to read one word of each page of a buffer.  \<open>word_at t\<close> is what the
  CPU finds in the word after the accesses \<open>t\<close>.  When the buffer cannot be had the test frees it all
  the same, with an address that was never assigned.
\<close>

datatype freed = Freed_buffer | Freed_garbage

fun iova_loop :: "hw \<Rightarrow> (trace \<Rightarrow> u32) \<Rightarrow> u64 \<Rightarrow> nat list \<Rightarrow> trace \<Rightarrow> (int \<times> trace) option" where
  "iova_loop hw word_at iova [] t = Some (0, t)"
| "iova_loop hw word_at iova (i # is) t = do {
     let p1 = iova + of_nat (4096 * i);
     (r, t) \<leftarrow> sunxi_iova_test_write hw p1 0xdead t;
     if word_at t \<noteq> 0xdead then Some (- EINVAL, t)
     else do {
       (read_data, t) \<leftarrow> sunxi_iova_test_read hw p1 t;
       if read_data \<noteq> 0xffffaaaa then Some (- EINVAL, t)
       else iova_loop hw word_at iova is t
     }
   }"

definition functional_dma_api_iova_test ::
  "hw \<Rightarrow> (trace \<Rightarrow> u32) \<Rightarrow> u64 option \<Rightarrow> trace \<Rightarrow> (int \<times> freed \<times> trace) option" where
  "functional_dma_api_iova_test hw word_at alloc t = do {
     let t = sunxi_set_debug_mode t;
     (ret, t) \<leftarrow> (case alloc of
        None \<Rightarrow> Some (- EINVAL, t)
      | Some iova \<Rightarrow> iova_loop hw word_at iova [0..<1024] t);
     Some (ret, if alloc = None then Freed_garbage else Freed_buffer, sunxi_set_prefetch_mode t)
   }"

text \<open>
  The file runs the test three times and stops at the first failure; \<open>allocs\<close> are the three buffers.
\<close>

fun repeat_iova_test :: "hw \<Rightarrow> (trace \<Rightarrow> u32) \<Rightarrow> u64 option list \<Rightarrow> trace \<Rightarrow> (int \<times> trace) option" where
  "repeat_iova_test hw word_at [] t = Some (0, t)"
| "repeat_iova_test hw word_at (alloc # as) t = do {
     (ret, f, t) \<leftarrow> functional_dma_api_iova_test hw word_at alloc t;
     if ret \<noteq> 0 then Some (ret, t) else repeat_iova_test hw word_at as t
   }"

definition iommu_vir_devio_addr_rdwr_show ::
  "hw \<Rightarrow> (trace \<Rightarrow> u32) \<Rightarrow> u64 option \<Rightarrow> u64 option \<Rightarrow> u64 option \<Rightarrow> trace \<Rightarrow> (int \<times> trace) option" where
  "iommu_vir_devio_addr_rdwr_show hw word_at a1 a2 a3 t = repeat_iova_test hw word_at [a1, a2, a3] t"

section \<open>The basic test\<close>

record basic_env =
  ba_kmalloc :: "nat \<Rightarrow> bool"
  ba_iova :: "nat \<Rightarrow> u64"
  ba_to_phys :: "u64 \<Rightarrow> u64"
  ba_virt_phys :: "nat \<Rightarrow> u64"
  ba_data_after :: "nat \<Rightarrow> nat \<Rightarrow> u8"

text \<open>
  The result and the mappings left behind: a translation that is wrong ends the test before the
  mapping is taken back.
\<close>

fun basic_loop :: "basic_env \<Rightarrow> nat list \<Rightarrow> int \<times> u64 list" where
  "basic_loop e [] = (0, [])"
| "basic_loop e (i # is) =
     (if \<not> ba_kmalloc e i then (- EINVAL, [])
      else if ba_to_phys e (ba_iova e i) \<noteq> ba_virt_phys e i then (- EINVAL, [ba_iova e i])
      else if list_ex (\<lambda>j. ba_data_after e i j \<noteq> 0xa5) [0..<1518] then (- EINVAL, [])
      else basic_loop e is)"

definition functional_dma_api_basic_test :: "basic_env \<Rightarrow> int \<times> u64 list" where
  "functional_dma_api_basic_test e = basic_loop e [0..<1000]"

definition iommu_debug_basic_test_show :: "basic_env \<Rightarrow> int \<times> u64 list" where
  "iommu_debug_basic_test_show e = functional_dma_api_basic_test e"

section \<open>The debugfs files\<close>

record bench_dev =
  bd_name :: string
  bd_null :: bool
  bd_iommus :: bool
  bd_kzalloc :: bool
  bd_dir :: bool
  bd_file :: "string \<Rightarrow> bool"

record bench_fs =
  fs_top :: bool
  fs_tests :: bool
  fs_dirs :: "(string \<times> string list) list"
  debug_devices :: "string list"

definition test_files :: "string list" where
  "test_files = [''profiling_fast_dma_api'', ''iommu_basic_test'', ''ion_interface_test'',
     ''iova_alloc_strategy_stress_test'', ''kvirtual_addr_rdwr_test'', ''vir_devio_addr_rdwr_test'']"

definition snarf_iommu_devices :: "bench_dev \<Rightarrow> bench_fs \<Rightarrow> int \<times> bench_fs" where
  "snarf_iommu_devices d s =
     (if bd_null d then (- EINVAL, s)
      else if \<not> bd_kzalloc d then (- ENODEV, s)
      else if \<not> bd_dir d then (0, s)
      else if \<not> list_all (bd_file d) test_files then (0, s)
      else (0, s\<lparr>fs_dirs := (bd_name d, test_files) # fs_dirs s, debug_devices := bd_name d # debug_devices s\<rparr>))"

definition pass_iommu_devices :: "bench_dev \<Rightarrow> bench_fs \<Rightarrow> int \<times> bench_fs" where
  "pass_iommu_devices d s = (if \<not> bd_iommus d then (0, s) else snarf_iommu_devices d s)"

fun iommu_debug_populate_devices :: "bench_dev list \<Rightarrow> bench_fs \<Rightarrow> int \<times> bench_fs" where
  "iommu_debug_populate_devices [] s = (0, s)"
| "iommu_debug_populate_devices (d # ds) s =
     (let (ret, s) = pass_iommu_devices d s in if ret \<noteq> 0 then (ret, s) else iommu_debug_populate_devices ds s)"

definition iommu_debug_init_tests :: "bool \<Rightarrow> bool \<Rightarrow> bench_dev list \<Rightarrow> bench_fs \<Rightarrow> int \<times> bench_fs" where
  "iommu_debug_init_tests top_ok tests_ok bus s =
     (if \<not> top_ok then (- ENODEV, s)
      else let s = s\<lparr>fs_top := True\<rparr> in
        if \<not> tests_ok then (- ENODEV, s)
        else iommu_debug_populate_devices bus (s\<lparr>fs_tests := True\<rparr>))"

definition iommu_debug_destroy_tests :: "bench_fs \<Rightarrow> bench_fs" where
  "iommu_debug_destroy_tests s = s\<lparr>fs_tests := False, fs_dirs := []\<rparr>"

definition iommu_debug_init :: "bool \<Rightarrow> bool \<Rightarrow> bench_dev list \<Rightarrow> bench_fs \<Rightarrow> int \<times> bench_fs" where
  "iommu_debug_init top_ok tests_ok bus s =
     (let (ret, s) = iommu_debug_init_tests top_ok tests_ok bus s in (if ret \<noteq> 0 then - ENODEV else 0, s))"

definition iommu_debug_exit :: "bench_fs \<Rightarrow> bench_fs" where
  "iommu_debug_exit s = iommu_debug_destroy_tests s"

section \<open>The coherent buffer always passes\<close>

lemma coherent_loop_ok: "fst (coherent_loop is data) = 0"
proof (induction "is" arbitrary: data)
  case (Cons i "is")
  have "i mod 255 < 255" by simp
  then have "unat (of_nat (i mod 255) + 1 :: u8) = unat (of_nat (i mod 255) :: u8) + 1"
    by (simp add: unat_word_ariths unat_of_nat)
  with Cons show ?case by (simp add: Let_def)
qed simp

lemma alloc_test_passes: "functional_dma_api_alloc_test alloc_ok data = (if alloc_ok then (0, 1, 1) else (- EINVAL, 0, 0))"
  using coherent_loop_ok by (simp add: functional_dma_api_alloc_test_def case_prod_unfold)

section \<open>Sweeps\<close>

definition all_granted :: "bench_env \<Rightarrow> bool" where
  "all_granted k \<longleftrightarrow> (\<forall>n. env_node k n \<and> env_pages k n \<and> env_dma k n \<noteq> 0 \<and> env_dma k n \<noteq> DMA_MAPPING_ERROR)"

lemma sweep_map_granted:
  assumes "all_granted k" "0 < unat sz" "unat sz \<le> 2 ^ 27" "unat iova \<le> 2 ^ 27 + unat sz"
  shows "\<exists>as r. sweep_map k sz iova addrs s =
      Some (0, addrs @ as, s\<lparr>mapped := mapped s @ as, requests := r, nodes := nodes s + length as\<rparr>) \<and> 0 \<notin> set as"
  using assms(4)
proof (induction "2 ^ 28 - unat iova" arbitrary: iova addrs s rule: less_induct)
  case less
  show ?case
  proof (cases "iova < sweep_max")
    case False
    then show ?thesis by (subst sweep_map.simps) (auto intro: exI [of _ "requests s"])
  next
    case True
    then have lt: "unat iova < 2 ^ 27" by (simp add: sweep_max_def word_less_nat_alt)
    then have u: "unat (iova + sz) = unat iova + unat sz" using assms(3) by (simp add: unat_word_ariths)
    define a where "a = env_dma k (requests s)"
    let ?s = "s\<lparr>mapped := mapped s @ [a], requests := requests s + 2, nodes := nodes s + 1\<rparr>"
    have a: "a \<noteq> 0" "a \<noteq> DMA_MAPPING_ERROR" and n: "\<And>m. env_node k m" using assms(1) by (auto simp: all_granted_def a_def)
    have step: "sweep_map k sz iova addrs s = sweep_map k sz (iova + sz) (addrs @ [a]) ?s"
      using True a n by (subst sweep_map.simps)
        (simp add: dma_map_single_def new_node_def request_def a_def Let_def)
    have "2 ^ 28 - unat (iova + sz) < 2 ^ 28 - unat iova" "unat (iova + sz) \<le> 2 ^ 27 + unat sz"
      unfolding u using lt assms(2) by auto
    from less.hyps [OF this, of "addrs @ [a]" ?s] obtain as r where
      "sweep_map k sz (iova + sz) (addrs @ [a]) ?s = Some (0, (addrs @ [a]) @ as,
        ?s\<lparr>mapped := mapped ?s @ as, requests := r, nodes := nodes ?s + length as\<rparr>)" "0 \<notin> set as" by blast
    with step a show ?thesis by (intro exI [of _ "a # as"] exI [of _ r]) simp
  qed
qed

lemma sweep_unmap_all:
  "0 \<notin> set as \<Longrightarrow> mapped s = as \<Longrightarrow> sweep_unmap as s = s\<lparr>mapped := [], nodes := nodes s - (length as + 1)\<rparr>"
  by (induction as arbitrary: s) auto

text \<open>
  A sweep for which every request is granted passes and gives back all it took.
\<close>

lemma full_va_sweep_balanced:
  assumes "all_granted k" "mapped s = []" "0 < unat sz" "unat sz \<le> 2 ^ 27"
  shows "\<exists>r. full_va_sweep k sz s = Some (0, s\<lparr>requests := r\<rparr>)"
proof -
  let ?s = "s\<lparr>nodes := nodes s + 1, requests := requests s + 2, pages := pages s + 1\<rparr>"
  obtain as r where m: "sweep_map k sz 0 [] ?s = Some (0, as,
      ?s\<lparr>mapped := as, requests := r, nodes := nodes s + 1 + length as\<rparr>)" "0 \<notin> set as"
    using sweep_map_granted [OF assms(1,3,4), of 0 "[]" ?s] assms(2) by auto
  let ?t = "?s\<lparr>mapped := as, requests := r, nodes := nodes s + 1 + length as\<rparr>"
  have u: "sweep_unmap as ?t = ?t\<lparr>mapped := [], nodes := nodes s\<rparr>"
    using sweep_unmap_all [OF m(2), of ?t] by simp
  have "full_va_sweep k sz s = Some (0, (?t\<lparr>mapped := [], nodes := nodes s\<rparr>)\<lparr>pages := pages s\<rparr>)"
    using assms(1) m u by (simp add: full_va_sweep_def new_node_def request_def all_granted_def Let_def)
  also have "(?t\<lparr>mapped := [], nodes := nodes s\<rparr>)\<lparr>pages := pages s\<rparr> = s\<lparr>requests := r\<rparr>"
    using assms(2) by (cases s) simp
  finally show ?thesis by blast
qed

lemma run_tests_pass:
  assumes "\<And>msg test s. (msg, test) \<in> set ts \<Longrightarrow> mapped s = [] \<Longrightarrow> \<exists>r. test s = Some (0, s\<lparr>requests := r\<rparr>)" "mapped s = []"
  shows "\<exists>r l. run_tests ts s = Some (0, s\<lparr>requests := r, log := log s @ l\<rparr>) \<and> length l = 2 * length ts"
  using assms
proof (induction ts arbitrary: s)
  case Nil
  then show ?case by (intro exI [of _ "requests s"] exI [of _ "[]"]) simp
next
  case (Cons t ts)
  obtain msg test where t: "t = (msg, test)" by (cases t)
  obtain r where r: "test (ds_printf msg s) = Some (0, (ds_printf msg s)\<lparr>requests := r\<rparr>)"
    using Cons.prems(1) [of msg test "ds_printf msg s"] Cons.prems(2) t by (auto simp: ds_printf_def)
  let ?s = "ds_printf ''  -> SUCCEEDED'' ((ds_printf msg s)\<lparr>requests := r\<rparr>)"
  have "mapped ?s = []" using Cons.prems(2) by (simp add: ds_printf_def)
  from Cons.IH [OF _ this] Cons.prems(1) obtain r' l where
    "run_tests ts ?s = Some (0, ?s\<lparr>requests := r', log := log ?s @ l\<rparr>)" "length l = 2 * length ts" by force
  with r t show ?case
    by (intro exI [of _ r'] exI [of _ "msg # ''  -> SUCCEEDED'' # l"]) (simp add: ds_printf_def)
qed

lemma stress_passes:
  assumes "all_granted k" "mapped s = []"
  shows "\<exists>r l. iommu_iova_alloc_strategy_stress_show k s = Some (0, s\<lparr>requests := r, log := log s @ l\<rparr>)"
proof -
  have t: "\<exists>r. test s' = Some (0, s'\<lparr>requests := r\<rparr>)"
    if "(msg, test) \<in> set (va_tests k [0x1000, 0x2000, 0x4000, 0x10000])" "mapped s' = []" for msg test s'
    using that full_va_sweep_balanced [OF assms(1) that(2)]
    by (auto simp: va_tests_def rand_va_sweep_def tlb_stress_sweep_def intro: exI [of _ "requests s'"])
  obtain r l where "run_tests (va_tests k [0x1000, 0x2000, 0x4000, 0x10000]) s = Some (0, s\<lparr>requests := r, log := log s @ l\<rparr>)"
    using run_tests_pass [of "va_tests k [0x1000, 0x2000, 0x4000, 0x10000]" s] t assms(2) by blast
  then show ?thesis
    by (auto simp: iommu_iova_alloc_strategy_stress_show_def functional_dma_api_va_test_def)
qed

text \<open>
  When the first mapping is refused, the sweep keeps two nodes and the pages.
\<close>

lemma full_va_sweep_leaks:
  assumes "\<And>n. env_node k n" "\<And>n. env_pages k n" "env_dma k (requests s + 2) = DMA_MAPPING_ERROR"
  shows "\<exists>s'. full_va_sweep k sz s = Some (- ENOMEM, s') \<and> nodes s' = nodes s + 2 \<and> pages s' = pages s + 1"
  using assms by (subst full_va_sweep_def, subst sweep_map.simps)
    (simp add: new_node_def request_def dma_map_single_def sweep_max_def errno_simps Let_def)

section \<open>The debug mode\<close>

definition poke_writes :: "u64 \<Rightarrow> (u32 \<times> u32) list" where
  "poke_writes p = [(IOMMU_VA_REG, ucast p), (IOMMU_VA_DATA_REG, 0xdead),
     (IOMMU_VA_CONFIG_REG, 0x80000100), (IOMMU_VA_CONFIG_REG, 0x80000101)]"

definition peek_writes :: "u64 \<Rightarrow> (u32 \<times> u32) list" where
  "peek_writes p = [(IOMMU_VA_REG, ucast p), (IOMMU_VA_CONFIG_REG, 0x80000000), (IOMMU_VA_CONFIG_REG, 0x80000001)]"

lemma poke_returns:
  assumes "hw_ok hw"
  obtains r t' where "sunxi_iova_test_write hw p 0xdead t = Some (r, t')" "grows t (poke_writes p) t'"
proof -
  let ?t = "t @ map (\<lambda>(a, x). Wr a x) (poke_writes p)"
  obtain r t' where w: "sunxi_wait_when hw IOMMU_VA_CONFIG_REG 1 1 ?t = Some (r, t')" "polled hw IOMMU_VA_CONFIG_REG 1 r ?t t'"
    using wait_ok [OF assms] by (metis one_le_numeral)
  have "grows t (poke_writes p) ?t" by (auto simp: grows_def poke_writes_def quiet_def)
  from grows_trans [OF this polled_grows [OF w(2)]] have "grows t (poke_writes p) t'" by simp
  moreover have "sunxi_iova_test_write hw p 0xdead t = Some (r, t')"
    using w(1) by (simp add: sunxi_iova_test_write_def sunxi_iommu_write_def poke_writes_def)
  ultimately show thesis by (rule that [rotated])
qed

lemma peek_returns:
  assumes "hw_ok hw"
  obtains x t' where "sunxi_iova_test_read hw p t = Some (x, t')" "grows t (peek_writes p) t'"
proof -
  let ?t = "t @ map (\<lambda>(a, x). Wr a x) (peek_writes p)"
  obtain r t1 where w: "sunxi_wait_when hw IOMMU_VA_CONFIG_REG 1 1 ?t = Some (r, t1)" "polled hw IOMMU_VA_CONFIG_REG 1 r ?t t1"
    using wait_ok [OF assms] by (metis one_le_numeral)
  let ?x = "if r \<noteq> 0 then (0, t1) else sunxi_iommu_read hw IOMMU_VA_DATA_REG t1"
  have "grows t (peek_writes p) ?t" by (auto simp: grows_def peek_writes_def quiet_def)
  from grows_trans [OF this polled_grows [OF w(2)]] have g: "grows t (peek_writes p) t1" by simp
  have "grows t (peek_writes p) (snd ?x)"
    using g grows_trans [OF g grows_read [of t1 hw IOMMU_VA_DATA_REG]] by simp
  moreover have "sunxi_iova_test_read hw p t = Some (fst ?x, snd ?x)"
    using w(1) by (simp add: sunxi_iova_test_read_def sunxi_iommu_write_def peek_writes_def)
  ultimately show thesis by (rule that [rotated])
qed

text \<open>
  The register writes of the first \<open>n\<close> words of the buffer.
\<close>

definition word_writes :: "u64 \<Rightarrow> nat list \<Rightarrow> (u32 \<times> u32) list" where
  "word_writes iova is = concat (map (\<lambda>i. poke_writes (iova + of_nat (4096 * i)) @ peek_writes (iova + of_nat (4096 * i))) is)"

lemma iova_loop_returns:
  assumes "hw_ok hw"
  shows "\<exists>ret t' W. iova_loop hw word_at iova is t = Some (ret, t') \<and> grows t W t' \<and> ret \<in> {0, - EINVAL} \<and>
    (ret = 0 \<longrightarrow> W = word_writes iova is)"
proof (induction "is" arbitrary: t)
  case Nil
  then show ?case using grows_refl by (auto simp: word_writes_def)
next
  case (Cons i "is")
  let ?p = "iova + of_nat (4096 * i)"
  obtain r t1 where 1: "sunxi_iova_test_write hw ?p 0xdead t = Some (r, t1)" "grows t (poke_writes ?p) t1"
    by (rule poke_returns [OF assms])
  obtain x t2 where 2: "sunxi_iova_test_read hw ?p t1 = Some (x, t2)" "grows t1 (peek_writes ?p) t2"
    by (rule peek_returns [OF assms])
  obtain ret t3 W where 3: "iova_loop hw word_at iova is t2 = Some (ret, t3)" "grows t2 W t3" "ret \<in> {0, - EINVAL}"
    "ret = 0 \<longrightarrow> W = word_writes iova is" using Cons.IH by blast
  note g = grows_trans [OF 1(2) 2(2)]
  consider (poke) "word_at t1 \<noteq> 0xdead" | (peek) "word_at t1 = 0xdead" "x \<noteq> 0xffffaaaa" | (ok) "word_at t1 = 0xdead" "x = 0xffffaaaa"
    by blast
  then show ?case
  proof cases
    case poke
    then show ?thesis using 1 by (auto simp: errno_simps)
  next
    case peek
    then show ?thesis using 1(1) 2(1) g by (auto simp: errno_simps)
  next
    case ok
    then show ?thesis using 1(1) 2(1) 3 grows_trans [OF g 3(2)] by (auto simp: word_writes_def)
  qed
qed

text \<open>
  A device that stores what it is told to and reads back what the memory holds.
\<close>

definition echoes :: "hw \<Rightarrow> (trace \<Rightarrow> u32) \<Rightarrow> bool" where
  "echoes hw word_at \<longleftrightarrow> (\<forall>t. word_at t = 0xdead) \<and>
     (\<forall>p t x t'. sunxi_iova_test_read hw p t = Some (x, t') \<longrightarrow> x = 0xffffaaaa)"

lemma iova_loop_echoes:
  assumes "hw_ok hw" "echoes hw word_at"
  shows "\<exists>t'. iova_loop hw word_at iova is t = Some (0, t')"
proof (induction "is" arbitrary: t)
  case (Cons i "is")
  obtain r t1 where 1: "sunxi_iova_test_write hw (iova + of_nat (4096 * i)) 0xdead t = Some (r, t1)"
    using poke_returns [OF assms(1)] by metis
  obtain x t2 where 2: "sunxi_iova_test_read hw (iova + of_nat (4096 * i)) t1 = Some (x, t2)"
    using peek_returns [OF assms(1)] by metis
  moreover have "x = 0xffffaaaa" "word_at t1 = 0xdead" using 2 assms(2) unfolding echoes_def by blast+
  ultimately show ?case using 1 Cons by auto
qed simp

text \<open>
  C14.  The test of the debug mode returns whatever the device does.  It begins by switching the unit
  to debug mode and, on every path, ends by switching it back to prefetch mode.  It succeeds on a
  device that echoes, and when it succeeds it has written and read back the first word of each of
  the 1024 pages, in order.  When the buffer cannot be had it still frees one, at an address that
  was never assigned.
\<close>

theorem iova_test_restores:
  assumes "hw_ok hw"
  shows "\<exists>ret t' W. functional_dma_api_iova_test hw word_at alloc t =
      Some (ret, if alloc = None then Freed_garbage else Freed_buffer, t') \<and>
    grows t ([(IOMMU_VA_CONFIG_REG, 0x80000000)] @ W @ [(IOMMU_VA_CONFIG_REG, 0)]) t' \<and> ret \<in> {0, - EINVAL} \<and>
    (ret = 0 \<longrightarrow> (\<exists>iova. alloc = Some iova \<and> W = word_writes iova [0..<1024])) \<and>
    (echoes hw word_at \<and> alloc \<noteq> None \<longrightarrow> ret = 0)"
proof -
  let ?t1 = "sunxi_set_debug_mode t"
  have d: "grows t [(IOMMU_VA_CONFIG_REG, 0x80000000)] ?t1" using grows_write by (simp add: sunxi_set_debug_mode_def)
  have p: "grows u [(IOMMU_VA_CONFIG_REG, 0)] (sunxi_set_prefetch_mode u)" for u
    using grows_write by (simp add: sunxi_set_prefetch_mode_def)
  show ?thesis
  proof (cases alloc)
    case None
    then show ?thesis using grows_trans [OF d p]
      by (auto simp: functional_dma_api_iova_test_def errno_simps simp del: append_Cons intro: exI [of _ "[]"])
  next
    case (Some iova)
    obtain ret t2 W where 2: "iova_loop hw word_at iova [0..<1024] ?t1 = Some (ret, t2)" "grows ?t1 W t2" "ret \<in> {0, - EINVAL}"
      "ret = 0 \<longrightarrow> W = word_writes iova [0..<1024]" using iova_loop_returns [OF assms] by blast
    have "echoes hw word_at \<Longrightarrow> ret = 0"
      using iova_loop_echoes [OF assms, of word_at iova "[0..<1024]" ?t1] 2(1) by auto
    then show ?thesis
      using Some 2 grows_trans [OF grows_trans [OF d 2(2)] p [of t2]]
      by (intro exI [of _ ret] exI [of _ "sunxi_set_prefetch_mode t2"] exI [of _ W])
        (simp add: functional_dma_api_iova_test_def del: upt_Suc upt_rec_numeral)
  qed
qed

theorem iova_test_restores_witness:
  "\<exists>ret t' W. functional_dma_api_iova_test (ex_hw 0) (\<lambda>_. 0xdead) (Some 0x100000) [] = Some (ret, Freed_buffer, t') \<and>
    grows [] ([(IOMMU_VA_CONFIG_REG, 0x80000000)] @ W @ [(IOMMU_VA_CONFIG_REG, 0)]) t'"
  using iova_test_restores [OF ex_hw_ok, of 0 "\<lambda>_. 0xdead" "Some 0x100000" "[]"] by auto

lemma basic_test_passes:
  assumes "\<And>i. i < 1000 \<Longrightarrow> ba_kmalloc e i \<and> ba_to_phys e (ba_iova e i) = ba_virt_phys e i"
    and "\<And>i j. i < 1000 \<Longrightarrow> j < 1518 \<Longrightarrow> ba_data_after e i j = 0xa5"
  shows "functional_dma_api_basic_test e = (0, [])"
proof -
  have "set is \<subseteq> {0..<1000} \<Longrightarrow> basic_loop e is = (0, [])" for "is"
  proof (induction "is")
    case (Cons i "is")
    then have "i < 1000" "basic_loop e is = (0, [])" by auto
    with assms show ?case by (auto simp: list_ex_iff simp del: upt_Suc upt_rec_numeral)
  qed simp
  then show ?thesis unfolding functional_dma_api_basic_test_def by (metis atLeastLessThan_upt order_refl)
qed

text \<open>
  A device whose debugfs entries cannot be made is left out without an error, and removing the
  module keeps the list of devices, with what each entry holds.
\<close>

definition testable :: "bench_dev \<Rightarrow> bool" where
  "testable d \<longleftrightarrow> bd_iommus d \<and> bd_dir d \<and> list_all (bd_file d) test_files"

lemma populate_devices:
  assumes "list_all (\<lambda>d. \<not> bd_null d \<and> bd_kzalloc d) bus"
  shows "iommu_debug_populate_devices bus s = (0, s\<lparr>fs_dirs := rev (map (\<lambda>d. (bd_name d, test_files)) (filter testable bus)) @ fs_dirs s,
    debug_devices := rev (map bd_name (filter testable bus)) @ debug_devices s\<rparr>)"
  using assms
  by (induction bus arbitrary: s) (auto simp: pass_iommu_devices_def snarf_iommu_devices_def testable_def)

end
