(* ===== verification/Iommu_Sweeps.thy ===== *)
theory Iommu_Sweeps
  imports Iommu_Debug
begin

text \<open>
  The two sweeps of \<open>sunxi-iommu-debug.c\<close> that need \<open>RAND_VA_SWEEP_TEST\<close> and \<open>TLB_STRESS_SWEEP_TEST\<close>, and
  the sysfs and debugfs files of the three drivers.  \<open>dma n\<close> is the address that the n-th mapping gets;
  mappings and their release are recorded in order.  A loop that does not end is \<open>None\<close>.
\<close>

section \<open>Sweeps\<close>

datatype dma_op = Dma_map u64 u64 | Dma_unmap u64 u64

record sweep =
  sw_maps :: nat
  sw_ops :: "dma_op list"
  sw_pages :: nat

definition sweep_end :: u64 where "sweep_end = 0x100000000"

definition sw_map :: "(nat \<Rightarrow> u64) \<Rightarrow> u64 \<Rightarrow> sweep \<Rightarrow> u64 \<times> sweep" where
  "sw_map dma sz s =
     (let a = dma (sw_maps s) in (a, s\<lparr>sw_maps := sw_maps s + 1, sw_ops := sw_ops s @ [Dma_map a sz]\<rparr>))"

definition sw_unmap :: "u64 \<Rightarrow> u64 \<Rightarrow> sweep \<Rightarrow> sweep" where
  "sw_unmap a sz s = s\<lparr>sw_ops := sw_ops s @ [Dma_unmap a sz]\<rparr>"

definition sw_free :: "sweep \<Rightarrow> sweep" where
  "sw_free s = s\<lparr>sw_pages := sw_pages s - 1\<rparr>"

partial_function (option) sweep_fill :: "(nat \<Rightarrow> u64) \<Rightarrow> u64 \<Rightarrow> u64 \<Rightarrow> sweep \<Rightarrow> (int \<times> sweep) option" where
  "sweep_fill dma sz iova s =
     (if iova < sweep_end then
        let (a, s) = sw_map dma sz s
        in if a = 0 then Some (- EINVAL, s) else sweep_fill dma sz (iova + sz) s
      else Some (0, s))"

partial_function (option) sweep_drain :: "u64 \<Rightarrow> u64 \<Rightarrow> sweep \<Rightarrow> sweep option" where
  "sweep_drain sz a s = (if a < sweep_end then sweep_drain sz (a + sz) (sw_unmap a sz s) else Some s)"

text \<open>
  The loop over the Fibonacci numbers: \<open>Inl\<close> is the return when an address meets its mirror image.
\<close>

partial_function (option) sweep_scatter :: "u64 \<Rightarrow> fib_state \<Rightarrow> int \<Rightarrow> sweep \<Rightarrow> ((int + int) \<times> sweep) option" where
  "sweep_scatter sz fib unmapped s =
     (let (nxt, fib) = get_next_fib fib; iova = nxt * sz
      in if iova < sweep_end - sz then
           let other = sweep_end - sz - iova
           in if iova = other then Some (Inl (- EINVAL), s)
              else sweep_scatter sz fib (unmapped + 2) (sw_unmap other sz (sw_unmap iova sz s))
         else Some (Inr unmapped, s))"

partial_function (option) sweep_remap :: "(nat \<Rightarrow> u64) \<Rightarrow> u64 \<Rightarrow> int \<Rightarrow> sweep \<Rightarrow> (int \<times> sweep) option" where
  "sweep_remap dma sz remapped s =
     (let (a, s) = sw_map dma sz s in if a = 0 then Some (remapped, s) else sweep_remap dma sz (remapped + 1) s)"

definition rand_va_sweep_test :: "bool \<Rightarrow> (nat \<Rightarrow> u64) \<Rightarrow> u64 \<Rightarrow> sweep \<Rightarrow> (int \<times> sweep) option" where
  "rand_va_sweep_test mem_ok dma sz s =
     (if \<not> mem_ok then Some (if sz > 0x2000 then 0 else - ENOMEM, s)
      else do {
        (ret, s) \<leftarrow> sweep_fill dma sz 0 (s\<lparr>sw_pages := sw_pages s + 1\<rparr>);
        if ret \<noteq> 0 then Some (ret, sw_free s)
        else do {
          (r, s) \<leftarrow> sweep_scatter sz fib_init 0 s;
          case r of Inl e \<Rightarrow> Some (e, s)
          | Inr unmapped \<Rightarrow> do {
              (remapped, s) \<leftarrow> sweep_remap dma sz 0 s;
              s \<leftarrow> sweep_drain sz 0 s;
              Some (if unmapped \<noteq> remapped then - EINVAL else 0, sw_free s)
            }
        }
      })"

definition tlb_stress_sweep_test :: "(nat \<Rightarrow> u64) \<Rightarrow> sweep \<Rightarrow> (int \<times> sweep) option" where
  "tlb_stress_sweep_test dma s = do {
     (ret, s) \<leftarrow> sweep_fill dma 0x2000 0 (s\<lparr>sw_pages := sw_pages s + 1\<rparr>);
     if ret \<noteq> 0 then Some (ret, sw_free s)
     else do {
       let s = sw_unmap 0x3000 0x1000 (sw_unmap 0x2000 0x1000 (sw_unmap 0 0x1000 s));
       let s = snd (sw_map dma 0x2000 s);
       let s = snd (sw_map dma 0x1000 s);
       s \<leftarrow> sweep_drain 0x2000 0 s;
       Some (0, sw_free s)
     }
   }"

section \<open>Files of the drivers\<close>

text \<open>
  \<open>device_create_file\<close> adds to the files of the device; its result is not looked at.  \<open>trace\<close> is
  \<open>CONFIG_AW_IOMMU_IOVA_TRACE\<close>, \<open>dir_ok\<close> whether the directory can be made.  The three drivers have the same
  text.
\<close>

datatype sysfs_file = Attr_enable | Attr_profilling | Attr_page_debug | Dir_iommu_sunxi | File_iova

definition sunxi_iommu_sysfs_create :: "bool \<Rightarrow> bool \<Rightarrow> sysfs_file set \<Rightarrow> sysfs_file set" where
  "sunxi_iommu_sysfs_create tr dir_ok files =
     (let files = insert Attr_page_debug (insert Attr_profilling (insert Attr_enable files))
      in if \<not> tr then files
         else if \<not> dir_ok then files
         else insert File_iova (insert Dir_iommu_sunxi files))"

text \<open>
  \<open>debugfs_remove\<close> takes a directory with everything in it.
\<close>

definition sunxi_iommu_sysfs_remove :: "bool \<Rightarrow> sysfs_file set \<Rightarrow> sysfs_file set" where
  "sunxi_iommu_sysfs_remove tr files =
     (let files = files - {Attr_enable} - {Attr_profilling} - {Attr_page_debug}
      in if tr then files - {Dir_iommu_sunxi, File_iova} else files)"

definition sunxi_iommu_sysfs_create_v2 :: "bool \<Rightarrow> bool \<Rightarrow> sysfs_file set \<Rightarrow> sysfs_file set" where
  "sunxi_iommu_sysfs_create_v2 = sunxi_iommu_sysfs_create"
definition sunxi_iommu_sysfs_remove_v2 :: "bool \<Rightarrow> sysfs_file set \<Rightarrow> sysfs_file set" where
  "sunxi_iommu_sysfs_remove_v2 = sunxi_iommu_sysfs_remove"
definition sunxi_iommu_sysfs_create_v3 :: "bool \<Rightarrow> bool \<Rightarrow> sysfs_file set \<Rightarrow> sysfs_file set" where
  "sunxi_iommu_sysfs_create_v3 = sunxi_iommu_sysfs_create"
definition sunxi_iommu_sysfs_remove_v3 :: "bool \<Rightarrow> sysfs_file set \<Rightarrow> sysfs_file set" where
  "sunxi_iommu_sysfs_remove_v3 = sunxi_iommu_sysfs_remove"

lemma sysfs_balance: "sunxi_iommu_sysfs_remove tr (sunxi_iommu_sysfs_create tr ok {}) = {}"
  by (auto simp: sunxi_iommu_sysfs_remove_def sunxi_iommu_sysfs_create_def Let_def)

section \<open>Which sweeps end\<close>

lemma step_below:
  assumes "a < sweep_end" "0 < sz" "sz \<le> sweep_end"
  shows "unat (a + sz) = unat a + unat sz"
proof -
  have "unat a < 2 ^ 32" "unat sz \<le> 2 ^ 32" using assms by (simp_all add: sweep_end_def word_less_nat_alt word_le_nat_alt)
  then show ?thesis by (simp add: unat_word_ariths)
qed

text \<open>
  Filling and draining come to an end for every size up to the whole space, and touch no pages.
\<close>

lemma sweep_fill_returns:
  assumes "0 < sz" "sz \<le> sweep_end"
  shows "\<exists>ret s'. sweep_fill dma sz a s = Some (ret, s') \<and> ret \<in> {0, - EINVAL} \<and> sw_pages s' = sw_pages s"
proof (induction "unat sweep_end - unat a" arbitrary: a s rule: less_induct)
  case less
  show ?case
  proof (cases "a < sweep_end")
    case True
    obtain b s1 where m: "sw_map dma sz s = (b, s1)" "sw_pages s1 = sw_pages s" by (auto simp: sw_map_def Let_def)
    have "0 < unat sz" "unat a < unat sweep_end" using assms(1) True by (simp_all add: word_less_nat_alt)
    then have "unat sweep_end - unat (a + sz) < unat sweep_end - unat a" using step_below [OF True assms] by simp
    from less [OF this, of s1] m True show ?thesis by (subst sweep_fill.simps) auto
  next
    case False
    then show ?thesis by (subst sweep_fill.simps) simp
  qed
qed

lemma sweep_drain_returns:
  assumes "0 < sz" "sz \<le> sweep_end"
  shows "\<exists>s'. sweep_drain sz a s = Some s' \<and> sw_pages s' = sw_pages s"
proof (induction "unat sweep_end - unat a" arbitrary: a s rule: less_induct)
  case less
  show ?case
  proof (cases "a < sweep_end")
    case True
    have "0 < unat sz" "unat a < unat sweep_end" using assms(1) True by (simp_all add: word_less_nat_alt)
    then have "unat sweep_end - unat (a + sz) < unat sweep_end - unat a" using step_below [OF True assms] by simp
    from less [OF this, of "sw_unmap a sz s"] True show ?thesis by (subst sweep_drain.simps) (simp add: sw_unmap_def)
  next
    case False
    then show ?thesis by (subst sweep_drain.simps) simp
  qed
qed

text \<open>
  The stress test always ends and gives its pages back.
\<close>

lemma tlb_stress_ends:
  "\<exists>ret s'. tlb_stress_sweep_test dma s = Some (ret, s') \<and> ret \<in> {0, - EINVAL} \<and> sw_pages s' = sw_pages s"
proof -
  have sz: "(0 :: u64) < 0x2000" "0x2000 \<le> sweep_end" by (simp_all add: sweep_end_def)
  obtain ret s1 where 1: "sweep_fill dma 0x2000 0 (s\<lparr>sw_pages := sw_pages s + 1\<rparr>) = Some (ret, s1)" "ret \<in> {0, - EINVAL}"
      "sw_pages s1 = sw_pages s + 1"
    using sweep_fill_returns [OF sz, of dma 0 "s\<lparr>sw_pages := sw_pages s + 1\<rparr>"] by auto
  define s2 where "s2 = snd (sw_map dma 0x1000 (snd (sw_map dma 0x2000 (sw_unmap 0x3000 0x1000 (sw_unmap 0x2000 0x1000 (sw_unmap 0 0x1000 s1))))))"
  have "sw_pages s2 = sw_pages s1" by (simp add: s2_def sw_map_def sw_unmap_def Let_def)
  then show ?thesis
    using 1 sweep_drain_returns [OF sz, of 0 s2] by (auto simp: tlb_stress_sweep_test_def s2_def sw_free_def Let_def)
qed

text \<open>
  The other sweep waits for a mapping to answer zero, but the kernel reports a failure as
  \<open>DMA_MAPPING_ERROR\<close>: as long as no mapping gets address zero, it does not end with a result, unless
  it leaves at a meeting point, and then it keeps its pages.
\<close>

lemma remap_never_ends:
  assumes "\<And>n. dma n \<noteq> 0"
  shows "sweep_remap dma sz r s = None"
proof -
  have "\<exists>n. dma n = 0" if "sweep_remap dma sz r s = Some x" for x
    using that
    by (rule sweep_remap.raw_induct [where P = "\<lambda>dma sz r s x. \<exists>n. dma n = 0", rotated])
      (auto simp: sw_map_def Let_def split: if_splits)
  then show ?thesis using assms by (cases "sweep_remap dma sz r s") auto
qed

lemma sweep_fill_granted:
  assumes "\<And>n. dma n \<noteq> 0" "sweep_fill dma sz a s = Some (ret, s')"
  shows "ret = 0"
proof -
  have "(\<forall>n. dma n \<noteq> 0) \<longrightarrow> fst (ret, s') = 0"
    using assms(2)
    by (rule sweep_fill.raw_induct [where P = "\<lambda>dma sz a s x. (\<forall>n. dma n \<noteq> 0) \<longrightarrow> fst x = 0", rotated])
      (auto simp: sw_map_def Let_def split: if_splits)
  then show ?thesis using assms(1) by simp
qed

lemma scatter_pages:
  assumes "sweep_scatter sz fib u s = Some (r, s')"
  shows "sw_pages s' = sw_pages s \<and> (\<forall>e. r = Inl e \<longrightarrow> e = - EINVAL)"
proof -
  have "sw_pages (snd (r, s')) = sw_pages s \<and> (\<forall>e. fst (r, s') = Inl e \<longrightarrow> e = - EINVAL)"
    using assms
    by (rule sweep_scatter.raw_induct [where P = "\<lambda>sz fib u s x. sw_pages (snd x) = sw_pages s \<and> (\<forall>e. fst x = Inl e \<longrightarrow> e = - EINVAL)", rotated])
      (auto simp: sw_unmap_def Let_def split: if_splits prod.splits)
  then show ?thesis by simp
qed

lemma rand_sweep_never_passes:
  assumes "\<And>n. dma n \<noteq> 0" "0 < sz" "sz \<le> sweep_end" "rand_va_sweep_test True dma sz s = Some (ret, s')"
  shows "ret = - EINVAL \<and> sw_pages s' = sw_pages s + 1"
proof -
  obtain r s1 where f: "sweep_fill dma sz 0 (s\<lparr>sw_pages := sw_pages s + 1\<rparr>) = Some (r, s1)" "sw_pages s1 = sw_pages s + 1"
    using sweep_fill_returns [OF assms(2,3), of dma 0 "s\<lparr>sw_pages := sw_pages s + 1\<rparr>"] by auto
  have "r = 0" using sweep_fill_granted [OF assms(1) f(1)] .
  moreover have none: "sweep_remap dma sz 0 s2 = None" for s2 by (rule remap_never_ends) (rule assms(1))
  ultimately obtain c s2 where sc: "sweep_scatter sz fib_init 0 s1 = Some (c, s2)"
    using assms(4) f(1) by (auto simp: rand_va_sweep_test_def bind_eq_Some_conv)
  then obtain e where c: "c = Inl e" using assms(4) f(1) \<open>r = 0\<close> none
    by (cases c) (auto simp: rand_va_sweep_test_def)
  have "ret = e" "s' = s2" using assms(4) f(1) \<open>r = 0\<close> sc c by (simp_all add: rand_va_sweep_test_def)
  then show ?thesis using scatter_pages [OF sc] c f(2) by simp
qed

end
