(* ===== verification/Cedar_Irq.thy ===== *)
theory Cedar_Irq
  imports Mmio
begin

text \<open>
  The VE driver's interrupt handler \<open>VideoEngineInterupt\<close> and the ioctls that wait for an interrupt.
  Registers are offsets from \<open>regs_ve\<close>; \<open>sun3iw1\<close> selects the variant compiled for
  \<open>CONFIG_ARCH_SUN3IW1P1\<close>.  \<open>wake_ups\<close> counts the calls of \<open>wake_up\<close> on the wait queue.
\<close>

record irq_state =
  de_irq_flag :: u32
  de_irq_value :: u32
  en_irq_flag :: u32
  en_irq_value :: u32
  jpeg_irq_flag :: u32
  jpeg_irq_value :: u32
  wake_ups :: nat

definition readl :: "hw \<Rightarrow> u32 \<Rightarrow> trace \<Rightarrow> u32 \<times> trace" where
  "readl hw off t = (reg hw t off, t @ [Rd off])"

definition writel :: "u32 \<Rightarrow> u32 \<Rightarrow> trace \<Rightarrow> trace" where
  "writel val off t = t @ [Wr off val]"

text \<open>
  An engine is described by its status register, its control register, the mask of its status bits
  and the mask of its interrupt enable bits.
\<close>

record engine =
  ve_int_status_reg :: u32
  ve_int_ctrl_reg :: u32
  status_mask :: u32
  enable_mask :: u32

definition encoder_of :: "bool \<Rightarrow> u32 \<Rightarrow> engine option" where
  "encoder_of sun3iw1 modual_sel =
     (if sun3iw1 then
        if modual_sel AND 0xa \<noteq> 0 then
          if modual_sel AND 0xb = 0xb
          then Some \<lparr>ve_int_status_reg = 0xb00 + 0x1c, ve_int_ctrl_reg = 0xb00 + 0x14, status_mask = 0xf, enable_mask = 0x7\<rparr>
          else Some \<lparr>ve_int_status_reg = 0xa00 + 0x10, ve_int_ctrl_reg = 0xa00 + 0x08, status_mask = 0x1, enable_mask = 0x1\<rparr>
        else None
      else
        if modual_sel AND 0xc0 \<noteq> 0 then
          if modual_sel AND 0x80 \<noteq> 0
          then Some \<lparr>ve_int_status_reg = 0xb00 + 0x1c, ve_int_ctrl_reg = 0xb00 + 0x14, status_mask = 0xf, enable_mask = 0x7\<rparr>
          else Some \<lparr>ve_int_status_reg = 0xa00 + 0x10, ve_int_ctrl_reg = 0xa00 + 0x08, status_mask = 0x1, enable_mask = 0x1\<rparr>
        else None)"

definition jpeg_of :: "u32 \<Rightarrow> engine option" where
  "jpeg_of modual_sel =
     (if modual_sel AND 0x20 \<noteq> 0
      then Some \<lparr>ve_int_status_reg = 0xe00 + 0x1c, ve_int_ctrl_reg = 0xe00 + 0x14, status_mask = 0x7, enable_mask = 0x38\<rparr>
      else None)"

definition decoder_of :: "u32 \<Rightarrow> engine option" where
  "decoder_of modual_sel =
     (let m = modual_sel AND 0xf in
      if m \<le> 6 then Some
        (if m = 0 then \<lparr>ve_int_status_reg = 0x100 + 0x1c, ve_int_ctrl_reg = 0x100 + 0x14, status_mask = 0xf, enable_mask = 0x7c\<rparr>
         else if m = 1 then \<lparr>ve_int_status_reg = 0x200 + 0x28, ve_int_ctrl_reg = 0x200 + 0x20, status_mask = 0xf, enable_mask = 0xf\<rparr>
         else if m = 2 then \<lparr>ve_int_status_reg = 0x300 + 0x2c, ve_int_ctrl_reg = 0x300 + 0x24, status_mask = 0xf, enable_mask = 0xf\<rparr>
         else if m = 3 then \<lparr>ve_int_status_reg = 0x400 + 0x1c, ve_int_ctrl_reg = 0x400 + 0x14, status_mask = 0xf, enable_mask = 0xf\<rparr>
         else if m = 4 then \<lparr>ve_int_status_reg = 0x500 + 0x38, ve_int_ctrl_reg = 0x500 + 0x30, status_mask = 0xf, enable_mask = 0xf\<rparr>
         else if m = 6 then \<lparr>ve_int_status_reg = 0xf00 + 0x08, ve_int_ctrl_reg = 0xf00 + 0x04, status_mask = 0xf, enable_mask = 0x1\<rparr>
         else \<lparr>ve_int_status_reg = 0x100 + 0x1c, ve_int_ctrl_reg = 0x100 + 0x14, status_mask = 0xf, enable_mask = 0xf\<rparr>)
      else None)"

text \<open>
  The three blocks of the handler have the same shape: read the enable bits and the status, and when
  both are set, clear the enable bits and record the interrupt.
\<close>

definition engine_irq :: "hw \<Rightarrow> engine option \<Rightarrow> (irq_state \<Rightarrow> irq_state) \<Rightarrow> trace \<times> irq_state \<Rightarrow> trace \<times> irq_state" where
  "engine_irq hw eng note_irq = (\<lambda>(t, s).
     case eng of
       None \<Rightarrow> (t, s)
     | Some e \<Rightarrow>
         let (c, t) = readl hw (ve_int_ctrl_reg e) t;
             interrupt_enable = c AND enable_mask e;
             (status, t) = readl hw (ve_int_status_reg e) t
         in if status AND status_mask e \<noteq> 0 \<and> interrupt_enable \<noteq> 0 then
              let (val, t) = readl hw (ve_int_ctrl_reg e) t;
                  t = writel (val AND NOT (enable_mask e)) (ve_int_ctrl_reg e) t
              in (t, note_irq s)
            else (t, s))"

definition note_en :: "irq_state \<Rightarrow> irq_state" where
  "note_en s = s\<lparr>en_irq_value := 1, en_irq_flag := 1, wake_ups := Suc (wake_ups s)\<rparr>"

definition note_jpeg :: "irq_state \<Rightarrow> irq_state" where
  "note_jpeg s = s\<lparr>jpeg_irq_value := 1, jpeg_irq_flag := 1, wake_ups := Suc (wake_ups s)\<rparr>"

definition note_de :: "irq_state \<Rightarrow> irq_state" where
  "note_de s = s\<lparr>de_irq_value := 1, de_irq_flag := 1, wake_ups := Suc (wake_ups s)\<rparr>"

definition VideoEngineInterupt :: "bool \<Rightarrow> hw \<Rightarrow> trace \<times> irq_state \<Rightarrow> trace \<times> irq_state" where
  "VideoEngineInterupt sun3iw1 hw = (\<lambda>(t, s).
     let (modual_sel, t) = readl hw 0x0 t
     in engine_irq hw (decoder_of modual_sel) note_de
          (engine_irq hw (jpeg_of modual_sel) note_jpeg
            (engine_irq hw (encoder_of sun3iw1 modual_sel) note_en (t, s))))"

section \<open>Waiting\<close>

text \<open>
  The handler takes no lock, so its stores fall between any two accesses of a waiting call.  \<open>at k\<close> is what
  the other processors do to the state at point \<open>k\<close> of the call: after the value is cleared (0), after
  the test under the lock (1), while the caller sleeps (2), after \<open>wait_event_timeout\<close> (3) and after the
  flag is cleared (4).  \<open>wait_event_timeout\<close> returns at once when the flag is set; otherwise the caller
  sleeps until the flag is set or the time is up.
\<close>

definition ioctl_wait_ve_de :: "(nat \<Rightarrow> irq_state \<Rightarrow> irq_state) \<Rightarrow> irq_state \<Rightarrow> u32 \<times> irq_state" where
  "ioctl_wait_ve_de at s =
     (let s = s\<lparr>de_irq_value := 0\<rparr>;
          s = at 0 s;
          s = (if de_irq_flag s \<noteq> 0 then s\<lparr>de_irq_value := 1\<rparr> else s);
          s = at 1 s;
          s = (if de_irq_flag s \<noteq> 0 then s else at 2 s);
          s = at 3 s;
          s = s\<lparr>de_irq_flag := 0\<rparr>;
          s = at 4 s
      in (de_irq_value s, s))"

definition ioctl_wait_ve_en :: "(nat \<Rightarrow> irq_state \<Rightarrow> irq_state) \<Rightarrow> irq_state \<Rightarrow> u32 \<times> irq_state" where
  "ioctl_wait_ve_en at s =
     (let s = s\<lparr>en_irq_value := 0\<rparr>;
          s = at 0 s;
          s = (if en_irq_flag s \<noteq> 0 then s\<lparr>en_irq_value := 1\<rparr> else s);
          s = at 1 s;
          s = (if en_irq_flag s \<noteq> 0 then s else at 2 s);
          s = at 3 s;
          s = s\<lparr>en_irq_flag := 0\<rparr>;
          s = at 4 s
      in (en_irq_value s, s))"

definition ioctl_wait_jpeg_dec :: "(nat \<Rightarrow> irq_state \<Rightarrow> irq_state) \<Rightarrow> irq_state \<Rightarrow> u32 \<times> irq_state" where
  "ioctl_wait_jpeg_dec at s =
     (let s = s\<lparr>jpeg_irq_value := 0\<rparr>;
          s = at 0 s;
          s = (if jpeg_irq_flag s \<noteq> 0 then s\<lparr>jpeg_irq_value := 1\<rparr> else s);
          s = at 1 s;
          s = (if jpeg_irq_flag s \<noteq> 0 then s else at 2 s);
          s = at 3 s;
          s = s\<lparr>jpeg_irq_flag := 0\<rparr>;
          s = at 4 s
      in (jpeg_irq_value s, s))"

text \<open>
  What can happen to the record while a call waits: the two stores of each block of the handler, one
  after the other, and what \<open>cedardev_release\<close> and \<open>cedardev_open\<close> of another process do to the flags
  when the engine is not requested.  Two calls that wait for the same engine at the same time are not
  considered.
\<close>

datatype ve_store = De_value | De_flag | En_value | En_flag | Jpeg_value | Jpeg_flag | Release_flags | Open_flags

fun put_store :: "ve_store \<Rightarrow> irq_state \<Rightarrow> irq_state" where
  "put_store De_value s = s\<lparr>de_irq_value := 1\<rparr>"
| "put_store De_flag s = s\<lparr>de_irq_flag := 1, wake_ups := Suc (wake_ups s)\<rparr>"
| "put_store En_value s = s\<lparr>en_irq_value := 1\<rparr>"
| "put_store En_flag s = s\<lparr>en_irq_flag := 1, wake_ups := Suc (wake_ups s)\<rparr>"
| "put_store Jpeg_value s = s\<lparr>jpeg_irq_value := 1\<rparr>"
| "put_store Jpeg_flag s = s\<lparr>jpeg_irq_flag := 1, wake_ups := Suc (wake_ups s)\<rparr>"
| "put_store Release_flags s = s\<lparr>de_irq_flag := 1, en_irq_flag := 1, jpeg_irq_flag := 1\<rparr>"
| "put_store Open_flags s = s\<lparr>de_irq_flag := 0, en_irq_flag := 0, jpeg_irq_flag := 0\<rparr>"

lemma handler_stores:
  "fold put_store [De_value, De_flag] s = note_de s"
  "fold put_store [En_value, En_flag] s = note_en s"
  "fold put_store [Jpeg_value, Jpeg_flag] s = note_jpeg s"
  by (simp_all add: note_de_def note_en_def note_jpeg_def)

definition flag_after :: "ve_store \<Rightarrow> ve_store list \<Rightarrow> bool \<Rightarrow> bool" where
  "flag_after F es b = fold (\<lambda>e b. if e = F \<or> e = Release_flags then True else if e = Open_flags then False else b) es b"

text \<open>
  Whether the test under the lock finds the flag set, and the stores that happen during the call; \<open>b\<close> says
  whether the flag was set at the call.  The caller sleeps only if the flag is not set.
\<close>

definition found :: "ve_store \<Rightarrow> (nat \<Rightarrow> ve_store list) \<Rightarrow> bool \<Rightarrow> bool" where
  "found F evs b \<longleftrightarrow> flag_after F (evs 0) b"

definition seen :: "ve_store \<Rightarrow> (nat \<Rightarrow> ve_store list) \<Rightarrow> bool \<Rightarrow> ve_store list" where
  "seen F evs b = evs 0 @ evs 1 @ (if flag_after F (evs 1) (found F evs b) then [] else evs 2) @ evs 3 @ evs 4"

section \<open>The interface of a waitable engine\<close>

text \<open>
  What the three kinds of interrupt have in common, as a contract: two fields of the state that can be
  read and written independently of each other and of the rest, the stores that reach them, and a call
  that follows the protocol above.  When a wait reports an interrupt, what it leaves in the flag and
  what it does to the rest is proved once.
\<close>

locale waitable =
  fixes flag :: "'s \<Rightarrow> u32" and set_flag :: "u32 \<Rightarrow> 's \<Rightarrow> 's"
    and val :: "'s \<Rightarrow> u32" and set_val :: "u32 \<Rightarrow> 's \<Rightarrow> 's"
    and rest :: "'s \<Rightarrow> 'o"
    and put :: "ve_store \<Rightarrow> 's \<Rightarrow> 's"
    and F V :: ve_store
    and wait :: "(nat \<Rightarrow> 's \<Rightarrow> 's) \<Rightarrow> 's \<Rightarrow> u32 \<times> 's"
  assumes flag_lens: "flag (set_flag x s) = x" "val (set_flag x s) = val s" "rest (set_flag x s) = rest s"
    and val_lens: "val (set_val x s) = x" "flag (set_val x s) = flag s" "rest (set_val x s) = rest s"
    and put_flag: "flag (put e s) = (if e = F \<or> e = Release_flags then 1 else if e = Open_flags then 0 else flag s)"
    and put_val: "val (put e s) = (if e = V then 1 else val s)"
    and put_rest: "rest s = rest t \<Longrightarrow> rest (put e s) = rest (put e t)"
    and wait_eq: "wait at s =
      (let s = at 0 (set_val 0 s);
           s = at 1 (if flag s \<noteq> 0 then set_val 1 s else s);
           s = at 3 (if flag s \<noteq> 0 then s else at 2 s);
           s = at 4 (set_flag 0 s)
       in (val s, s))"
begin

lemma flag_stores: "flag (fold put es s) \<noteq> 0 \<longleftrightarrow> flag_after F es (flag s \<noteq> 0)"
  by (induction es arbitrary: s) (simp_all add: flag_after_def put_flag)

lemma val_stores: "val (fold put es s) = (if V \<in> set es then 1 else val s)"
  by (induction es arbitrary: s) (simp_all add: put_val)

lemma rest_stores: "rest s = rest t \<Longrightarrow> rest (fold put es s) = rest (fold put es t)"
proof (induction es arbitrary: s t)
  case (Cons e es)
  show ?case using Cons.IH [OF put_rest [OF Cons.prems]] by simp
qed simp

lemma wait_exact:
  fixes s :: 's and evs :: "nat \<Rightarrow> ve_store list"
  defines "b \<equiv> flag s \<noteq> 0"
  shows "\<exists>s'. wait (\<lambda>k. fold put (evs k)) s = (if found F evs b \<or> V \<in> set (seen F evs b) then 1 else 0, s') \<and>
    (flag s' \<noteq> 0 \<longleftrightarrow> flag_after F (evs 4) False) \<and> rest s' = rest (fold put (seen F evs b) s)"
proof -
  let ?s0 = "fold put (evs 0) (set_val 0 s)"
  let ?s1 = "fold put (evs 1) (if flag ?s0 \<noteq> 0 then set_val 1 ?s0 else ?s0)"
  let ?es = "if flag_after F (evs 1) (found F evs b) then [] else evs 2"
  let ?s2 = "fold put (evs 3) (fold put ?es ?s1)"
  let ?s3 = "fold put (evs 4) (set_flag 0 ?s2)"
  have f0: "flag ?s0 \<noteq> 0 \<longleftrightarrow> found F evs b"
    by (simp add: flag_stores val_lens found_def b_def)
  have f1: "flag ?s1 \<noteq> 0 \<longleftrightarrow> flag_after F (evs 1) (found F evs b)"
    using f0 by (cases "found F evs b") (simp_all add: flag_stores val_lens)
  have w: "wait (\<lambda>k. fold put (evs k)) s = (val ?s3, ?s3)"
    using f1 by (simp add: wait_eq Let_def)
  have "val ?s3 = (if V \<in> set (evs 1 @ ?es @ evs 3 @ evs 4) then 1 else if flag ?s0 \<noteq> 0 then 1 else val ?s0)"
    by (auto simp: val_stores flag_lens val_lens)
  then have v: "val ?s3 = (if found F evs b \<or> V \<in> set (seen F evs b) then 1 else 0)"
    using f0 by (auto simp: val_stores val_lens seen_def)
  have "flag ?s3 \<noteq> 0 \<longleftrightarrow> flag_after F (evs 4) False"
    by (simp add: flag_stores flag_lens)
  moreover have "rest ?s3 = rest (fold put (seen F evs b) s)"
  proof -
    have "rest ?s0 = rest (fold put (evs 0) s)" by (rule rest_stores) (rule val_lens)
    then have "rest (if flag ?s0 \<noteq> 0 then set_val 1 ?s0 else ?s0) = rest (fold put (evs 0) s)" by (simp add: val_lens)
    then have "rest ?s2 = rest (fold put (evs 3) (fold put ?es (fold put (evs 1) (fold put (evs 0) s))))"
      by (intro rest_stores)
    then have "rest (set_flag 0 ?s2) = rest (fold put (evs 3) (fold put ?es (fold put (evs 1) (fold put (evs 0) s))))"
      by (simp only: flag_lens)
    then have "rest ?s3 = rest (fold put (evs 4) (fold put (evs 3) (fold put ?es (fold put (evs 1) (fold put (evs 0) s)))))"
      by (rule rest_stores)
    then show ?thesis by (simp only: seen_def fold_append comp_apply)
  qed
  ultimately show ?thesis using w v by (intro exI [of _ ?s3]) (simp only: simp_thms)
qed

end

lemma put_store_sel:
  "de_irq_flag (put_store e s) = (if e = De_flag \<or> e = Release_flags then 1 else if e = Open_flags then 0 else de_irq_flag s)"
  "en_irq_flag (put_store e s) = (if e = En_flag \<or> e = Release_flags then 1 else if e = Open_flags then 0 else en_irq_flag s)"
  "jpeg_irq_flag (put_store e s) = (if e = Jpeg_flag \<or> e = Release_flags then 1 else if e = Open_flags then 0 else jpeg_irq_flag s)"
  "de_irq_value (put_store e s) = (if e = De_value then 1 else de_irq_value s)"
  "en_irq_value (put_store e s) = (if e = En_value then 1 else en_irq_value s)"
  "jpeg_irq_value (put_store e s) = (if e = Jpeg_value then 1 else jpeg_irq_value s)"
  "wake_ups (put_store e s) = (if e \<in> {De_flag, En_flag, Jpeg_flag} then Suc (wake_ups s) else wake_ups s)"
  by (cases e; simp)+

interpretation de: waitable de_irq_flag "\<lambda>x s. s\<lparr>de_irq_flag := x\<rparr>" de_irq_value "\<lambda>x s. s\<lparr>de_irq_value := x\<rparr>"
  "\<lambda>s. (en_irq_flag s, en_irq_value s, jpeg_irq_flag s, jpeg_irq_value s, wake_ups s)"
  put_store De_flag De_value ioctl_wait_ve_de
  by unfold_locales (simp_all only: ioctl_wait_ve_de_def Let_def, simp_all add: put_store_sel)

interpretation en: waitable en_irq_flag "\<lambda>x s. s\<lparr>en_irq_flag := x\<rparr>" en_irq_value "\<lambda>x s. s\<lparr>en_irq_value := x\<rparr>"
  "\<lambda>s. (de_irq_flag s, de_irq_value s, jpeg_irq_flag s, jpeg_irq_value s, wake_ups s)"
  put_store En_flag En_value ioctl_wait_ve_en
  by unfold_locales (simp_all only: ioctl_wait_ve_en_def Let_def, simp_all add: put_store_sel)

interpretation jpeg: waitable jpeg_irq_flag "\<lambda>x s. s\<lparr>jpeg_irq_flag := x\<rparr>" jpeg_irq_value "\<lambda>x s. s\<lparr>jpeg_irq_value := x\<rparr>"
  "\<lambda>s. (de_irq_flag s, de_irq_value s, en_irq_flag s, en_irq_value s, wake_ups s)"
  put_store Jpeg_flag Jpeg_value ioctl_wait_jpeg_dec
  by unfold_locales (simp_all only: ioctl_wait_jpeg_dec_def Let_def, simp_all add: put_store_sel)

section \<open>What the handler does to the registers\<close>

text \<open>
  The registers the handler reads are plain storage as far as the driver is concerned: they keep the
  value last written.
\<close>

definition reg_after :: "(u32 \<Rightarrow> u32) \<Rightarrow> trace \<Rightarrow> u32 \<Rightarrow> u32" where
  "reg_after base t off = fold (\<lambda>e v. case e of Wr p x \<Rightarrow> if p = off then x else v | _ \<Rightarrow> v) t (base off)"

definition keeps_values :: "hw \<Rightarrow> (u32 \<Rightarrow> u32) \<Rightarrow> bool" where
  "keeps_values hw base \<longleftrightarrow> (\<forall>t off. reg hw t off = reg_after base t off)"

definition pending :: "(u32 \<Rightarrow> u32) \<Rightarrow> engine option \<Rightarrow> bool" where
  "pending R eng \<longleftrightarrow> (case eng of None \<Rightarrow> False
     | Some e \<Rightarrow> R (ve_int_status_reg e) AND status_mask e \<noteq> 0 \<and> R (ve_int_ctrl_reg e) AND enable_mask e \<noteq> 0)"

definition mask_off :: "engine option \<Rightarrow> (u32 \<Rightarrow> u32) \<Rightarrow> u32 \<Rightarrow> u32" where
  "mask_off eng R =
     (if pending R eng then R(ve_int_ctrl_reg (the eng) := R (ve_int_ctrl_reg (the eng)) AND NOT (enable_mask (the eng))) else R)"

lemma reg_after_simps [simp]:
  "reg_after base [] = base"
  "reg_after base (Rd p # t) = reg_after base t"
  "reg_after base (Wr p x # t) = reg_after (base(p := x)) t"
  "reg_after base (t @ u) = reg_after (reg_after base t) u"
  by (auto simp: reg_after_def fun_eq_iff)

lemma engine_irq_effect:
  assumes "keeps_values hw base"
  obtains t' where
    "engine_irq hw eng note_irq (t, s) = (t', if pending (reg_after base t) eng then note_irq s else s)"
    "reg_after base t' = mask_off eng (reg_after base t)"
proof -
  have "\<exists>t'. engine_irq hw eng note_irq (t, s) = (t', if pending (reg_after base t) eng then note_irq s else s) \<and>
      reg_after base t' = mask_off eng (reg_after base t)"
    using assms by (cases eng) (auto simp: engine_irq_def readl_def writel_def keeps_values_def pending_def mask_off_def Let_def)
  then show thesis using that by blast
qed

definition apart :: "engine option \<Rightarrow> engine option \<Rightarrow> bool" where
  "apart a b \<longleftrightarrow> (\<forall>e f. a = Some e \<longrightarrow> b = Some f \<longrightarrow>
     ve_int_ctrl_reg e \<noteq> ve_int_ctrl_reg f \<and> ve_int_ctrl_reg e \<noteq> ve_int_status_reg f \<and> ve_int_ctrl_reg e \<noteq> ve_int_status_reg e \<and>
     ve_int_ctrl_reg f \<noteq> ve_int_status_reg e \<and> ve_int_ctrl_reg f \<noteq> ve_int_status_reg f)"

lemma engines_apart:
  "apart (encoder_of b m) (jpeg_of m)" "apart (encoder_of b m) (decoder_of m)" "apart (jpeg_of m) (decoder_of m)"
  by (auto simp: apart_def encoder_of_def jpeg_of_def decoder_of_def Let_def split: if_splits)

lemma pending_mask_other: "apart a b \<Longrightarrow> pending (mask_off a R) b \<longleftrightarrow> pending R b"
  by (cases a; cases b) (auto simp: apart_def pending_def mask_off_def)

lemma pending_mask_other': "apart a b \<Longrightarrow> pending (mask_off b R) a \<longleftrightarrow> pending R a"
  by (cases a; cases b) (auto simp: apart_def pending_def mask_off_def)

lemma pending_mask_self: "\<not> pending (mask_off a R) a"
proof (cases a)
  case (Some e)
  have "(x AND NOT (enable_mask e)) AND enable_mask e = 0" for x
    by (rule bit_eqI) (auto simp: bit_simps)
  then show ?thesis using Some by (auto simp: pending_def mask_off_def)
qed (simp add: pending_def)

text \<open>
  C24.  The handler records and wakes up for exactly the engines that are selected, have a status bit
  set and an interrupt enabled: encoder, JPEG decoder and video decoder independently.  It clears
  the enable bits of exactly these engines and writes nothing else; afterwards no selected engine
  requests an interrupt any more, so the handler is not entered again for the same event.
\<close>

theorem isr_quiesces:
  fixes hw :: hw and base :: "u32 \<Rightarrow> u32" and t :: trace and sun3iw1 :: bool
  assumes "keeps_values hw base"
  defines "R \<equiv> reg_after base t"
  defines "en \<equiv> encoder_of sun3iw1 (R 0)" and "jp \<equiv> jpeg_of (R 0)" and "de \<equiv> decoder_of (R 0)"
  shows "\<exists>t' s'. VideoEngineInterupt sun3iw1 hw (t, s) = (t', s') \<and>
    s' = (if pending R de then note_de else id) ((if pending R jp then note_jpeg else id) ((if pending R en then note_en else id) s)) \<and>
    reg_after base t' = mask_off de (mask_off jp (mask_off en R)) \<and>
    (\<forall>e \<in> {en, jp, de}. \<not> pending (reg_after base t') e)"
proof -
  have m: "readl hw 0 t = (R 0, t @ [Rd 0])" using assms(1) by (simp add: readl_def keeps_values_def R_def)
  have R0: "reg_after base (t @ [Rd 0]) = R" by (simp add: R_def)
  have ap: "apart en jp" "apart en de" "apart jp de" unfolding en_def jp_def de_def by (rule engines_apart)+
  let ?s1 = "if pending R en then note_en s else s" and ?R1 = "mask_off en R"
  let ?s2 = "if pending R jp then note_jpeg ?s1 else ?s1" and ?R2 = "mask_off jp (mask_off en R)"
  obtain t1 where t1: "engine_irq hw en note_en (t @ [Rd 0], s) = (t1, ?s1)" "reg_after base t1 = ?R1"
    by (rule engine_irq_effect [OF assms(1), of en note_en "t @ [Rd 0]" s]) (simp only: R0)
  obtain t2 where t2: "engine_irq hw jp note_jpeg (t1, ?s1) = (t2, if pending ?R1 jp then note_jpeg ?s1 else ?s1)"
    "reg_after base t2 = ?R2"
    by (rule engine_irq_effect [OF assms(1), of jp note_jpeg t1 ?s1]) (simp only: t1(2))
  obtain t3 where t3: "engine_irq hw de note_de (t2, ?s2) = (t3, if pending ?R2 de then note_de ?s2 else ?s2)"
    "reg_after base t3 = mask_off de ?R2"
    by (rule engine_irq_effect [OF assms(1), of de note_de t2 ?s2]) (simp only: t2(2))
  have pend: "pending (mask_off en R) jp \<longleftrightarrow> pending R jp" "pending ?R2 de \<longleftrightarrow> pending R de"
    using ap by (simp_all add: pending_mask_other)
  have "VideoEngineInterupt sun3iw1 hw (t, s) = (t3, if pending R de then note_de ?s2 else ?s2)"
    using m t1(1) t2(1) t3(1) pend by (simp add: VideoEngineInterupt_def en_def jp_def de_def)
  moreover have "\<not> pending (mask_off de ?R2) e" if "e \<in> {en, jp, de}" for e
    using that ap by (auto simp: pending_mask_self pending_mask_other')
  ultimately show ?thesis using t3(2) by auto
qed

definition ex_ve_regs :: "u32 \<Rightarrow> u32" where
  "ex_ve_regs off = (if off = 0 then 0x1 else if off = 0x228 then 0x1 else if off = 0x220 then 0xf else 0)"

definition ex_ve_hw :: hw where
  "ex_ve_hw = \<lparr>reg = reg_after ex_ve_regs, clock = length, msecs_to_jiffies = id\<rparr>"

definition ex_irq :: irq_state where
  "ex_irq = \<lparr>de_irq_flag = 0, de_irq_value = 0, en_irq_flag = 0, en_irq_value = 0, jpeg_irq_flag = 0, jpeg_irq_value = 0, wake_ups = 0\<rparr>"

theorem isr_quiesces_witness:
  "snd (VideoEngineInterupt False ex_ve_hw ([], ex_irq)) = ex_irq\<lparr>de_irq_flag := 1, de_irq_value := 1, wake_ups := 1\<rparr>"
proof -
  have "keeps_values ex_ve_hw ex_ve_regs" by (simp add: keeps_values_def ex_ve_hw_def)
  from isr_quiesces [OF this, of False "[]" ex_irq] show ?thesis
    by (auto simp: reg_after_def ex_ve_regs_def encoder_of_def jpeg_of_def decoder_of_def pending_def note_de_def ex_irq_def)
qed

text \<open>
  C25.  What a wait for the decoder reports, for every placement of the handler's two stores (and of the
  stores to the flags when another process opens or closes the device) in the call: it returns 1
  exactly when the test under the lock finds the flag set or the handler stores the value at any point
  of the call after the value is cleared, the store between clearing the flag and returning included.
  The flag is set when the call returns exactly when it is set after the call has cleared it: such an
  interrupt is reported by this call and by the next one.  The call leaves the records of the encoder
  and the JPEG decoder as the stores of the others leave them.
\<close>

theorem wait_de_exact:
  fixes evs :: "nat \<Rightarrow> ve_store list" and s :: irq_state
  shows "let b = (de_irq_flag s \<noteq> 0);
      es = seen De_flag evs b;
      (r, s') = ioctl_wait_ve_de (\<lambda>k. fold put_store (evs k)) s;
      others = (\<lambda>s. (en_irq_flag s, en_irq_value s, jpeg_irq_flag s, jpeg_irq_value s, wake_ups s))
    in r = (if found De_flag evs b \<or> De_value \<in> set es then 1 else 0) \<and>
      (de_irq_flag s' \<noteq> 0 \<longleftrightarrow> flag_after De_flag (evs 4) False) \<and>
      fst (ioctl_wait_ve_de (\<lambda>_. fold put_store []) s') = (if flag_after De_flag (evs 4) False then 1 else 0) \<and>
      others s' = others (fold put_store es s)"
proof -
  obtain s' where s': "ioctl_wait_ve_de (\<lambda>k. fold put_store (evs k)) s =
      (if found De_flag evs (de_irq_flag s \<noteq> 0) \<or> De_value \<in> set (seen De_flag evs (de_irq_flag s \<noteq> 0)) then 1 else 0, s')"
    using de.wait_exact [of evs s] by blast
  obtain s'' where "ioctl_wait_ve_de (\<lambda>_. fold put_store []) s' = (if de_irq_flag s' \<noteq> 0 then 1 else 0, s'')"
    using de.wait_exact [of "\<lambda>_. []" s'] by (auto simp: found_def seen_def flag_after_def)
  with s' de.wait_exact [of evs s] show ?thesis by (auto simp: Let_def)
qed

definition stores_at :: "nat \<Rightarrow> ve_store list \<Rightarrow> nat \<Rightarrow> ve_store list" where
  "stores_at k es i = (if i = k then es else [])"

definition two_waits :: "(nat \<Rightarrow> ve_store list) \<Rightarrow> irq_state \<Rightarrow> u32 \<times> u32" where
  "two_waits evs s = (let (r, s) = ioctl_wait_ve_de (\<lambda>k. fold put_store (evs k)) s in (r, fst (ioctl_wait_ve_de (\<lambda>_. fold put_store []) s)))"

text \<open>
  Four calls, each followed by one that nothing disturbs: an interrupt during the sleep is reported once;
  one that arrives after the flag is cleared is reported by both calls; one whose value is stored before
  the call clears it and whose flag is stored after the test is lost; and a process that closes the
  device makes the call return 1 without an interrupt.
\<close>

theorem wait_de_exact_witness:
  "two_waits (stores_at 2 [De_value, De_flag]) ex_irq = (1, 0) \<and>
   two_waits (stores_at 4 [De_value, De_flag]) ex_irq = (1, 1) \<and>
   two_waits (stores_at 1 [De_flag]) (put_store De_value ex_irq) = (0, 0) \<and>
   two_waits (stores_at 0 [Release_flags]) ex_irq = (1, 0)"
proof -
  have "two_waits evs s = (if found De_flag evs (de_irq_flag s \<noteq> 0) \<or> De_value \<in> set (seen De_flag evs (de_irq_flag s \<noteq> 0)) then 1 else 0,
      if flag_after De_flag (evs 4) False then 1 else 0)" for evs s
    using wait_de_exact [of s evs] by (simp add: two_waits_def Let_def split_beta)
  then show ?thesis by (simp add: found_def seen_def flag_after_def stores_at_def ex_irq_def)
qed

end
