(* ===== verification/Cedar_Clk.thy ===== *)
theory Cedar_Clk
  imports Cedar_Irq
begin

text \<open>
  Clock and reset handling of the VE driver: \<open>enable_cedar_hw_clk\<close>, \<open>disable_cedar_hw_clk\<close> and the
  ioctls that request and release the engine.  The clock framework counts enables: \<open>clk_cnt\<close> is that counter per clock, and \<open>ok c\<close> says whether
  \<open>clk_prepare_enable\<close> succeeds.  \<open>iw12\<close> selects the variant for \<open>CONFIG_ARCH_SUN50IW12P1\<close>.  The
  spin lock \<open>cedar_devp->lock\<close> is not recursive: taking it while it is held never returns, which is
  the value \<open>None\<close>.  The reference count is a C \<open>int\<close> and wraps around (\<open>cint\<close>).
\<close>

datatype ve_clock = bus_clk | mbus_clk | bus_ve_clk | bus_ve3_clk | mbus_ve3_clk | ve_clk

datatype ve_reset = reset_ve | reset_main

record clk_state =
  clk_status :: int
  bInitEndFlag :: int
  ref_count :: int
  last_min_freq :: int
  clk_cnt :: "ve_clock \<Rightarrow> int"
  deasserted :: "ve_reset \<Rightarrow> bool"
  pm_cnt :: int
  spin_held :: bool
  sem :: nat

definition spin_lock :: "clk_state \<Rightarrow> clk_state option" where
  "spin_lock s = (if spin_held s then None else Some (s\<lparr>spin_held := True\<rparr>))"

definition spin_unlock :: "clk_state \<Rightarrow> clk_state" where
  "spin_unlock s = s\<lparr>spin_held := False\<rparr>"

definition deassert_resets :: "bool \<Rightarrow> clk_state \<Rightarrow> clk_state" where
  "deassert_resets iw12 s =
     (let s = (if iw12 then s\<lparr>deasserted := (deasserted s)(reset_ve := True)\<rparr> else s)
      in s\<lparr>deasserted := (deasserted s)(reset_main := True)\<rparr>)"

definition assert_resets :: "bool \<Rightarrow> clk_state \<Rightarrow> clk_state" where
  "assert_resets iw12 s =
     (let s = s\<lparr>deasserted := (deasserted s)(reset_main := False)\<rparr>
      in if iw12 then s\<lparr>deasserted := (deasserted s)(reset_ve := False)\<rparr> else s)"

definition gates :: "bool \<Rightarrow> ve_clock list" where
  "gates iw12 = (if iw12 then [bus_ve_clk, bus_ve3_clk, mbus_ve3_clk] else [bus_clk, mbus_clk]) @ [ve_clk]"

fun enable_gates :: "(ve_clock \<Rightarrow> bool) \<Rightarrow> ve_clock list \<Rightarrow> clk_state \<Rightarrow> int \<times> clk_state" where
  "enable_gates ok [] s = (0, s)"
| "enable_gates ok (c # cs) s =
     (if ok c then enable_gates ok cs (s\<lparr>clk_cnt := (clk_cnt s)(c := clk_cnt s c + 1)\<rparr>) else (- EINVAL, s))"

fun disable_gates :: "ve_clock list \<Rightarrow> clk_state \<Rightarrow> clk_state" where
  "disable_gates [] s = s"
| "disable_gates (c # cs) s = disable_gates cs (s\<lparr>clk_cnt := (clk_cnt s)(c := clk_cnt s c - 1)\<rparr>)"

definition enable_cedar_hw_clk :: "bool \<Rightarrow> (ve_clock \<Rightarrow> bool) \<Rightarrow> clk_state \<Rightarrow> (int \<times> clk_state) option" where
  "enable_cedar_hw_clk iw12 ok s =
     (if bInitEndFlag s \<noteq> 1 then Some (- EINVAL, s)
      else do {
        s \<leftarrow> spin_lock s;
        if clk_status s = 1 then Some (0, spin_unlock s)
        else
          let s = s\<lparr>clk_status := 1\<rparr>;
              s = spin_unlock s;
              s = s\<lparr>pm_cnt := pm_cnt s + 1\<rparr>;
              s = deassert_resets iw12 s
          in Some (enable_gates ok (gates iw12) s)
      })"

definition disable_cedar_hw_clk :: "bool \<Rightarrow> clk_state \<Rightarrow> (int \<times> clk_state) option" where
  "disable_cedar_hw_clk iw12 s =
     do {
       s \<leftarrow> spin_lock s;
       if clk_status s = 0 then Some (0, spin_unlock s)
       else
         let s = s\<lparr>clk_status := 0\<rparr>;
             s = spin_unlock s;
             s = disable_gates (rev (gates iw12)) s;
             s = assert_resets iw12 s
         in Some (0, s\<lparr>pm_cnt := pm_cnt s - 1\<rparr>)
     }"

section \<open>Requesting and releasing the engine\<close>

text \<open>
  \<open>intr\<close>: another call holds the semaphore and a signal arrives while the caller waits for it.  A caller that finds the
  semaphore taken waits, which is \<open>None\<close> here: the call cannot complete in this state.
\<close>

definition down_interruptible :: "bool \<Rightarrow> clk_state \<Rightarrow> (int \<times> clk_state) option" where
  "down_interruptible intr s =
     (if intr then Some (- 4, s) else if sem s = 0 then None else Some (0, s\<lparr>sem := sem s - 1\<rparr>))"

definition up :: "clk_state \<Rightarrow> clk_state" where
  "up s = s\<lparr>sem := Suc (sem s)\<rparr>"

definition ioctl_engine_req :: "bool \<Rightarrow> (ve_clock \<Rightarrow> bool) \<Rightarrow> bool \<Rightarrow> clk_state \<Rightarrow> (int \<times> clk_state) option" where
  "ioctl_engine_req iw12 ok intr s =
     do {
       (r, s) \<leftarrow> down_interruptible intr s;
       if r \<noteq> 0 then Some (- ERESTARTSYS, s)
       else if ref_count s < 0 then Some (- EFAULT, up s)
       else
         let s = s\<lparr>ref_count := cint (ref_count s + 1)\<rparr> in
         if ref_count s = 1 then do {
           let s = s\<lparr>last_min_freq := 0\<rparr>;
           (ret, s) \<leftarrow> enable_cedar_hw_clk iw12 ok s;
           if ret < 0 then Some (- EFAULT, up (s\<lparr>ref_count := cint (ref_count s - 1)\<rparr>))
           else Some (ret, up s)
         }
         else Some (0, up s)
     }"

definition ioctl_engine_rel :: "bool \<Rightarrow> bool \<Rightarrow> clk_state \<Rightarrow> (int \<times> clk_state) option" where
  "ioctl_engine_rel iw12 intr s =
     do {
       (r, s) \<leftarrow> down_interruptible intr s;
       if r \<noteq> 0 then Some (- ERESTARTSYS, s)
       else
         let s = s\<lparr>ref_count := cint (ref_count s - 1)\<rparr> in
         if ref_count s < 0 then Some (- EFAULT, up s)
         else if ref_count s = 0 then do {
           (ret, s) \<leftarrow> disable_cedar_hw_clk iw12 s;
           if ret < 0 then Some (- EFAULT, up s) else Some (ret, up s)
         }
         else Some (0, up s)
     }"

definition ioctl_set_refcount :: "int \<Rightarrow> clk_state \<Rightarrow> int \<times> clk_state" where
  "ioctl_set_refcount arg s = (0, s\<lparr>ref_count := arg\<rparr>)"

definition ioctl_enable_ve :: "(ve_clock \<Rightarrow> bool) \<Rightarrow> clk_state \<Rightarrow> int \<times> clk_state" where
  "ioctl_enable_ve ok s = (0, if ok ve_clk then s\<lparr>clk_cnt := (clk_cnt s)(ve_clk := clk_cnt s ve_clk + 1)\<rparr> else s)"

definition ioctl_disable_ve :: "bool \<Rightarrow> clk_state \<Rightarrow> int \<times> clk_state" where
  "ioctl_disable_ve ve_clk_valid s =
     (if \<not> ve_clk_valid then (- EFAULT, s)
      else (0, s\<lparr>clk_cnt := (clk_cnt s)(ve_clk := clk_cnt s ve_clk - 1)\<rparr>))"

section \<open>Invariant of the reference count\<close>

definition powered :: "bool \<Rightarrow> clk_state \<Rightarrow> bool \<Rightarrow> bool" where
  "powered iw12 s b \<longleftrightarrow>
     (\<forall>c. clk_cnt s c = (if b \<and> c \<in> set (gates iw12) then 1 else 0)) \<and>
     (\<forall>r. deasserted s r = (b \<and> (r = reset_main \<or> iw12))) \<and>
     pm_cnt s = (if b then 1 else 0) \<and> clk_status s = (if b then 1 else 0)"

definition clk_inv :: "bool \<Rightarrow> clk_state \<Rightarrow> bool" where
  "clk_inv iw12 s \<longleftrightarrow> 0 \<le> ref_count s \<and> \<not> spin_held s \<and> sem s = 1 \<and> bInitEndFlag s = 1 \<and> powered iw12 s (0 < ref_count s)"

lemmas clk_defs = spin_lock_def spin_unlock_def up_def down_interruptible_def Let_def

lemma enable_gates_ok:
  "(\<And>c. c \<in> set cs \<Longrightarrow> ok c) \<Longrightarrow> distinct cs \<Longrightarrow>
   enable_gates ok cs s = (0, s\<lparr>clk_cnt := (\<lambda>c. if c \<in> set cs then clk_cnt s c + 1 else clk_cnt s c)\<rparr>)"
  by (induction cs arbitrary: s) (auto simp: fun_eq_iff intro!: arg_cong [where f = "\<lambda>x. s\<lparr>clk_cnt := x\<rparr>" for s])

lemma ve_clk_gate: "ve_clk \<in> set (gates iw12)"
  by (simp add: gates_def)

lemma enable_gates_fails:
  "c \<in> set cs \<Longrightarrow> \<not> ok c \<Longrightarrow>
   \<exists>m. enable_gates ok cs s = (- EINVAL, s\<lparr>clk_cnt := m\<rparr>) \<and> (\<forall>c. \<not> ok c \<longrightarrow> m c = clk_cnt s c)"
proof (induction cs arbitrary: s)
  case (Cons d cs)
  show ?case
  proof (cases "ok d")
    case True
    then have "c \<in> set cs" using Cons.prems by auto
    from Cons.IH [OF this Cons.prems(2), of "s\<lparr>clk_cnt := (clk_cnt s)(d := clk_cnt s d + 1)\<rparr>"] True
    show ?thesis by auto
  next
    case False
    then show ?thesis by (intro exI [of _ "clk_cnt s"]) simp
  qed
qed simp

lemma disable_gates_eq:
  "distinct cs \<Longrightarrow> disable_gates cs s = s\<lparr>clk_cnt := (\<lambda>c. if c \<in> set cs then clk_cnt s c - 1 else clk_cnt s c)\<rparr>"
  by (induction cs arbitrary: s) (auto simp: fun_eq_iff intro!: arg_cong [where f = "\<lambda>x. s\<lparr>clk_cnt := x\<rparr>" for s])

lemma all_resets: "(\<forall>r. P r) \<longleftrightarrow> P reset_ve \<and> P reset_main"
  by (metis ve_reset.exhaust)

lemma gates_distinct: "distinct (gates iw12)"
  by (simp add: gates_def)

lemma enable_powers:
  assumes "powered iw12 s False" "\<not> spin_held s" "bInitEndFlag s = 1" "\<And>c. ok c"
  shows "\<exists>s'. enable_cedar_hw_clk iw12 ok s = Some (0, s') \<and> powered iw12 s' True \<and>
    ref_count s' = ref_count s \<and> \<not> spin_held s' \<and> sem s' = sem s \<and> bInitEndFlag s' = 1"
  using assms
  by (simp add: enable_cedar_hw_clk_def powered_def clk_defs deassert_resets_def enable_gates_ok gates_distinct all_resets)

lemma enable_fails:
  assumes "powered iw12 s False" "\<not> spin_held s" "bInitEndFlag s = 1" "\<not> ok ve_clk"
  shows "\<exists>s'. enable_cedar_hw_clk iw12 ok s = Some (- EINVAL, s') \<and> clk_status s' = 1 \<and> clk_cnt s' ve_clk = 0 \<and>
    ref_count s' = ref_count s \<and> \<not> spin_held s' \<and> sem s' = sem s \<and> bInitEndFlag s' = 1"
proof -
  let ?u = "spin_unlock (s\<lparr>spin_held := True, clk_status := 1\<rparr>)"
  let ?x = "deassert_resets iw12 (?u\<lparr>pm_cnt := pm_cnt ?u + 1\<rparr>)"
  have e: "enable_cedar_hw_clk iw12 ok s = Some (enable_gates ok (gates iw12) ?x)"
    using assms(1-3) by (simp add: enable_cedar_hw_clk_def spin_lock_def powered_def Let_def)
  obtain m where m: "enable_gates ok (gates iw12) ?x = (- EINVAL, ?x\<lparr>clk_cnt := m\<rparr>)" "m ve_clk = clk_cnt ?x ve_clk"
    using enable_gates_fails [of ve_clk "gates iw12" ok ?x] assms(4) ve_clk_gate by blast
  have "clk_status ?x = 1" "clk_cnt ?x = clk_cnt s" "ref_count ?x = ref_count s" "\<not> spin_held ?x" "sem ?x = sem s"
    "bInitEndFlag ?x = bInitEndFlag s"
    by (simp_all add: deassert_resets_def spin_unlock_def Let_def)
  then show ?thesis using assms(1,3) e m by (simp add: powered_def)
qed

lemma disable_powers:
  assumes "powered iw12 s True" "\<not> spin_held s"
  shows "\<exists>s'. disable_cedar_hw_clk iw12 s = Some (0, s') \<and> powered iw12 s' False \<and>
    ref_count s' = ref_count s \<and> \<not> spin_held s' \<and> sem s' = sem s \<and> bInitEndFlag s' = bInitEndFlag s"
  using assms
  by (auto simp: disable_cedar_hw_clk_def powered_def clk_defs assert_resets_def disable_gates_eq gates_distinct all_resets)

text \<open>
  Clients request and release the engine in any order, a release only when there is a request to
  release; all clocks can be enabled.  \<open>n\<close> counts the requests that succeeded and are not released; it is
  not part of the driver's state.
\<close>

inductive clk_reach :: "bool \<Rightarrow> nat \<Rightarrow> clk_state \<Rightarrow> bool" for iw12 where
  start: "powered iw12 s False \<Longrightarrow> ref_count s = 0 \<Longrightarrow> \<not> spin_held s \<Longrightarrow> sem s = 1 \<Longrightarrow> bInitEndFlag s = 1 \<Longrightarrow> clk_reach iw12 0 s"
| req: "clk_reach iw12 n s \<Longrightarrow> ioctl_engine_req iw12 (\<lambda>_. True) intr s = Some (r, s') \<Longrightarrow>
    clk_reach iw12 (if r = 0 then Suc n else n) s'"
| rel: "clk_reach iw12 n s \<Longrightarrow> 0 < n \<Longrightarrow> ioctl_engine_rel iw12 intr s = Some (r, s') \<Longrightarrow>
    clk_reach iw12 (if r = 0 then n - 1 else n) s'"

lemma powered_upd [simp]:
  "powered iw12 (s\<lparr>ref_count := n\<rparr>) b = powered iw12 s b" "powered iw12 (s\<lparr>sem := k\<rparr>) b = powered iw12 s b"
  "powered iw12 (s\<lparr>last_min_freq := f\<rparr>) b = powered iw12 s b"
  by (simp_all add: powered_def)

definition count_inv :: "bool \<Rightarrow> nat \<Rightarrow> clk_state \<Rightarrow> bool" where
  "count_inv iw12 n s \<longleftrightarrow> n \<le> 2 ^ 31 \<and> ref_count s = cint (int n) \<and> \<not> spin_held s \<and> sem s = 1 \<and> bInitEndFlag s = 1 \<and>
     powered iw12 s (0 < n)"

lemma count_inv_clk_inv: "count_inv iw12 n s \<Longrightarrow> n < 2 ^ 31 \<Longrightarrow> clk_inv iw12 s \<and> ref_count s = int n"
  by (simp add: count_inv_def clk_inv_def)

lemma cint_full: "cint (int (2 ^ 31)) = - (2 ^ 31)"
  using cint_wraps(1) by simp

lemma cint_cases:
  assumes "n \<le> 2 ^ 31"
  obtains "n < 2 ^ 31" "cint (int n) = int n" | "n = 2 ^ 31" "cint (int n) = - (2 ^ 31)"
proof (cases "n = 2 ^ 31")
  case True
  with cint_full show thesis by (intro that(2)) simp_all
next
  case False
  with assms have "n < 2 ^ 31" by simp
  then show thesis by (intro that(1)) simp_all
qed

lemma req_count:
  assumes inv: "count_inv iw12 n s" and n: "n < 2 ^ 31"
  shows "\<exists>s'. ioctl_engine_req iw12 (\<lambda>_. True) False s = Some (0, s') \<and> count_inv iw12 (Suc n) s'"
proof (cases "n = 0")
  case True
  let ?s = "s\<lparr>sem := 0, ref_count := 1, last_min_freq := 0\<rparr>"
  have pre: "powered iw12 ?s False" "\<not> spin_held ?s" "bInitEndFlag ?s = 1"
    using inv True by (simp_all add: count_inv_def)
  obtain s' where s': "enable_cedar_hw_clk iw12 (\<lambda>_. True) ?s = Some (0, s')" "powered iw12 s' True"
    "ref_count s' = 1" "\<not> spin_held s'" "sem s' = 0" "bInitEndFlag s' = 1"
    using enable_powers [OF pre, of "\<lambda>_. True"] by auto
  then show ?thesis
    using inv True by (simp add: ioctl_engine_req_def count_inv_def down_interruptible_def up_def)
next
  case False
  have "cint (int n) = int n" using n by simp
  moreover have "cint (int n + 1) \<noteq> 1"
  proof -
    have "Suc n \<le> 2 ^ 31" "int (Suc n) = int n + 1" using n by simp_all
    then show ?thesis using False by (cases rule: cint_cases [of "Suc n"]) auto
  qed
  ultimately show ?thesis
    using inv n False
    by (simp add: ioctl_engine_req_def count_inv_def down_interruptible_def up_def add.commute)
qed

lemma req_full:
  assumes "count_inv iw12 (2 ^ 31) s"
  shows "ref_count s = - (2 ^ 31) \<and> ioctl_engine_req iw12 (\<lambda>_. True) False s = Some (- EFAULT, s)"
proof -
  have neg: "ref_count s = - (2 ^ 31)" and sem: "sem s = 1" using assms cint_full by (simp_all add: count_inv_def)
  have "up (s\<lparr>sem := 0\<rparr>) = s" using sem by (cases s) (simp add: up_def)
  with neg sem show ?thesis by (simp add: ioctl_engine_req_def down_interruptible_def)
qed

lemma rel_count:
  assumes inv: "count_inv iw12 n s" and n: "0 < n"
  shows "\<exists>s'. ioctl_engine_rel iw12 False s = Some (0, s') \<and> count_inv iw12 (n - 1) s'"
proof -
  have "n \<le> 2 ^ 31" using inv by (simp add: count_inv_def)
  then have dec: "cint (cint (int n) - 1) = int (n - 1)"
    using n by (rule_tac cint_cases [of n]) (simp_all add: of_nat_diff cint_wraps)
  show ?thesis
  proof (cases "n = 1")
    case True
    let ?s = "s\<lparr>sem := 0, ref_count := 0\<rparr>"
    have pre: "powered iw12 ?s True" "\<not> spin_held ?s" using inv True by (simp_all add: count_inv_def)
    obtain s' where s': "disable_cedar_hw_clk iw12 ?s = Some (0, s')" "powered iw12 s' False"
      "ref_count s' = 0" "\<not> spin_held s'" "sem s' = 0" "bInitEndFlag s' = bInitEndFlag s"
      using disable_powers [OF pre] by auto
    then show ?thesis
      using inv True by (simp add: ioctl_engine_rel_def count_inv_def down_interruptible_def up_def)
  next
    case False
    then have "cint (int (n - 1)) = int (n - 1)" "0 < n - 1" "n - 1 \<le> 2 ^ 31"
      using n \<open>n \<le> 2 ^ 31\<close> by simp_all
    then show ?thesis
      using inv dec False by (simp add: ioctl_engine_rel_def count_inv_def down_interruptible_def up_def)
  qed
qed

lemma interrupted:
  "ioctl_engine_req iw12 ok True s = Some (- ERESTARTSYS, s)" "ioctl_engine_rel iw12 True s = Some (- ERESTARTSYS, s)"
  by (simp_all add: ioctl_engine_req_def ioctl_engine_rel_def down_interruptible_def)

lemma clk_reach_count: "clk_reach iw12 n s \<Longrightarrow> count_inv iw12 n s"
proof (induction rule: clk_reach.induct)
  case (start s)
  then show ?case by (simp add: count_inv_def)
next
  case (req n s intr r s')
  then have "n < 2 ^ 31 \<or> n = 2 ^ 31" by (auto simp: count_inv_def)
  with req show ?case
    using req_count [of iw12 n s] req_full [of iw12 s] interrupted(1) [of iw12 "\<lambda>_. True" s]
    by (cases intr) (auto simp: errno_simps)
next
  case (rel n s intr r s')
  then show ?case
    using rel_count [of iw12 n s] interrupted(2) [of iw12 s] by (cases intr) (auto simp: errno_simps)
qed

lemma clk_reach_inv: "clk_reach iw12 n s \<Longrightarrow> n < 2 ^ 31 \<Longrightarrow> clk_inv iw12 s"
  using clk_reach_count count_inv_clk_inv by blast

text \<open>
  C26.  As long as releases are matched by requests and the clocks can be enabled, in every reachable
  state, with \<open>n\<close> requests that are not released: each clock the chip has is enabled exactly once while
  the engine is requested and not at all otherwise, the resets are released exactly then, the lock
  and the semaphore are free, and the reference count is \<open>n\<close> as a C \<open>int\<close>.  The next request succeeds and
  counts while \<open>n\<close> is below \<open>2 ^ 31\<close>; the request that makes \<open>n\<close> equal to \<open>2 ^ 31\<close> has made the count negative
  with the clocks running, and from then on requests are refused with \<open>-EFAULT\<close> and change nothing.  A
  release succeeds and counts whenever there is one to release, also from the wrapped count.
\<close>

theorem engine_refcount:
  assumes "clk_reach iw12 n s"
  shows "n \<le> 2 ^ 31 \<and> ref_count s = cint (int n) \<and> powered iw12 s (0 < n) \<and> \<not> spin_held s \<and> sem s = 1 \<and>
    (n < 2 ^ 31 \<longrightarrow> ref_count s = int n \<and>
      (\<exists>s'. ioctl_engine_req iw12 (\<lambda>_. True) False s = Some (0, s') \<and> clk_reach iw12 (Suc n) s' \<and> ref_count s' = cint (int n + 1))) \<and>
    (n = 2 ^ 31 \<longrightarrow> ref_count s = - (2 ^ 31) \<and> ioctl_engine_req iw12 (\<lambda>_. True) False s = Some (- EFAULT, s)) \<and>
    (0 < n \<longrightarrow> (\<exists>s'. ioctl_engine_rel iw12 False s = Some (0, s') \<and> clk_reach iw12 (n - 1) s' \<and> ref_count s' = int n - 1))"
proof -
  have inv: "count_inv iw12 n s" using assms by (rule clk_reach_count)
  have req: "\<exists>s'. ioctl_engine_req iw12 (\<lambda>_. True) False s = Some (0, s') \<and> clk_reach iw12 (Suc n) s' \<and>
      ref_count s' = cint (int n + 1)" if n: "n < 2 ^ 31"
  proof -
    obtain s' where s': "ioctl_engine_req iw12 (\<lambda>_. True) False s = Some (0, s')" "count_inv iw12 (Suc n) s'"
      using req_count [OF inv n] by blast
    with clk_reach.req [OF assms s'(1)] show ?thesis by (auto simp: count_inv_def add.commute)
  qed
  have rel: "\<exists>s'. ioctl_engine_rel iw12 False s = Some (0, s') \<and> clk_reach iw12 (n - 1) s' \<and> ref_count s' = int n - 1"
    if n: "0 < n"
  proof -
    obtain s' where s': "ioctl_engine_rel iw12 False s = Some (0, s')" "count_inv iw12 (n - 1) s'"
      using rel_count [OF inv n] by blast
    moreover have "n - 1 < 2 ^ 31" using inv n by (auto simp: count_inv_def)
    ultimately have "ref_count s' = int n - 1" using n count_inv_clk_inv [of iw12 "n - 1" s'] by (simp add: of_nat_diff)
    with clk_reach.rel [OF assms n s'(1)] s' show ?thesis by auto
  qed
  have "n \<le> 2 ^ 31 \<and> ref_count s = cint (int n) \<and> powered iw12 s (0 < n) \<and> \<not> spin_held s \<and> sem s = 1"
    using inv by (simp add: count_inv_def)
  moreover have "n < 2 ^ 31 \<longrightarrow> ref_count s = int n" using count_inv_clk_inv [OF inv] by blast
  moreover have "n = 2 ^ 31 \<longrightarrow> ref_count s = - (2 ^ 31) \<and> ioctl_engine_req iw12 (\<lambda>_. True) False s = Some (- EFAULT, s)"
    using req_full [of iw12 s] inv by blast
  ultimately show ?thesis using req rel by blast
qed

definition ex_clk :: clk_state where
  "ex_clk = \<lparr>clk_status = 0, bInitEndFlag = 1, ref_count = 0, last_min_freq = 0, clk_cnt = (\<lambda>_. 0), deasserted = (\<lambda>_. False),
     pm_cnt = 0, spin_held = False, sem = 1\<rparr>"

lemma ex_clk_reach: "clk_reach iw12 0 ex_clk"
  by (rule clk_reach.start) (simp_all add: ex_clk_def powered_def)

lemma ex_clk_inv: "clk_inv iw12 ex_clk"
  by (rule clk_reach_inv [OF ex_clk_reach]) simp

lemma every_count_reached:
  assumes "clk_reach iw12 0 s0" "n \<le> 2 ^ 31"
  shows "\<exists>s. clk_reach iw12 n s"
  using assms(2)
proof (induction n)
  case (Suc n)
  then obtain s where s: "clk_reach iw12 n s" by auto
  then obtain s' where "ioctl_engine_req iw12 (\<lambda>_. True) False s = Some (0, s')"
    using req_count [OF clk_reach_count [OF s]] Suc.prems by auto
  then show ?case using clk_reach.req [OF s, of False 0 s'] by auto
qed (use assms(1) in blast)

theorem engine_refcount_witness:
  "(\<exists>s. ioctl_engine_req False (\<lambda>_. True) False ex_clk = Some (0, s) \<and> clk_cnt s ve_clk = 1 \<and>
     (\<exists>s'. ioctl_engine_rel False False s = Some (0, s') \<and> ref_count s' = 0)) \<and>
   (\<exists>s. clk_reach False (2 ^ 31) s \<and> ref_count s = - 2147483648 \<and> clk_cnt s ve_clk = 1 \<and>
     ioctl_engine_req False (\<lambda>_. True) False s = Some (- EFAULT, s) \<and>
     (\<exists>s'. ioctl_engine_rel False False s = Some (0, s') \<and> ref_count s' = 2147483647))"
proof
  obtain s where s: "ioctl_engine_req False (\<lambda>_. True) False ex_clk = Some (0, s)" "clk_reach False 1 s"
    using engine_refcount [OF ex_clk_reach, of False] by auto
  then show "\<exists>s. ioctl_engine_req False (\<lambda>_. True) False ex_clk = Some (0, s) \<and> clk_cnt s ve_clk = 1 \<and>
     (\<exists>s'. ioctl_engine_rel False False s = Some (0, s') \<and> ref_count s' = 0)"
    using engine_refcount [OF s(2)] by (auto simp: powered_def gates_def)
next
  obtain s where s: "clk_reach False (2 ^ 31) s" using every_count_reached [OF ex_clk_reach, of "2 ^ 31" False] by auto
  then show "\<exists>s. clk_reach False (2 ^ 31) s \<and> ref_count s = - 2147483648 \<and> clk_cnt s ve_clk = 1 \<and>
     ioctl_engine_req False (\<lambda>_. True) False s = Some (- EFAULT, s) \<and>
     (\<exists>s'. ioctl_engine_rel False False s = Some (0, s') \<and> ref_count s' = 2147483647)"
    using engine_refcount [OF s] by (intro exI [of _ s]) (auto simp: powered_def gates_def)
qed

text \<open>
  C27.  A release without a request is refused with \<open>-EFAULT\<close> but has already counted: the reference
  count is negative afterwards, and from then on every request of every client is refused with
  \<open>-EFAULT\<close>, however often it is repeated.
\<close>

fun requests :: "bool \<Rightarrow> nat \<Rightarrow> clk_state \<Rightarrow> (int list \<times> clk_state) option" where
  "requests iw12 0 s = Some ([], s)"
| "requests iw12 (Suc n) s = do {
     (r, s) \<leftarrow> ioctl_engine_req iw12 (\<lambda>_. True) False s;
     (rs, s) \<leftarrow> requests iw12 n s;
     Some (r # rs, s)
   }"

lemma negative_stuck:
  assumes "ref_count s < 0" "sem s = 1"
  shows "requests iw12 n s = Some (replicate n (- EFAULT), s)"
proof (induction n)
  case (Suc n)
  have "up (s\<lparr>sem := 0\<rparr>) = s" using assms(2) by (cases s) (simp add: up_def)
  then have "ioctl_engine_req iw12 (\<lambda>_. True) False s = Some (- EFAULT, s)"
    using assms by (simp add: ioctl_engine_req_def down_interruptible_def)
  with Suc show ?case by simp
qed simp

theorem engine_rel_underflow:
  assumes "clk_inv iw12 s" "ref_count s = 0"
  shows "\<exists>s'. ioctl_engine_rel iw12 False s = Some (- EFAULT, s') \<and> ref_count s' = - 1 \<and>
    (\<forall>n. requests iw12 n s' = Some (replicate n (- EFAULT), s'))"
proof -
  have "ioctl_engine_rel iw12 False s = Some (- EFAULT, s\<lparr>ref_count := - 1\<rparr>)"
    using assms by (simp add: ioctl_engine_rel_def clk_inv_def down_interruptible_def up_def)
  moreover have "requests iw12 n (s\<lparr>ref_count := - 1\<rparr>) = Some (replicate n (- EFAULT), s\<lparr>ref_count := - 1\<rparr>)" for n
    using assms by (intro negative_stuck) (simp_all add: clk_inv_def)
  ultimately show ?thesis by simp
qed

theorem engine_rel_underflow_witness:
  "\<exists>s'. ioctl_engine_rel True False ex_clk = Some (- EFAULT, s') \<and> ref_count s' = - 1"
  using engine_rel_underflow [OF ex_clk_inv, of True] by (auto simp: ex_clk_def)

text \<open>
  When a clock cannot be enabled, the request is refused and its count taken back, but the driver
  has recorded the clocks as running: the next request succeeds although the engine's clock was
  never enabled, and the release that follows disables a clock that is not enabled.
\<close>

theorem clk_failure_sticky:
  assumes "clk_inv iw12 s" "ref_count s = 0" "\<not> ok ve_clk"
  shows "\<exists>s1 s2 s3. ioctl_engine_req iw12 ok False s = Some (- EFAULT, s1) \<and> ref_count s1 = 0 \<and> clk_status s1 = 1 \<and>
    ioctl_engine_req iw12 (\<lambda>_. True) False s1 = Some (0, s2) \<and> clk_cnt s2 ve_clk = 0 \<and>
    ioctl_engine_rel iw12 False s2 = Some (0, s3) \<and> clk_cnt s3 ve_clk = - 1"
proof -
  let ?s0 = "s\<lparr>sem := 0, ref_count := 1, last_min_freq := 0\<rparr>"
  have pre: "powered iw12 ?s0 False" "\<not> spin_held ?s0" "bInitEndFlag ?s0 = 1" using assms(1,2) by (simp_all add: clk_inv_def)
  obtain s0 where s0: "enable_cedar_hw_clk iw12 ok ?s0 = Some (- EINVAL, s0)" "clk_status s0 = 1" "clk_cnt s0 ve_clk = 0"
    "ref_count s0 = 1" "\<not> spin_held s0" "sem s0 = 0" "bInitEndFlag s0 = 1"
    using enable_fails [of iw12 ?s0 ok] pre assms(3) by auto
  define s1 where "s1 = up (s0\<lparr>ref_count := 0\<rparr>)"
  have r1: "ioctl_engine_req iw12 ok False s = Some (- EFAULT, s1)"
    using assms(1,2) s0(1,4) by (simp add: ioctl_engine_req_def clk_inv_def down_interruptible_def s1_def errno_simps)
  have s1: "ref_count s1 = 0" "clk_status s1 = 1" "clk_cnt s1 ve_clk = 0" "sem s1 = 1" "\<not> spin_held s1" "bInitEndFlag s1 = 1"
    using s0 by (simp_all add: s1_def up_def)
  define s2 where "s2 = s1\<lparr>ref_count := 1, last_min_freq := 0\<rparr>"
  have "s1\<lparr>sem := 0, ref_count := 1, last_min_freq := 0, spin_held := False\<rparr> = s2\<lparr>sem := 0\<rparr>"
    using s1(5) by (cases s1) (simp add: s2_def)
  then have r2: "ioctl_engine_req iw12 (\<lambda>_. True) False s1 = Some (0, s2)"
    using s1 by (simp add: ioctl_engine_req_def enable_cedar_hw_clk_def clk_defs) (simp add: s2_def)
  have "\<exists>s3. ioctl_engine_rel iw12 False s2 = Some (0, s3) \<and> clk_cnt s3 ve_clk = - 1"
    using s1 by (simp add: ioctl_engine_rel_def disable_cedar_hw_clk_def clk_defs s2_def disable_gates_eq gates_distinct)
      (simp add: gates_def assert_resets_def)
  with r1 r2 s1 show ?thesis by (auto simp: s2_def)
qed

theorem clk_failure_sticky_witness:
  "\<exists>s1 s2. ioctl_engine_req False (\<lambda>c. c \<noteq> ve_clk) False ex_clk = Some (- EFAULT, s1) \<and>
     ioctl_engine_req False (\<lambda>_. True) False s1 = Some (0, s2) \<and> clk_cnt s2 ve_clk = 0"
  using clk_failure_sticky [OF ex_clk_inv, of "\<lambda>c. c \<noteq> ve_clk" False] by (auto simp: ex_clk_def)

end
