(* ===== verification/Slots.thy ===== *)
theory Slots
  imports Prelude
begin

text \<open>
  Fixed arrays of slots that are searched by key first and for a free slot second.  The VE driver
  keeps its load parameters and its debug records this way.  \<open>scan\<close> is the loop
  \<open>for (i = 0; i < N; i++) if (P(a[i])) break;\<close>, its value the final \<open>i\<close>.
\<close>

fun scan :: "('a \<Rightarrow> bool) \<Rightarrow> 'a list \<Rightarrow> nat" where
  "scan P [] = 0"
| "scan P (x # xs) = (if P x then 0 else Suc (scan P xs))"

lemma scan_le: "scan P xs \<le> length xs"
  by (induction xs) simp_all

lemma scan_less: "scan P xs < length xs \<longleftrightarrow> (\<exists>x \<in> set xs. P x)"
  by (induction xs) auto

lemma scan_nth: "scan P xs < length xs \<Longrightarrow> P (xs ! scan P xs)"
  by (induction xs) (auto split: if_splits)

lemma scan_before: "i < scan P xs \<Longrightarrow> \<not> P (xs ! i)"
  by (induction xs arbitrary: i) (auto simp: less_Suc_eq_0_disj split: if_splits)

lemma scan_eq: "i < length xs \<Longrightarrow> P (xs ! i) \<Longrightarrow> (\<And>j. j < i \<Longrightarrow> \<not> P (xs ! j)) \<Longrightarrow> scan P xs = i"
  by (metis linorder_neqE_nat nth_mem order.strict_trans scan_before scan_less scan_nth)

lemma scan_none: "scan P xs = length xs \<longleftrightarrow> (\<forall>x \<in> set xs. \<not> P x)"
  using scan_le [of P xs] scan_less [of P xs] by auto

text \<open>
  The contract of such an array: \<open>hit k x\<close> says that slot content \<open>x\<close> is the one for key \<open>k\<close>; \<open>valid\<close>
  are the keys that no free slot answers to.
\<close>

locale slot_table =
  fixes hit :: "'k \<Rightarrow> 'a \<Rightarrow> bool"
    and free :: "'a \<Rightarrow> bool"
    and valid :: "'k \<Rightarrow> bool"
    and blank :: 'a
  assumes hit_inj: "hit k x \<Longrightarrow> hit k' x \<Longrightarrow> k = k'"
    and free_no_hit: "valid k \<Longrightarrow> free x \<Longrightarrow> \<not> hit k x"
    and blank_free: "free blank"
begin

definition unique :: "'a list \<Rightarrow> bool" where
  "unique xs \<longleftrightarrow> (\<forall>k i j. valid k \<longrightarrow> i < length xs \<longrightarrow> j < length xs \<longrightarrow> hit k (xs ! i) \<longrightarrow> hit k (xs ! j) \<longrightarrow> i = j)"

definition lookup :: "'a list \<Rightarrow> 'k \<Rightarrow> 'a option" where
  "lookup xs k = (if scan (hit k) xs < length xs then Some (xs ! scan (hit k) xs) else None)"

definition slot_for :: "'k \<Rightarrow> 'a list \<Rightarrow> nat option" where
  "slot_for k xs =
     (if scan (hit k) xs < length xs then Some (scan (hit k) xs)
      else if scan free xs < length xs then Some (scan free xs) else None)"

lemma lookup_SomeI: "unique xs \<Longrightarrow> valid k \<Longrightarrow> i < length xs \<Longrightarrow> hit k (xs ! i) \<Longrightarrow> lookup xs k = Some (xs ! i)"
  by (metis lookup_def nth_mem scan_less scan_nth unique_def)

lemma lookup_None: "lookup xs k = None \<longleftrightarrow> (\<forall>x \<in> set xs. \<not> hit k x)"
  by (auto simp: lookup_def scan_less)

lemma lookup_SomeE:
  assumes "lookup xs k = Some x"
  obtains i where "i < length xs" "x = xs ! i" "hit k (xs ! i)"
  using assms scan_nth by (auto simp: lookup_def split: if_splits)

lemma slot_for_less: "slot_for k xs = Some i \<Longrightarrow> i < length xs"
  by (auto simp: slot_for_def split: if_splits)

lemma slot_for_cases:
  assumes "slot_for k xs = Some i"
  shows "hit k (xs ! i) \<or> free (xs ! i) \<and> lookup xs k = None"
  using assms scan_nth by (fastforce simp: slot_for_def lookup_def split: if_splits)

lemma slot_for_None: "slot_for k xs = None \<longleftrightarrow> lookup xs k = None \<and> (\<forall>x \<in> set xs. \<not> free x)"
  by (auto simp: slot_for_def lookup_def scan_less)

lemma slot_keeps_others:
  assumes "slot_for k xs = Some i" "valid k'" "k' \<noteq> k"
  shows "\<not> hit k' (xs ! i)"
  using slot_for_cases [OF assms(1)] assms(2,3) hit_inj free_no_hit by blast

lemma put_unique:
  assumes "unique xs" "valid k" "slot_for k xs = Some i" "hit k x"
  shows "unique (xs[i := x])"
  unfolding unique_def
proof (intro allI impI)
  fix k' a b
  assume v: "valid k'" and ab: "a < length (xs[i := x])" "b < length (xs[i := x])"
    and h: "hit k' (xs[i := x] ! a)" "hit k' (xs[i := x] ! b)"
  have i: "i < length xs" using assms(3) by (rule slot_for_less)
  show "a = b"
  proof (cases "k' = k")
    case False
    then have "a \<noteq> i" "b \<noteq> i" using h hit_inj [OF _ assms(4)] i by (auto simp: nth_list_update)
    then show ?thesis using assms(1) v ab h by (auto simp: unique_def)
  next
    case True
    have "c = i" if "c < length xs" "hit k (xs[i := x] ! c)" for c
    proof (rule ccontr)
      assume "c \<noteq> i"
      then have c: "hit k (xs ! c)" using that by simp
      then have "lookup xs k \<noteq> None" using that(1) by (auto simp: lookup_None)
      then have "hit k (xs ! i)" using slot_for_cases [OF assms(3)] by auto
      then show False using assms(1,2) c that(1) i \<open>c \<noteq> i\<close> by (auto simp: unique_def)
    qed
    from this [of a] this [of b] show ?thesis using ab h True by simp
  qed
qed

lemma put_lookup:
  assumes "unique xs" "valid k" "slot_for k xs = Some i" "hit k x" "valid k'"
  shows "lookup (xs[i := x]) k' = (if k' = k then Some x else lookup xs k')"
proof -
  have i: "i < length xs" using assms(3) by (rule slot_for_less)
  have u: "unique (xs[i := x])" using assms(1-4) by (rule put_unique)
  show ?thesis
  proof (cases "k' = k")
    case True
    then show ?thesis using lookup_SomeI [OF u assms(5), of i] i assms(4) by simp
  next
    case False
    then have ni: "\<not> hit k' (xs ! i)" "\<not> hit k' x"
      using slot_keeps_others assms(3,5) hit_inj [OF _ assms(4)] by auto
    show ?thesis
    proof (cases "lookup xs k'")
      case None
      then have "\<forall>y \<in> set (xs[i := x]). \<not> hit k' y"
        using ni set_update_subset_insert [of xs i x] by (auto simp: lookup_None)
      then have "lookup (xs[i := x]) k' = None" by (simp only: lookup_None)
      with None False show ?thesis by simp
    next
      case (Some y)
      then obtain j where "j < length xs" "y = xs ! j" "hit k' (xs ! j)" by (rule lookup_SomeE)
      moreover then have "j \<noteq> i" using ni by auto
      ultimately show ?thesis using lookup_SomeI [OF u assms(5), of j] Some False by simp
    qed
  qed
qed

lemma clear_unique: "unique xs \<Longrightarrow> unique (xs[i := blank])"
  unfolding unique_def
proof (intro allI impI)
  fix k a b
  assume u: "\<forall>k i j. valid k \<longrightarrow> i < length xs \<longrightarrow> j < length xs \<longrightarrow> hit k (xs ! i) \<longrightarrow> hit k (xs ! j) \<longrightarrow> i = j"
    and v: "valid k" and ab: "a < length (xs[i := blank])" "b < length (xs[i := blank])"
    and h: "hit k (xs[i := blank] ! a)" "hit k (xs[i := blank] ! b)"
  have "a \<noteq> i" "b \<noteq> i" using h ab free_no_hit [OF v blank_free] by auto
  with u v ab h show "a = b" by simp
qed

lemma clear_lookup:
  assumes "unique xs" "i < length xs" "valid k'"
  shows "lookup (xs[i := blank]) k' = (if hit k' (xs ! i) then None else lookup xs k')"
proof (cases "hit k' (xs ! i)")
  case True
  have "\<not> hit k' y" if y: "y \<in> set (xs[i := blank])" for y
  proof
    assume h: "hit k' y"
    obtain j where j: "j < length xs" "y = xs[i := blank] ! j" using y by (metis in_set_conv_nth length_list_update)
    then have "j \<noteq> i" using h free_no_hit [OF assms(3) blank_free] assms(2) by auto
    then show False using assms True h j by (auto simp: unique_def)
  qed
  with True show ?thesis by (simp add: lookup_None)
next
  case False
  have u: "unique (xs[i := blank])" using assms(1) by (rule clear_unique)
  show ?thesis
  proof (cases "lookup xs k'")
    case None
    then have "\<forall>y \<in> set (xs[i := blank]). \<not> hit k' y"
      using free_no_hit [OF assms(3) blank_free] set_update_subset_insert [of xs i blank] by (auto simp: lookup_None)
    then have "lookup (xs[i := blank]) k' = None" by (simp only: lookup_None)
    with None False show ?thesis by simp
  next
    case (Some y)
    then obtain j where "j < length xs" "y = xs ! j" "hit k' (xs ! j)" by (rule lookup_SomeE)
    moreover then have "j \<noteq> i" using False by auto
    ultimately show ?thesis using lookup_SomeI [OF u assms(3), of j] Some False by simp
  qed
qed

end

end
