(* ===== verification/Cedar_Dvfs.thy ===== *)
theory Cedar_Dvfs
  imports Slots
begin

text \<open>
  Frequency scaling of the VE driver (\<open>VE_SUPPORT_DVFS\<close>): the sixteen load parameters that clients
  report, the table of clock rates per codec and load, the rate the chip's fuses allow.  The clock
  framework is a parameter: \<open>set_rate\<close> gives the rate that \<open>clk_set_rate\<close> establishes, or \<open>None\<close> when it
  fails.  The load is kept at the width of \<open>u32\<close>; the product of three \<open>int\<close> is reduced to 32 bits.
\<close>

definition VE_CLK_HIGH_WATER :: int where
  "VE_CLK_HIGH_WATER = 900"

definition VE_CLK_LOW_WATER :: int where
  "VE_CLK_LOW_WATER = 50"

definition MAX_VE_LOAD_PARAM_CHANNEL :: nat where
  "MAX_VE_LOAD_PARAM_CHANNEL = 16"

definition VE_DECODER_FORMAT_H264 :: int where "VE_DECODER_FORMAT_H264 = 2"
definition VE_DECODER_FORMAT_H265 :: int where "VE_DECODER_FORMAT_H265 = 3"
definition VE_DECODER_FORMAT_VP9 :: int where "VE_DECODER_FORMAT_VP9 = 4"
definition VE_DECODER_FORMAT_OTHER :: int where "VE_DECODER_FORMAT_OTHER = 5"
definition VE_DECODER_FORMAT_MAX :: int where "VE_DECODER_FORMAT_MAX = 0x100"

lemmas format_defs = VE_DECODER_FORMAT_H264_def VE_DECODER_FORMAT_H265_def VE_DECODER_FORMAT_VP9_def
  VE_DECODER_FORMAT_OTHER_def VE_DECODER_FORMAT_MAX_def

record ve_case_load_param =
  lp_width :: int
  lp_height :: int
  lp_frame_rate :: int
  lp_codec_format :: int
  lp_is_remove_cur_param :: int
  lp_thread_channel_id :: int

record ve_case_load_info =
  load_param :: ve_case_load_param
  is_used :: int
  li_process_channel_id :: u32

definition zero_load_info :: ve_case_load_info where
  "zero_load_info = \<lparr>load_param = \<lparr>lp_width = 0, lp_height = 0, lp_frame_rate = 0, lp_codec_format = 0,
     lp_is_remove_cur_param = 0, lp_thread_channel_id = 0\<rparr>, is_used = 0, li_process_channel_id = 0\<rparr>"

record dvfs_state =
  load_infos :: "ve_case_load_info list"
  user_setting_ve_freq :: int
  ve_rate :: int
  voltage :: int

definition setup_ve_freq :: "(int \<Rightarrow> int option) \<Rightarrow> int \<Rightarrow> dvfs_state \<Rightarrow> int \<times> dvfs_state" where
  "setup_ve_freq set_rate ve_freq s =
     (let s = (if ve_freq \<ge> VE_CLK_LOW_WATER \<and> ve_freq \<le> VE_CLK_HIGH_WATER then
                 (case set_rate (ve_freq * 1000000) of None \<Rightarrow> s | Some r \<Rightarrow> s\<lparr>ve_rate := r\<rparr>)
               else s)
      in (ve_rate s, s))"

section \<open>The performance table\<close>

definition LEVELE_1_START_PIXELS :: u32 where "LEVELE_1_START_PIXELS = 0"
definition LEVELE_1_END_PIXELS :: u32 where "LEVELE_1_END_PIXELS = 1280 * 736 * 60"
definition LEVELE_2_START_PIXELS :: u32 where "LEVELE_2_START_PIXELS = 1280 * 736 * 60 + 1"
definition LEVELE_2_END_PIXELS :: u32 where "LEVELE_2_END_PIXELS = 1920 * 1088 * 30"
definition LEVELE_3_START_PIXELS :: u32 where "LEVELE_3_START_PIXELS = 1920 * 1088 * 30 + 1"
definition LEVELE_3_END_PIXELS :: u32 where "LEVELE_3_END_PIXELS = 1920 * 1088 * 60"
definition LEVELE_4_START_PIXELS :: u32 where "LEVELE_4_START_PIXELS = 1920 * 1088 * 60 + 1"
definition LEVELE_MAX_END_PIXELS :: u32 where "LEVELE_MAX_END_PIXELS = 7680 * 4320 * 60"

lemmas level_defs = LEVELE_1_START_PIXELS_def LEVELE_1_END_PIXELS_def LEVELE_2_START_PIXELS_def LEVELE_2_END_PIXELS_def
  LEVELE_3_START_PIXELS_def LEVELE_3_END_PIXELS_def LEVELE_4_START_PIXELS_def LEVELE_MAX_END_PIXELS_def

definition VE_PERFORMANCE_MAX_FREQ :: int where
  "VE_PERFORMANCE_MAX_FREQ = 900"

record performat_info =
  codec_formmat :: u32
  level_performance :: nat
  start_pixels :: u32
  end_pixels :: u32
  pi_ve_freq :: int

definition perform_row :: "int \<Rightarrow> nat \<Rightarrow> u32 \<Rightarrow> u32 \<Rightarrow> int \<Rightarrow> performat_info" where
  "perform_row fmt level a b f =
     \<lparr>codec_formmat = of_int fmt, level_performance = level, start_pixels = a, end_pixels = b, pi_ve_freq = f\<rparr>"

definition decoder_perform_sun55iw3 :: "performat_info list" where
  "decoder_perform_sun55iw3 =
     [perform_row VE_DECODER_FORMAT_H264 0 LEVELE_1_START_PIXELS LEVELE_1_END_PIXELS 100,
      perform_row VE_DECODER_FORMAT_H264 1 LEVELE_2_START_PIXELS LEVELE_2_END_PIXELS 200,
      perform_row VE_DECODER_FORMAT_H264 2 LEVELE_3_START_PIXELS LEVELE_3_END_PIXELS 350,
      perform_row VE_DECODER_FORMAT_H264 3 LEVELE_4_START_PIXELS LEVELE_MAX_END_PIXELS VE_PERFORMANCE_MAX_FREQ,
      perform_row VE_DECODER_FORMAT_H265 0 LEVELE_1_START_PIXELS LEVELE_1_END_PIXELS 100,
      perform_row VE_DECODER_FORMAT_H265 1 LEVELE_2_START_PIXELS LEVELE_2_END_PIXELS 150,
      perform_row VE_DECODER_FORMAT_H265 2 LEVELE_3_START_PIXELS LEVELE_3_END_PIXELS 350,
      perform_row VE_DECODER_FORMAT_H265 3 LEVELE_4_START_PIXELS LEVELE_MAX_END_PIXELS VE_PERFORMANCE_MAX_FREQ,
      perform_row VE_DECODER_FORMAT_VP9 0 LEVELE_1_START_PIXELS LEVELE_1_END_PIXELS 150,
      perform_row VE_DECODER_FORMAT_VP9 1 LEVELE_2_START_PIXELS LEVELE_2_END_PIXELS 200,
      perform_row VE_DECODER_FORMAT_VP9 2 LEVELE_3_START_PIXELS LEVELE_3_END_PIXELS 350,
      perform_row VE_DECODER_FORMAT_VP9 3 LEVELE_4_START_PIXELS LEVELE_MAX_END_PIXELS VE_PERFORMANCE_MAX_FREQ,
      perform_row VE_DECODER_FORMAT_OTHER 0 LEVELE_1_START_PIXELS LEVELE_MAX_END_PIXELS VE_PERFORMANCE_MAX_FREQ]"

section \<open>The load parameters\<close>

definition remove_case_load_param_by_process_id_sun55iw3 :: "u32 \<Rightarrow> dvfs_state \<Rightarrow> dvfs_state" where
  "remove_case_load_param_by_process_id_sun55iw3 cur_process_channel_id s =
     (let i = scan (\<lambda>x. is_used x = 1 \<and> cur_process_channel_id = li_process_channel_id x) (load_infos s) in
      if i < length (load_infos s) then s\<lparr>load_infos := (load_infos s)[i := zero_load_info]\<rparr> else s)"

definition update_case_load_param_sun55iw3 :: "ve_case_load_param \<Rightarrow> u32 \<Rightarrow> dvfs_state \<Rightarrow> int \<times> dvfs_state" where
  "update_case_load_param_sun55iw3 cur_load_param cur_process_channel_id s =
     (let xs = load_infos s;
          i = scan (\<lambda>x. is_used x = 1 \<and> lp_thread_channel_id cur_load_param = lp_thread_channel_id (load_param x) \<and>
                     cur_process_channel_id = li_process_channel_id x) xs;
          j = scan (\<lambda>x. is_used x = 0) xs;
          put = (\<lambda>i. if lp_is_remove_cur_param cur_load_param = 1 then xs[i := zero_load_info]
                 else xs[i := (xs ! i)\<lparr>load_param := cur_load_param, li_process_channel_id := cur_process_channel_id, is_used := 1\<rparr>])
      in if i < length xs then (0, s\<lparr>load_infos := put i\<rparr>)
         else if j < length xs then (0, s\<lparr>load_infos := put j\<rparr>)
         else (- 1, s))"

record load_sum =
  total_load_pixels :: u32
  decoder_channel_num :: nat
  encoder_channel_num :: nat
  had_different_codec_channel :: bool
  previous_codec_format :: int
  cur_codec_format :: int

definition fix_frame_rate :: "ve_case_load_info \<Rightarrow> ve_case_load_info" where
  "fix_frame_rate x =
     (if is_used x = 1 \<and> lp_frame_rate (load_param x) \<le> 0
      then x\<lparr>load_param := (load_param x)\<lparr>lp_frame_rate := 60\<rparr>\<rparr> else x)"

definition add_load :: "ve_case_load_info \<Rightarrow> load_sum \<Rightarrow> load_sum" where
  "add_load x a =
     (if is_used x = 1 then
        let p = load_param x;
            prev = (if previous_codec_format a = - 1 then lp_codec_format p else previous_codec_format a)
        in a\<lparr>previous_codec_format := prev,
             had_different_codec_channel := had_different_codec_channel a \<or> prev \<noteq> lp_codec_format p,
             decoder_channel_num := decoder_channel_num a + (if lp_codec_format p < VE_DECODER_FORMAT_MAX then 1 else 0),
             encoder_channel_num := encoder_channel_num a + (if lp_codec_format p < VE_DECODER_FORMAT_MAX then 0 else 1),
             cur_codec_format := lp_codec_format p,
             total_load_pixels := total_load_pixels a + of_int (lp_width p * lp_height p * lp_frame_rate p)\<rparr>
      else a)"

definition no_load :: load_sum where
  "no_load = \<lparr>total_load_pixels = 0, decoder_channel_num = 0, encoder_channel_num = 0,
     had_different_codec_channel = False, previous_codec_format = - 1, cur_codec_format = - 1\<rparr>"

definition perform_match :: "int \<Rightarrow> u32 \<Rightarrow> performat_info \<Rightarrow> bool" where
  "perform_match fmt pixels r \<longleftrightarrow> of_int fmt = codec_formmat r \<and> pixels \<ge> start_pixels r \<and> pixels \<le> end_pixels r"

definition adjust_ve_freq_by_case_load_sun55iw3 :: "(int \<Rightarrow> int option) \<Rightarrow> dvfs_state \<Rightarrow> int \<times> dvfs_state" where
  "adjust_ve_freq_by_case_load_sun55iw3 set_rate s =
     (let xs = map fix_frame_rate (load_infos s);
          s = s\<lparr>load_infos := xs\<rparr>;
          a = fold add_load xs no_load
      in if decoder_channel_num a + encoder_channel_num a = 0 then (0, s)
         else if encoder_channel_num a > 0 \<or> decoder_channel_num a > 2 \<or> had_different_codec_channel a
         then (0, snd (setup_ve_freq set_rate (user_setting_ve_freq s) s))
         else
           let i = scan (perform_match (cur_codec_format a) (total_load_pixels a)) decoder_perform_sun55iw3
           in if i \<ge> length decoder_perform_sun55iw3 then (0, s)
              else
                let f = pi_ve_freq (decoder_perform_sun55iw3 ! i);
                    adjust_new_ve_freq = (if f = VE_PERFORMANCE_MAX_FREQ then user_setting_ve_freq s else f)
                in (0, snd (setup_ve_freq set_rate adjust_new_ve_freq s)))"

section \<open>The rate the fuses allow\<close>

record ve_dvfs_info =
  dvfs_index :: u32
  dvfs_voltage :: u32
  dvfs_ve_freq :: u32

definition SUN55IW3_CHIP_ID_A523M :: u32 where
  "SUN55IW3_CHIP_ID_A523M = 0x5200"

definition SUN55IW3_DVFS_VE_VF0 :: u32 where "SUN55IW3_DVFS_VE_VF0 = 0x00"
definition SUN55IW3_DVFS_VE_VF1 :: u32 where "SUN55IW3_DVFS_VE_VF1 = 0x01"
definition SUN55IW3_DVFS_VE_VF2 :: u32 where "SUN55IW3_DVFS_VE_VF2 = 0x02"
definition SUN55IW3_DVFS_VE_VF2_1 :: u32 where "SUN55IW3_DVFS_VE_VF2_1 = 0x12"
definition SUN55IW3_DVFS_VE_VF3 :: u32 where "SUN55IW3_DVFS_VE_VF3 = 0x04"
definition SUN55IW3_DVFS_VE_VF3_1 :: u32 where "SUN55IW3_DVFS_VE_VF3_1 = 0x14"
definition SUN55IW3_DVFS_VE_VF4 :: u32 where "SUN55IW3_DVFS_VE_VF4 = 0x05"
definition SUN55IW3_DVFS_VE_VF5 :: u32 where "SUN55IW3_DVFS_VE_VF5 = 0x06"

lemmas vf_defs = SUN55IW3_CHIP_ID_A523M_def SUN55IW3_DVFS_VE_VF0_def SUN55IW3_DVFS_VE_VF1_def SUN55IW3_DVFS_VE_VF2_def
  SUN55IW3_DVFS_VE_VF2_1_def SUN55IW3_DVFS_VE_VF3_def SUN55IW3_DVFS_VE_VF3_1_def SUN55IW3_DVFS_VE_VF4_def
  SUN55IW3_DVFS_VE_VF5_def

definition dvfs_row :: "u32 \<Rightarrow> u32 \<Rightarrow> u32 \<Rightarrow> ve_dvfs_info" where
  "dvfs_row i v f = \<lparr>dvfs_index = i, dvfs_voltage = v, dvfs_ve_freq = f\<rparr>"

definition ve_dvfs_sun55iw3 :: "ve_dvfs_info list" where
  "ve_dvfs_sun55iw3 =
     [dvfs_row 0x00 0 498,
      dvfs_row SUN55IW3_DVFS_VE_VF0 900 498,
      dvfs_row SUN55IW3_DVFS_VE_VF1 920 520,
      dvfs_row SUN55IW3_DVFS_VE_VF2 920 520,
      dvfs_row SUN55IW3_DVFS_VE_VF2_1 920 520,
      dvfs_row SUN55IW3_DVFS_VE_VF3 920 520,
      dvfs_row SUN55IW3_DVFS_VE_VF3_1 920 520,
      dvfs_row SUN55IW3_DVFS_VE_VF4 920 576,
      dvfs_row SUN55IW3_DVFS_VE_VF5 920 432]"

definition map_max_ve_freq_by_vf_sun55iw3 :: "u32 \<Rightarrow> u32 \<Rightarrow> dvfs_state \<Rightarrow> u32" where
  "map_max_ve_freq_by_vf_sun55iw3 dvfs chip_id s =
     (let bak_dvfs = drop_bit 12 dvfs AND 0xff;
          combi_dvfs = (if bak_dvfs \<noteq> 0 then bak_dvfs else drop_bit 4 dvfs AND 0xff);
          chip_id = chip_id AND 0xffff;
          combi_dvfs = (if combi_dvfs = 0 then
                          if chip_id = SUN55IW3_CHIP_ID_A523M then SUN55IW3_DVFS_VE_VF0 else SUN55IW3_DVFS_VE_VF1
                        else combi_dvfs);
          find = (\<lambda>vf. scan (\<lambda>r. dvfs_index r = vf \<and> dvfs_voltage r = of_int (voltage s)) ve_dvfs_sun55iw3);
          i = find combi_dvfs;
          i = (if i \<ge> length ve_dvfs_sun55iw3 then find SUN55IW3_DVFS_VE_VF1 else i)
      in if i < length ve_dvfs_sun55iw3 then dvfs_ve_freq (ve_dvfs_sun55iw3 ! i)
         else dvfs_ve_freq (ve_dvfs_sun55iw3 ! 0))"

section \<open>The table of load parameters is a slot table\<close>

definition load_hit :: "int \<times> u32 \<Rightarrow> ve_case_load_info \<Rightarrow> bool" where
  "load_hit k x \<longleftrightarrow> is_used x = 1 \<and> fst k = lp_thread_channel_id (load_param x) \<and> snd k = li_process_channel_id x"

interpretation load: slot_table load_hit "\<lambda>x. is_used x = 0" "\<lambda>_. True" zero_load_info
  by unfold_locales (auto simp: load_hit_def zero_load_info_def prod_eq_iff)

lemma load_info_full:
  "(x :: ve_case_load_info)\<lparr>load_param := p, li_process_channel_id := c, is_used := 1\<rparr> =
     \<lparr>load_param = p, is_used = 1, li_process_channel_id = c\<rparr>"
  by (cases x) simp

lemma update_slot:
  "update_case_load_param_sun55iw3 p c s =
     (case load.slot_for (lp_thread_channel_id p, c) (load_infos s) of
        None \<Rightarrow> (- 1, s)
      | Some i \<Rightarrow> (0, s\<lparr>load_infos := (load_infos s)[i := (if lp_is_remove_cur_param p = 1 then zero_load_info
           else \<lparr>load_param = p, is_used = 1, li_process_channel_id = c\<rparr>)]\<rparr>))"
proof -
  have "load_hit (lp_thread_channel_id p, c) = (\<lambda>x. is_used x = 1 \<and> lp_thread_channel_id p = lp_thread_channel_id (load_param x) \<and>
      c = li_process_channel_id x)"
    by (auto simp: load_hit_def fun_eq_iff)
  then show ?thesis
    by (simp add: update_case_load_param_sun55iw3_def load.slot_for_def load_info_full Let_def)
qed

text \<open>
  The abstract state: which parameters are reported for a thread channel of a process channel.
\<close>

definition load_of :: "dvfs_state \<Rightarrow> int \<times> u32 \<Rightarrow> ve_case_load_param option" where
  "load_of s k = map_option load_param (load.lookup (load_infos s) k)"

definition dvfs_inv :: "dvfs_state \<Rightarrow> bool" where
  "dvfs_inv s \<longleftrightarrow> length (load_infos s) = MAX_VE_LOAD_PARAM_CHANNEL \<and>
     (\<forall>x \<in> set (load_infos s). is_used x = 0 \<or> is_used x = 1) \<and> load.unique (load_infos s)"

lemma slot_flags:
  assumes "dvfs_inv s" "is_used x = 0 \<or> is_used x = 1"
  shows "\<forall>y \<in> set ((load_infos s)[i := x]). is_used y = 0 \<or> is_used y = 1"
  using assms set_update_subset_insert [of "load_infos s" i x] by (auto simp: dvfs_inv_def)

lemma update_load_map:
  assumes "dvfs_inv s" "update_case_load_param_sun55iw3 p c s = (r, s')"
  shows "dvfs_inv s' \<and>
    (if load_of s (lp_thread_channel_id p, c) = None \<and> (\<forall>x \<in> set (load_infos s). is_used x = 1) then r = - 1 \<and> s' = s
     else r = 0 \<and> load_of s' = (load_of s)(
       (lp_thread_channel_id p, c) := (if lp_is_remove_cur_param p = 1 then None else Some p)))"
proof -
  let ?k = "(lp_thread_channel_id p, c)" and ?xs = "load_infos s"
  have u: "load.unique ?xs" and fl: "\<forall>x \<in> set ?xs. is_used x = 0 \<or> is_used x = 1"
    using assms(1) by (auto simp: dvfs_inv_def)
  show ?thesis
  proof (cases "load.slot_for ?k ?xs")
    case None
    then have "r = - 1" "s' = s" using assms(2) by (auto simp: update_slot)
    moreover have "load_of s ?k = None \<and> (\<forall>x \<in> set ?xs. is_used x = 1)"
      using None fl by (auto simp: load.slot_for_None load_of_def)
    ultimately show ?thesis using assms(1) by simp
  next
    case (Some i)
    have i: "i < length ?xs" using Some by (rule load.slot_for_less)
    have cond: "\<not> (load_of s ?k = None \<and> (\<forall>x \<in> set ?xs. is_used x = 1))"
      using load.slot_for_cases [OF Some] i nth_mem [OF i] scan_nth by (force simp: load_of_def load.lookup_None)
    show ?thesis
    proof (cases "lp_is_remove_cur_param p = 1")
      case True
      then have s': "r = 0" "s' = s\<lparr>load_infos := ?xs[i := zero_load_info]\<rparr>" using assms(2) Some by (auto simp: update_slot)
      have "load.lookup (?xs[i := zero_load_info]) k = (if k = ?k then None else load.lookup ?xs k)" for k
        using load.clear_lookup [OF u i, of k] load.slot_for_cases [OF Some] load.slot_keeps_others [OF Some, of k]
        by (auto dest: load.free_no_hit [rotated])
      then have "load_of s' = (load_of s)(?k := None)" by (auto simp: load_of_def s' fun_eq_iff)
      moreover have "dvfs_inv s'"
        using assms(1) load.clear_unique [OF u] slot_flags [OF assms(1), of zero_load_info i]
        by (simp add: dvfs_inv_def s' zero_load_info_def)
      ultimately show ?thesis using s'(1) cond True by simp
    next
      case False
      let ?x = "\<lparr>load_param = p, is_used = 1, li_process_channel_id = c\<rparr>"
      have s': "r = 0" "s' = s\<lparr>load_infos := ?xs[i := ?x]\<rparr>" using False assms(2) Some by (auto simp: update_slot)
      have h: "load_hit ?k ?x" by (simp add: load_hit_def)
      have "load_of s' = (load_of s)(?k := Some p)"
        using load.put_lookup [OF u TrueI Some h TrueI] by (auto simp: load_of_def s' fun_eq_iff)
      moreover have "dvfs_inv s'"
        using assms(1) load.put_unique [OF u TrueI Some h] slot_flags [OF assms(1), of ?x i] by (simp add: dvfs_inv_def s')
      ultimately show ?thesis using s'(1) cond False by simp
    qed
  qed
qed

text \<open>
  C20.  The sixteen slots implement a finite map from thread and process channels to load parameters:
  an update binds its own channel and no other, a removal unbinds it and no other, and the update is
  refused (with \<open>-1\<close>, changing nothing) exactly when the channel is unknown and all slots are taken.
  The invariant that no channel occupies two slots is kept.
\<close>

theorem update_load_correct:
  assumes "dvfs_inv s" "update_case_load_param_sun55iw3 p c s = (r, s')"
  shows "dvfs_inv s' \<and>
    (if load_of s (lp_thread_channel_id p, c) = None \<and> (\<forall>x \<in> set (load_infos s). is_used x = 1) then r = - 1 \<and> s' = s
     else r = 0 \<and> load_of s' = (load_of s)(
       (lp_thread_channel_id p, c) := (if lp_is_remove_cur_param p = 1 then None else Some p)))"
  using assms by (rule update_load_map)

definition ex_load :: "int \<Rightarrow> int \<Rightarrow> int \<Rightarrow> int \<Rightarrow> ve_case_load_param" where
  "ex_load w h fmt th = \<lparr>lp_width = w, lp_height = h, lp_frame_rate = 30, lp_codec_format = fmt, lp_is_remove_cur_param = 0,
     lp_thread_channel_id = th\<rparr>"

definition ex_dvfs :: dvfs_state where
  "ex_dvfs = \<lparr>load_infos = replicate 16 zero_load_info, user_setting_ve_freq = 600, ve_rate = 600000000, voltage = 920\<rparr>"

lemma ex_dvfs_inv: "dvfs_inv ex_dvfs"
  by (auto simp: dvfs_inv_def ex_dvfs_def MAX_VE_LOAD_PARAM_CHANNEL_def zero_load_info_def load.unique_def load_hit_def)

theorem update_load_correct_witness:
  "load_of (snd (update_case_load_param_sun55iw3 (ex_load 1920 1080 2 7) 3 ex_dvfs)) (7, 3) = Some (ex_load 1920 1080 2 7)"
proof -
  have "\<exists>x \<in> set (load_infos ex_dvfs). is_used x \<noteq> 1" by (simp add: ex_dvfs_def zero_load_info_def)
  with update_load_correct [OF ex_dvfs_inv prod.collapse [symmetric], of "ex_load 1920 1080 2 7" 3]
  show ?thesis by (auto simp: ex_load_def split: if_splits)
qed

text \<open>
  Releasing a process channel removes the load of one of its thread channels only: a process that
  reported two threads leaves the second one behind, and the removal changes no other process.
\<close>

theorem remove_first_only:
  assumes "dvfs_inv s" "load_of s (t1, c) = Some p1" "load_of s (t2, c) = Some p2" "t1 \<noteq> t2"
  defines "s' \<equiv> remove_case_load_param_by_process_id_sun55iw3 c s"
  shows "(load_of s' (t1, c) \<noteq> None \<or> load_of s' (t2, c) \<noteq> None) \<and>
    (\<exists>t. load_of s (t, c) \<noteq> None \<and> load_of s' = (load_of s)((t, c) := None))"
proof -
  let ?P = "\<lambda>x. is_used x = 1 \<and> c = li_process_channel_id x" and ?xs = "load_infos s"
  let ?i = "scan ?P ?xs"
  have u: "load.unique ?xs" using assms(1) by (simp add: dvfs_inv_def)
  obtain y where "load.lookup ?xs (t1, c) = Some y" using assms(2) by (auto simp: load_of_def)
  then obtain j where "j < length ?xs" "load_hit (t1, c) (?xs ! j)" by (rule load.lookup_SomeE)
  then have i: "?i < length ?xs" using scan_less [of ?P ?xs] by (auto simp: load_hit_def)
  let ?t = "lp_thread_channel_id (load_param (?xs ! ?i))"
  have h: "load_hit (?t, c) (?xs ! ?i)" using scan_nth [OF i] by (simp add: load_hit_def)
  have s': "s' = s\<lparr>load_infos := ?xs[?i := zero_load_info]\<rparr>"
    using i by (simp add: s'_def remove_case_load_param_by_process_id_sun55iw3_def Let_def)
  have "load_hit k (?xs ! ?i) \<longleftrightarrow> k = (?t, c)" for k using h load.hit_inj by blast
  then have eq: "load_of s' = (load_of s)((?t, c) := None)"
    using load.clear_lookup [OF u i TrueI] by (auto simp: load_of_def s' fun_eq_iff)
  moreover have "load_of s (?t, c) \<noteq> None" using load.lookup_SomeI [OF u TrueI i h] by (simp add: load_of_def)
  ultimately show ?thesis using assms(2-4) by auto
qed

definition ex_dvfs2 :: dvfs_state where
  "ex_dvfs2 = ex_dvfs\<lparr>load_infos :=
     [\<lparr>load_param = ex_load 1920 1080 2 7, is_used = 1, li_process_channel_id = 3\<rparr>,
      \<lparr>load_param = ex_load 1280 720 2 8, is_used = 1, li_process_channel_id = 3\<rparr>] @ replicate 14 zero_load_info\<rparr>"

lemma ex_dvfs2_inv: "dvfs_inv ex_dvfs2"
proof -
  have "\<not> load_hit k (load_infos ex_dvfs2 ! i)" if "2 \<le> i" "i < 16" for i k
    using that by (simp add: ex_dvfs2_def load_hit_def zero_load_info_def nth_Cons')
  moreover have "load_hit k (load_infos ex_dvfs2 ! 0) \<longleftrightarrow> k = (7, 3)" "load_hit k (load_infos ex_dvfs2 ! 1) \<longleftrightarrow> k = (8, 3)" for k
    by (auto simp: ex_dvfs2_def load_hit_def ex_load_def prod_eq_iff)
  moreover have "length (load_infos ex_dvfs2) = 16" by (simp add: ex_dvfs2_def)
  ultimately have key: "i = 0 \<and> k = (7, 3) \<or> i = 1 \<and> k = (8, 3)"
    if "i < length (load_infos ex_dvfs2)" "load_hit k (load_infos ex_dvfs2 ! i)" for i k
    using that less_2_cases [of i] by (cases "2 \<le> i"; cases k) auto
  have "load.unique (load_infos ex_dvfs2)"
    unfolding load.unique_def
  proof (intro allI impI)
    fix k i j
    assume "i < length (load_infos ex_dvfs2)" "j < length (load_infos ex_dvfs2)"
      "load_hit k (load_infos ex_dvfs2 ! i)" "load_hit k (load_infos ex_dvfs2 ! j)"
    then show "i = j" using key [of i k] key [of j k] by auto
  qed
  then show ?thesis by (auto simp: dvfs_inv_def ex_dvfs2_def MAX_VE_LOAD_PARAM_CHANNEL_def zero_load_info_def)
qed

theorem remove_first_only_witness:
  "\<exists>t. load_of (remove_case_load_param_by_process_id_sun55iw3 3 ex_dvfs2) (t, 3) \<noteq> None"
proof -
  have "load_of ex_dvfs2 (7, 3) = Some (ex_load 1920 1080 2 7)" "load_of ex_dvfs2 (8, 3) = Some (ex_load 1280 720 2 8)"
    by (simp_all add: load_of_def load.lookup_def ex_dvfs2_def load_hit_def ex_load_def)
  from remove_first_only [OF ex_dvfs2_inv this] show ?thesis by auto
qed

section \<open>Choosing the rate\<close>

definition rate_for :: "int \<Rightarrow> u32 \<Rightarrow> int option" where
  "rate_for fmt pixels =
     (let i = scan (perform_match fmt pixels) decoder_perform_sun55iw3
      in if i < length decoder_perform_sun55iw3 then Some (pi_ve_freq (decoder_perform_sun55iw3 ! i)) else None)"

definition level_rate :: "int \<Rightarrow> int \<Rightarrow> nat \<Rightarrow> int option" where
  "level_rate low mid px =
     (if px \<le> 56524800 then Some low else if px \<le> 62668800 then Some mid else if px \<le> 125337600 then Some 350
      else if px \<le> 1990656000 then Some 900 else None)"

lemma pixel_bounds:
  "px \<le> LEVELE_1_END_PIXELS \<longleftrightarrow> unat px \<le> 56524800" "LEVELE_1_START_PIXELS \<le> px"
  "LEVELE_2_START_PIXELS \<le> px \<longleftrightarrow> 56524800 < unat px" "px \<le> LEVELE_2_END_PIXELS \<longleftrightarrow> unat px \<le> 62668800"
  "LEVELE_3_START_PIXELS \<le> px \<longleftrightarrow> 62668800 < unat px" "px \<le> LEVELE_3_END_PIXELS \<longleftrightarrow> unat px \<le> 125337600"
  "LEVELE_4_START_PIXELS \<le> px \<longleftrightarrow> 125337600 < unat px" "px \<le> LEVELE_MAX_END_PIXELS \<longleftrightarrow> unat px \<le> 1990656000"
  by (auto simp: level_defs word_le_nat_alt)

lemma rate_for_levels:
  "rate_for VE_DECODER_FORMAT_H264 px = level_rate 100 200 (unat px)"
  "rate_for VE_DECODER_FORMAT_H265 px = level_rate 100 150 (unat px)"
  "rate_for VE_DECODER_FORMAT_VP9 px = level_rate 150 200 (unat px)"
  "rate_for VE_DECODER_FORMAT_OTHER px = (if unat px \<le> 1990656000 then Some 900 else None)"
  by (auto simp: rate_for_def decoder_perform_sun55iw3_def perform_match_def perform_row_def pixel_bounds format_defs
      VE_PERFORMANCE_MAX_FREQ_def level_rate_def)

definition codec_rate :: "int \<Rightarrow> nat \<Rightarrow> int option" where
  "codec_rate fmt px =
     (if fmt = VE_DECODER_FORMAT_H264 then level_rate 100 200 px
      else if fmt = VE_DECODER_FORMAT_H265 then level_rate 100 150 px
      else if fmt = VE_DECODER_FORMAT_VP9 then level_rate 150 200 px
      else if px \<le> 1990656000 then Some 900 else None)"

definition decoder_formats :: "int set" where
  "decoder_formats = {VE_DECODER_FORMAT_H264, VE_DECODER_FORMAT_H265, VE_DECODER_FORMAT_VP9, VE_DECODER_FORMAT_OTHER}"

lemma rate_for_codec: "fmt \<in> decoder_formats \<Longrightarrow> rate_for fmt px = codec_rate fmt (unat px)"
  using rate_for_levels [of px] by (auto simp: decoder_formats_def codec_rate_def format_defs)

lemma codec_rate_mono:
  assumes "codec_rate fmt px = Some f" "codec_rate fmt px' = Some f'" "px \<le> px'"
  shows "f \<le> f'"
  using assms by (auto simp: codec_rate_def level_rate_def split: if_splits)

definition used_loads :: "dvfs_state \<Rightarrow> ve_case_load_info list" where
  "used_loads s = filter (\<lambda>x. is_used x = 1) (load_infos s)"

definition pixels_of :: "ve_case_load_info \<Rightarrow> int" where
  "pixels_of x = (let p = load_param x
     in lp_width p * lp_height p * (if lp_frame_rate p \<le> 0 then 60 else lp_frame_rate p))"

lemma fold_add_load_used: "fold add_load xs a = fold add_load (filter (\<lambda>x. is_used x = 1) xs) a"
  by (induction xs arbitrary: a) (simp_all add: add_load_def)

lemma used_fixed: "filter (\<lambda>x. is_used x = 1) (map fix_frame_rate xs) = map fix_frame_rate (filter (\<lambda>x. is_used x = 1) xs)"
  by (induction xs) (simp_all add: fix_frame_rate_def)

lemma fixed_sel:
  "is_used (fix_frame_rate x) = is_used x" "lp_codec_format (load_param (fix_frame_rate x)) = lp_codec_format (load_param x)"
  "is_used x = 1 \<Longrightarrow> lp_width (load_param (fix_frame_rate x)) * lp_height (load_param (fix_frame_rate x)) *
     lp_frame_rate (load_param (fix_frame_rate x)) = pixels_of x"
  by (simp_all add: fix_frame_rate_def pixels_of_def Let_def)

definition load_summary :: "dvfs_state \<Rightarrow> load_sum" where
  "load_summary s = fold add_load (map fix_frame_rate (load_infos s)) no_load"

lemma load_summary_used:
  "load_summary s = fold add_load (map fix_frame_rate (used_loads s)) no_load"
  unfolding load_summary_def used_loads_def by (subst fold_add_load_used) (simp only: used_fixed)

lemma add_fixed:
  assumes "is_used x = 1"
  shows "add_load (fix_frame_rate x) a =
    (let fmt = lp_codec_format (load_param x); prev = (if previous_codec_format a = - 1 then fmt else previous_codec_format a)
     in a\<lparr>previous_codec_format := prev, had_different_codec_channel := had_different_codec_channel a \<or> prev \<noteq> fmt,
          decoder_channel_num := decoder_channel_num a + (if fmt < VE_DECODER_FORMAT_MAX then 1 else 0),
          encoder_channel_num := encoder_channel_num a + (if fmt < VE_DECODER_FORMAT_MAX then 0 else 1),
          cur_codec_format := fmt, total_load_pixels := total_load_pixels a + of_int (pixels_of x)\<rparr>)"
  using assms by (simp add: add_load_def fixed_sel Let_def del: of_int_mult)

lemma summary_single_codec:
  assumes "length (used_loads s) = 1 \<or> length (used_loads s) = 2"
    and "\<forall>x \<in> set (used_loads s). lp_codec_format (load_param x) = fmt" "fmt \<in> decoder_formats"
  shows "load_summary s = \<lparr>total_load_pixels = of_int (sum_list (map pixels_of (used_loads s))),
    decoder_channel_num = length (used_loads s), encoder_channel_num = 0, had_different_codec_channel = False,
    previous_codec_format = fmt, cur_codec_format = fmt\<rparr>"
proof -
  have f: "fmt < VE_DECODER_FORMAT_MAX" "fmt \<noteq> - 1" using assms(3) by (auto simp: decoder_formats_def format_defs)
  have us: "\<forall>x \<in> set (used_loads s). is_used x = 1" by (simp add: used_loads_def)
  obtain x ys where x: "used_loads s = x # ys" "ys = [] \<or> (\<exists>y. ys = [y])"
    using assms(1) by (cases "used_loads s"; cases "tl (used_loads s)") auto
  then show ?thesis
    using assms(2) us f by (auto simp: load_summary_used add_fixed no_load_def Let_def)
qed

text \<open>
  C22.  With one or two decoders of the same codec, a load within the table's range and without any
  encoder, the clock is set to the rate of the codec's level for the total number of pixels per
  second (frame rates that are not positive count as 60): four levels for H.264, H.265 and VP9, the
  user's own setting for the top level.  A larger load never lowers the rate.
\<close>

theorem adjust_single_codec:
  assumes "length (used_loads s) = 1 \<or> length (used_loads s) = 2"
    and "\<forall>x \<in> set (used_loads s). lp_codec_format (load_param x) = fmt" "fmt \<in> decoder_formats"
    and "0 \<le> sum_list (map pixels_of (used_loads s))" "sum_list (map pixels_of (used_loads s)) \<le> 1990656000"
  shows "\<exists>f. codec_rate fmt (nat (sum_list (map pixels_of (used_loads s)))) = Some f \<and>
    adjust_ve_freq_by_case_load_sun55iw3 set_rate s = (0, snd (setup_ve_freq set_rate
      (if f = VE_PERFORMANCE_MAX_FREQ then user_setting_ve_freq s else f) (s\<lparr>load_infos := map fix_frame_rate (load_infos s)\<rparr>))) \<and>
    (\<forall>px f'. nat (sum_list (map pixels_of (used_loads s))) \<le> px \<longrightarrow> codec_rate fmt px = Some f' \<longrightarrow> f \<le> f')"
proof -
  let ?T = "sum_list (map pixels_of (used_loads s))"
  have u: "unat (of_int ?T :: u32) = nat ?T"
    using assms(4,5) by (simp add: unat_eq_nat_uint uint_word_of_int take_bit_int_eq_self)
  have "nat ?T \<le> 1990656000" using assms(5) by linarith
  then have "codec_rate fmt (nat ?T) \<noteq> None" by (simp add: codec_rate_def level_rate_def)
  then obtain f where f: "codec_rate fmt (nat ?T) = Some f" by blast
  then have "rate_for fmt (of_int ?T) = Some f" using rate_for_codec [OF assms(3)] u by simp
  then have i: "scan (perform_match fmt (of_int ?T)) decoder_perform_sun55iw3 < length decoder_perform_sun55iw3"
    "pi_ve_freq (decoder_perform_sun55iw3 ! scan (perform_match fmt (of_int ?T)) decoder_perform_sun55iw3) = f"
    by (auto simp: rate_for_def Let_def split: if_splits)
  have "adjust_ve_freq_by_case_load_sun55iw3 set_rate s = (0, snd (setup_ve_freq set_rate
      (if f = VE_PERFORMANCE_MAX_FREQ then user_setting_ve_freq s else f) (s\<lparr>load_infos := map fix_frame_rate (load_infos s)\<rparr>)))"
    using assms(1) i summary_single_codec [OF assms(1-3)]
    by (auto simp: adjust_ve_freq_by_case_load_sun55iw3_def Let_def simp flip: load_summary_def)
  with f codec_rate_mono [OF f] show ?thesis by blast
qed

theorem adjust_single_codec_witness:
  "adjust_ve_freq_by_case_load_sun55iw3 Some ex_dvfs2 = (0, ex_dvfs2\<lparr>ve_rate := 350000000\<rparr>)"
proof -
  have u: "used_loads ex_dvfs2 = take 2 (load_infos ex_dvfs2)"
    by (simp add: used_loads_def ex_dvfs2_def zero_load_info_def)
  have t: "sum_list (map pixels_of (used_loads ex_dvfs2)) = 89856000"
    unfolding u by (simp add: ex_dvfs2_def pixels_of_def ex_load_def)
  have fx: "ex_dvfs2\<lparr>load_infos := map fix_frame_rate (load_infos ex_dvfs2)\<rparr> = ex_dvfs2"
    by (simp add: ex_dvfs2_def fix_frame_rate_def ex_load_def zero_load_info_def)
  have l: "length (used_loads ex_dvfs2) = 2" "\<forall>x \<in> set (used_loads ex_dvfs2). lp_codec_format (load_param x) = 2"
    unfolding u by (simp_all add: ex_dvfs2_def ex_load_def)
  have r: "codec_rate 2 89856000 = Some 350" by (simp add: codec_rate_def format_defs level_rate_def)
  have "snd (setup_ve_freq Some 350 ex_dvfs2) = ex_dvfs2\<lparr>ve_rate := 350000000\<rparr>"
    by (simp add: setup_ve_freq_def VE_CLK_LOW_WATER_def VE_CLK_HIGH_WATER_def)
  then show ?thesis
    using adjust_single_codec [of ex_dvfs2 2 Some] l r
    by (simp add: t fx decoder_formats_def format_defs VE_PERFORMANCE_MAX_FREQ_def)
qed

definition chip_vf :: "u32 \<Rightarrow> u32 \<Rightarrow> u32" where
  "chip_vf dvfs chip_id =
     (if drop_bit 12 dvfs AND 0xff \<noteq> 0 then drop_bit 12 dvfs AND 0xff
      else if drop_bit 4 dvfs AND 0xff \<noteq> 0 then drop_bit 4 dvfs AND 0xff
      else if chip_id AND 0xffff = SUN55IW3_CHIP_ID_A523M then SUN55IW3_DVFS_VE_VF0 else SUN55IW3_DVFS_VE_VF1)"

text \<open>
  C23.  The rate the fuses allow, in closed form: at 920 mV it is 576 MHz for \<open>VF4\<close>, 432 MHz for \<open>VF5\<close>
  and 520 MHz for every other grade, known or not; at any other voltage it is 498 MHz.  The search
  through the table and its two fallbacks compute exactly this, for all fuse values.
\<close>

theorem max_ve_freq_closed_form:
  "map_max_ve_freq_by_vf_sun55iw3 dvfs chip_id s =
     (if (of_int (voltage s) :: u32) = 920 then
        if chip_vf dvfs chip_id = SUN55IW3_DVFS_VE_VF4 then 576
        else if chip_vf dvfs chip_id = SUN55IW3_DVFS_VE_VF5 then 432 else 520
      else 498)"
proof -
  have vf: "(let bak = drop_bit 12 dvfs AND 0xff; combi = (if bak \<noteq> 0 then bak else drop_bit 4 dvfs AND 0xff)
      in if combi = 0 then if chip_id AND 0xffff = SUN55IW3_CHIP_ID_A523M then SUN55IW3_DVFS_VE_VF0 else SUN55IW3_DVFS_VE_VF1
         else combi) = chip_vf dvfs chip_id"
    by (simp add: chip_vf_def Let_def)
  have "map_max_ve_freq_by_vf_sun55iw3 dvfs chip_id s =
    (let find = (\<lambda>vf. scan (\<lambda>r. dvfs_index r = vf \<and> dvfs_voltage r = of_int (voltage s)) ve_dvfs_sun55iw3);
         i = find (chip_vf dvfs chip_id); i = (if i \<ge> length ve_dvfs_sun55iw3 then find SUN55IW3_DVFS_VE_VF1 else i)
     in if i < length ve_dvfs_sun55iw3 then dvfs_ve_freq (ve_dvfs_sun55iw3 ! i) else dvfs_ve_freq (ve_dvfs_sun55iw3 ! 0))"
    by (simp add: map_max_ve_freq_by_vf_sun55iw3_def Let_def flip: vf)
  then show ?thesis
    by (simp add: ve_dvfs_sun55iw3_def dvfs_row_def vf_defs Let_def)
qed

end
