(* ===== verification/Cedar_Power.thy ===== *)
theory Cedar_Power
  imports Cedar_Irq
begin

text \<open>
  The power switch of the VE (\<open>VE_POWER_MANAGE_VALID\<close>): \<open>ve_power_manage_setup\<close>,
  \<open>ve_power_manage_shutdown\<close> and the ioctls that count their users.  The register block is addressed
  through an \<open>unsigned int\<close> pointer with an index computed by dividing the byte offset by the size of
  a pointer, \<open>psize\<close>, which gives the intended byte offset only where pointers have four bytes.  The
  source names the block \<open>cedar_devp->prcm_bass_vir\<close>; the member that exists, and that the probe maps, is
  \<open>iomap_addrs.prcm_bass_vir\<close>, and offsets are relative to it.
\<close>

datatype reset_op = reset_control_deassert | reset_control_assert

definition power_off_gating_reg :: "nat \<Rightarrow> u32" where
  "power_off_gating_reg psize = of_nat (4 * (0x258 div psize))"

definition power_switch_reg :: "nat \<Rightarrow> u32" where
  "power_switch_reg psize = of_nat (4 * (0x264 div psize))"

definition ve_power_manage_setup :: "hw \<Rightarrow> nat \<Rightarrow> trace \<Rightarrow> int \<times> reset_op list \<times> trace" where
  "ve_power_manage_setup hw psize t =
     (let (r, t) = readl hw (power_switch_reg psize) t;
          r = push_bit 16 (drop_bit 16 r);
          t = writel r (power_switch_reg psize) t;
          (r, t) = readl hw (power_switch_reg psize) t;
          ret = (if drop_bit 16 r = 0 then 0 else - 1);
          (r, t) = readl hw (power_off_gating_reg psize) t;
          t = writel (r AND NOT 1) (power_off_gating_reg psize) t;
          (r, t) = readl hw (power_off_gating_reg psize) t
      in (ret, [reset_control_deassert, reset_control_assert], t))"

text \<open>
  The polling loop: \<open>n\<close> is the number of rounds left (\<open>max_count - count\<close>), \<open>r\<close> the value last read.
\<close>

fun power_poll :: "hw \<Rightarrow> u32 \<Rightarrow> nat \<Rightarrow> u32 \<Rightarrow> trace \<Rightarrow> u32 \<times> trace" where
  "power_poll hw off 0 r t = (r, t)"
| "power_poll hw off (Suc n) r t =
     (let (r, t) = readl hw off (t @ replicate 5 Udelay)
      in if drop_bit 16 r \<noteq> 0xffff then power_poll hw off n r t else (r, t))"

definition max_count :: nat where
  "max_count = 1000"

definition ve_power_manage_shutdown :: "hw \<Rightarrow> nat \<Rightarrow> trace \<Rightarrow> int \<times> reset_op list \<times> trace" where
  "ve_power_manage_shutdown hw psize t =
     (let (r, t) = readl hw (power_off_gating_reg psize) t;
          t = writel (r OR 1) (power_off_gating_reg psize) t;
          (r, t) = readl hw (power_off_gating_reg psize) t;
          (r, t) = readl hw (power_switch_reg psize) t;
          t = writel (push_bit 16 (drop_bit 16 r) OR 0xffff) (power_switch_reg psize) t;
          (r, t) = power_poll hw (power_switch_reg psize) max_count 0 t
      in (if drop_bit 16 r = 0xffff then 0 else - 1, [reset_control_deassert, reset_control_assert], t))"

text \<open>
  The users are counted in an \<open>unsigned\<close> number; the switch is operated at the transitions to and
  from zero.
\<close>

definition ioctl_power_setup :: "hw \<Rightarrow> nat \<Rightarrow> u32 \<times> trace \<Rightarrow> u32 \<times> trace" where
  "ioctl_power_setup hw psize = (\<lambda>(power_manage_request_ref, t).
     let t = (if power_manage_request_ref = 0 then snd (snd (ve_power_manage_setup hw psize t)) else t)
     in (power_manage_request_ref + 1, t))"

definition ioctl_power_shutdown :: "hw \<Rightarrow> nat \<Rightarrow> u32 \<times> trace \<Rightarrow> u32 \<times> trace" where
  "ioctl_power_shutdown hw psize = (\<lambda>(power_manage_request_ref, t).
     let power_manage_request_ref = power_manage_request_ref - 1;
         t = (if power_manage_request_ref = 0 then snd (snd (ve_power_manage_shutdown hw psize t)) else t)
     in (power_manage_request_ref, t))"

section \<open>The polling loop\<close>

definition rounds :: "u32 \<Rightarrow> nat \<Rightarrow> trace" where
  "rounds off k = concat (replicate k (replicate 5 Udelay @ [Rd off]))"

definition poll_value :: "hw \<Rightarrow> u32 \<Rightarrow> trace \<Rightarrow> nat \<Rightarrow> u32" where
  "poll_value hw off t k = reg hw (t @ rounds off k @ replicate 5 Udelay) off"

lemma rounds_Suc: "rounds off (Suc k) = replicate 5 Udelay @ Rd off # rounds off k"
  by (simp add: rounds_def)

lemma poll_value_shift: "poll_value hw off (t @ replicate 5 Udelay @ [Rd off]) k = poll_value hw off t (Suc k)"
  by (simp add: poll_value_def rounds_Suc)

lemma power_poll_exits:
  assumes "k < n" "drop_bit 16 (poll_value hw off t k) = 0xffff" "\<And>j. j < k \<Longrightarrow> drop_bit 16 (poll_value hw off t j) \<noteq> 0xffff"
  shows "power_poll hw off n r t = (poll_value hw off t k, t @ rounds off (Suc k))"
  using assms
proof (induction k arbitrary: n r t)
  case 0
  then show ?case by (cases n) (simp_all add: readl_def poll_value_def rounds_def)
next
  case (Suc k)
  obtain m where n: "n = Suc m" using Suc.prems(1) by (cases n) auto
  let ?t = "t @ replicate 5 Udelay @ [Rd off]"
  have "drop_bit 16 (reg hw (t @ replicate 5 Udelay) off) \<noteq> 0xffff"
    using Suc.prems(3) [of 0] by (simp add: poll_value_def rounds_def)
  moreover have "power_poll hw off m r' ?t = (poll_value hw off t (Suc k), ?t @ rounds off (Suc k))" for r'
    using Suc.IH [of m ?t r'] Suc.prems n poll_value_shift by auto
  ultimately show ?case by (simp add: n readl_def rounds_Suc)
qed

lemma power_poll_gives_up:
  assumes "\<And>j. j < n \<Longrightarrow> drop_bit 16 (poll_value hw off t j) \<noteq> 0xffff" "drop_bit 16 r \<noteq> 0xffff"
  shows "\<exists>v. power_poll hw off n r t = (v, t @ rounds off n) \<and> drop_bit 16 v \<noteq> 0xffff"
  using assms
proof (induction n arbitrary: r t)
  case 0
  then show ?case by (simp add: rounds_def)
next
  case (Suc n)
  let ?t = "t @ replicate 5 Udelay @ [Rd off]" and ?r = "reg hw (t @ replicate 5 Udelay) off"
  have r: "drop_bit 16 ?r \<noteq> 0xffff" using Suc.prems(1) [of 0] by (simp add: poll_value_def rounds_def)
  have "drop_bit 16 (poll_value hw off ?t j) \<noteq> 0xffff" if "j < n" for j
    using Suc.prems(1) [of "Suc j"] that poll_value_shift by simp
  from Suc.IH [OF this r] r show ?case by (simp add: readl_def rounds_Suc)
qed

text \<open>
  C29.  Shutting down always ends: after programming the switch it reads the switch register at most a
  thousand times, five microseconds apart, and stops at the first read whose upper half is all
  ones; it returns 0 exactly when there is such a read, and \<open>-1\<close> otherwise.
\<close>

theorem power_shutdown_polls:
  fixes psize :: nat
  defines "off \<equiv> power_switch_reg psize"
  shows "\<exists>t0 k ret. ve_power_manage_shutdown hw psize t = (ret, [reset_control_deassert, reset_control_assert], t0 @ rounds off k) \<and>
    k \<le> 1000 \<and> (\<forall>j. Suc j < k \<longrightarrow> drop_bit 16 (poll_value hw off t0 j) \<noteq> 0xffff) \<and>
    (ret = 0 \<longleftrightarrow> (\<exists>j < 1000. drop_bit 16 (poll_value hw off t0 j) = 0xffff)) \<and> (ret = 0 \<or> ret = - 1 \<and> k = 1000)"
proof -
  define g where "g = power_off_gating_reg psize"
  define t0 where "t0 = t @ [Rd g, Wr g (reg hw t g OR 1), Rd g, Rd off,
    Wr off (push_bit 16 (drop_bit 16 (reg hw (t @ [Rd g, Wr g (reg hw t g OR 1), Rd g]) off)) OR 0xffff)]"
  have unf: "ve_power_manage_shutdown hw psize t = (let (r, t') = power_poll hw off 1000 0 t0
      in (if drop_bit 16 r = 0xffff then 0 else - 1, [reset_control_deassert, reset_control_assert], t'))"
    by (simp add: ve_power_manage_shutdown_def readl_def writel_def Let_def t0_def g_def off_def max_count_def)
  show ?thesis
  proof (cases "\<exists>j < 1000. drop_bit 16 (poll_value hw off t0 j) = 0xffff")
    case True
    define k where "k = (LEAST j. drop_bit 16 (poll_value hw off t0 j) = 0xffff)"
    obtain j where j: "j < 1000" "drop_bit 16 (poll_value hw off t0 j) = 0xffff" using True by blast
    have k1: "drop_bit 16 (poll_value hw off t0 k) = 0xffff" unfolding k_def using j(2) by (rule LeastI)
    have k2: "drop_bit 16 (poll_value hw off t0 i) \<noteq> 0xffff" if "i < k" for i
      using that unfolding k_def by (rule not_less_Least)
    have k3: "k < 1000" using j k2 [of j] by (cases "j < k") auto
    have "power_poll hw off 1000 0 t0 = (poll_value hw off t0 k, t0 @ rounds off (Suc k))"
      using k3 k1 k2 by (rule power_poll_exits)
    then have eq: "ve_power_manage_shutdown hw psize t = (0, [reset_control_deassert, reset_control_assert], t0 @ rounds off (Suc k))"
      using k1 by (simp add: unf)
    show ?thesis
      by (rule exI [of _ t0], rule exI [of _ "Suc k"], rule exI [of _ 0]) (use eq k2 k3 True in simp)
  next
    case False
    then have "\<exists>v. power_poll hw off 1000 0 t0 = (v, t0 @ rounds off 1000) \<and> drop_bit 16 v \<noteq> 0xffff"
      by (intro power_poll_gives_up) auto
    then obtain v where v: "power_poll hw off 1000 0 t0 = (v, t0 @ rounds off 1000)" "drop_bit 16 v \<noteq> 0xffff" by blast
    show ?thesis
      by (rule exI [of _ t0], rule exI [of _ 1000], rule exI [of _ "- 1"]) (use v False in \<open>auto simp: unf\<close>)
  qed
qed

theorem power_shutdown_polls_witness:
  "fst (ve_power_manage_shutdown \<lparr>reg = (\<lambda>t off. 0xffff0000), clock = length, msecs_to_jiffies = id\<rparr> 4 []) = 0"
proof -
  let ?hw = "\<lparr>reg = (\<lambda>t off. 0xffff0000), clock = length, msecs_to_jiffies = id\<rparr> :: hw"
  obtain t0 k ret where r: "ve_power_manage_shutdown ?hw 4 [] = (ret, [reset_control_deassert, reset_control_assert],
      t0 @ rounds (power_switch_reg 4) k)"
    "ret = 0 \<longleftrightarrow> (\<exists>j < 1000. drop_bit 16 (poll_value ?hw (power_switch_reg 4) t0 j) = 0xffff)"
    using power_shutdown_polls [of ?hw 4 "[]"] by blast
  have "drop_bit 16 (poll_value ?hw (power_switch_reg 4) t0 0) = 0xffff" by (simp add: poll_value_def)
  with r show ?thesis by (auto intro: exI [of _ 0])
qed

end
