(* ===== verification/Cedar_Lock.thy ===== *)
theory Cedar_Lock
  imports Cedar_Clk Cedar_Dvfs Cedar_Power
begin

text \<open>
  Open files of the VE device and the engine locks they hold: \<open>cedardev_open\<close>, \<open>cedardev_release\<close>
  and the ioctls \<open>IOCTL_GET_LOCK\<close>, \<open>IOCTL_RELEASE_LOCK\<close>, \<open>IOCTL_SET_VOL\<close> and, with the five engine
  mutexes, \<open>IOCTL_POWER_SETUP\<close> and \<open>IOCTL_POWER_SHUTDOWN\<close>.  A file is a number; \<open>files\<close> gives its
  \<open>private_data\<close>.  A call \<open>Ret\<close>urns a value and a state, \<open>Blocks\<close> on a mutex that is held (also
  when its own file holds it), or \<open>Faults\<close> on a null pointer or an access out of bounds.  The holder of
  a mutex is the file through which it was locked (a file is used by one thread); an unlock by
  anyone else is recorded in \<open>bad_unlocks\<close> and frees the mutex, as the kernel's \<open>mutex_unlock\<close>
  does without debugging.  \<open>ve_infos\<close> counts the allocated \<open>ve_info\<close> objects.
\<close>

datatype 's outcome = Ret int 's | Blocks | Faults

definition VE_LOCK_VDEC :: u32 where "VE_LOCK_VDEC = 0x01"
definition VE_LOCK_VENC :: u32 where "VE_LOCK_VENC = 0x02"
definition VE_LOCK_JDEC :: u32 where "VE_LOCK_JDEC = 0x04"
definition VE_LOCK_00_REG :: u32 where "VE_LOCK_00_REG = 0x08"
definition VE_LOCK_04_REG :: u32 where "VE_LOCK_04_REG = 0x10"
definition VE_LOCK_PROC_INFO :: u32 where "VE_LOCK_PROC_INFO = 0x1000"

lemmas lock_type_defs = VE_LOCK_VDEC_def VE_LOCK_VENC_def VE_LOCK_JDEC_def VE_LOCK_00_REG_def VE_LOCK_04_REG_def
  VE_LOCK_PROC_INFO_def

datatype ve_mutex = lock_vdec | lock_venc | lock_jdec | lock_00_reg | lock_04_reg | lock_proc

record ve_info =
  set_vol_flag :: u32
  lock_flags :: u32
  process_channel_id :: u32

record lock_state =
  holder :: "ve_mutex \<Rightarrow> nat option"
  files :: "nat \<Rightarrow> ve_info option"
  ve_infos :: nat
  bad_unlocks :: "(nat \<times> ve_mutex) list"
  process_channel_id_cnt :: u32

definition mutex_lock :: "nat \<Rightarrow> ve_mutex \<Rightarrow> lock_state \<Rightarrow> lock_state option" where
  "mutex_lock f m s = (if holder s m = None then Some (s\<lparr>holder := (holder s)(m := Some f)\<rparr>) else None)"

definition mutex_unlock :: "nat \<Rightarrow> ve_mutex \<Rightarrow> lock_state \<Rightarrow> lock_state" where
  "mutex_unlock f m s =
     s\<lparr>holder := (holder s)(m := None),
       bad_unlocks := (if holder s m = Some f then bad_unlocks s else bad_unlocks s @ [(f, m)])\<rparr>"

section \<open>Taking and releasing an engine lock\<close>

definition mutex_of_type :: "u32 \<Rightarrow> ve_mutex option" where
  "mutex_of_type lock_type =
     (if lock_type = VE_LOCK_VDEC then Some lock_vdec
      else if lock_type = VE_LOCK_VENC then Some lock_venc
      else if lock_type = VE_LOCK_JDEC then Some lock_jdec
      else if lock_type = VE_LOCK_00_REG then Some lock_00_reg
      else if lock_type = VE_LOCK_04_REG then Some lock_04_reg
      else None)"

definition set_flags :: "nat \<Rightarrow> ve_info \<Rightarrow> u32 \<Rightarrow> lock_state \<Rightarrow> lock_state" where
  "set_flags f vi fl s = s\<lparr>files := (files s)(f \<mapsto> vi\<lparr>lock_flags := fl\<rparr>)\<rparr>"

definition ioctl_get_lock :: "nat \<Rightarrow> u64 \<Rightarrow> lock_state \<Rightarrow> lock_state outcome" where
  "ioctl_get_lock f arg s =
     (let lock_type = ucast arg :: u32 in
      case files s f of
        None \<Rightarrow> Faults
      | Some vi \<Rightarrow>
          (case (case mutex_of_type lock_type of Some m \<Rightarrow> mutex_lock f m s | None \<Rightarrow> Some s) of
             None \<Rightarrow> Blocks
           | Some s \<Rightarrow> Ret 0 (set_flags f vi (lock_flags vi OR lock_type) s)))"

definition ioctl_release_lock :: "nat \<Rightarrow> u64 \<Rightarrow> lock_state \<Rightarrow> lock_state outcome" where
  "ioctl_release_lock f arg s =
     (let lock_type = ucast arg :: u32 in
      case files s f of
        None \<Rightarrow> Faults
      | Some vi \<Rightarrow>
          if lock_flags vi AND lock_type = 0 then Ret (- 1) s
          else
            let s = set_flags f vi (lock_flags vi AND NOT lock_type) s
            in Ret 0 (case mutex_of_type lock_type of Some m \<Rightarrow> mutex_unlock f m s | None \<Rightarrow> s))"

section \<open>Opening and closing\<close>

definition close_bits :: "(u32 \<times> ve_mutex) list" where
  "close_bits = [(VE_LOCK_VDEC, lock_vdec), (VE_LOCK_VENC, lock_venc), (VE_LOCK_JDEC, lock_jdec),
     (VE_LOCK_00_REG, lock_00_reg), (VE_LOCK_04_REG, lock_04_reg), (VE_LOCK_PROC_INFO, lock_proc)]"

definition unlock_flagged :: "nat \<Rightarrow> u32 \<Rightarrow> lock_state \<Rightarrow> lock_state" where
  "unlock_flagged f fl = fold (\<lambda>(b, m) s. if fl AND b \<noteq> 0 then mutex_unlock f m s else s) close_bits"

record ve_dev =
  clk :: clk_state
  irqs :: irq_state
  dvfs :: dvfs_state
  locks :: lock_state
  voltages :: "int list"

text \<open>
  \<open>alloc\<close>: \<open>kmalloc\<close> succeeds; \<open>intr\<close>: \<open>down_interruptible\<close> is interrupted by a signal.  A file whose
  \<open>open\<close> fails does not exist, whatever its \<open>private_data\<close> holds.
\<close>

definition next_channel_id :: "u32 \<Rightarrow> u32" where
  "next_channel_id c = (let c = c + 1 in if c > 0xefffffff then 0 else c)"

definition cedardev_open :: "bool \<Rightarrow> bool \<Rightarrow> nat \<Rightarrow> 'a ve_dev_scheme \<Rightarrow> 'a ve_dev_scheme outcome" where
  "cedardev_open alloc intr f s =
     (if bInitEndFlag (clk s) \<noteq> 1 then Ret (- 1) s
      else if \<not> alloc then Ret (- ENOMEM) s
      else if spin_held (clk s) then Blocks
      else
        let c = next_channel_id (process_channel_id_cnt (locks s));
            s = s\<lparr>locks := (locks s)\<lparr>process_channel_id_cnt := c\<rparr>\<rparr>
        in case down_interruptible intr (clk s) of
             None \<Rightarrow> Blocks
           | Some (r, k) \<Rightarrow>
               if r \<noteq> 0 then Ret (- ERESTARTSYS) (s\<lparr>clk := k\<rparr>)
               else
                 let q = (if ref_count k = 0 then (irqs s)\<lparr>de_irq_flag := 0, en_irq_flag := 0, jpeg_irq_flag := 0\<rparr> else irqs s);
                     info = \<lparr>set_vol_flag = 0, lock_flags = 0, process_channel_id = c\<rparr>
                 in Ret 0 (s\<lparr>clk := up k, irqs := q,
                      locks := (locks s)\<lparr>files := (files (locks s))(f \<mapsto> info), ve_infos := Suc (ve_infos (locks s))\<rparr>\<rparr>))"

text \<open>
  \<open>dvfs_on\<close> is \<open>VE_SUPPORT_DVFS\<close>, \<open>sun9iw1\<close> is \<open>CONFIG_ARCH_SUN9IW1P1\<close> and \<open>regu_err\<close> says that
  \<open>regu\<close> is an error pointer.  The kernel drops the file whatever \<open>release\<close> returns.
\<close>

definition cedardev_release :: "bool \<Rightarrow> bool \<Rightarrow> bool \<Rightarrow> bool \<Rightarrow> nat \<Rightarrow> 'a ve_dev_scheme \<Rightarrow> 'a ve_dev_scheme outcome" where
  "cedardev_release dvfs_on sun9iw1 regu_err intr f s =
     (case files (locks s) f of
        None \<Rightarrow> Faults
      | Some info \<Rightarrow>
          let l = unlock_flagged f (lock_flags info) (locks s);
              l = l\<lparr>files := (files l)(f := None)\<rparr>;
              s = s\<lparr>locks := l\<rparr>
          in case down_interruptible intr (clk s) of
               None \<Rightarrow> Blocks
             | Some (r, k) \<Rightarrow>
                 if r \<noteq> 0 then Ret (- ERESTARTSYS) (s\<lparr>clk := k\<rparr>)
                 else
                   let vol = sun9iw1 \<and> set_vol_flag info = 1;
                       s = (if vol then s\<lparr>voltages := voltages s @ [900000]\<rparr> else s)
                   in if vol \<and> regu_err then Ret (- EINVAL) (s\<lparr>clk := k\<rparr>)
                      else
                        let q = (if ref_count k = 0 then (irqs s)\<lparr>de_irq_flag := 1, en_irq_flag := 1, jpeg_irq_flag := 1\<rparr> else irqs s);
                            d = (if dvfs_on then remove_case_load_param_by_process_id_sun55iw3 (process_channel_id info) (dvfs s) else dvfs s)
                        in Ret 0 (s\<lparr>clk := up k, irqs := q, dvfs := d, locks := l\<lparr>ve_infos := ve_infos l - 1\<rparr>\<rparr>))"

definition ioctl_set_vol :: "bool \<Rightarrow> bool \<Rightarrow> nat \<Rightarrow> int \<Rightarrow> 'a ve_dev_scheme \<Rightarrow> 'a ve_dev_scheme outcome" where
  "ioctl_set_vol sun9iw1 intr f vol s =
     (if \<not> sun9iw1 then Ret 0 s
      else
        case down_interruptible intr (clk s) of
          None \<Rightarrow> Blocks
        | Some (r, k) \<Rightarrow>
            if r \<noteq> 0 then Ret (- ERESTARTSYS) (s\<lparr>clk := k\<rparr>)
            else
              (case files (locks s) f of
                 None \<Rightarrow> Faults
               | Some info \<Rightarrow>
                   Ret 0 (s\<lparr>clk := up k, voltages := voltages s @ [vol * 1000],
                     locks := (locks s)\<lparr>files := (files (locks s))(f \<mapsto> info\<lparr>set_vol_flag := 1\<rparr>)\<rparr>\<rparr>)))"

section \<open>The power ioctls under the engine locks\<close>

definition engine_mutexes :: "ve_mutex list" where
  "engine_mutexes = [lock_vdec, lock_venc, lock_jdec, lock_00_reg, lock_04_reg]"

fun lock_all :: "nat \<Rightarrow> ve_mutex list \<Rightarrow> lock_state \<Rightarrow> lock_state option" where
  "lock_all f [] s = Some s"
| "lock_all f (m # ms) s = (case mutex_lock f m s of None \<Rightarrow> None | Some s \<Rightarrow> lock_all f ms s)"

definition unlock_all :: "nat \<Rightarrow> ve_mutex list \<Rightarrow> lock_state \<Rightarrow> lock_state" where
  "unlock_all f ms s = fold (mutex_unlock f) ms s"

definition ioctl_power_setup_locked :: "hw \<Rightarrow> nat \<Rightarrow> nat \<Rightarrow> (u32 \<times> trace) \<times> lock_state \<Rightarrow> ((u32 \<times> trace) \<times> lock_state) outcome" where
  "ioctl_power_setup_locked hw psize f = (\<lambda>((r, t), s).
     if r = 0 then
       (case lock_all f engine_mutexes s of
          None \<Rightarrow> Blocks
        | Some s \<Rightarrow> Ret 0 (ioctl_power_setup hw psize (r, t), unlock_all f engine_mutexes s))
     else Ret 0 (ioctl_power_setup hw psize (r, t), s))"

definition ioctl_power_shutdown_locked :: "hw \<Rightarrow> nat \<Rightarrow> nat \<Rightarrow> (u32 \<times> trace) \<times> lock_state \<Rightarrow> ((u32 \<times> trace) \<times> lock_state) outcome" where
  "ioctl_power_shutdown_locked hw psize f = (\<lambda>((r, t), s).
     if r - 1 = 0 then
       (case lock_all f engine_mutexes s of
          None \<Rightarrow> Blocks
        | Some s \<Rightarrow> Ret 0 (ioctl_power_shutdown hw psize (r, t), unlock_all f engine_mutexes s))
     else Ret 0 (ioctl_power_shutdown hw psize (r, t), s))"

section \<open>Flags and holders\<close>

definition lock_bit :: "ve_mutex \<Rightarrow> u32" where
  "lock_bit m = (case m of lock_vdec \<Rightarrow> VE_LOCK_VDEC | lock_venc \<Rightarrow> VE_LOCK_VENC | lock_jdec \<Rightarrow> VE_LOCK_JDEC
     | lock_00_reg \<Rightarrow> VE_LOCK_00_REG | lock_04_reg \<Rightarrow> VE_LOCK_04_REG | lock_proc \<Rightarrow> VE_LOCK_PROC_INFO)"

definition lock_index :: "ve_mutex \<Rightarrow> nat" where
  "lock_index m = (case m of lock_vdec \<Rightarrow> 0 | lock_venc \<Rightarrow> 1 | lock_jdec \<Rightarrow> 2 | lock_00_reg \<Rightarrow> 3 | lock_04_reg \<Rightarrow> 4 | lock_proc \<Rightarrow> 12)"

definition flagged :: "u32 \<Rightarrow> ve_mutex \<Rightarrow> bool" where
  "flagged fl m \<longleftrightarrow> fl AND lock_bit m \<noteq> 0"

lemma lock_bit_exp: "lock_bit m = 2 ^ lock_index m"
  by (cases m) (simp_all add: lock_bit_def lock_index_def lock_type_defs)

lemma lock_index_inj [simp]: "lock_index m = lock_index m' \<longleftrightarrow> m = m'"
  by (cases m; cases m') (simp_all add: lock_index_def)

lemma flagged_bit: "flagged fl m \<longleftrightarrow> bit fl (lock_index m)"
  by (simp add: flagged_def lock_bit_exp and_exp_eq_0_iff_not_bit)

lemma flagged_simps [simp]:
  "flagged (fl OR lock_bit m) m' \<longleftrightarrow> flagged fl m' \<or> m' = m"
  "flagged (fl AND NOT (lock_bit m)) m' \<longleftrightarrow> flagged fl m' \<and> m' \<noteq> m"
  "\<not> flagged 0 m'"
proof -
  have "lock_index m' < 32" by (cases m') (simp_all add: lock_index_def)
  then have b: "bit (lock_bit m) (lock_index m') \<longleftrightarrow> m' = m"
    by (auto simp: lock_bit_exp bit_exp_iff dest: sym)
  show "flagged (fl OR lock_bit m) m' \<longleftrightarrow> flagged fl m' \<or> m' = m"
    by (simp add: flagged_bit bit_or_iff b)
  show "flagged (fl AND NOT (lock_bit m)) m' \<longleftrightarrow> flagged fl m' \<and> m' \<noteq> m"
    using \<open>lock_index m' < 32\<close> by (simp add: flagged_bit bit_and_iff bit_not_iff b)
  show "\<not> flagged 0 m'" by (simp add: flagged_def)
qed

definition engine_mutex :: "ve_mutex \<Rightarrow> bool" where
  "engine_mutex m \<longleftrightarrow> m \<in> set engine_mutexes"

lemma type_of_mutex: "engine_mutex m \<Longrightarrow> mutex_of_type (lock_bit m) = Some m"
  by (cases m) (simp_all add: engine_mutex_def engine_mutexes_def mutex_of_type_def lock_bit_def lock_type_defs)

definition claims :: "lock_state \<Rightarrow> nat \<Rightarrow> ve_mutex \<Rightarrow> bool" where
  "claims s f m \<longleftrightarrow> (case files s f of None \<Rightarrow> False | Some vi \<Rightarrow> flagged (lock_flags vi) m)"

text \<open>
  The flags of the open files and the mutexes agree: a mutex is held by exactly the file whose flag is
  set, and nobody has unlocked a mutex of somebody else.
\<close>

definition lock_inv :: "lock_state \<Rightarrow> bool" where
  "lock_inv s \<longleftrightarrow> (\<forall>f m. holder s m = Some f \<longleftrightarrow> claims s f m) \<and> bad_unlocks s = []"

lemma lock_invD:
  assumes "lock_inv s"
  shows "holder s m = Some f \<longleftrightarrow> claims s f m" "bad_unlocks s = []"
  using assms unfolding lock_inv_def by blast+

lemma unlock_flagged_eq:
  "unlock_flagged f fl s =
     s\<lparr>holder := (\<lambda>m. if flagged fl m then None else holder s m),
       bad_unlocks := bad_unlocks s @ map (Pair f) (filter (\<lambda>m. flagged fl m \<and> holder s m \<noteq> Some f) (map snd close_bits))\<rparr>"
proof -
  have step: "fold (\<lambda>(b, m) s. if fl AND b \<noteq> 0 then mutex_unlock f m s else s) (map (\<lambda>m. (lock_bit m, m)) ms) s =
      s\<lparr>holder := (\<lambda>m. if flagged fl m \<and> m \<in> set ms then None else holder s m),
        bad_unlocks := bad_unlocks s @ map (Pair f) (filter (\<lambda>m. flagged fl m \<and> holder s m \<noteq> Some f) ms)\<rparr>"
    if "distinct ms" for ms s
    using that
  proof (induction ms arbitrary: s)
    case (Cons a ms)
    have "filter (\<lambda>m. flagged fl m \<and> holder (mutex_unlock f a s) m \<noteq> Some f) ms = filter (\<lambda>m. flagged fl m \<and> holder s m \<noteq> Some f) ms"
      using Cons.prems by (intro filter_cong) (auto simp: mutex_unlock_def)
    with Cons show ?case
      by (cases s) (auto simp: mutex_unlock_def flagged_def fun_eq_iff)
  qed simp
  have bits: "close_bits = map (\<lambda>m. (lock_bit m, m)) [lock_vdec, lock_venc, lock_jdec, lock_00_reg, lock_04_reg, lock_proc]"
    by (simp add: close_bits_def lock_bit_def)
  have all: "m \<in> set [lock_vdec, lock_venc, lock_jdec, lock_00_reg, lock_04_reg, lock_proc]" for m by (cases m) simp_all
  have snd: "map snd close_bits = [lock_vdec, lock_venc, lock_jdec, lock_00_reg, lock_04_reg, lock_proc]"
    by (simp add: close_bits_def)
  show ?thesis
    unfolding unlock_flagged_def snd unfolding bits by (subst step) (use all in \<open>auto simp: fun_eq_iff\<close>)
qed

section \<open>The operations on the lock table\<close>

text \<open>
  What the locks promise, on the table of holders alone: a free lock is taken and a held one makes the
  caller wait; a lock is released by its holder, anyone else is told \<open>-1\<close>; closing a file frees what
  it holds.
\<close>

type_synonym holders = "ve_mutex \<Rightarrow> nat option"

definition spec_get :: "nat \<Rightarrow> ve_mutex \<Rightarrow> holders \<Rightarrow> holders outcome" where
  "spec_get f m h = (if h m = None then Ret 0 (h(m \<mapsto> f)) else Blocks)"

definition spec_rel :: "nat \<Rightarrow> ve_mutex \<Rightarrow> holders \<Rightarrow> holders outcome" where
  "spec_rel f m h = (if h m = Some f then Ret 0 (h(m := None)) else Ret (- 1) h)"

definition spec_close :: "nat \<Rightarrow> holders \<Rightarrow> holders" where
  "spec_close f h = (\<lambda>m. if h m = Some f then None else h m)"

fun refines :: "lock_state outcome \<Rightarrow> holders outcome \<Rightarrow> bool" where
  "refines (Ret r s) (Ret r' h) \<longleftrightarrow> r = r' \<and> holder s = h \<and> lock_inv s"
| "refines Blocks Blocks \<longleftrightarrow> True"
| "refines _ _ \<longleftrightarrow> False"

lemma take_inv:
  assumes "lock_inv s" "files s f = Some vi" "holder s m = None"
  shows "lock_inv (set_flags f vi (lock_flags vi OR lock_bit m) (s\<lparr>holder := (holder s)(m \<mapsto> f)\<rparr>))"
proof -
  have "\<not> claims s g m" for g using lock_invD(1) [OF assms(1), of m g] assms(3) by simp
  then show ?thesis
    using assms(2) lock_invD [OF assms(1)] by (auto simp: lock_inv_def claims_def set_flags_def)
qed

lemma drop_inv:
  assumes "lock_inv s" "files s f = Some vi" "holder s m = Some f"
  shows "lock_inv (mutex_unlock f m (set_flags f vi (lock_flags vi AND NOT (lock_bit m)) s))"
proof -
  have "claims s g m \<Longrightarrow> g = f" for g using lock_invD(1) [OF assms(1), of m g] assms(3) by simp
  then show ?thesis
    using assms(2,3) lock_invD [OF assms(1)] by (auto simp: lock_inv_def claims_def set_flags_def mutex_unlock_def split: if_splits)
qed

lemma holder_flag: "lock_inv s \<Longrightarrow> files s f = Some vi \<Longrightarrow> holder s m = Some f \<longleftrightarrow> flagged (lock_flags vi) m"
  by (simp add: lock_invD(1) claims_def)

lemma get_refines:
  assumes "lock_inv s" "files s f = Some vi" "engine_mutex m" "ucast arg = lock_bit m"
  shows "refines (ioctl_get_lock f arg s) (spec_get f m (holder s))"
  using assms take_inv [OF assms(1,2), of m] type_of_mutex [OF assms(3)]
  by (auto simp: ioctl_get_lock_def spec_get_def mutex_lock_def set_flags_def)

lemma rel_refines:
  assumes "lock_inv s" "files s f = Some vi" "engine_mutex m" "ucast arg = lock_bit m"
  shows "refines (ioctl_release_lock f arg s) (spec_rel f m (holder s))"
proof (cases "holder s m = Some f")
  case True
  then have "lock_flags vi AND lock_bit m \<noteq> 0" using holder_flag [OF assms(1,2)] by (simp add: flagged_def)
  with True show ?thesis
    using assms(2,4) drop_inv [OF assms(1,2) True] type_of_mutex [OF assms(3)]
    by (simp add: ioctl_release_lock_def spec_rel_def mutex_unlock_def set_flags_def)
next
  case False
  then have "lock_flags vi AND lock_bit m = 0" using holder_flag [OF assms(1,2)] by (simp add: flagged_def)
  with False show ?thesis using assms(1,2,4) by (simp add: ioctl_release_lock_def spec_rel_def)
qed

lemma close_locks:
  assumes "lock_inv s" "files s f = Some vi"
  shows "holder (unlock_flagged f (lock_flags vi) s) = spec_close f (holder s)"
    and "lock_inv ((unlock_flagged f (lock_flags vi) s)\<lparr>files := (files s)(f := None)\<rparr>)"
proof -
  have h: "holder s m = Some f \<longleftrightarrow> flagged (lock_flags vi) m" for m using holder_flag [OF assms] .
  then have none: "filter (\<lambda>m. flagged (lock_flags vi) m \<and> holder s m \<noteq> Some f) ms = []" for ms by simp
  show "holder (unlock_flagged f (lock_flags vi) s) = spec_close f (holder s)"
    by (simp add: unlock_flagged_eq spec_close_def h fun_eq_iff)
  have "(if flagged (lock_flags vi) m then None else holder s m) = Some g \<longleftrightarrow> g \<noteq> f \<and> claims s g m" for g m
    using h [of m] lock_invD(1) [OF assms(1), of m g] by auto
  then show "lock_inv ((unlock_flagged f (lock_flags vi) s)\<lparr>files := (files s)(f := None)\<rparr>)"
    using lock_invD(2) [OF assms(1)] by (auto simp: lock_inv_def unlock_flagged_eq none claims_def)
qed

lemma release_effect:
  assumes "lock_inv (locks s)" "files (locks s) f = Some vi" "cedardev_release dvfs_on sun9iw1 regu_err intr f s = Ret r s'"
  shows "holder (locks s') = spec_close f (holder (locks s))" "lock_inv (locks s')" "files (locks s') f = None"
proof -
  let ?l = "(unlock_flagged f (lock_flags vi) (locks s))\<lparr>files := (files (locks s))(f := None)\<rparr>"
  have fl: "files (unlock_flagged f (lock_flags vi) (locks s)) = files (locks s)" by (simp add: unlock_flagged_eq)
  have "locks s' = ?l \<or> locks s' = ?l\<lparr>ve_infos := ve_infos ?l - 1\<rparr>"
    using assms(2,3) by (auto simp: cedardev_release_def fl Let_def split: option.splits if_splits prod.splits)
  moreover have "holder ?l = spec_close f (holder (locks s))" "lock_inv ?l" using close_locks [OF assms(1,2)] by simp_all
  ultimately show "holder (locks s') = spec_close f (holder (locks s))" "lock_inv (locks s')" "files (locks s') f = None"
    by (auto simp: lock_inv_def claims_def)
qed

lemma open_cases:
  assumes "cedardev_open alloc intr f s = Ret r s'"
  obtains (failed) c where "r \<noteq> 0" "locks s' = (locks s)\<lparr>process_channel_id_cnt := c\<rparr>"
  | (opened) c info n where "r = 0" "lock_flags info = 0"
      "locks s' = (locks s)\<lparr>process_channel_id_cnt := c, files := (files (locks s))(f \<mapsto> info), ve_infos := n\<rparr>"
proof (cases "r = 0")
  case True
  show thesis
    by (rule opened [OF True]) (use assms True in
      \<open>auto simp: cedardev_open_def Let_def errno_simps split: option.splits if_splits\<close>)
next
  case False
  then consider "locks s' = locks s" | c where "locks s' = (locks s)\<lparr>process_channel_id_cnt := c\<rparr>"
    using assms by (auto simp: cedardev_open_def Let_def split: option.splits if_splits)
  then show thesis
    by cases (use failed [of "process_channel_id_cnt (locks s)"] failed False in auto)
qed

lemma open_effect:
  assumes "lock_inv (locks s)" "files (locks s) f = None" "cedardev_open alloc intr f s = Ret r s'"
  shows "holder (locks s') = holder (locks s)" "lock_inv (locks s')" "g \<noteq> f \<Longrightarrow> files (locks s') g = files (locks s) g"
    "r = 0 \<longleftrightarrow> files (locks s') f \<noteq> None"
proof -
  have no: "\<not> claims (locks s) f m" for m using assms(2) by (simp add: claims_def)
  from assms(3) have "holder (locks s') = holder (locks s) \<and> lock_inv (locks s') \<and>
      (\<forall>g. g \<noteq> f \<longrightarrow> files (locks s') g = files (locks s) g) \<and> (r = 0 \<longleftrightarrow> files (locks s') f \<noteq> None)"
  proof (cases rule: open_cases)
    case (failed c)
    then show ?thesis using assms(1,2) by (simp add: lock_inv_def claims_def)
  next
    case (opened c info n)
    have "claims (locks s') g m \<longleftrightarrow> claims (locks s) g m" for g m
      using opened no [of m] by (simp add: claims_def)
    then show ?thesis using assms(1) opened by (simp add: lock_inv_def)
  qed
  then show "holder (locks s') = holder (locks s)" "lock_inv (locks s')" "g \<noteq> f \<Longrightarrow> files (locks s') g = files (locks s) g"
    "r = 0 \<longleftrightarrow> files (locks s') f \<noteq> None" by simp_all
qed

end
