(* ===== verification/Cedar_Proc.thy ===== *)
theory Cedar_Proc
  imports Cedar_Lock
begin

text \<open>
  The debugfs file \<open>ve\<close>: clients publish a text per channel with \<open>IOCTL_SET_PROC_INFO\<close> followed by
  \<open>IOCTL_COPY_PROC_INFO\<close>, withdraw it with \<open>IOCTL_STOP_PROC_INFO\<close>, and whoever opens the file reads
  the texts of all channels one after the other.  The texts lie in one buffer of sixteen times 1024
  bytes; \<open>proc_buf\<close> holds the offset of a channel's text in it (\<open>None\<close> is the null pointer).  User
  memory is the list of the bytes that can be read at the given address: a copy of more bytes fills
  the rest with zeros and fails, as \<open>copy_from_user\<close> does.  (The kernel also refuses a size
  above \<open>INT_MAX\<close> without touching the buffer; here such a copy is treated as any other.)  An access outside a buffer \<open>Faults\<close>.
\<close>

definition VE_DEBUGFS_MAX_CHANNEL :: nat where "VE_DEBUGFS_MAX_CHANNEL = 16"
definition VE_DEBUGFS_BUF_SIZE :: nat where "VE_DEBUGFS_BUF_SIZE = 1024"

lemmas debugfs_defs = VE_DEBUGFS_MAX_CHANNEL_def VE_DEBUGFS_BUF_SIZE_def

record proc_state =
  debug_root :: bool
  cur_channel_id :: u8
  proc_len :: "u32 list"
  proc_buf :: "nat option list"
  proc_data :: "u8 list"

definition copy_from_user :: "u8 list \<Rightarrow> nat \<Rightarrow> bool \<times> u8 list" where
  "copy_from_user usr n = (n \<le> length usr, take n usr @ replicate (n - length usr) 0)"

definition write_at :: "nat \<Rightarrow> u8 list \<Rightarrow> u8 list \<Rightarrow> u8 list option" where
  "write_at off bs d = (if off + length bs \<le> length d then Some (take off d @ bs @ drop (off + length bs) d) else None)"

definition read_at :: "nat \<Rightarrow> nat \<Rightarrow> u8 list \<Rightarrow> u8 list option" where
  "read_at off n d = (if off + n \<le> length d then Some (take n (drop off d)) else None)"

text \<open>
  \<open>usr\<close> of the first ioctl is the \<open>struct VE_PROC_INFO\<close> read from user space, \<open>None\<close> when it cannot be
  read.
\<close>

definition ioctl_set_proc_info ::
  "nat \<Rightarrow> (u8 \<times> u32) option \<Rightarrow> lock_state \<times> proc_state \<Rightarrow> (lock_state \<times> proc_state) outcome" where
  "ioctl_set_proc_info f usr = (\<lambda>(s, p).
     if \<not> debug_root p then Ret 0 (s, p)
     else
       case mutex_lock f lock_proc s of
         None \<Rightarrow> Blocks
       | Some s \<Rightarrow>
           (case usr of
              None \<Rightarrow> Ret (- EFAULT) (mutex_unlock f lock_proc s, p)
            | Some (channel_id, proc_info_len) \<Rightarrow>
                if unat channel_id \<ge> VE_DEBUGFS_MAX_CHANNEL then Ret (- EFAULT) (mutex_unlock f lock_proc s, p)
                else
                  case files s f of
                    None \<Rightarrow> Faults
                  | Some vi \<Rightarrow>
                      Ret 0 (set_flags f vi (lock_flags vi OR VE_LOCK_PROC_INFO) s,
                        p\<lparr>cur_channel_id := channel_id,
                          proc_len := (proc_len p)[unat channel_id := proc_info_len],
                          proc_buf := (proc_buf p)[unat channel_id := Some (unat channel_id * VE_DEBUGFS_BUF_SIZE)]\<rparr>)))"

definition ioctl_copy_proc_info ::
  "nat \<Rightarrow> u8 list \<Rightarrow> lock_state \<times> proc_state \<Rightarrow> (lock_state \<times> proc_state) outcome" where
  "ioctl_copy_proc_info f usr = (\<lambda>(s, p).
     if \<not> debug_root p then Ret 0 (s, p)
     else
       case files s f of
         None \<Rightarrow> Faults
       | Some vi \<Rightarrow>
           let s = set_flags f vi (lock_flags vi AND NOT VE_LOCK_PROC_INFO) s;
               ch = unat (cur_channel_id p)
           in if ch \<ge> length (proc_buf p) \<or> ch \<ge> length (proc_len p) then Faults
              else
                let n = unat (proc_len p ! ch);
                    (copied, bs) = copy_from_user usr n
                in case (case proc_buf p ! ch of
                           None \<Rightarrow> if n = 0 then Some (proc_data p) else None
                         | Some off \<Rightarrow> write_at off bs (proc_data p)) of
                     None \<Rightarrow> Faults
                   | Some d \<Rightarrow> Ret (if copied then 0 else - EFAULT) (mutex_unlock f lock_proc s, p\<lparr>proc_data := d\<rparr>))"

definition ioctl_stop_proc_info :: "u64 \<Rightarrow> proc_state \<Rightarrow> proc_state outcome" where
  "ioctl_stop_proc_info arg p =
     (if \<not> debug_root p then Ret 0 p
      else
        let channel_id = unat (ucast arg :: u8)
        in if channel_id \<ge> length (proc_buf p) then Faults
           else Ret 0 (p\<lparr>proc_buf := (proc_buf p)[channel_id := None]\<rparr>))"

section \<open>The debugfs file\<close>

text \<open>
  \<open>ve_debugfs_proc\<close>: the length and the 16384 bytes of the snapshot.  \<open>copy_channels\<close> is the loop over
  the channels; its last argument is what has been written so far.
\<close>

record ve_debugfs_proc =
  vp_len :: u32
  vp_data :: "u8 list"

fun copy_channels :: "u8 list \<Rightarrow> (nat option \<times> u32) list \<Rightarrow> u8 list \<Rightarrow> u8 list option" where
  "copy_channels d [] out = Some out"
| "copy_channels d ((None, n) # cs) out = copy_channels d cs out"
| "copy_channels d ((Some off, n) # cs) out =
     (case read_at off (unat n) d of
        None \<Rightarrow> None
      | Some bs \<Rightarrow>
          if length out + unat n \<le> VE_DEBUGFS_BUF_SIZE * VE_DEBUGFS_MAX_CHANNEL then copy_channels d cs (out @ bs) else None)"

definition ve_debugfs_open :: "bool \<Rightarrow> lock_state \<times> proc_state \<Rightarrow> ve_debugfs_proc option outcome" where
  "ve_debugfs_open alloc = (\<lambda>(s, p).
     if \<not> alloc then Ret (- ENOMEM) None
     else if holder s lock_proc \<noteq> None then Blocks
     else
       case copy_channels (proc_data p) (zip (proc_buf p) (proc_len p)) [] of
         None \<Rightarrow> Faults
       | Some out \<Rightarrow>
           Ret 0 (Some \<lparr>vp_len = of_nat (length out),
             vp_data = out @ replicate (VE_DEBUGFS_BUF_SIZE * VE_DEBUGFS_MAX_CHANNEL - length out) 0\<rparr>))"

text \<open>
  \<open>simple_read_from_buffer\<close> of the kernel: \<open>room\<close> is the number of bytes that can be written to the
  user's buffer.  The result is the value returned, the bytes delivered and the new position.
\<close>

definition simple_read_from_buffer :: "nat \<Rightarrow> nat \<Rightarrow> int \<Rightarrow> u8 list \<Rightarrow> nat \<Rightarrow> int \<times> u8 list \<times> int" where
  "simple_read_from_buffer room count pos from available =
     (if pos < 0 then (- EINVAL, [], pos)
      else if pos \<ge> int available \<or> count = 0 then (0, [], pos)
      else
        let count = min count (available - nat pos);
            done = min room count
        in if done = 0 then (- EFAULT, [], pos)
           else (int done, take done (drop (nat pos) from), pos + int done))"

definition ve_debugfs_read :: "nat \<Rightarrow> nat \<Rightarrow> int \<Rightarrow> ve_debugfs_proc \<Rightarrow> int \<times> u8 list \<times> int" where
  "ve_debugfs_read room nbytes pos v =
     (if vp_len v = 0 then (0, [], pos)
      else simple_read_from_buffer room nbytes pos (vp_data v) (unat (vp_len v)))"

section \<open>Channels within their bounds\<close>

definition proc_ok :: "proc_state \<Rightarrow> bool" where
  "proc_ok p \<longleftrightarrow> length (proc_len p) = 16 \<and> length (proc_buf p) = 16 \<and> length (proc_data p) = 16384 \<and>
     (\<forall>i < 16. \<forall>off. proc_buf p ! i = Some off \<longrightarrow> off = i * 1024 \<and> unat (proc_len p ! i) \<le> 1024)"

definition channel_text :: "proc_state \<Rightarrow> nat \<Rightarrow> u8 list" where
  "channel_text p i =
     (case proc_buf p ! i of None \<Rightarrow> [] | Some off \<Rightarrow> take (unat (proc_len p ! i)) (drop off (proc_data p)))"

definition published :: "proc_state \<Rightarrow> u8 list" where
  "published p = concat (map (channel_text p) [0..<16])"

lemma copy_channels_ok:
  assumes "\<And>off n. (Some off, n) \<in> set cs \<Longrightarrow> off + unat n \<le> length d \<and> unat n \<le> 1024"
    and "length out + 1024 * length cs \<le> 16384"
  shows "copy_channels d cs out =
    Some (out @ concat (map (\<lambda>(b, n). case b of None \<Rightarrow> [] | Some off \<Rightarrow> take (unat n) (drop off d)) cs))"
  using assms
proof (induction d cs out rule: copy_channels.induct)
  case (3 d off n cs out)
  have b: "off + unat n \<le> length d" "unat n \<le> 1024" using 3(2) [of off n] by auto
  have "copy_channels d cs (out @ take (unat n) (drop off d)) =
      Some ((out @ take (unat n) (drop off d)) @
        concat (map (\<lambda>(b, n). case b of None \<Rightarrow> [] | Some off \<Rightarrow> take (unat n) (drop off d)) cs))"
    by (rule 3(1)) (use b 3(2,3) in \<open>auto simp: read_at_def debugfs_defs\<close>)
  with b 3(3) show ?case by (simp add: read_at_def debugfs_defs)
qed simp_all

lemma channels_zip:
  assumes "length bs = 16" "length ns = 16"
  shows "map F (zip bs ns) = map (\<lambda>i. F (bs ! i, ns ! i)) [0..<16]"
  by (rule nth_equalityI) (use assms in auto)

lemma length_channel_text: "proc_ok p \<Longrightarrow> i < 16 \<Longrightarrow> length (channel_text p i) \<le> 1024"
  by (auto simp: proc_ok_def channel_text_def split: option.split)

lemma length_published: "proc_ok p \<Longrightarrow> length (published p) \<le> 16384"
proof -
  assume p: "proc_ok p"
  have "length (concat (map (channel_text p) is)) \<le> 1024 * length is" if "set is \<subseteq> {..<16}" for "is"
    using that by (induction "is") (auto dest: length_channel_text [OF p] intro!: add_mono)
  from this [of "[0..<16]"] show ?thesis unfolding published_def by (simp del: upt_Suc add: atLeast0LessThan)
qed

lemma open_snapshot:
  assumes "proc_ok p" "holder s lock_proc = None"
  shows "ve_debugfs_open True (s, p) = Ret 0 (Some \<lparr>vp_len = of_nat (length (published p)),
    vp_data = published p @ replicate (16384 - length (published p)) 0\<rparr>)"
proof -
  have len: "length (proc_buf p) = 16" "length (proc_len p) = 16" "length (proc_data p) = 16384"
    using assms(1) by (simp_all add: proc_ok_def)
  have bound: "off + unat n \<le> length (proc_data p) \<and> unat n \<le> 1024" if "(Some off, n) \<in> set (zip (proc_buf p) (proc_len p))" for off n
  proof -
    from that obtain i where "i < 16" "proc_buf p ! i = Some off" "n = proc_len p ! i" using len by (auto simp: set_zip)
    then show ?thesis using assms(1) by (auto simp: proc_ok_def)
  qed
  have "copy_channels (proc_data p) (zip (proc_buf p) (proc_len p)) [] = Some ([] @ concat (map
      (\<lambda>(b, n). case b of None \<Rightarrow> [] | Some off \<Rightarrow> take (unat n) (drop off (proc_data p))) (zip (proc_buf p) (proc_len p))))"
    by (rule copy_channels_ok [OF bound]) (simp_all add: len)
  then have "copy_channels (proc_data p) (zip (proc_buf p) (proc_len p)) [] = Some (published p)"
    unfolding channels_zip [OF len(1,2)] by (simp add: published_def channel_text_def [abs_def])
  with assms(2) show ?thesis by (simp add: ve_debugfs_open_def debugfs_defs)
qed

lemma read_whole:
  assumes "proc_ok p" "holder s lock_proc = None" "length (published p) \<le> nbytes" "nbytes \<le> room"
    and "ve_debugfs_open True (s, p) = Ret 0 (Some v)"
  shows "fst (ve_debugfs_read room nbytes 0 v) = int (length (published p)) \<and>
    fst (snd (ve_debugfs_read room nbytes 0 v)) = published p"
proof -
  define P where "P = published p"
  obtain z where v: "vp_len v = of_nat (length P)" "vp_data v = P @ z"
    using open_snapshot [OF assms(1,2)] assms(5) by (simp add: P_def)
  have u: "unat (of_nat (length P) :: u32) = length P"
    using length_published [OF assms(1)] by (simp add: unat_of_nat_eq P_def)
  have le: "length P \<le> nbytes" "length P \<le> room" using assms(3,4) by (simp_all add: P_def)
  have "fst (ve_debugfs_read room nbytes 0 v) = int (length P) \<and> fst (snd (ve_debugfs_read room nbytes 0 v)) = P"
  proof (cases "P = []")
    case True
    then show ?thesis by (simp add: ve_debugfs_read_def v)
  next
    case False
    then have "(of_nat (length P) :: u32) \<noteq> 0" using u by (metis length_0_conv unat_0)
    moreover have "0 < nbytes" using False le(1) by (cases P) simp_all
    ultimately show ?thesis
      using False le by (simp add: ve_debugfs_read_def simple_read_from_buffer_def v u min_absorb2 Let_def)
  qed
  then show ?thesis by (simp only: P_def)
qed

section \<open>Publishing a text\<close>

lemma write_other:
  assumes "off + length bs \<le> length d" "j + k \<le> length d" "j + k \<le> off \<or> off + length bs \<le> j"
  shows "take k (drop j (take off d @ bs @ drop (off + length bs) d)) = take k (drop j d)"
proof -
  define d' where "d' = take off d @ bs @ drop (off + length bs) d"
  have len: "length d' = length d" using assms(1) by (simp add: d'_def)
  have same: "d' ! i = d ! i" if i: "i < length d" "i < off \<or> off + length bs \<le> i" for i
  proof (cases "i < off")
    case True
    then show ?thesis using assms(1) by (simp add: d'_def nth_append)
  next
    case False
    then obtain e where "i = off + length bs + e" using i(2) le_Suc_ex by fastforce
    then show ?thesis using i(1) assms(1) by (simp add: d'_def nth_append)
  qed
  have "take k (drop j d') = take k (drop j d)"
  proof (rule nth_equalityI)
    fix i assume "i < length (take k (drop j d'))"
    then show "take k (drop j d') ! i = take k (drop j d) ! i" using len assms(2,3) same [of "j + i"] by auto
  qed (simp add: len)
  then show ?thesis by (simp only: d'_def)
qed

lemma set_proc_effect:
  assumes "debug_root p" "files s f = Some vi" "holder s lock_proc = None" "unat ch < 16"
  shows "ioctl_set_proc_info f (Some (ch, n)) (s, p) =
    Ret 0 (set_flags f vi (lock_flags vi OR lock_bit lock_proc) (s\<lparr>holder := (holder s)(lock_proc \<mapsto> f)\<rparr>),
      p\<lparr>cur_channel_id := ch, proc_len := (proc_len p)[unat ch := n], proc_buf := (proc_buf p)[unat ch := Some (unat ch * 1024)]\<rparr>)"
  using assms by (simp add: ioctl_set_proc_info_def mutex_lock_def debugfs_defs lock_bit_def)

lemma copy_proc_effect:
  assumes "debug_root p" "files s f = Some vi" "unat (cur_channel_id p) = c" "c < length (proc_buf p)" "c < length (proc_len p)"
    and "proc_buf p ! c = Some off" "unat (proc_len p ! c) = n" "n \<le> length usr" "off + n \<le> length (proc_data p)"
  shows "ioctl_copy_proc_info f usr (s, p) =
    Ret 0 (mutex_unlock f lock_proc (set_flags f vi (lock_flags vi AND NOT (lock_bit lock_proc)) s),
      p\<lparr>proc_data := take off (proc_data p) @ take n usr @ drop (off + n) (proc_data p)\<rparr>)"
  using assms by (simp add: ioctl_copy_proc_info_def copy_from_user_def write_at_def lock_bit_def Let_def min_absorb2)

text \<open>
  C35.  A client that publishes at most 1024 bytes on one of the sixteen channels gets both ioctls
  answered with 0 and leaves all locks as they were.  Afterwards the channel's text is what the
  client passed, the texts of the other channels are unchanged, and reading the debugfs file from
  its start delivers the texts of all channels in the order of the channels.
\<close>

theorem publish_roundtrip:
  assumes "proc_ok p" "debug_root p" "lock_inv s" "files s f = Some vi" "holder s lock_proc = None"
    and "unat ch < 16" "unat n \<le> 1024" "unat n \<le> length usr"
  shows "\<exists>s1 p1 s2 p2 v. ioctl_set_proc_info f (Some (ch, n)) (s, p) = Ret 0 (s1, p1) \<and>
    ioctl_copy_proc_info f usr (s1, p1) = Ret 0 (s2, p2) \<and> holder s2 = holder s \<and> lock_inv s2 \<and> proc_ok p2 \<and>
    (\<forall>i < 16. channel_text p2 i = (if i = unat ch then take (unat n) usr else channel_text p i)) \<and>
    ve_debugfs_open True (s2, p2) = Ret 0 (Some v) \<and>
    fst (snd (ve_debugfs_read 16384 16384 0 v)) = concat (map (channel_text p2) [0..<16])"
proof -
  let ?c = "unat ch" and ?n = "unat n" and ?d = "proc_data p"
  define vi1 where "vi1 = vi\<lparr>lock_flags := lock_flags vi OR lock_bit lock_proc\<rparr>"
  define s1 where "s1 = set_flags f vi (lock_flags vi OR lock_bit lock_proc) (s\<lparr>holder := (holder s)(lock_proc \<mapsto> f)\<rparr>)"
  define p1 where "p1 = p\<lparr>cur_channel_id := ch, proc_len := (proc_len p)[?c := n], proc_buf := (proc_buf p)[?c := Some (?c * 1024)]\<rparr>"
  define s2 where "s2 = mutex_unlock f lock_proc (set_flags f vi1 (lock_flags vi1 AND NOT (lock_bit lock_proc)) s1)"
  define d2 where "d2 = take (?c * 1024) ?d @ take ?n usr @ drop (?c * 1024 + ?n) ?d"
  define p2 where "p2 = p1\<lparr>proc_data := d2\<rparr>"
  have len: "length (proc_buf p) = 16" "length (proc_len p) = 16" "length ?d = 16384" using assms(1) by (simp_all add: proc_ok_def)
  have fit: "?c * 1024 + ?n \<le> 16384" using assms(6,7) by simp
  have lb: "length (take ?n usr) = ?n" using assms(8) by simp
  have set: "ioctl_set_proc_info f (Some (ch, n)) (s, p) = Ret 0 (s1, p1)"
    unfolding s1_def p1_def using assms(2,4,5,6) by (rule set_proc_effect)
  have s1: "files s1 f = Some vi1" "lock_inv s1" "holder s1 lock_proc = Some f"
    using take_inv [OF assms(3-5)] by (simp_all add: s1_def vi1_def set_flags_def)
  have copy: "ioctl_copy_proc_info f usr (s1, p1) = Ret 0 (s2, p2)"
    using copy_proc_effect [of p1 s1 f vi1 ?c "?c * 1024" ?n usr] assms(2,6,8) s1(1) len fit
    by (simp add: p1_def s2_def p2_def d2_def)
  have s2: "lock_inv s2" "holder s2 = holder s"
    using drop_inv [OF s1(2,1,3)] assms(5)
    by (auto simp: s2_def mutex_unlock_def set_flags_def s1_def fun_eq_iff)
  have d2: "length d2 = 16384" using fit len lb by (simp add: d2_def)
  have ok: "proc_ok p2" using assms(1,6,7) d2 by (auto simp: proc_ok_def p2_def p1_def nth_list_update)
  have chan: "channel_text p2 i = (if i = ?c then take ?n usr else channel_text p i)" if i: "i < 16" for i
  proof (cases "i = ?c")
    case True
    then show ?thesis using assms(6) len lb fit by (simp add: channel_text_def p2_def p1_def d2_def)
  next
    case False
    have "take k (drop (i * 1024) d2) = take k (drop (i * 1024) ?d)" if k: "k \<le> 1024" for k
    proof -
      have "i * 1024 + k \<le> ?c * 1024 \<or> ?c * 1024 + length (take ?n usr) \<le> i * 1024"
        using False k assms(7) lb by linarith
      then show ?thesis
        using write_other [of "?c * 1024" "take ?n usr" ?d "i * 1024" k] fit len lb i k unfolding d2_def lb by simp
    qed
    then show ?thesis using False assms(1) i by (auto simp: channel_text_def p2_def p1_def proc_ok_def split: option.split)
  qed
  have h: "holder s2 lock_proc = None" using s2(2) assms(5) by simp
  obtain v where v: "ve_debugfs_open True (s2, p2) = Ret 0 (Some v)" using open_snapshot [OF ok h] by blast
  have "fst (snd (ve_debugfs_read 16384 16384 0 v)) = concat (map (channel_text p2) [0..<16])"
    using read_whole [OF ok h length_published [OF ok] order.refl v] unfolding published_def by blast
  with set copy s2 ok chan v show ?thesis by blast
qed

definition ex_files :: lock_state where
  "ex_files = \<lparr>holder = (\<lambda>_. None), files = [1 \<mapsto> \<lparr>set_vol_flag = 0, lock_flags = 0, process_channel_id = 1\<rparr>],
     ve_infos = 1, bad_unlocks = [], process_channel_id_cnt = 1\<rparr>"

lemma ex_files_inv: "lock_inv ex_files"
  by (simp add: lock_inv_def ex_files_def claims_def)

definition ex_proc :: proc_state where
  "ex_proc = \<lparr>debug_root = True, cur_channel_id = 0, proc_len = replicate 16 0, proc_buf = replicate 16 None,
     proc_data = replicate 16384 0\<rparr>"

lemma ex_proc_ok: "proc_ok ex_proc"
  by (simp add: proc_ok_def ex_proc_def)

theorem publish_roundtrip_witness:
  "\<exists>s1 p1 s2 p2. ioctl_set_proc_info 1 (Some (3, 2)) (ex_files, ex_proc) = Ret 0 (s1, p1) \<and>
    ioctl_copy_proc_info 1 [104, 105, 10] (s1, p1) = Ret 0 (s2, p2) \<and> channel_text p2 3 = [104, 105]"
proof -
  have h: "debug_root ex_proc" "files ex_files 1 = Some \<lparr>set_vol_flag = 0, lock_flags = 0, process_channel_id = 1\<rparr>"
    "holder ex_files lock_proc = None" "unat (3 :: u8) < 16" "unat (2 :: u32) \<le> 1024" "unat (2 :: u32) \<le> length [104, 105, 10 :: u8]"
    by (simp_all add: ex_proc_def ex_files_def)
  obtain s1 p1 s2 p2 where "ioctl_set_proc_info 1 (Some (3, 2)) (ex_files, ex_proc) = Ret 0 (s1, p1)"
    "ioctl_copy_proc_info 1 [104, 105, 10] (s1, p1) = Ret 0 (s2, p2)"
    "\<forall>i < 16. channel_text p2 i = (if i = unat (3 :: u8) then take (unat (2 :: u32)) [104, 105, 10] else channel_text ex_proc i)"
    using publish_roundtrip [OF ex_proc_ok h(1) ex_files_inv h(2-6)] by blast
  moreover then have "channel_text p2 3 = [104, 105]" by simp
  ultimately show ?thesis by blast
qed

text \<open>
  C36.  The length is not checked: when a client announces more bytes than there are from its channel
  to the end of the buffer, the announcement is accepted and the copy that follows writes past the
  end, whatever the client passes.  Nor is the channel of \<open>IOCTL_STOP_PROC_INFO\<close> checked: from
  channel 16 on it writes outside the array of channels.
\<close>

theorem proc_info_unbounded:
  assumes "proc_ok p" "debug_root p" "files s f = Some vi" "holder s lock_proc = None"
    and "unat ch < 16" "16384 < unat ch * 1024 + unat n"
  shows "(\<exists>s1 p1. ioctl_set_proc_info f (Some (ch, n)) (s, p) = Ret 0 (s1, p1) \<and>
      (\<forall>usr. ioctl_copy_proc_info f usr (s1, p1) = Faults)) \<and>
    (ioctl_stop_proc_info arg p = Faults \<longleftrightarrow> 16 \<le> unat (ucast arg :: u8))"
proof -
  have len: "length (proc_buf p) = 16" "length (proc_len p) = 16" "length (proc_data p) = 16384"
    using assms(1) by (simp_all add: proc_ok_def)
  have "length (snd (copy_from_user usr (unat n))) = unat n" for usr by (simp add: copy_from_user_def)
  then have "write_at (unat ch * 1024) (snd (copy_from_user usr (unat n))) (proc_data p) = None" for usr
    using assms(6) len by (simp add: write_at_def)
  then show ?thesis
    using set_proc_effect [OF assms(2-5), of n] assms(2,5) len
    by (simp add: ioctl_copy_proc_info_def set_flags_def ioctl_stop_proc_info_def split_beta Let_def)
qed

theorem proc_info_unbounded_witness:
  "\<exists>s1 p1. ioctl_set_proc_info 1 (Some (15, 1025)) (ex_files, ex_proc) = Ret 0 (s1, p1) \<and>
    ioctl_copy_proc_info 1 [] (s1, p1) = Faults"
proof -
  have h: "debug_root ex_proc" "files ex_files 1 = Some \<lparr>set_vol_flag = 0, lock_flags = 0, process_channel_id = 1\<rparr>"
    "holder ex_files lock_proc = None" "unat (15 :: u8) < 16" "16384 < unat (15 :: u8) * 1024 + unat (1025 :: u32)"
    by (simp_all add: ex_proc_def ex_files_def)
  show ?thesis using proc_info_unbounded [OF ex_proc_ok h] by blast
qed

end
