(* ===== verification/Cedar_Files.thy ===== *)
theory Cedar_Files
  imports Cedar_Proc
begin

text \<open>
  Runs of the VE device by several open files: the calls that take and give back mutexes, in any
  order.  Clients that name one of the five engine locks per call and copy a text only after having
  announced it get a correct lock table; a client that names two locks at once does not.
\<close>

inductive ve_reach :: "ve_dev \<times> proc_state \<Rightarrow> bool" where
  start: "holder (locks s) = (\<lambda>_. None) \<Longrightarrow> files (locks s) = Map.empty \<Longrightarrow> bad_unlocks (locks s) = [] \<Longrightarrow> ve_reach (s, p)"
| opened: "ve_reach (s, p) \<Longrightarrow> files (locks s) f = None \<Longrightarrow> cedardev_open alloc intr f s = Ret r s' \<Longrightarrow> ve_reach (s', p)"
| closed: "ve_reach (s, p) \<Longrightarrow> cedardev_release dvfs_on sun9iw1 regu_err intr f s = Ret r s' \<Longrightarrow> ve_reach (s', p)"
| get: "ve_reach (s, p) \<Longrightarrow> engine_mutex m \<Longrightarrow> ucast arg = lock_bit m \<Longrightarrow> ioctl_get_lock f arg (locks s) = Ret r l \<Longrightarrow>
    ve_reach (s\<lparr>locks := l\<rparr>, p)"
| rel: "ve_reach (s, p) \<Longrightarrow> engine_mutex m \<Longrightarrow> ucast arg = lock_bit m \<Longrightarrow> ioctl_release_lock f arg (locks s) = Ret r l \<Longrightarrow>
    ve_reach (s\<lparr>locks := l\<rparr>, p)"
| announce: "ve_reach (s, p) \<Longrightarrow> ioctl_set_proc_info f usr (locks s, p) = Ret r (l, p') \<Longrightarrow> ve_reach (s\<lparr>locks := l\<rparr>, p')"
| copy: "ve_reach (s, p) \<Longrightarrow> holder (locks s) lock_proc = Some f \<Longrightarrow> ioctl_copy_proc_info f bs (locks s, p) = Ret r (l, p') \<Longrightarrow>
    ve_reach (s\<lparr>locks := l\<rparr>, p')"
| stop: "ve_reach (s, p) \<Longrightarrow> ioctl_stop_proc_info arg p = Ret r p' \<Longrightarrow> ve_reach (s, p')"

lemma refines_Ret: "refines (Ret r l) h \<Longrightarrow> lock_inv l"
  by (cases h) simp_all

lemma get_file: "ioctl_get_lock f arg s = Ret r l \<Longrightarrow> \<exists>vi. files s f = Some vi"
  by (auto simp: ioctl_get_lock_def Let_def split: option.splits)

lemma rel_file: "ioctl_release_lock f arg s = Ret r l \<Longrightarrow> \<exists>vi. files s f = Some vi"
  by (auto simp: ioctl_release_lock_def Let_def split: option.splits)

lemma lock_unlock: "holder s m = None \<Longrightarrow> mutex_unlock f m (s\<lparr>holder := (holder s)(m \<mapsto> f)\<rparr>) = s"
  by (cases s) (auto simp: mutex_unlock_def fun_eq_iff)

lemma announce_inv:
  assumes "lock_inv s" "ioctl_set_proc_info f usr (s, p) = Ret r (l, p')"
  shows "lock_inv l"
proof (cases "debug_root p \<and> holder s lock_proc = None")
  case False
  then show ?thesis using assms by (auto simp: ioctl_set_proc_info_def mutex_lock_def split: if_splits)
next
  case True
  then have "l = s \<or> (\<exists>vi. files s f = Some vi \<and>
      l = set_flags f vi (lock_flags vi OR lock_bit lock_proc) (s\<lparr>holder := (holder s)(lock_proc \<mapsto> f)\<rparr>))"
    using assms(2) lock_unlock [of s lock_proc f]
    by (auto simp: ioctl_set_proc_info_def mutex_lock_def lock_bit_def split: option.splits if_splits prod.splits)
  with assms(1) True take_inv show ?thesis by blast
qed

lemma copy_inv:
  assumes "lock_inv s" "holder s lock_proc = Some f" "ioctl_copy_proc_info f bs (s, p) = Ret r (l, p')"
  shows "lock_inv l"
proof -
  have "l = s \<or> (\<exists>vi. files s f = Some vi \<and> l = mutex_unlock f lock_proc (set_flags f vi (lock_flags vi AND NOT (lock_bit lock_proc)) s))"
    using assms(3) by (auto simp: ioctl_copy_proc_info_def lock_bit_def Let_def split: option.splits if_splits prod.splits)
  with assms(1,2) drop_inv show ?thesis by blast
qed

lemma ve_reach_inv: "ve_reach (s, p) \<Longrightarrow> lock_inv (locks s)"
proof (induction "(s, p)" arbitrary: s p rule: ve_reach.induct)
  case (start s p)
  then show ?case by (simp add: lock_inv_def claims_def)
next
  case (opened s p f alloc intr r s')
  then show ?case using open_effect(2) by blast
next
  case (closed s p dvfs_on sun9iw1 regu_err intr f r s')
  then obtain vi where "files (locks s) f = Some vi" by (auto simp: cedardev_release_def split: option.splits)
  with closed show ?case using release_effect(2) by blast
next
  case (get s p m arg f r l)
  then obtain vi where "files (locks s) f = Some vi" using get_file by blast
  with get show ?case using get_refines [of "locks s" f vi m arg] refines_Ret by simp
next
  case (rel s p m arg f r l)
  then obtain vi where "files (locks s) f = Some vi" using rel_file by blast
  with rel show ?case using rel_refines [of "locks s" f vi m arg] refines_Ret by simp
next
  case (announce s p f usr r l p')
  then show ?case using announce_inv by simp
next
  case (copy s p f bs r l p')
  then show ?case using copy_inv by simp
next
  case (stop s p arg r p')
  then show ?case by simp
qed

text \<open>
  C33.  In every state that such clients can reach, at most one file claims a lock, and it is the one
  that holds the mutex; nobody has ever unlocked the mutex of another.  On the table of holders the
  calls do what they promise: a free lock is granted and a held one makes the caller wait, a release
  by the holder frees the lock and any other release answers \<open>-1\<close> and changes nothing, and closing a
  file frees exactly the locks it held, also when \<open>release\<close> is interrupted.
\<close>

theorem engine_locks_exclusive:
  assumes "ve_reach (s, p)"
  shows "(\<forall>f g m. claims (locks s) f m \<and> claims (locks s) g m \<longrightarrow> f = g) \<and>
    (\<forall>f m. holder (locks s) m = Some f \<longleftrightarrow> claims (locks s) f m) \<and> bad_unlocks (locks s) = [] \<and>
    (\<forall>f m arg. files (locks s) f \<noteq> None \<and> engine_mutex m \<and> ucast arg = lock_bit m \<longrightarrow>
       refines (ioctl_get_lock f arg (locks s)) (spec_get f m (holder (locks s))) \<and>
       refines (ioctl_release_lock f arg (locks s)) (spec_rel f m (holder (locks s)))) \<and>
    (\<forall>f dvfs_on sun9iw1 regu_err intr r s'. cedardev_release dvfs_on sun9iw1 regu_err intr f s = Ret r s' \<longrightarrow>
       holder (locks s') = spec_close f (holder (locks s)))"
proof -
  have inv: "lock_inv (locks s)" using assms by (rule ve_reach_inv)
  have h: "holder (locks s) m = Some f \<longleftrightarrow> claims (locks s) f m" for f m by (rule lock_invD(1) [OF inv])
  have close: "holder (locks s') = spec_close f (holder (locks s))"
    if r: "cedardev_release dvfs_on sun9iw1 regu_err intr f s = Ret r s'" for f dvfs_on sun9iw1 regu_err intr r s'
  proof -
    from r obtain vi where "files (locks s) f = Some vi" by (auto simp: cedardev_release_def split: option.splits)
    then show ?thesis using release_effect(1) [OF inv _ r] by blast
  qed
  have "f = g" if "claims (locks s) f m" "claims (locks s) g m" for f g m using that h by (metis option.inject)
  then show ?thesis
    using h lock_invD(2) [OF inv] get_refines [OF inv] rel_refines [OF inv] close by blast
qed

definition ex_dev :: ve_dev where
  "ex_dev = \<lparr>clk = ex_clk, irqs = ex_irq, dvfs = ex_dvfs, locks = \<lparr>holder = (\<lambda>_. None), files = Map.empty, ve_infos = 0,
     bad_unlocks = [], process_channel_id_cnt = 0\<rparr>, voltages = []\<rparr>"

lemma ex_dev_opens: "\<exists>s. cedardev_open True False 7 ex_dev = Ret 0 s"
  by (simp add: cedardev_open_def ex_dev_def ex_clk_def down_interruptible_def Let_def)

theorem engine_locks_exclusive_witness:
  "\<exists>s l. cedardev_open True False 7 ex_dev = Ret 0 s \<and> ioctl_get_lock 7 1 (locks s) = Ret 0 l \<and> holder l lock_vdec = Some 7"
proof -
  have start: "ve_reach (ex_dev, ex_proc)" by (rule ve_reach.start) (simp_all add: ex_dev_def)
  obtain s where s: "cedardev_open True False 7 ex_dev = Ret 0 s" using ex_dev_opens by blast
  have reach: "ve_reach (s, ex_proc)" by (rule ve_reach.opened [OF start _ s]) (simp add: ex_dev_def)
  have inv: "lock_inv (locks ex_dev)" using start by (rule ve_reach_inv)
  have none: "files (locks ex_dev) 7 = None" "holder (locks ex_dev) lock_vdec = None" by (simp_all add: ex_dev_def)
  have f: "files (locks s) 7 \<noteq> None" "holder (locks s) lock_vdec = None"
    using open_effect(1,4) [OF inv none(1) s] none(2) by simp_all
  have m: "engine_mutex lock_vdec" "ucast (1 :: u64) = lock_bit lock_vdec"
    by (simp_all add: engine_mutex_def engine_mutexes_def lock_bit_def lock_type_defs)
  have "refines (ioctl_get_lock 7 1 (locks s)) (spec_get 7 lock_vdec (holder (locks s)))"
    using engine_locks_exclusive [OF reach] f(1) m by blast
  then have "\<exists>l. ioctl_get_lock 7 1 (locks s) = Ret 0 l \<and> holder l lock_vdec = Some 7"
    using f(2) by (cases "ioctl_get_lock 7 1 (locks s)") (simp_all add: spec_get_def)
  with s show ?thesis by blast
qed

text \<open>
  C34.  The lock types are not checked: a client that asks for the decoder and the encoder lock in one
  call gets 0 without any mutex being taken, and when it closes its file the driver unlocks both,
  although another client holds the decoder lock.  The next client that asks for the decoder lock
  gets it too: two files then claim it.
\<close>

theorem combined_lock_steals:
  assumes inv: "lock_inv (locks s)" and owner: "holder (locks s) lock_vdec = Some f"
    and thief: "files (locks s) g = Some vg" "lock_flags vg = 0" and third: "files (locks s) h = Some vh"
    and ne: "f \<noteq> g" "h \<noteq> f" "h \<noteq> g"
    and sem: "sem (clk s) = 1"
  shows "\<exists>l s' l'. ioctl_get_lock g 3 (locks s) = Ret 0 l \<and> holder l = holder (locks s) \<and>
    cedardev_release dvfs_on False regu_err False g (s\<lparr>locks := l\<rparr>) = Ret 0 s' \<and> (g, lock_vdec) \<in> set (bad_unlocks (locks s')) \<and>
    ioctl_get_lock h 1 (locks s') = Ret 0 l' \<and> claims l' f lock_vdec \<and> claims l' h lock_vdec"
proof -
  have t3: "mutex_of_type 3 = None" by (simp add: mutex_of_type_def lock_type_defs)
  have t1: "mutex_of_type 1 = Some lock_vdec" by (simp add: mutex_of_type_def lock_type_defs)
  define l where "l = set_flags g vg 3 (locks s)"
  have get: "ioctl_get_lock g 3 (locks s) = Ret 0 l" using thief t3 by (simp add: ioctl_get_lock_def l_def)
  define l2 where "l2 = (unlock_flagged g 3 l)\<lparr>files := (files l)(g := None)\<rparr>"
  have fl: "flagged 3 lock_vdec" by (simp add: flagged_def lock_bit_def lock_type_defs)
  have l2: "holder l2 lock_vdec = None" "(g, lock_vdec) \<in> set (bad_unlocks l2)" "files l2 f = files (locks s) f" "files l2 h = Some vh"
    using owner fl ne third
    by (simp_all add: l2_def l_def unlock_flagged_eq set_flags_def close_bits_def)
  have u: "files (unlock_flagged g 3 l) = files l" by (simp add: unlock_flagged_eq)
  obtain s' n where s': "cedardev_release dvfs_on False regu_err False g (s\<lparr>locks := l\<rparr>) = Ret 0 s'" "locks s' = l2\<lparr>ve_infos := n\<rparr>"
    using sem by (simp add: cedardev_release_def down_interruptible_def l_def set_flags_def l2_def Let_def u [unfolded l_def set_flags_def])
  have cl: "claims (locks s) f lock_vdec" using lock_invD(1) [OF inv] owner by simp
  define l' where "l' = set_flags h vh (lock_flags vh OR 1) ((locks s')\<lparr>holder := (holder (locks s'))(lock_vdec \<mapsto> h)\<rparr>)"
  have get': "ioctl_get_lock h 1 (locks s') = Ret 0 l'"
    using t1 l2 s'(2) by (simp add: ioctl_get_lock_def mutex_lock_def l'_def)
  have "flagged (lock_flags vh OR 1) lock_vdec"
    using flagged_simps(1) [of "lock_flags vh" lock_vdec lock_vdec] by (simp add: lock_bit_def lock_type_defs)
  then have "claims l' f lock_vdec" "claims l' h lock_vdec"
    using cl ne(2) l2(3) s'(2) by (simp_all add: claims_def l'_def set_flags_def)
  with get get' s' l2 show ?thesis by (auto simp: l_def set_flags_def)
qed

definition ex_three :: ve_dev where
  "ex_three = ex_dev\<lparr>locks := \<lparr>holder = (\<lambda>_. None)(lock_vdec \<mapsto> 1),
     files = [1 \<mapsto> \<lparr>set_vol_flag = 0, lock_flags = 1, process_channel_id = 1\<rparr>,
              2 \<mapsto> \<lparr>set_vol_flag = 0, lock_flags = 0, process_channel_id = 2\<rparr>,
              3 \<mapsto> \<lparr>set_vol_flag = 0, lock_flags = 0, process_channel_id = 3\<rparr>],
     ve_infos = 3, bad_unlocks = [], process_channel_id_cnt = 3\<rparr>\<rparr>"

lemma ex_three_inv: "lock_inv (locks ex_three)"
proof -
  have "flagged 1 m \<longleftrightarrow> m = lock_vdec" for m
    using flagged_simps(1) [of 0 lock_vdec m] by (simp add: lock_bit_def lock_type_defs)
  then show ?thesis by (auto simp: lock_inv_def ex_three_def claims_def)
qed

theorem combined_lock_steals_witness:
  "\<exists>l s' l'. ioctl_get_lock 2 3 (locks ex_three) = Ret 0 l \<and>
    cedardev_release False False False False 2 (ex_three\<lparr>locks := l\<rparr>) = Ret 0 s' \<and>
    ioctl_get_lock 3 1 (locks s') = Ret 0 l' \<and> claims l' 1 lock_vdec \<and> claims l' 3 lock_vdec"
  using combined_lock_steals [OF ex_three_inv, of 1 2 "\<lparr>set_vol_flag = 0, lock_flags = 0, process_channel_id = 2\<rparr>" 3
      "\<lparr>set_vol_flag = 0, lock_flags = 0, process_channel_id = 3\<rparr>" False False]
  by (auto simp: ex_three_def ex_dev_def ex_clk_def)

end
