(* ===== verification/Cedar_Debug.thy ===== *)
theory Cedar_Debug
  imports Cedar_Proc
begin

text \<open>
  The table of debug texts by process and thread: \<open>IOCTL_PROC_INFO_COPY\<close>, \<open>IOCTL_PROC_INFO_STOP\<close> and
  the sysfs attribute \<open>ve_info\<close>.  Each text lies in an area of its own; \<open>vmem\<close> gives the contents of
  the live areas.  \<open>alloc\<close> is the area \<open>vmalloc\<close> would return (it returns null for the size 0);
  freeing an area that is not live is recorded in \<open>bad_frees\<close>, reading one \<open>Faults\<close>.
\<close>

definition MAX_VE_DEBUG_INFO_NUM :: nat where
  "MAX_VE_DEBUG_INFO_NUM = 16"

record ve_debug_info =
  dh_pid :: u32
  dh_tid :: u32
  dh_length :: u32
  dbg_data :: "nat option"

record debug_state =
  debug_info :: "ve_debug_info list"
  debug_info_cur_index :: int
  vmem :: "nat \<Rightarrow> u8 list option"
  bad_frees :: "nat list"
  lock_debug_info :: bool

definition vfree :: "nat \<Rightarrow> debug_state \<Rightarrow> debug_state" where
  "vfree a s = (if vmem s a = None then s\<lparr>bad_frees := bad_frees s @ [a]\<rparr> else s\<lparr>vmem := (vmem s)(a := None)\<rparr>)"

definition free_data :: "ve_debug_info \<Rightarrow> debug_state \<Rightarrow> debug_state" where
  "free_data x s = (case dbg_data x of None \<Rightarrow> s | Some a \<Rightarrow> vfree a s)"

definition dbg_hit :: "u32 \<times> u32 \<Rightarrow> ve_debug_info \<Rightarrow> bool" where
  "dbg_hit = (\<lambda>(pid, tid) x. dh_pid x = pid \<and> dh_tid x = tid)"

definition dbg_free :: "ve_debug_info \<Rightarrow> bool" where
  "dbg_free x \<longleftrightarrow> dh_pid x = 0 \<and> dh_tid x = 0"

definition find_slot :: "u32 \<Rightarrow> u32 \<Rightarrow> u32 \<Rightarrow> debug_state \<Rightarrow> debug_state" where
  "find_slot pid tid len s =
     (let xs = debug_info s;
          i = scan (dbg_hit (pid, tid)) xs;
          j = scan dbg_free xs
      in if i \<ge> length xs then
           if j \<ge> length xs then s
           else s\<lparr>debug_info_cur_index := int j,
                  debug_info := xs[j := (xs ! j)\<lparr>dh_pid := pid, dh_tid := tid, dh_length := len\<rparr>]\<rparr>
         else s\<lparr>debug_info_cur_index := int i, debug_info := xs[i := (xs ! i)\<lparr>dh_length := len\<rparr>]\<rparr>)"

text \<open>
  \<open>head\<close> is the \<open>struct debug_head_info\<close> read from user space (\<open>None\<close> when it cannot be read), \<open>usr\<close> the
  bytes that can be read behind it.
\<close>

definition ioctl_proc_info_copy ::
  "(u32 \<times> u32 \<times> u32) option \<Rightarrow> u8 list \<Rightarrow> nat option \<Rightarrow> debug_state \<Rightarrow> debug_state outcome" where
  "ioctl_proc_info_copy head usr alloc s =
     (let s = s\<lparr>debug_info_cur_index := - 1\<rparr> in
      case head of
        None \<Rightarrow> Ret (- EFAULT) s
      | Some (pid, tid, len) \<Rightarrow>
          if lock_debug_info s then Blocks
          else
            let s = find_slot pid tid len s in
            if debug_info_cur_index s < 0 then Ret (- EFAULT) s
            else
              let i = nat (debug_info_cur_index s);
                  s = free_data (debug_info s ! i) s;
                  n = unat (dh_length (debug_info s ! i));
                  data = (if n = 0 then None else alloc);
                  s = s\<lparr>debug_info := (debug_info s)[i := (debug_info s ! i)\<lparr>dbg_data := data\<rparr>]\<rparr>
              in case data of
                   None \<Rightarrow> Ret (- EFAULT) s
                 | Some a \<Rightarrow>
                     let (copied, bs) = copy_from_user usr n;
                         s = s\<lparr>vmem := (vmem s)(a \<mapsto> bs)\<rparr>
                     in if copied then Ret 0 s else Ret (- EFAULT) (vfree a s))"

definition blank_debug :: ve_debug_info where
  "blank_debug = \<lparr>dh_pid = 0, dh_tid = 0, dh_length = 0, dbg_data = None\<rparr>"

definition ioctl_proc_info_stop :: "(u32 \<times> u32) option \<Rightarrow> debug_state \<Rightarrow> debug_state outcome" where
  "ioctl_proc_info_stop head s =
     (case head of
        None \<Rightarrow> Ret (- EFAULT) s
      | Some k \<Rightarrow>
          if lock_debug_info s then Blocks
          else
            let i = scan (dbg_hit k) (debug_info s)
            in if i \<ge> length (debug_info s) then Ret 0 s
               else
                 let s = free_data (debug_info s ! i) s
                 in Ret 0 (s\<lparr>debug_info := (debug_info s)[i := blank_debug]\<rparr>))"

section \<open>The sysfs attribute\<close>

definition ve_info_header :: "u8 list" where
  "ve_info_header = map (of_nat \<circ> of_char) (''********* ve proc info **********'' @ [CHR 0x0A])"

definition show_page :: nat where
  "show_page = 4096"

text \<open>
  The loop: \<open>tot\<close> is \<open>nTotalSize\<close>, a signed 32-bit number that is compared with the unsigned page
  size; \<open>out\<close> is what has been written to the page.
\<close>

fun show_loop :: "debug_state \<Rightarrow> ve_debug_info list \<Rightarrow> u32 \<Rightarrow> u8 list \<Rightarrow> u8 list option" where
  "show_loop s [] tot out = Some out"
| "show_loop s (x # xs) tot out =
     (if dh_pid x \<noteq> 0 \<and> dh_tid x \<noteq> 0 then
        let tot = tot + dh_length x in
        if (scast tot :: u64) > of_nat show_page then Some out
        else
          case (case dbg_data x of None \<Rightarrow> if dh_length x = 0 then Some [] else None | Some a \<Rightarrow> vmem s a) of
            None \<Rightarrow> None
          | Some d \<Rightarrow>
              if unat (dh_length x) \<le> length d \<and> length out + unat (dh_length x) \<le> show_page
              then show_loop s xs tot (out @ take (unat (dh_length x)) d) else None
      else show_loop s xs tot out)"

definition ve_info_show :: "debug_state \<Rightarrow> u8 list outcome" where
  "ve_info_show s =
     (if lock_debug_info s then Blocks
      else case show_loop s (debug_info s) 0 ve_info_header of None \<Rightarrow> Faults | Some out \<Rightarrow> Ret (int (length out)) out)"

text \<open>
  What the driver frees when it is unloaded: the loop at the end of \<open>cedardev_exit\<close>.
\<close>

definition free_debug_texts :: "debug_state \<Rightarrow> debug_state" where
  "free_debug_texts s = fold free_data (debug_info s) s"

definition areas :: "ve_debug_info list \<Rightarrow> nat list" where
  "areas xs = concat (map (\<lambda>x. case dbg_data x of None \<Rightarrow> [] | Some a \<Rightarrow> [a]) xs)"

lemma fold_free_data:
  "distinct (areas xs) \<Longrightarrow> (\<forall>a \<in> set (areas xs). vmem s a \<noteq> None) \<Longrightarrow>
   fold free_data xs s = s\<lparr>vmem := (\<lambda>a. if a \<in> set (areas xs) then None else vmem s a)\<rparr>"
proof (induction xs arbitrary: s)
  case (Cons x xs)
  show ?case
  proof (cases "dbg_data x")
    case None
    then show ?thesis using Cons by (simp add: areas_def free_data_def)
  next
    case (Some a)
    then have "free_data x s = s\<lparr>vmem := (vmem s)(a := None)\<rparr>" using Cons.prems by (auto simp: free_data_def vfree_def areas_def)
    moreover have "a \<notin> set (areas xs)" "distinct (areas xs)" "\<forall>b \<in> set (areas xs). vmem s b \<noteq> None"
      using Cons.prems Some by (auto simp: areas_def)
    ultimately show ?thesis
      using Cons.IH [of "s\<lparr>vmem := (vmem s)(a := None)\<rparr>"] Some
      by (auto simp: areas_def fun_eq_iff intro!: arg_cong [where f = "\<lambda>m. s\<lparr>vmem := m\<rparr>"])
  qed
qed (simp add: areas_def)

section \<open>The table as a map\<close>

interpretation dbg: slot_table dbg_hit dbg_free "\<lambda>k. k \<noteq> (0, 0)" blank_debug
  by unfold_locales (auto simp: dbg_hit_def dbg_free_def blank_debug_def)

definition debug_text :: "debug_state \<Rightarrow> u32 \<times> u32 \<Rightarrow> u8 list option" where
  "debug_text s k =
     (if k = (0, 0) then None
      else case dbg.lookup (debug_info s) k of
             None \<Rightarrow> None
           | Some x \<Rightarrow> (case dbg_data x of None \<Rightarrow> None | Some a \<Rightarrow> vmem s a))"

definition slot_ok :: "debug_state \<Rightarrow> ve_debug_info \<Rightarrow> bool" where
  "slot_ok s x \<longleftrightarrow>
     (if dbg_free x then dbg_data x = None
      else \<exists>a bs. dbg_data x = Some a \<and> vmem s a = Some bs \<and> length bs = unat (dh_length x))"

definition debug_ok :: "debug_state \<Rightarrow> bool" where
  "debug_ok s \<longleftrightarrow> length (debug_info s) = 16 \<and> \<not> lock_debug_info s \<and> dbg.unique (debug_info s) \<and>
     (\<forall>x \<in> set (debug_info s). slot_ok s x) \<and>
     (\<forall>i < 16. \<forall>j < 16. i \<noteq> j \<longrightarrow> dbg_data (debug_info s ! i) \<noteq> None \<longrightarrow> dbg_data (debug_info s ! i) \<noteq> dbg_data (debug_info s ! j)) \<and>
     bad_frees s = []"

lemma find_slot_eq:
  "find_slot pid tid len s =
     (case dbg.slot_for (pid, tid) (debug_info s) of
        None \<Rightarrow> s
      | Some i \<Rightarrow> s\<lparr>debug_info_cur_index := int i,
          debug_info := (debug_info s)[i := (debug_info s ! i)\<lparr>dh_pid := pid, dh_tid := tid, dh_length := len\<rparr>]\<rparr>)"
proof (cases "scan (dbg_hit (pid, tid)) (debug_info s) < length (debug_info s)")
  case True
  then have "dbg_hit (pid, tid) (debug_info s ! scan (dbg_hit (pid, tid)) (debug_info s))" by (rule scan_nth)
  then have "(debug_info s ! scan (dbg_hit (pid, tid)) (debug_info s))\<lparr>dh_length := len\<rparr> =
      (debug_info s ! scan (dbg_hit (pid, tid)) (debug_info s))\<lparr>dh_pid := pid, dh_tid := tid, dh_length := len\<rparr>"
    by (cases "debug_info s ! scan (dbg_hit (pid, tid)) (debug_info s)") (simp add: dbg_hit_def)
  with True show ?thesis by (simp add: find_slot_def dbg.slot_for_def Let_def)
next
  case False
  then show ?thesis by (simp add: find_slot_def dbg.slot_for_def not_le Let_def)
qed

lemma debug_okD:
  assumes "debug_ok s"
  shows "length (debug_info s) = 16" "\<not> lock_debug_info s" "dbg.unique (debug_info s)" "bad_frees s = []"
    and "i < 16 \<Longrightarrow> slot_ok s (debug_info s ! i)"
    and "i < 16 \<Longrightarrow> j < 16 \<Longrightarrow> i \<noteq> j \<Longrightarrow> dbg_data (debug_info s ! i) = Some a \<Longrightarrow> dbg_data (debug_info s ! j) \<noteq> Some a"
  using assms by (auto simp: debug_ok_def) (metis option.distinct(1))

lemma live_data:
  assumes "debug_ok s" "i < 16" "dbg_data (debug_info s ! i) = Some a"
  shows "vmem s a \<noteq> None"
  using debug_okD(5) [OF assms(1,2)] assms(3) by (auto simp: slot_ok_def split: if_splits)

text \<open>
  Replacing one slot: the areas of the other slots must be left alone and the new slot must be in
  order by itself.
\<close>

lemma replace_slot:
  assumes ok: "debug_ok s" and i: "i < 16"
    and info: "debug_info s' = (debug_info s)[i := y]" and u: "dbg.unique (debug_info s')"
    and others: "\<And>j c. j < 16 \<Longrightarrow> j \<noteq> i \<Longrightarrow> dbg_data (debug_info s ! j) = Some c \<Longrightarrow> vmem s' c = vmem s c \<and> dbg_data y \<noteq> Some c"
    and y: "slot_ok s' y" and rest: "bad_frees s' = []" "\<not> lock_debug_info s'"
  shows "debug_ok s'"
proof -
  have len: "length (debug_info s') = 16" using info debug_okD(1) [OF ok] by simp
  have nth: "debug_info s' ! j = (if j = i then y else debug_info s ! j)" if "j < 16" for j
    using info i debug_okD(1) [OF ok] that by simp
  have "slot_ok s' (debug_info s' ! j)" if j: "j < 16" for j
  proof (cases "j = i")
    case False
    have "slot_ok s (debug_info s ! j)" using debug_okD(5) [OF ok j] .
    then show ?thesis using others [OF j False] False nth [OF j] by (auto simp: slot_ok_def split: if_splits)
  qed (use y nth [OF j] in simp)
  then have "\<forall>x \<in> set (debug_info s'). slot_ok s' x" using len by (metis in_set_conv_nth)
  moreover have "dbg_data (debug_info s' ! a) \<noteq> dbg_data (debug_info s' ! b)"
    if ab: "a < 16" "b < 16" "a \<noteq> b" "dbg_data (debug_info s' ! a) \<noteq> None" for a b
  proof
    assume eq: "dbg_data (debug_info s' ! a) = dbg_data (debug_info s' ! b)"
    from ab(4) obtain c where c: "dbg_data (debug_info s' ! a) = Some c" by blast
    with eq have cb: "dbg_data (debug_info s' ! b) = Some c" by simp
    consider "a = i" "b \<noteq> i" | "a \<noteq> i" "b = i" | "a \<noteq> i" "b \<noteq> i" using ab(3) by blast
    then show False
      using c cb nth [OF ab(1)] nth [OF ab(2)] others [OF ab(1), of c] others [OF ab(2), of c] debug_okD(6) [OF ok ab(1-3), of c]
      by cases simp_all
  qed
  ultimately show ?thesis using len u rest by (auto simp: debug_ok_def)
qed

lemma lookup_other:
  assumes "debug_ok s" "k \<noteq> (0, 0)" "\<not> dbg_hit k (debug_info s ! i)" "dbg.lookup (debug_info s) k = Some x"
  obtains j where "j < 16" "j \<noteq> i" "x = debug_info s ! j"
proof -
  from assms(4) obtain j where "j < length (debug_info s)" "x = debug_info s ! j" "dbg_hit k (debug_info s ! j)"
    by (rule dbg.lookup_SomeE)
  with assms(3) debug_okD(1) [OF assms(1)] that show thesis by metis
qed

lemma copy_success:
  assumes ok: "debug_ok s" and k: "(pid, tid) \<noteq> (0, 0)" and n: "len \<noteq> 0" "unat len \<le> length usr" and a: "vmem s a = None"
    and slot: "dbg.slot_for (pid, tid) (debug_info s) = Some i"
  shows "\<exists>s'. ioctl_proc_info_copy (Some (pid, tid, len)) usr (Some a) s = Ret 0 s' \<and>
    debug_info s' = (debug_info s)[i := \<lparr>dh_pid = pid, dh_tid = tid, dh_length = len, dbg_data = Some a\<rparr>] \<and>
    vmem s' = (case dbg_data (debug_info s ! i) of None \<Rightarrow> vmem s | Some b \<Rightarrow> (vmem s)(b := None))(a \<mapsto> take (unat len) usr) \<and>
    bad_frees s' = [] \<and> \<not> lock_debug_info s'"
proof -
  have i: "i < 16" using dbg.slot_for_less [OF slot] debug_okD(1) [OF ok] by simp
  have live: "vmem s b \<noteq> None" if "dbg_data (debug_info s ! i) = Some b" for b using live_data [OF ok i that] .
  obtain p t l d where x: "debug_info s ! i = \<lparr>dh_pid = p, dh_tid = t, dh_length = l, dbg_data = d\<rparr>"
    by (cases "debug_info s ! i") simp
  have un: "unat len \<noteq> 0" using n(1) by (simp add: unat_eq_0)
  show ?thesis
    using live slot i debug_okD(1,2,4) [OF ok] n un x
    by (cases d) (auto simp: ioctl_proc_info_copy_def find_slot_eq free_data_def vfree_def copy_from_user_def Let_def)
qed

lemma copy_refines:
  assumes ok: "debug_ok s" and k: "(pid, tid) \<noteq> (0, 0)" and n: "len \<noteq> 0" "unat len \<le> length usr" and a: "vmem s a = None"
    and slot: "dbg.slot_for (pid, tid) (debug_info s) = Some i"
  shows "\<exists>s'. ioctl_proc_info_copy (Some (pid, tid, len)) usr (Some a) s = Ret 0 s' \<and> debug_ok s' \<and>
    debug_text s' = (debug_text s)((pid, tid) \<mapsto> take (unat len) usr)"
proof -
  let ?y = "\<lparr>dh_pid = pid, dh_tid = tid, dh_length = len, dbg_data = Some a\<rparr>"
  obtain s' where s': "ioctl_proc_info_copy (Some (pid, tid, len)) usr (Some a) s = Ret 0 s'"
    and info: "debug_info s' = (debug_info s)[i := ?y]"
    and mem: "vmem s' = (case dbg_data (debug_info s ! i) of None \<Rightarrow> vmem s | Some b \<Rightarrow> (vmem s)(b := None))(a \<mapsto> take (unat len) usr)"
    and rest: "bad_frees s' = []" "\<not> lock_debug_info s'"
    using copy_success [OF assms] by blast
  have i: "i < 16" using dbg.slot_for_less [OF slot] debug_okD(1) [OF ok] by simp
  have hit: "dbg_hit (pid, tid) ?y" by (simp add: dbg_hit_def)
  have u: "dbg.unique (debug_info s')" unfolding info using debug_okD(3) [OF ok] k slot hit by (rule dbg.put_unique)
  have others: "vmem s' c = vmem s c \<and> dbg_data ?y \<noteq> Some c"
    if j: "j < 16" "j \<noteq> i" "dbg_data (debug_info s ! j) = Some c" for j c
  proof -
    have "c \<noteq> a" using live_data [OF ok j(1,3)] a by auto
    moreover have "dbg_data (debug_info s ! i) \<noteq> Some c" using debug_okD(6) [OF ok j(1) i j(2,3)] .
    ultimately show ?thesis by (auto simp: mem split: option.split)
  qed
  have y: "slot_ok s' ?y" using k n by (auto simp: slot_ok_def dbg_free_def mem min_absorb2 split: option.split)
  have "debug_ok s'" using ok i info u others y rest by (rule replace_slot)
  moreover have "debug_text s' k' = ((debug_text s)((pid, tid) \<mapsto> take (unat len) usr)) k'" for k'
  proof -
    consider (zero) "k' = (0, 0)" | (same) "k' = (pid, tid)" "k' \<noteq> (0, 0)" | (other) "k' \<noteq> (pid, tid)" "k' \<noteq> (0, 0)" by blast
    then show ?thesis
    proof cases
      case zero
      then show ?thesis using k by (simp add: debug_text_def)
    next
      case same
      then show ?thesis
        using dbg.put_lookup [OF debug_okD(3) [OF ok] k slot hit, of k'] by (simp add: debug_text_def info mem)
    next
      case other
      have look: "dbg.lookup (debug_info s') k' = dbg.lookup (debug_info s) k'"
        using dbg.put_lookup [OF debug_okD(3) [OF ok] k slot hit other(2)] other(1) by (simp add: info)
      have "vmem s' c = vmem s c" if x: "dbg.lookup (debug_info s) k' = Some x" "dbg_data x = Some c" for x c
        using lookup_other [OF ok other(2) dbg.slot_keeps_others [OF slot other(2,1)] x(1)] others x(2) by metis
      then show ?thesis using other look by (auto simp: debug_text_def split: option.split)
    qed
  qed
  ultimately show ?thesis using s' by blast
qed

lemma copy_full:
  assumes ok: "debug_ok s" and full: "dbg.slot_for (pid, tid) (debug_info s) = None"
  shows "ioctl_proc_info_copy (Some (pid, tid, len)) usr alloc s = Ret (- EFAULT) (s\<lparr>debug_info_cur_index := - 1\<rparr>)"
  using full debug_okD(2) [OF ok] by (simp add: ioctl_proc_info_copy_def find_slot_eq)

lemma stop_refines:
  assumes ok: "debug_ok s" and k: "k \<noteq> (0, 0)"
  shows "\<exists>s'. ioctl_proc_info_stop (Some k) s = Ret 0 s' \<and> debug_ok s' \<and> debug_text s' = (debug_text s)(k := None)"
proof (cases "scan (dbg_hit k) (debug_info s) < length (debug_info s)")
  case False
  then have "debug_text s = (debug_text s)(k := None)" by (auto simp: debug_text_def dbg.lookup_def fun_eq_iff)
  with False ok show ?thesis using debug_okD(2) [OF ok] by (simp add: ioctl_proc_info_stop_def)
next
  case True
  define i where "i = scan (dbg_hit k) (debug_info s)"
  have i: "i < 16" "i < length (debug_info s)" "dbg_hit k (debug_info s ! i)"
    using True scan_nth [OF True] debug_okD(1) [OF ok] by (simp_all add: i_def)
  define s' where "s' = (free_data (debug_info s ! i) s)\<lparr>debug_info := (debug_info s)[i := blank_debug]\<rparr>"
  have run: "ioctl_proc_info_stop (Some k) s = Ret 0 s'"
    using True debug_okD(2) [OF ok]
    by (simp add: ioctl_proc_info_stop_def i_def s'_def Let_def free_data_def vfree_def split: option.split)
  have live: "vmem s b \<noteq> None" if "dbg_data (debug_info s ! i) = Some b" for b using live_data [OF ok i(1) that] .
  have mem: "vmem s' = (case dbg_data (debug_info s ! i) of None \<Rightarrow> vmem s | Some b \<Rightarrow> (vmem s)(b := None))"
    and info: "debug_info s' = (debug_info s)[i := blank_debug]" and rest: "bad_frees s' = []" "\<not> lock_debug_info s'"
    using live debug_okD(2,4) [OF ok] by (auto simp: s'_def free_data_def vfree_def split: option.split)
  have u: "dbg.unique (debug_info s')" unfolding info using debug_okD(3) [OF ok] by (rule dbg.clear_unique)
  have others: "vmem s' c = vmem s c \<and> dbg_data blank_debug \<noteq> Some c"
    if j: "j < 16" "j \<noteq> i" "dbg_data (debug_info s ! j) = Some c" for j c
    using debug_okD(6) [OF ok j(1) i(1) j(2,3)] by (auto simp: mem blank_debug_def split: option.split)
  have y: "slot_ok s' blank_debug" by (simp add: slot_ok_def dbg_free_def blank_debug_def)
  have "debug_ok s'" using ok i(1) info u others y rest by (rule replace_slot)
  moreover have "debug_text s' k' = ((debug_text s)(k := None)) k'" for k'
  proof (cases "k' = (0, 0)")
    case True
    then show ?thesis using k by (simp add: debug_text_def)
  next
    case False
    have "dbg_hit k' (debug_info s ! i) \<longleftrightarrow> k' = k" using i(3) dbg.hit_inj [OF i(3)] by blast
    then have look: "dbg.lookup (debug_info s') k' = (if k' = k then None else dbg.lookup (debug_info s) k')"
      using dbg.clear_lookup [OF debug_okD(3) [OF ok] i(2) False] unfolding info by simp
    have "vmem s' c = vmem s c" if x: "dbg.lookup (debug_info s) k' = Some x" "dbg_data x = Some c" "k' \<noteq> k" for x c
    proof -
      have "\<not> dbg_hit k' (debug_info s ! i)" using dbg.hit_inj [OF i(3)] x(3) by blast
      then show ?thesis using lookup_other [OF ok False _ x(1)] others x(2) by metis
    qed
    then show ?thesis using False look by (auto simp: debug_text_def split: option.split)
  qed
  ultimately show ?thesis using run by blast
qed

text \<open>
  C37.  On a table in order, with memory available and readable input, the two ioctls keep a map from
  (process, thread) to text: a copy stores the text under its key and nothing else, or is refused with
  \<open>-EFAULT\<close> when all sixteen slots belong to other keys; a stop removes the key and frees its text.
  The table stays in order: no area is freed twice, and no two slots share an area.
\<close>

theorem debug_table_map:
  assumes "debug_ok s" "(pid, tid) \<noteq> (0, 0)" "len \<noteq> 0" "unat len \<le> length usr" "vmem s a = None"
  shows "(if debug_text s (pid, tid) = None \<and> (\<forall>x \<in> set (debug_info s). \<not> dbg_free x)
     then ioctl_proc_info_copy (Some (pid, tid, len)) usr (Some a) s = Ret (- EFAULT) (s\<lparr>debug_info_cur_index := - 1\<rparr>)
     else \<exists>s'. ioctl_proc_info_copy (Some (pid, tid, len)) usr (Some a) s = Ret 0 s' \<and> debug_ok s' \<and>
       debug_text s' = (debug_text s)((pid, tid) \<mapsto> take (unat len) usr)) \<and>
    (\<exists>s'. ioctl_proc_info_stop (Some (pid, tid)) s = Ret 0 s' \<and> debug_ok s' \<and> debug_text s' = (debug_text s)((pid, tid) := None))"
proof -
  have "debug_text s (pid, tid) = None \<longleftrightarrow> dbg.lookup (debug_info s) (pid, tid) = None"
  proof (cases "dbg.lookup (debug_info s) (pid, tid)")
    case (Some x)
    then obtain j where j: "j < 16" "x = debug_info s ! j" "dbg_hit (pid, tid) x"
      using debug_okD(1) [OF assms(1)] by (auto elim: dbg.lookup_SomeE)
    then have "\<not> dbg_free x" using dbg.free_no_hit [OF assms(2)] by blast
    then show ?thesis using debug_okD(5) [OF assms(1) j(1)] Some j(2) assms(2) by (auto simp: slot_ok_def debug_text_def)
  qed (simp add: debug_text_def)
  then have full: "debug_text s (pid, tid) = None \<and> (\<forall>x \<in> set (debug_info s). \<not> dbg_free x) \<longleftrightarrow>
      dbg.slot_for (pid, tid) (debug_info s) = None" by (simp add: dbg.slot_for_None)
  show ?thesis
  proof (cases "dbg.slot_for (pid, tid) (debug_info s)")
    case None
    then have c: "debug_text s (pid, tid) = None \<and> (\<forall>x \<in> set (debug_info s). \<not> dbg_free x)" using full by blast
    show ?thesis unfolding if_P [OF c] using copy_full [OF assms(1) None] stop_refines [OF assms(1,2)] by blast
  next
    case (Some i)
    then have c: "\<not> (debug_text s (pid, tid) = None \<and> (\<forall>x \<in> set (debug_info s). \<not> dbg_free x))" using full by simp
    show ?thesis unfolding if_not_P [OF c] using copy_refines [OF assms Some] stop_refines [OF assms(1,2)] by blast
  qed
qed

definition ex_debug :: debug_state where
  "ex_debug = \<lparr>debug_info = replicate 16 blank_debug, debug_info_cur_index = - 1, vmem = Map.empty, bad_frees = [],
     lock_debug_info = False\<rparr>"

lemma ex_debug_ok: "debug_ok ex_debug"
proof -
  have "dbg.unique (replicate 16 blank_debug)"
    unfolding dbg.unique_def by (auto simp: dbg_hit_def blank_debug_def)
  then show ?thesis by (simp add: debug_ok_def ex_debug_def slot_ok_def dbg_free_def) (simp add: blank_debug_def)
qed

theorem debug_table_map_witness:
  "\<exists>s' s''. ioctl_proc_info_copy (Some (10, 11, 2)) [104, 105] (Some 5) ex_debug = Ret 0 s' \<and>
    debug_text s' (10, 11) = Some [104, 105] \<and> ioctl_proc_info_stop (Some (10, 11)) s' = Ret 0 s'' \<and> debug_text s'' (10, 11) = None"
proof -
  have h: "(10 :: u32, 11 :: u32) \<noteq> (0, 0)" "(2 :: u32) \<noteq> 0" "unat (2 :: u32) \<le> length [104, 105 :: u8]" "vmem ex_debug 5 = None"
    by (simp_all add: ex_debug_def)
  have "\<exists>x \<in> set (debug_info ex_debug). dbg_free x" by (simp add: ex_debug_def dbg_free_def blank_debug_def)
  then obtain s' where s': "ioctl_proc_info_copy (Some (10, 11, 2)) [104, 105] (Some 5) ex_debug = Ret 0 s'" "debug_ok s'"
    "debug_text s' = (debug_text ex_debug)((10, 11) \<mapsto> take (unat (2 :: u32)) [104, 105])"
    using debug_table_map [OF ex_debug_ok h] by (metis (lifting))
  then obtain s'' where "ioctl_proc_info_stop (Some (10, 11)) s' = Ret 0 s''" "debug_text s'' = (debug_text s')((10, 11) := None)"
    using stop_refines h(1) by blast
  with s' show ?thesis by auto
qed

text \<open>
  When the text cannot be read from user space, the area allocated for it is freed but stays
  entered in the table.  The stop that follows frees it again, and as long as the entry is there,
  with both ids non-zero and the only one in the table, reading the sysfs attribute accesses the
  freed area.
\<close>

theorem failed_copy_dangles:
  assumes "debug_ok s" "debug_info s = replicate 16 blank_debug" "pid \<noteq> 0" "tid \<noteq> 0" "length usr < unat len" "vmem s a = None"
  shows "\<exists>s' s''. ioctl_proc_info_copy (Some (pid, tid, len)) usr (Some a) s = Ret (- EFAULT) s' \<and> vmem s' a = None \<and>
    dbg_data (debug_info s' ! 0) = Some a \<and>
    ioctl_proc_info_stop (Some (pid, tid)) s' = Ret 0 s'' \<and> bad_frees s'' = [a] \<and>
    (unat len \<le> 4096 \<longrightarrow> ve_info_show s' = Faults)"
proof -
  let ?x = "\<lparr>dh_pid = pid, dh_tid = tid, dh_length = len, dbg_data = Some a\<rparr>"
  have info: "debug_info s = blank_debug # replicate 15 blank_debug"
    unfolding assms(2) by (simp flip: replicate_Suc)
  have n: "unat len \<noteq> 0" "len \<noteq> 0" using assms(5) by (auto simp: unat_eq_0)
  have "scan (dbg_hit (pid, tid)) (debug_info s) = length (debug_info s)"
    using assms(3) unfolding scan_none assms(2) by (simp add: dbg_hit_def blank_debug_def)
  then have slot: "dbg.slot_for (pid, tid) (debug_info s) = Some 0"
    by (simp add: dbg.slot_for_def info dbg_free_def blank_debug_def)
  define s' where "s' = s\<lparr>debug_info_cur_index := 0, debug_info := ?x # replicate 15 blank_debug, vmem := (vmem s)(a := None)\<rparr>"
  have copy: "ioctl_proc_info_copy (Some (pid, tid, len)) usr (Some a) s = Ret (- EFAULT) s'"
    using slot n assms(5) debug_okD(2) [OF assms(1)]
    by (simp add: ioctl_proc_info_copy_def find_slot_eq info free_data_def blank_debug_def copy_from_user_def vfree_def s'_def)
  have stop: "\<exists>s''. ioctl_proc_info_stop (Some (pid, tid)) s' = Ret 0 s'' \<and> bad_frees s'' = [a]"
    using debug_okD(2,4) [OF assms(1)]
    by (simp add: ioctl_proc_info_stop_def s'_def dbg_hit_def free_data_def vfree_def)
  have "ve_info_show s' = Faults" if le: "unat len \<le> 4096"
  proof -
    have small: "unat len < 2 ^ 31" using le by simp
    have "sint (of_int (int m) :: u32) = int m" if "m < 2 ^ 31" for m
      using that by (simp add: sint_sbintrunc' signed_take_bit_int_eq_self del: of_int_of_nat_eq)
    from this [OF small] have "sint len = int (unat len)" by simp
    moreover have "(scast len :: u64) = of_int (sint len)" by simp
    ultimately have "(scast len :: u64) = of_nat (unat len)" by (metis of_int_of_nat_eq)
    then have "unat (scast len :: u64) = unat len" using unat_of_nat_eq [of "unat len", where ?'a = 64] le by simp
    then have "\<not> (4096 :: u64) < scast len" using le by (simp add: word_less_nat_alt)
    then show ?thesis
      using assms(3,4) n debug_okD(2) [OF assms(1)] by (simp add: ve_info_show_def s'_def show_page_def)
  qed
  with copy stop show ?thesis using assms(6) by (auto simp: s'_def)
qed

theorem failed_copy_dangles_witness:
  "\<exists>s' s''. ioctl_proc_info_copy (Some (10, 11, 2)) [104] (Some 5) ex_debug = Ret (- EFAULT) s' \<and>
    ioctl_proc_info_stop (Some (10, 11)) s' = Ret 0 s'' \<and> bad_frees s'' = [5] \<and> ve_info_show s' = Faults"
proof -
  have h: "debug_info ex_debug = replicate 16 blank_debug" "(10 :: u32) \<noteq> 0" "(11 :: u32) \<noteq> 0"
    "length [104 :: u8] < unat (2 :: u32)" "vmem ex_debug 5 = None" by (simp_all add: ex_debug_def)
  show ?thesis using failed_copy_dangles [OF ex_debug_ok h] by auto
qed

end
