(* ===== verification/Ve_Mem_List.thy ===== *)
theory Ve_Mem_List
  imports Prelude
begin

text \<open>
  \<open>ve_mem_list.h\<close>: the circular doubly linked list in which the VE driver keeps its mapped buffers.
  The links of all list heads are two maps from addresses to addresses; \<open>linked h p xs\<close> says that
  the list with head \<open>p\<close> has the entries \<open>xs\<close> in this order.  The interface the driver uses is the
  locale \<open>linked_list\<close>; the operations of the header are its interpretation.
\<close>

record links =
  aw_next :: "u64 \<Rightarrow> u64"
  aw_prev :: "u64 \<Rightarrow> u64"

definition AW_LIST_LOCATION1 :: u64 where
  "AW_LIST_LOCATION1 = 0x00100100"

definition AW_LIST_LOCATION2 :: u64 where
  "AW_LIST_LOCATION2 = 0x00200200"

definition set_next :: "u64 \<Rightarrow> u64 \<Rightarrow> links \<Rightarrow> links" where
  "set_next p q h = h\<lparr>aw_next := (aw_next h)(p := q)\<rparr>"

definition set_prev :: "u64 \<Rightarrow> u64 \<Rightarrow> links \<Rightarrow> links" where
  "set_prev p q h = h\<lparr>aw_prev := (aw_prev h)(p := q)\<rparr>"

definition AW_MEM_INIT_LIST_HEAD :: "u64 \<Rightarrow> links \<Rightarrow> links" where
  "AW_MEM_INIT_LIST_HEAD p h = set_prev p p (set_next p p h)"

definition aw_list_add :: "u64 \<Rightarrow> u64 \<Rightarrow> u64 \<Rightarrow> links \<Rightarrow> links" where
  "aw_list_add newList prev nxt h =
     (let h = set_prev nxt newList h;
          h = set_next newList nxt h;
          h = set_prev newList prev h
      in set_next prev newList h)"

definition aw_mem_list_add :: "u64 \<Rightarrow> u64 \<Rightarrow> links \<Rightarrow> links" where
  "aw_mem_list_add newList head h = aw_list_add newList head (aw_next h head) h"

definition aw_mem_list_add_tail :: "u64 \<Rightarrow> u64 \<Rightarrow> links \<Rightarrow> links" where
  "aw_mem_list_add_tail newList head h = aw_list_add newList (aw_prev h head) head h"

definition aw_mem_list_del_links :: "u64 \<Rightarrow> u64 \<Rightarrow> links \<Rightarrow> links" where
  "aw_mem_list_del_links prev nxt h = set_next prev nxt (set_prev nxt prev h)"

definition aw_mem_list_del :: "u64 \<Rightarrow> links \<Rightarrow> links" where
  "aw_mem_list_del entry h =
     (let h = aw_mem_list_del_links (aw_prev h entry) (aw_next h entry) h;
          h = set_next entry AW_LIST_LOCATION1 h
      in set_prev entry AW_LIST_LOCATION2 h)"

section \<open>The list a head stands for\<close>

fun seg :: "links \<Rightarrow> u64 \<Rightarrow> u64 list \<Rightarrow> u64 \<Rightarrow> bool" where
  "seg h a [] b \<longleftrightarrow> aw_next h a = b \<and> aw_prev h b = a"
| "seg h a (x # xs) b \<longleftrightarrow> aw_next h a = x \<and> aw_prev h x = a \<and> seg h x xs b"

definition linked :: "links \<Rightarrow> u64 \<Rightarrow> u64 list \<Rightarrow> bool" where
  "linked h p xs \<longleftrightarrow> distinct (p # xs) \<and> seg h p xs p"

lemma links_sel [simp]:
  "aw_next (set_next p q h) = (aw_next h)(p := q)" "aw_prev (set_next p q h) = aw_prev h"
  "aw_next (set_prev p q h) = aw_next h" "aw_prev (set_prev p q h) = (aw_prev h)(p := q)"
  by (simp_all add: set_next_def set_prev_def)

lemma seg_append: "seg h a (xs @ y # ys) b \<longleftrightarrow> seg h a xs y \<and> seg h y ys b"
  by (induction xs arbitrary: a) auto

lemma seg_cong:
  assumes "seg h a xs b"
    and "\<forall>p \<in> set (a # xs). aw_next h' p = aw_next h p"
    and "\<forall>p \<in> set (xs @ [b]). aw_prev h' p = aw_prev h p"
  shows "seg h' a xs b"
  using assms by (induction xs arbitrary: a) auto

lemma seg_first: "seg h a xs b \<Longrightarrow> aw_next h a = hd (xs @ [b])"
  by (cases xs) simp_all

lemma seg_last: "seg h a xs b \<Longrightarrow> aw_prev h b = last (a # xs)"
  by (induction xs arbitrary: a) auto

lemma linked_init: "linked (AW_MEM_INIT_LIST_HEAD p h) p []"
  by (simp add: linked_def AW_MEM_INIT_LIST_HEAD_def)

lemma linked_first: "linked h p xs \<Longrightarrow> aw_next h p = hd (xs @ [p])"
  by (auto simp: linked_def seg_first)

lemma linked_next: "linked h p (ys @ x # zs) \<Longrightarrow> aw_next h x = hd (zs @ [p])"
  by (auto simp: linked_def seg_append seg_first)

lemma aw_list_add_links:
  "aw_next (aw_list_add n a b h) = (aw_next h)(n := b, a := n)"
  "aw_prev (aw_list_add n a b h) = (aw_prev h)(b := n, n := a)"
  by (simp_all add: aw_list_add_def Let_def)

lemma linked_add:
  assumes "linked h p xs" "n \<noteq> p" "n \<notin> set xs"
  shows "linked (aw_mem_list_add n p h) p (n # xs)"
proof -
  have s: "seg h p xs p" "distinct (p # xs)" using assms(1) by (simp_all add: linked_def)
  show ?thesis
  proof (cases xs)
    case Nil
    with s assms show ?thesis by (simp add: linked_def aw_mem_list_add_def aw_list_add_links)
  next
    case (Cons x ys)
    let ?h = "aw_list_add n p x h"
    have "aw_next h p = x" using s(1) Cons by simp
    then have op: "aw_mem_list_add n p h = ?h" by (simp add: aw_mem_list_add_def)
    have "seg h x ys p" using s(1) Cons by simp
    then have "seg ?h x ys p"
      by (rule seg_cong) (use s(2) Cons assms(2,3) in \<open>auto simp: aw_list_add_links\<close>)
    with s(2) assms(2,3) Cons show ?thesis by (simp add: op linked_def aw_list_add_links) blast
  qed
qed

lemma linked_add_tail:
  assumes "linked h p xs" "n \<noteq> p" "n \<notin> set xs"
  shows "linked (aw_mem_list_add_tail n p h) p (xs @ [n])"
proof -
  have s: "seg h p xs p" "distinct (p # xs)" using assms(1) by (simp_all add: linked_def)
  show ?thesis
  proof (cases xs rule: rev_cases)
    case Nil
    with s assms show ?thesis by (simp add: linked_def aw_mem_list_add_tail_def aw_list_add_links)
  next
    case (snoc ys y)
    let ?h = "aw_list_add n y p h"
    have "aw_prev h p = y" using seg_last [OF s(1)] snoc by simp
    then have op: "aw_mem_list_add_tail n p h = ?h" by (simp add: aw_mem_list_add_tail_def)
    have "seg h p ys y" using s(1) snoc by (simp add: seg_append)
    then have "seg ?h p ys y"
      by (rule seg_cong) (use s(2) snoc assms(2,3) in \<open>auto simp: aw_list_add_links\<close>)
    with s(2) assms(2,3) snoc show ?thesis by (simp add: op linked_def aw_list_add_links seg_append) blast
  qed
qed

lemma aw_mem_list_del_sel:
  "aw_next (aw_mem_list_del x h) = (aw_next h)(aw_prev h x := aw_next h x, x := AW_LIST_LOCATION1)"
  "aw_prev (aw_mem_list_del x h) = (aw_prev h)(aw_next h x := aw_prev h x, x := AW_LIST_LOCATION2)"
  by (simp_all add: aw_mem_list_del_def aw_mem_list_del_links_def Let_def)

lemma linked_del:
  assumes "linked h p (ys @ x # zs)"
  shows "linked (aw_mem_list_del x h) p (ys @ zs)"
proof -
  let ?h = "aw_mem_list_del x h"
  have s: "seg h p ys x" "seg h x zs p" and d: "distinct (p # ys @ x # zs)"
    using assms by (auto simp: linked_def seg_append)
  have pv: "aw_prev h x = last (p # ys)" using s(1) by (rule seg_last)
  have nx: "aw_next h x = hd (zs @ [p])" using s(2) by (rule seg_first)
  have nxp: "aw_next h x \<noteq> x" using d by (cases zs) (auto simp: nx)
  have pvp: "aw_prev h x \<noteq> x" using d by (cases ys rule: rev_cases) (auto simp: pv)
  have left: "seg ?h p ys (aw_next h x)"
  proof (cases ys rule: rev_cases)
    case Nil
    with d nxp pvp s(1) show ?thesis by (simp add: aw_mem_list_del_sel)
  next
    case (snoc us u)
    have u: "aw_prev h x = u" using pv snoc by simp
    have nu: "aw_next h x \<notin> set us \<union> {u}" using d snoc by (cases zs) (auto simp: nx)
    have "seg h p us u" using s(1) snoc by (simp add: seg_append)
    then have "seg ?h p us u"
      by (rule seg_cong) (use d snoc u nu in \<open>auto simp: aw_mem_list_del_sel\<close>)
    with snoc nxp pvp u show ?thesis by (simp add: seg_append aw_mem_list_del_sel)
  qed
  show ?thesis
  proof (cases zs)
    case Nil
    with left nx d show ?thesis by (simp add: linked_def)
  next
    case (Cons z ws)
    have pz: "aw_prev h x \<notin> set (z # ws)"
      using d Cons by (cases ys rule: rev_cases) (auto simp: pv)
    have z: "aw_next h x = z" using nx Cons by simp
    have "seg h z ws p" using s(2) Cons by simp
    then have "seg ?h z ws p"
      by (rule seg_cong) (use d Cons pz z in \<open>auto simp: aw_mem_list_del_sel\<close>)
    with left Cons d z show ?thesis by (simp add: linked_def seg_append)
  qed
qed

section \<open>The interface\<close>

text \<open>
  What a client relies on: the first entry and the successor of an entry, appending, deleting.  The
  client's argument that a loop which saves the successor may delete the current entry is made here
  once.
\<close>

locale linked_list =
  fixes list :: "'h \<Rightarrow> 'p \<Rightarrow> 'p list \<Rightarrow> bool"
    and succ :: "'h \<Rightarrow> 'p \<Rightarrow> 'p"
    and add_tail :: "'p \<Rightarrow> 'p \<Rightarrow> 'h \<Rightarrow> 'h"
    and del :: "'p \<Rightarrow> 'h \<Rightarrow> 'h"
  assumes first_law: "list h p xs \<Longrightarrow> succ h p = hd (xs @ [p])"
    and succ_law: "list h p (ys @ x # zs) \<Longrightarrow> succ h x = hd (zs @ [p])"
    and distinct_law: "list h p xs \<Longrightarrow> distinct (p # xs)"
    and add_tail_law: "list h p xs \<Longrightarrow> n \<noteq> p \<Longrightarrow> n \<notin> set xs \<Longrightarrow> list (add_tail n p h) p (xs @ [n])"
    and del_law: "list h p (ys @ x # zs) \<Longrightarrow> list (del x h) p (ys @ zs)"
begin

definition cursor :: "'h \<Rightarrow> 'p \<Rightarrow> 'p list \<Rightarrow> 'p list \<Rightarrow> 'p \<Rightarrow> 'p \<Rightarrow> bool" where
  "cursor h p ys zs pos n \<longleftrightarrow> list h p (ys @ zs) \<and> pos = hd (zs @ [p]) \<and> (zs \<noteq> [] \<longrightarrow> n = hd (tl zs @ [p]))"

lemma cursor_start: "list h p xs \<Longrightarrow> cursor h p [] xs (succ h p) (succ h (succ h p))"
  using first_law [of h p xs] succ_law [of h p "[]" "hd xs" "tl xs"] by (cases xs) (auto simp: cursor_def)

lemma cursor_end: "cursor h p ys zs pos n \<Longrightarrow> pos = p \<longleftrightarrow> zs = []"
  using distinct_law [of h p "ys @ zs"] by (cases zs) (auto simp: cursor_def)

lemma cursor_skip:
  assumes "cursor h p ys (x # zs) x n"
  shows "cursor h p (ys @ [x]) zs n (succ h n)"
  using assms succ_law [of h p "ys @ [x]" "hd zs" "tl zs"] by (cases zs) (auto simp: cursor_def)

lemma cursor_del:
  assumes "cursor h p ys (x # zs) x n"
  shows "cursor (del x h) p ys zs n (succ (del x h) n)"
proof -
  have l: "list (del x h) p (ys @ zs)" using assms by (auto simp: cursor_def intro: del_law)
  with assms succ_law [of "del x h" p ys "hd zs" "tl zs"] show ?thesis
    by (cases zs) (auto simp: cursor_def)
qed

lemma cursor_list: "cursor h p ys zs pos n \<Longrightarrow> list h p (ys @ zs)"
  by (simp add: cursor_def)

lemma cursor_pos: "cursor h p ys (x # zs) pos n \<Longrightarrow> pos = x"
  by (simp add: cursor_def)

lemma add_then_del:
  assumes "list h p xs" "n \<noteq> p" "n \<notin> set xs"
  shows "list (del n (add_tail n p h)) p xs"
  using del_law [of "add_tail n p h" p xs n "[]"] add_tail_law [OF assms] by simp

end

interpretation dl: linked_list linked aw_next aw_mem_list_add_tail aw_mem_list_del
proof unfold_locales
  show "distinct (p # xs)" if "linked h p xs" for h p xs
    using that by (simp add: linked_def)
qed (fact linked_first linked_next linked_add_tail linked_del)+

end
