(* ===== verification/Cedar_Dma.thy ===== *)
theory Cedar_Dma
  imports Ve_Mem_List "HOL-Library.Monad_Syntax" "HOL-Library.Multiset"
begin

text \<open>
  The VE driver's mapped DMA buffers: \<open>map_dma_buf_addr\<close> and \<open>unmap_dma_buf_addr\<close> of \<open>cedar_ve.c\<close>.  A
  \<open>dma_buf_info\<close> begins with its list links, so one address names both; the allocated ones are the
  domain of \<open>infos\<close>.  The kernel's dma-buf framework is a parameter: \<open>dma_env\<close> gives the result of
  every request of one call (\<open>None\<close> is a null or error pointer), and \<open>dma_calls\<close> records the calls
  that acquire or give back something.  Reading an entry that is not allocated is \<open>None\<close>.
\<close>

record dma_buf_info =
  bi_fd :: int
  bi_addr :: u64
  bi_dma_buf :: u64
  bi_attachment :: u64
  bi_sgt :: u64
  bi_p_id :: int
  bi_filp :: nat

datatype dma_call =
    dma_buf_get u64
  | dma_buf_attach u64 u64
  | dma_buf_map_attachment u64 u64
  | dma_buf_unmap_attachment u64 u64
  | dma_buf_detach u64 u64
  | dma_buf_put u64

record dma_env =
  env_kmalloc :: "u64 option"
  env_get :: "int \<Rightarrow> u64 option"
  env_attach :: "u64 \<Rightarrow> u64 option"
  env_map :: "u64 \<Rightarrow> u64 option"
  env_dma_address :: "u64 \<Rightarrow> u64"

record dma_state =
  links_of :: links
  list_head :: u64
  infos :: "u64 \<Rightarrow> dma_buf_info option"
  bMemDevAttachFlag :: bool
  dma_calls :: "dma_call list"

definition call :: "dma_call \<Rightarrow> dma_state \<Rightarrow> dma_state" where
  "call c s = s\<lparr>dma_calls := dma_calls s @ [c]\<rparr>"

definition kfree :: "u64 \<Rightarrow> dma_state \<Rightarrow> dma_state" where
  "kfree p s = s\<lparr>infos := (infos s)(p := None)\<rparr>"

text \<open>
  The address is handed to user space as an \<open>unsigned int\<close>.
\<close>

definition map_dma_buf_addr :: "dma_env \<Rightarrow> int \<Rightarrow> int \<Rightarrow> nat \<Rightarrow> dma_state \<Rightarrow> (int \<times> u32 option) \<times> dma_state" where
  "map_dma_buf_addr e fd tgid filp s =
     (case env_kmalloc e of
        None \<Rightarrow> ((- 1, None), s)
      | Some buf_info \<Rightarrow>
          (case env_get e fd of
             None \<Rightarrow> ((- 1, None), kfree buf_info s)
           | Some dma_buf \<Rightarrow>
               let s = call (dma_buf_get dma_buf) s in
               (case env_attach e dma_buf of
                  None \<Rightarrow> ((- 1, None), kfree buf_info (call (dma_buf_put dma_buf) s))
                | Some attachment \<Rightarrow>
                    let s = call (dma_buf_attach dma_buf attachment) s in
                    (case env_map e attachment of
                       None \<Rightarrow> ((- 1, None),
                          kfree buf_info (call (dma_buf_put dma_buf) (call (dma_buf_detach dma_buf attachment) s)))
                     | Some sgt \<Rightarrow>
                         let s = call (dma_buf_map_attachment attachment sgt) s;
                             addr = env_dma_address e sgt;
                             s = s\<lparr>infos := (infos s)(buf_info \<mapsto>
                                   \<lparr>bi_fd = fd, bi_addr = addr, bi_dma_buf = dma_buf, bi_attachment = attachment,
                                    bi_sgt = sgt, bi_p_id = tgid, bi_filp = filp\<rparr>)\<rparr>;
                             s = s\<lparr>links_of := aw_mem_list_add_tail buf_info (list_head s) (links_of s)\<rparr>
                         in ((0, Some (ucast addr)), s)))))"

definition release_buf :: "dma_buf_info \<Rightarrow> dma_state \<Rightarrow> dma_state" where
  "release_buf b s =
     (if bi_dma_buf b \<noteq> 0 then
        let s = (if bi_attachment b \<noteq> 0 then
                   let s = (if bi_sgt b \<noteq> 0 then call (dma_buf_unmap_attachment (bi_attachment b) (bi_sgt b)) s else s)
                   in call (dma_buf_detach (bi_dma_buf b) (bi_attachment b)) s
                 else s)
        in call (dma_buf_put (bi_dma_buf b)) s
      else s)"

partial_function (option) unmap_loop_dma ::
  "bool \<Rightarrow> int \<Rightarrow> int \<Rightarrow> nat \<Rightarrow> u64 \<Rightarrow> u64 \<Rightarrow> dma_state \<Rightarrow> dma_state option" where
  "unmap_loop_dma unmap_all fd tgid filp pos nxt s =
     (if pos = list_head s then Some s
      else do {
        b \<leftarrow> infos s pos;
        let tmp_fd = (if unmap_all then bi_fd b else fd);
        if bi_fd b = tmp_fd \<and> bi_p_id b = tgid \<and> filp = bi_filp b then
          let s = release_buf b s;
              s = s\<lparr>links_of := aw_mem_list_del pos (links_of s)\<rparr>;
              s = kfree pos s
          in if unmap_all then unmap_loop_dma unmap_all fd tgid filp nxt (aw_next (links_of s) nxt) s
             else Some s
        else unmap_loop_dma unmap_all fd tgid filp nxt (aw_next (links_of s) nxt) s
      })"

definition unmap_dma_buf_addr :: "bool \<Rightarrow> int \<Rightarrow> int \<Rightarrow> nat \<Rightarrow> dma_state \<Rightarrow> dma_state option" where
  "unmap_dma_buf_addr unmap_all fd tgid filp s =
     (if bMemDevAttachFlag s then
        let pos = aw_next (links_of s) (list_head s)
        in unmap_loop_dma unmap_all fd tgid filp pos (aw_next (links_of s) pos) s
      else Some s)"

section \<open>The buffers the driver holds\<close>

text \<open>
  The abstract state of the component is the list of buffers; an operation of the framework is
  outstanding when it has been called more often than its inverse.
\<close>

definition holds :: "dma_state \<Rightarrow> u64 list \<Rightarrow> bool" where
  "holds s ps \<longleftrightarrow> linked (links_of s) (list_head s) ps \<and> (\<forall>p. p \<in> set ps \<longleftrightarrow> infos s p \<noteq> None)"

definition buffers :: "dma_state \<Rightarrow> u64 list \<Rightarrow> dma_buf_info list" where
  "buffers s ps = map (\<lambda>p. the (infos s p)) ps"

definition acquired :: "dma_buf_info \<Rightarrow> dma_call list" where
  "acquired b = [dma_buf_get (bi_dma_buf b), dma_buf_attach (bi_dma_buf b) (bi_attachment b),
     dma_buf_map_attachment (bi_attachment b) (bi_sgt b)]"

definition given_back :: "dma_buf_info \<Rightarrow> dma_call list" where
  "given_back b = [dma_buf_unmap_attachment (bi_attachment b) (bi_sgt b),
     dma_buf_detach (bi_dma_buf b) (bi_attachment b), dma_buf_put (bi_dma_buf b)]"

definition complete :: "dma_buf_info \<Rightarrow> bool" where
  "complete b \<longleftrightarrow> bi_dma_buf b \<noteq> 0 \<and> bi_attachment b \<noteq> 0 \<and> bi_sgt b \<noteq> 0"

definition matches :: "bool \<Rightarrow> int \<Rightarrow> int \<Rightarrow> nat \<Rightarrow> dma_buf_info \<Rightarrow> bool" where
  "matches unmap_all fd tgid filp b \<longleftrightarrow> (unmap_all \<or> bi_fd b = fd) \<and> bi_p_id b = tgid \<and> filp = bi_filp b"

lemma call_sel [simp]:
  "links_of (call c s) = links_of s" "list_head (call c s) = list_head s" "infos (call c s) = infos s"
  "bMemDevAttachFlag (call c s) = bMemDevAttachFlag s" "dma_calls (call c s) = dma_calls s @ [c]"
  by (simp_all add: call_def)

lemma kfree_sel [simp]:
  "links_of (kfree p s) = links_of s" "list_head (kfree p s) = list_head s" "infos (kfree p s) = (infos s)(p := None)"
  "bMemDevAttachFlag (kfree p s) = bMemDevAttachFlag s" "dma_calls (kfree p s) = dma_calls s"
  by (simp_all add: kfree_def)

lemma release_buf_sel [simp]:
  "links_of (release_buf b s) = links_of s" "list_head (release_buf b s) = list_head s"
  "infos (release_buf b s) = infos s" "bMemDevAttachFlag (release_buf b s) = bMemDevAttachFlag s"
  by (simp_all add: release_buf_def Let_def)

lemma release_buf_calls: "complete b \<Longrightarrow> dma_calls (release_buf b s) = dma_calls s @ given_back b"
  by (simp add: release_buf_def complete_def given_back_def Let_def)

definition drop_buf :: "u64 \<Rightarrow> dma_state \<Rightarrow> dma_state" where
  "drop_buf p s =
     kfree p (release_buf (the (infos s p)) s\<lparr>links_of := aw_mem_list_del p (links_of s)\<rparr>)"

lemma drop_buf_sel [simp]:
  "links_of (drop_buf p s) = aw_mem_list_del p (links_of s)" "list_head (drop_buf p s) = list_head s"
  "infos (drop_buf p s) = (infos s)(p := None)"
  by (simp_all add: drop_buf_def)

lemma unmap_loop_dma_end: "unmap_loop_dma a fd tgid filp (list_head s) n s = Some s"
  by (subst unmap_loop_dma.simps) simp

lemma unmap_loop_dma_step:
  assumes "pos \<noteq> list_head s" "infos s pos = Some b"
  shows "unmap_loop_dma a fd tgid filp pos n s =
    (if matches a fd tgid filp b then
       if a then unmap_loop_dma a fd tgid filp n (aw_next (links_of (drop_buf pos s)) n) (drop_buf pos s)
       else Some (drop_buf pos s)
     else unmap_loop_dma a fd tgid filp n (aw_next (links_of s) n) s)"
  using assms by (subst unmap_loop_dma.simps) (auto simp: matches_def drop_buf_def Let_def)

definition victims :: "bool \<Rightarrow> int \<Rightarrow> int \<Rightarrow> nat \<Rightarrow> dma_state \<Rightarrow> u64 list \<Rightarrow> u64 list" where
  "victims unmap_all fd tgid filp s ps =
     (let ms = filter (\<lambda>p. matches unmap_all fd tgid filp (the (infos s p))) ps
      in if unmap_all then ms else take 1 ms)"

lemma victims_subset: "set (victims a fd tgid filp s ps) \<subseteq> set ps"
  by (auto simp: victims_def Let_def dest: in_set_takeD)

lemma victims_cong:
  assumes "\<And>p. p \<in> set ps \<Longrightarrow> infos s' p = infos s p"
  shows "victims a fd tgid filp s' ps = victims a fd tgid filp s ps"
proof -
  have "filter (\<lambda>p. matches a fd tgid filp (the (infos s' p))) ps = filter (\<lambda>p. matches a fd tgid filp (the (infos s p))) ps"
    using assms by (intro filter_cong) simp_all
  then show ?thesis by (simp add: victims_def)
qed

lemma victims_Cons:
  "victims a fd tgid filp s (p # ps) =
     (if matches a fd tgid filp (the (infos s p)) then p # (if a then victims a fd tgid filp s ps else [])
      else victims a fd tgid filp s ps)"
  by (simp add: victims_def Let_def)

definition returned :: "dma_state \<Rightarrow> u64 list \<Rightarrow> dma_call list" where
  "returned s ps = concat (map (\<lambda>p. given_back (the (infos s p))) ps)"

lemma returned_cong: "(\<And>p. p \<in> set ps \<Longrightarrow> infos s' p = infos s p) \<Longrightarrow> returned s' ps = returned s ps"
  unfolding returned_def by (metis (mono_tags, lifting) map_cong)

definition unmapped :: "dma_state \<Rightarrow> u64 list \<Rightarrow> u64 list \<Rightarrow> u64 list \<Rightarrow> dma_state \<Rightarrow> bool" where
  "unmapped s ys zs V s' \<longleftrightarrow> list_head s' = list_head s \<and>
     linked (links_of s') (list_head s) (ys @ filter (\<lambda>p. p \<notin> set V) zs) \<and>
     infos s' = (\<lambda>p. if p \<in> set V then None else infos s p) \<and> dma_calls s' = dma_calls s @ returned s V \<and>
     bMemDevAttachFlag s' = bMemDevAttachFlag s"

lemma unmap_loop_dma_correct:
  assumes "dl.cursor (links_of s) (list_head s) ys zs pos n"
    and "\<And>p. p \<in> set zs \<Longrightarrow> \<exists>b. infos s p = Some b \<and> complete b"
  shows "\<exists>s'. unmap_loop_dma a fd tgid filp pos n s = Some s' \<and> unmapped s ys zs (victims a fd tgid filp s zs) s'"
  using assms
proof (induction zs arbitrary: ys pos n s)
  case Nil
  then have "pos = list_head s" by (simp add: dl.cursor_end)
  with Nil dl.cursor_list [OF Nil.prems(1)] show ?case
    by (simp add: unmap_loop_dma_end unmapped_def victims_def returned_def)
next
  case (Cons z zs)
  have pos: "pos = z" using Cons.prems(1) by (rule dl.cursor_pos)
  have nh: "z \<noteq> list_head s" using Cons.prems(1) dl.cursor_end pos by fastforce
  obtain b where b: "infos s z = Some b" "complete b" using Cons.prems(2) by auto
  have cur: "dl.cursor (links_of s) (list_head s) ys (z # zs) z n" using Cons.prems(1) pos by simp
  have dis: "distinct (ys @ z # zs)" using dl.cursor_list [OF cur] by (auto simp: linked_def)
  note step = unmap_loop_dma_step [OF nh b(1), of a fd tgid filp n]
  show ?case
  proof (cases "matches a fd tgid filp b")
    case False
    have nz: "z \<notin> set (victims a fd tgid filp s zs)" using dis victims_subset by fastforce
    have "unmap_loop_dma a fd tgid filp pos n s = unmap_loop_dma a fd tgid filp n (aw_next (links_of s) n) s"
      using step False pos by simp
    then show ?thesis
      using Cons.IH [OF dl.cursor_skip [OF cur]] Cons.prems(2) nz False b
      by (simp add: unmapped_def victims_Cons)
  next
    case m: True
    let ?s = "drop_buf z s"
    have calls: "dma_calls ?s = dma_calls s @ given_back b"
      using b release_buf_calls by (simp add: drop_buf_def)
    have flag: "bMemDevAttachFlag ?s = bMemDevAttachFlag s" by (simp add: drop_buf_def)
    have cur': "dl.cursor (links_of ?s) (list_head ?s) ys zs n (aw_next (links_of ?s) n)"
      using dl.cursor_del [OF cur] by simp
    show ?thesis
    proof (cases a)
      case False
      have "filter (\<lambda>p. p \<noteq> z) zs = zs" using dis by (auto intro: filter_True)
      then show ?thesis
        using step m False pos b calls flag dl.cursor_list [OF cur']
        by (auto simp: unmapped_def victims_Cons returned_def fun_eq_iff)
    next
      case True
      let ?V = "victims a fd tgid filp s zs"
      have same: "infos ?s p = infos s p" if "p \<in> set zs" for p using that dis by auto
      have eqV: "victims a fd tgid filp ?s zs = ?V" using same by (rule victims_cong)
      have eqR: "returned ?s ?V = returned s ?V"
        using same victims_subset by (intro returned_cong) blast
      have "\<exists>b. infos ?s p = Some b \<and> complete b" if "p \<in> set zs" for p
        using that same Cons.prems(2) by simp
      from Cons.IH [OF cur' this] obtain s' where s':
        "unmap_loop_dma a fd tgid filp n (aw_next (links_of ?s) n) ?s = Some s'" "unmapped ?s ys zs ?V s'"
        by (auto simp: eqV)
      have V: "victims a fd tgid filp s (z # zs) = z # ?V" using m b True by (simp add: victims_Cons)
      have fil: "filter (\<lambda>p. p \<notin> set (z # ?V)) (z # zs) = filter (\<lambda>p. p \<notin> set ?V) zs"
        using dis by (auto intro: filter_cong)
      have "unmapped s ys (z # zs) (z # ?V) s'"
        using s'(2) b(1) calls flag unfolding unmapped_def fil eqR by (auto simp: returned_def fun_eq_iff)
      moreover have "unmap_loop_dma a fd tgid filp pos n s = Some s'" using step m True pos s'(1) by simp
      ultimately show ?thesis by (simp add: V)
    qed
  qed
qed

section \<open>Unmapping a list of buffers\<close>

lemma unmap_correct_dma:
  assumes "holds s ps" "\<And>b. b \<in> set (buffers s ps) \<Longrightarrow> complete b" "bMemDevAttachFlag s"
  shows "\<exists>s'. unmap_dma_buf_addr a fd tgid filp s = Some s' \<and> unmapped s [] ps (victims a fd tgid filp s ps) s'"
proof -
  have "dl.cursor (links_of s) (list_head s) [] ps (aw_next (links_of s) (list_head s))
      (aw_next (links_of s) (aw_next (links_of s) (list_head s)))"
    using assms(1) by (intro dl.cursor_start) (simp add: holds_def)
  moreover have "\<exists>b. infos s p = Some b \<and> complete b" if "p \<in> set ps" for p
    using that assms(1,2) by (fastforce simp: holds_def buffers_def)
  ultimately have "\<exists>s'. unmap_loop_dma a fd tgid filp (aw_next (links_of s) (list_head s))
      (aw_next (links_of s) (aw_next (links_of s) (list_head s))) s = Some s' \<and>
      unmapped s [] ps (victims a fd tgid filp s ps) s'"
    by (rule unmap_loop_dma_correct)
  then show ?thesis using assms(3) by (simp add: unmap_dma_buf_addr_def Let_def)
qed

lemma unmapped_holds:
  assumes "holds s ps" "unmapped s [] ps (victims a fd tgid filp s ps) s'"
  shows "holds s' (filter (\<lambda>p. p \<notin> set (victims a fd tgid filp s ps)) ps)"
    and "buffers s' (filter (\<lambda>p. p \<notin> set (victims a fd tgid filp s ps)) ps) =
      buffers s (filter (\<lambda>p. p \<notin> set (victims a fd tgid filp s ps)) ps)"
  using assms by (auto simp: holds_def unmapped_def buffers_def)

section \<open>Nothing is leaked or given back twice\<close>

fun undo :: "dma_call \<Rightarrow> dma_call" where
  "undo (dma_buf_get d) = dma_buf_put d"
| "undo (dma_buf_attach d a) = dma_buf_detach d a"
| "undo (dma_buf_map_attachment a t) = dma_buf_unmap_attachment a t"
| "undo c = c"

fun acquires :: "dma_call \<Rightarrow> bool" where
  "acquires (dma_buf_get d) = True"
| "acquires (dma_buf_attach d a) = True"
| "acquires (dma_buf_map_attachment a t) = True"
| "acquires c = False"

definition balanced :: "dma_call list \<Rightarrow> dma_buf_info list \<Rightarrow> bool" where
  "balanced calls bs \<longleftrightarrow> (\<forall>c. acquires c \<longrightarrow>
     count_list calls c = count_list calls (undo c) + sum_list (map (\<lambda>b. count_list (acquired b) c) bs))"

definition dma_inv :: "dma_state \<Rightarrow> u64 list \<Rightarrow> bool" where
  "dma_inv s ps \<longleftrightarrow> holds s ps \<and> (\<forall>b \<in> set (buffers s ps). complete b) \<and> balanced (dma_calls s) (buffers s ps)"

definition env_ok :: "dma_env \<Rightarrow> dma_state \<Rightarrow> bool" where
  "env_ok e s \<longleftrightarrow>
     (\<forall>p. env_kmalloc e = Some p \<longrightarrow> infos s p = None \<and> p \<noteq> list_head s) \<and>
     (\<forall>fd. env_get e fd \<noteq> Some 0) \<and> (\<forall>d. env_attach e d \<noteq> Some 0) \<and> (\<forall>a. env_map e a \<noteq> Some 0)"

lemma count_acquired:
  assumes "acquires c"
  shows "count_list (acquired b) (undo c) = 0" "count_list (given_back b) c = 0"
    "count_list (given_back b) (undo c) = count_list (acquired b) c"
  using assms by (cases c; simp add: acquired_def given_back_def)+

lemma count_returned:
  assumes "acquires c"
  shows "count_list (returned s V) c = 0"
    "count_list (returned s V) (undo c) = sum_list (map (\<lambda>b. count_list (acquired b) c) (buffers s V))"
  using assms by (induction V) (simp_all add: returned_def buffers_def count_acquired)

lemma sum_removed:
  assumes "distinct ps" "distinct V" "set V \<subseteq> set ps"
  shows "sum_list (map f ps) = sum_list (map f (filter (\<lambda>p. p \<notin> set V) ps)) + (sum_list (map f V) :: nat)"
proof -
  have "mset (filter (\<lambda>p. p \<in> set V) ps) = mset V"
    using assms by (intro set_eq_iff_mset_eq_distinct [THEN iffD1]) auto
  then have "sum_list (map f (filter (\<lambda>p. p \<in> set V) ps)) = sum_list (map f V)"
    by (metis mset_map sum_mset_sum_list)
  moreover have "sum_list (map f ps) =
      sum_list (map f (filter (\<lambda>p. p \<notin> set V) ps)) + sum_list (map f (filter (\<lambda>p. p \<in> set V) ps))"
    by (induction ps) simp_all
  ultimately show ?thesis by simp
qed

lemma victims_distinct: "distinct ps \<Longrightarrow> distinct (victims a fd tgid filp s ps)"
  by (simp add: victims_def Let_def)

lemma unmap_inv:
  assumes "dma_inv s ps" "unmap_dma_buf_addr a fd tgid filp s = Some s'"
  shows "\<exists>ps'. dma_inv s' ps'"
proof (cases "bMemDevAttachFlag s")
  case False
  with assms show ?thesis by (auto simp: unmap_dma_buf_addr_def)
next
  case True
  let ?V = "victims a fd tgid filp s ps" and ?K = "filter (\<lambda>p. p \<notin> set (victims a fd tgid filp s ps)) ps"
  have h: "holds s ps" and c: "\<And>b. b \<in> set (buffers s ps) \<Longrightarrow> complete b" and bal: "balanced (dma_calls s) (buffers s ps)"
    using assms(1) by (auto simp: dma_inv_def)
  have un: "unmapped s [] ps ?V s'" using unmap_correct_dma [OF h c True, of a fd tgid filp] assms(2) by auto
  note k = unmapped_holds [OF h un]
  have d: "distinct ps" using h by (simp add: holds_def linked_def)
  have "balanced (dma_calls s') (buffers s' ?K)"
    unfolding balanced_def k(2)
  proof (intro allI impI)
    fix x assume x: "acquires x"
    have "sum_list (map (\<lambda>b. count_list (acquired b) x) (buffers s ps)) =
        sum_list (map (\<lambda>b. count_list (acquired b) x) (buffers s ?K)) + sum_list (map (\<lambda>b. count_list (acquired b) x) (buffers s ?V))"
      using sum_removed [OF d victims_distinct [OF d] victims_subset] by (simp add: buffers_def o_def)
    with bal x show "count_list (dma_calls s') x = count_list (dma_calls s') (undo x) +
        sum_list (map (\<lambda>b. count_list (acquired b) x) (buffers s ?K))"
      using un by (simp add: balanced_def unmapped_def count_returned)
  qed
  moreover have "\<forall>b \<in> set (buffers s' ?K). complete b" using c k(2) by (auto simp: buffers_def)
  ultimately show ?thesis using k(1) by (auto simp: dma_inv_def)
qed

definition mapped_info :: "dma_env \<Rightarrow> int \<Rightarrow> int \<Rightarrow> nat \<Rightarrow> u64 \<Rightarrow> u64 \<Rightarrow> u64 \<Rightarrow> dma_buf_info" where
  "mapped_info e fd tgid filp d a t = \<lparr>bi_fd = fd, bi_addr = env_dma_address e t, bi_dma_buf = d, bi_attachment = a,
     bi_sgt = t, bi_p_id = tgid, bi_filp = filp\<rparr>"

lemma balanced_undone:
  "balanced [] []" "balanced [dma_buf_get d, dma_buf_put d] []"
  "balanced [dma_buf_get d, dma_buf_attach d a, dma_buf_detach d a, dma_buf_put d] []"
proof -
  have "count_list [dma_buf_get d, dma_buf_put d] c = count_list [dma_buf_get d, dma_buf_put d] (undo c)"
    "count_list [dma_buf_get d, dma_buf_attach d a, dma_buf_detach d a, dma_buf_put d] c =
       count_list [dma_buf_get d, dma_buf_attach d a, dma_buf_detach d a, dma_buf_put d] (undo c)"
    if "acquires c" for c
    using that by (cases c; simp)+
  then show "balanced [] []" "balanced [dma_buf_get d, dma_buf_put d] []"
    "balanced [dma_buf_get d, dma_buf_attach d a, dma_buf_detach d a, dma_buf_put d] []"
    by (simp_all add: balanced_def)
qed

lemma map_dma_cases:
  assumes "map_dma_buf_addr e fd tgid filp s = (r, s')" "env_ok e s"
  obtains (mapped) p d a t where "r = (0, Some (ucast (env_dma_address e t)))" "env_kmalloc e = Some p"
      "env_get e fd = Some d" "env_attach e d = Some a" "env_map e a = Some t"
      "infos s' = (infos s)(p \<mapsto> mapped_info e fd tgid filp d a t)" "list_head s' = list_head s"
      "links_of s' = aw_mem_list_add_tail p (list_head s) (links_of s)"
      "dma_calls s' = dma_calls s @ acquired (mapped_info e fd tgid filp d a t)"
      "bMemDevAttachFlag s' = bMemDevAttachFlag s"
    | (failed) u where "r = (- 1, None)" "s' = s\<lparr>dma_calls := dma_calls s @ u\<rparr>" "balanced u []"
proof -
  have free: "kfree p s0 = s0" if "infos s0 p = None" for p s0
    using that by (simp add: kfree_def fun_upd_idem)
  have calls: "call x s0 = s0\<lparr>dma_calls := dma_calls s0 @ [x]\<rparr>" for x s0 by (simp add: call_def)
  have fr: "infos s p = None" if "env_kmalloc e = Some p" for p using that assms(2) by (simp add: env_ok_def)
  show thesis
  proof (cases "\<exists>p d a t. env_kmalloc e = Some p \<and> env_get e fd = Some d \<and> env_attach e d = Some a \<and> env_map e a = Some t")
    case True
    then obtain p d a t where k: "env_kmalloc e = Some p" "env_get e fd = Some d" "env_attach e d = Some a" "env_map e a = Some t"
      by blast
    with assms(1) show thesis
      by (intro mapped [of t p d a]) (auto simp: map_dma_buf_addr_def mapped_info_def acquired_def Let_def)
  next
    case False
    then have r: "r = (- 1, None)"
      and u: "s' = s \<or> (\<exists>d. s' = s\<lparr>dma_calls := dma_calls s @ [dma_buf_get d, dma_buf_put d]\<rparr>) \<or>
        (\<exists>d a. s' = s\<lparr>dma_calls := dma_calls s @ [dma_buf_get d, dma_buf_attach d a, dma_buf_detach d a, dma_buf_put d]\<rparr>)"
      using assms(1) fr by (auto simp: map_dma_buf_addr_def free calls Let_def split: option.splits)
    from u show thesis using failed [OF r] balanced_undone failed [OF r, of "[]"] by fastforce
  qed
qed

lemma map_inv:
  assumes "dma_inv s ps" "env_ok e s" "map_dma_buf_addr e fd tgid filp s = (r, s')"
  shows "\<exists>ps'. dma_inv s' ps'"
  using assms(3,2)
proof (cases rule: map_dma_cases)
  case (mapped p d a t)
  have p: "p \<notin> set ps" "p \<noteq> list_head s"
    using assms(1,2) mapped(2) by (auto simp: dma_inv_def holds_def env_ok_def)
  have nz: "d \<noteq> 0" "a \<noteq> 0" "t \<noteq> 0" using assms(2) mapped(3-5) by (auto simp: env_ok_def)
  let ?b = "mapped_info e fd tgid filp d a t"
  have "holds s' (ps @ [p])"
    using assms(1) p mapped(6-8) by (auto simp: dma_inv_def holds_def intro: linked_add_tail)
  moreover have bufs: "buffers s' (ps @ [p]) = buffers s ps @ [?b]"
    using p mapped(6) by (auto simp: buffers_def)
  moreover have "complete ?b" using nz by (simp add: complete_def mapped_info_def)
  ultimately have "dma_inv s' (ps @ [p])"
    using assms(1) mapped(9) by (auto simp: dma_inv_def balanced_def count_acquired)
  then show ?thesis ..
next
  case (failed u)
  then have "dma_inv s' ps" using assms(1) by (simp add: dma_inv_def holds_def buffers_def balanced_def)
  then show ?thesis ..
qed

text \<open>
  The states reached from a freshly initialised list by mapping and unmapping, in any order and for
  any callers.
\<close>

inductive dma_reach :: "dma_state \<Rightarrow> bool" where
  init: "dma_reach \<lparr>links_of = AW_MEM_INIT_LIST_HEAD p h, list_head = p, infos = Map.empty,
     bMemDevAttachFlag = False, dma_calls = []\<rparr>"
| attach: "dma_reach s \<Longrightarrow> dma_reach (s\<lparr>bMemDevAttachFlag := True\<rparr>)"
| map: "dma_reach s \<Longrightarrow> env_ok e s \<Longrightarrow> map_dma_buf_addr e fd tgid filp s = (r, s') \<Longrightarrow> dma_reach s'"
| unmap: "dma_reach s \<Longrightarrow> unmap_dma_buf_addr a fd tgid filp s = Some s' \<Longrightarrow> dma_reach s'"

lemma dma_reach_inv: "dma_reach s \<Longrightarrow> \<exists>ps. dma_inv s ps"
proof (induction rule: dma_reach.induct)
  case (init p h)
  show ?case
    by (rule exI [of _ "[]"]) (simp add: dma_inv_def holds_def buffers_def balanced_def linked_init)
next
  case (attach s)
  then show ?case by (auto simp: dma_inv_def holds_def buffers_def)
next
  case (map s e fd tgid filp r s')
  then show ?case using map_inv by blast
next
  case (unmap s a fd tgid filp s')
  then show ?case using unmap_inv by blast
qed

section \<open>Properties\<close>

text \<open>
  C17.  Whatever sequence of map and unmap requests has been served: the list is intact, its entries
  are exactly the allocated buffers, every reference, attachment and mapping taken from the dma-buf
  framework belongs to exactly one of them or has been given back exactly once, and the next unmap
  request of any caller terminates without touching freed memory.
\<close>

theorem dma_no_leak:
  assumes "dma_reach s"
  shows "\<exists>ps. holds s ps \<and> balanced (dma_calls s) (buffers s ps) \<and>
    (\<forall>a fd tgid filp. \<exists>s'. unmap_dma_buf_addr a fd tgid filp s = Some s')"
proof -
  obtain ps where inv: "dma_inv s ps" using dma_reach_inv [OF assms] by blast
  have "\<exists>s'. unmap_dma_buf_addr a fd tgid filp s = Some s'" for a fd tgid filp
  proof (cases "bMemDevAttachFlag s")
    case True
    then show ?thesis using inv unmap_correct_dma [of s ps a fd tgid filp] by (auto simp: dma_inv_def)
  qed (simp add: unmap_dma_buf_addr_def)
  with inv show ?thesis by (auto simp: dma_inv_def)
qed

definition ex_dma_env :: "u64 \<Rightarrow> dma_env" where
  "ex_dma_env p = \<lparr>env_kmalloc = Some p, env_get = (\<lambda>fd. Some 0x100), env_attach = (\<lambda>d. Some 0x200),
     env_map = (\<lambda>a. Some 0x300), env_dma_address = (\<lambda>t. 0xFF000000)\<rparr>"

definition ex_dma :: dma_state where
  "ex_dma = \<lparr>links_of = AW_MEM_INIT_LIST_HEAD 0x10 \<lparr>aw_next = (\<lambda>_. 0), aw_prev = (\<lambda>_. 0)\<rparr>, list_head = 0x10,
     infos = Map.empty, bMemDevAttachFlag = False, dma_calls = []\<rparr>"

theorem dma_no_leak_witness:
  "\<exists>ps. holds (snd (map_dma_buf_addr (ex_dma_env 0x20) 5 77 1 ex_dma)) ps \<and> ps \<noteq> []"
proof -
  let ?s = "snd (map_dma_buf_addr (ex_dma_env 0x20) 5 77 1 ex_dma)"
  have "dma_reach ex_dma" unfolding ex_dma_def by (rule dma_reach.init)
  moreover have "env_ok (ex_dma_env 0x20) ex_dma" by (simp add: env_ok_def ex_dma_env_def ex_dma_def)
  ultimately have "dma_reach ?s" by (rule dma_reach.map) (rule prod.collapse [symmetric])
  then obtain ps where "holds ?s ps" using dma_no_leak by blast
  moreover have "infos ?s 0x20 \<noteq> None" by (simp add: map_dma_buf_addr_def ex_dma_env_def ex_dma_def)
  ultimately show ?thesis by (force simp: holds_def)
qed

text \<open>
  C18.  A map request appends exactly one buffer, recorded for the caller's process and file, and
  returns the low 32 bits of its DMA address; or it fails with \<open>-1\<close>, leaves the list as it was and
  has given back all it took from the dma-buf framework.
\<close>

theorem map_dma_correct:
  assumes "holds s ps" "env_ok e s" "map_dma_buf_addr e fd tgid filp s = ((ret, addr), s')"
  shows "(ret = 0 \<and> (\<exists>p b. holds s' (ps @ [p]) \<and> buffers s' (ps @ [p]) = buffers s ps @ [b] \<and>
            bi_fd b = fd \<and> bi_p_id b = tgid \<and> bi_filp b = filp \<and> addr = Some (ucast (bi_addr b)) \<and> complete b \<and>
            dma_calls s' = dma_calls s @ acquired b)) \<or>
    (ret = - 1 \<and> addr = None \<and> (\<exists>u. s' = s\<lparr>dma_calls := dma_calls s @ u\<rparr> \<and> balanced u []))"
  using assms(3,2)
proof (cases rule: map_dma_cases)
  case (mapped p d a t)
  have p: "p \<notin> set ps" "p \<noteq> list_head s" using assms(1,2) mapped(2) by (auto simp: holds_def env_ok_def)
  have "complete (mapped_info e fd tgid filp d a t)"
    using assms(2) mapped(3-5) by (auto simp: complete_def mapped_info_def env_ok_def)
  moreover have "holds s' (ps @ [p])" using assms(1) p mapped(6-8) by (auto simp: holds_def intro: linked_add_tail)
  moreover have "buffers s' (ps @ [p]) = buffers s ps @ [mapped_info e fd tgid filp d a t]"
    using p mapped(6) by (auto simp: buffers_def)
  ultimately show ?thesis using mapped(1,9)
    by (intro disjI1 conjI exI [of _ p] exI [of _ "mapped_info e fd tgid filp d a t"]) (auto simp: mapped_info_def)
qed auto

theorem map_dma_correct_witness:
  "\<exists>s'. map_dma_buf_addr (ex_dma_env 0x20) 5 77 1 ex_dma = ((0, Some 0xFF000000), s') \<and>
     dma_calls s' = [dma_buf_get 0x100, dma_buf_attach 0x100 0x200, dma_buf_map_attachment 0x200 0x300]"
proof -
  obtain s' where s': "map_dma_buf_addr (ex_dma_env 0x20) 5 77 1 ex_dma = ((0, Some 0xFF000000), s')"
    by (simp add: map_dma_buf_addr_def ex_dma_env_def Let_def)
  have "holds ex_dma []" "env_ok (ex_dma_env 0x20) ex_dma"
    by (simp_all add: holds_def linked_init env_ok_def ex_dma_env_def ex_dma_def)
  from map_dma_correct [OF this s'] show ?thesis
    using s' by (auto simp: map_dma_buf_addr_def ex_dma_env_def ex_dma_def Let_def)
qed

definition unmap_kept :: "bool \<Rightarrow> int \<Rightarrow> int \<Rightarrow> nat \<Rightarrow> dma_buf_info list \<Rightarrow> dma_buf_info list" where
  "unmap_kept unmap_all fd tgid filp bs =
     (let P = matches unmap_all fd tgid filp in
      if unmap_all then filter (\<lambda>b. \<not> P b) bs
      else takeWhile (\<lambda>b. \<not> P b) bs @ tl (dropWhile (\<lambda>b. \<not> P b) bs))"

definition unmap_gone :: "bool \<Rightarrow> int \<Rightarrow> int \<Rightarrow> nat \<Rightarrow> dma_buf_info list \<Rightarrow> dma_buf_info list" where
  "unmap_gone unmap_all fd tgid filp bs =
     (let ms = filter (matches unmap_all fd tgid filp) bs in if unmap_all then ms else take 1 ms)"

lemma buffers_gone: "buffers s (victims a fd tgid filp s ps) = unmap_gone a fd tgid filp (buffers s ps)"
  by (simp add: buffers_def victims_def unmap_gone_def Let_def filter_map o_def take_map)

lemma filter_first:
  "distinct xs \<Longrightarrow> filter (\<lambda>x. x \<notin> set (take 1 (filter P xs))) xs = takeWhile (\<lambda>x. \<not> P x) xs @ tl (dropWhile (\<lambda>x. \<not> P x) xs)"
proof (induction xs)
  case (Cons x xs)
  have "x \<notin> set (take 1 (filter P xs))" using Cons.prems by (auto dest: in_set_takeD)
  moreover have "filter (\<lambda>y. y \<noteq> x) xs = xs" using Cons.prems by (auto intro: filter_True)
  ultimately show ?case using Cons by simp
qed simp

lemma buffers_kept:
  assumes "distinct ps"
  shows "buffers s (filter (\<lambda>p. p \<notin> set (victims a fd tgid filp s ps)) ps) = unmap_kept a fd tgid filp (buffers s ps)"
proof (cases a)
  case True
  then have "filter (\<lambda>p. p \<notin> set (victims a fd tgid filp s ps)) ps =
      filter (\<lambda>p. \<not> matches a fd tgid filp (the (infos s p))) ps"
    by (auto simp: victims_def intro: filter_cong)
  with True show ?thesis by (simp add: buffers_def unmap_kept_def filter_map o_def)
next
  case False
  with assms show ?thesis
    by (simp add: victims_def unmap_kept_def buffers_def filter_first takeWhile_map dropWhile_map map_tl o_def Let_def
        del: One_nat_def take_Suc)
qed

text \<open>
  C19.  An unmap request always returns.  It removes from the list, keeping the order of the rest,
  the first buffer of the caller's process and file with the given descriptor, or all buffers of
  that process and file when asked for all; for each one removed, and no other, the mapping, the
  attachment and the reference are given back in this order, and its memory is freed.
\<close>

theorem unmap_dma_correct:
  assumes "holds s ps" "\<forall>b \<in> set (buffers s ps). complete b" "bMemDevAttachFlag s"
  shows "\<exists>s' ps'. unmap_dma_buf_addr unmap_all fd tgid filp s = Some s' \<and> holds s' ps' \<and>
    buffers s' ps' = unmap_kept unmap_all fd tgid filp (buffers s ps) \<and>
    dma_calls s' = dma_calls s @ concat (map given_back (unmap_gone unmap_all fd tgid filp (buffers s ps)))"
proof -
  obtain s' where s': "unmap_dma_buf_addr unmap_all fd tgid filp s = Some s'"
    "unmapped s [] ps (victims unmap_all fd tgid filp s ps) s'"
    using unmap_correct_dma assms by blast
  have "returned s V = concat (map given_back (buffers s V))" for V by (simp add: returned_def buffers_def o_def)
  moreover have "distinct ps" using assms(1) by (simp add: holds_def linked_def)
  ultimately show ?thesis
    using s' unmapped_holds [OF assms(1) s'(2)]
    by (intro exI conjI) (auto simp: buffers_gone buffers_kept unmapped_def)
qed

theorem unmap_dma_correct_witness:
  "\<exists>s'. unmap_dma_buf_addr False 5 77 2 ((snd (map_dma_buf_addr (ex_dma_env 0x20) 5 77 2 ex_dma))\<lparr>bMemDevAttachFlag := True\<rparr>) = Some s' \<and>
     holds s' []"
proof -
  let ?s = "(snd (map_dma_buf_addr (ex_dma_env 0x20) 5 77 2 ex_dma))\<lparr>bMemDevAttachFlag := True\<rparr>"
  have "holds ex_dma []" by (simp add: holds_def linked_init ex_dma_def)
  then have h: "holds ?s [0x20]"
    using linked_add_tail [of "links_of ex_dma" "0x10" "[]" "0x20"]
    by (auto simp: holds_def map_dma_buf_addr_def ex_dma_env_def ex_dma_def Let_def)
  have b: "buffers ?s [0x20] = [\<lparr>bi_fd = 5, bi_addr = 0xFF000000, bi_dma_buf = 0x100, bi_attachment = 0x200, bi_sgt = 0x300,
      bi_p_id = 77, bi_filp = 2\<rparr>]"
    by (simp add: buffers_def map_dma_buf_addr_def ex_dma_env_def ex_dma_def Let_def)
  from unmap_dma_correct [OF h, of False 5 77 2] obtain s' ps' where
    "unmap_dma_buf_addr False 5 77 2 ?s = Some s'" "holds s' ps'" "buffers s' ps' = []"
    by (auto simp: b complete_def unmap_kept_def matches_def)
  then show ?thesis by (auto simp: buffers_def)
qed

end
