(* ===== verification/Cedar_Tasks.thy ===== *)
theory Cedar_Tasks
  imports Cedar_Clk Slots
begin

text \<open>
  The VE driver's queue of engine tasks: \<open>cedardev_insert_task\<close>, \<open>cedardev_del_task\<close>,
  \<open>cedardev_check_delay\<close>, and the two timer functions.  The kernel's \<open>list_head\<close> lists are lists here;
  \<open>j\<close> is the value of \<open>jiffies\<close> during a call, \<open>ms\<close> is \<open>msecs_to_jiffies\<close>.  A timer is the time it is
  set to; a signal is the task it goes to, the task's number and the reason.
\<close>

definition TASK_INIT :: u32 where "TASK_INIT = 0x00"
definition TASK_TIMEOUT :: u32 where "TASK_TIMEOUT = 0x55"
definition TASK_RELEASE :: u32 where "TASK_RELEASE = 0xaa"
definition CLK_REL_TIME :: nat where "CLK_REL_TIME = 10000"
definition TIMER_CIRCLE :: nat where "TIMER_CIRCLE = 50"

lemmas task_defs = TASK_INIT_def TASK_TIMEOUT_def TASK_RELEASE_def

record engine_task =
  task_prio :: int
  task_ID :: int
  task_timeout :: u64
  frametime :: u32
  task_handle :: nat
  task_status :: u32
  running :: u32
  is_first_task :: u32

record task_state =
  run_task_list :: "engine_task list"
  del_task_list :: "engine_task list"
  cedar_engine_timer :: "u64 option"
  cedar_engine_timer_rel :: "u64 option"
  signals :: "(nat \<times> int \<times> u32) list"

definition may_pass :: "engine_task \<Rightarrow> engine_task \<Rightarrow> bool" where
  "may_pass new_task task_entry \<longleftrightarrow>
     is_first_task task_entry = 0 \<and> running task_entry = 0 \<and> task_prio task_entry < task_prio new_task"

definition cedardev_insert_task :: "u64 \<Rightarrow> engine_task \<Rightarrow> task_state \<Rightarrow> task_state" where
  "cedardev_insert_task j new_task s =
     (let xs = run_task_list s;
          new_task = (if xs = [] then new_task\<lparr>is_first_task := 1\<rparr> else new_task);
          i = scan (may_pass new_task) xs
      in s\<lparr>run_task_list := take i xs @ new_task # drop i xs, cedar_engine_timer := Some j\<rparr>)"

definition cedardev_del_task :: "u64 \<Rightarrow> int \<Rightarrow> task_state \<Rightarrow> int \<times> task_state" where
  "cedardev_del_task j task_id s =
     (let xs = run_task_list s;
          i = scan (\<lambda>x. task_ID x = task_id \<and> task_status x \<noteq> TASK_RELEASE) xs
      in if i < length xs
         then (0, s\<lparr>run_task_list := xs[i := (xs ! i)\<lparr>task_status := TASK_RELEASE\<rparr>], cedar_engine_timer := Some j\<rparr>)
         else (- 1, s))"

definition cedardev_check_delay :: "int \<Rightarrow> task_state \<Rightarrow> int" where
  "cedardev_check_delay check_prio s =
     sint (fold (\<lambda>x timeout_total.
        if task_prio x \<ge> check_prio \<or> running x = 1 \<or> is_first_task x = 1 then timeout_total + frametime x else timeout_total)
        (run_task_list s) (0 :: u32))"

definition ioctl_engine_check_delay :: "int \<Rightarrow> task_state \<Rightarrow> u32 \<times> u32" where
  "ioctl_engine_check_delay prio s =
     (of_int (cedardev_check_delay prio s),
      case run_task_list s of [] \<Rightarrow> 0 | x # _ \<Rightarrow> if running x = 1 then frametime x else 0)"

definition expired :: "u64 \<Rightarrow> engine_task \<Rightarrow> bool" where
  "expired j x \<longleftrightarrow> task_status x = TASK_RELEASE \<or> time_after j (task_timeout x)"

text \<open>
  The first loop: \<open>list_move\<close> puts every expired task in front of \<open>del_task_list\<close>.
\<close>

fun expire_loop :: "u64 \<Rightarrow> engine_task list \<Rightarrow> engine_task list \<Rightarrow> engine_task list \<times> engine_task list" where
  "expire_loop j [] del = ([], del)"
| "expire_loop j (x # xs) del =
     (if expired j x then
        expire_loop j xs ((if task_status x = TASK_INIT then x\<lparr>task_status := TASK_TIMEOUT\<rparr> else x) # del)
      else
        let (keep, del) = expire_loop j xs del in (x # keep, del))"

definition del_signal :: "engine_task \<Rightarrow> (nat \<times> int \<times> u32) list" where
  "del_signal x =
     (if task_status x = TASK_TIMEOUT then [(task_handle x, task_ID x, TASK_TIMEOUT)]
      else if task_status x = TASK_RELEASE then [(task_handle x, task_ID x, TASK_RELEASE)] else [])"

definition start_first :: "u64 \<Rightarrow> (nat \<Rightarrow> nat) \<Rightarrow> task_state \<Rightarrow> task_state" where
  "start_first j ms s =
     (case run_task_list s of
        [] \<Rightarrow> s
      | x # xs \<Rightarrow>
          let s = (if running x = 0 then
                     s\<lparr>run_task_list := x\<lparr>running := 1\<rparr> # xs, signals := signals s @ [(task_handle x, task_ID x, TASK_INIT)]\<rparr>
                   else s)
          in s\<lparr>cedar_engine_timer := Some (j + of_nat (ms TIMER_CIRCLE))\<rparr>)"

definition cedar_engine_for_events :: "u64 \<Rightarrow> (nat \<Rightarrow> nat) \<Rightarrow> task_state \<Rightarrow> task_state" where
  "cedar_engine_for_events j ms s =
     (let s = (if run_task_list s = [] then s else s\<lparr>cedar_engine_timer_rel := Some (j + of_nat (ms CLK_REL_TIME))\<rparr>);
          (keep, del) = expire_loop j (run_task_list s) (del_task_list s);
          s = s\<lparr>run_task_list := keep, del_task_list := [], signals := signals s @ concat (map del_signal del)\<rparr>
      in start_first j ms s)"

text \<open>
  The timer that switches the clocks off takes the driver's spin lock and calls
  \<open>disable_cedar_hw_clk\<close>, which takes it again.
\<close>

definition cedar_engine_for_timer_rel ::
  "bool \<Rightarrow> u64 \<Rightarrow> (nat \<Rightarrow> nat) \<Rightarrow> task_state \<times> clk_state \<Rightarrow> (task_state \<times> clk_state) option" where
  "cedar_engine_for_timer_rel iw12 j ms = (\<lambda>(s, c). do {
     c \<leftarrow> spin_lock c;
     if run_task_list s = [] then do {
       (ret, c) \<leftarrow> disable_cedar_hw_clk iw12 c;
       Some (s, spin_unlock c)
     }
     else Some (s\<lparr>cedar_engine_timer := Some (j + of_nat (ms TIMER_CIRCLE))\<rparr>, spin_unlock c)
   })"

section \<open>Invariant of the queue\<close>

definition waiting :: "engine_task \<Rightarrow> bool" where
  "waiting x \<longleftrightarrow> is_first_task x = 0 \<and> running x = 0"

definition by_prio :: "engine_task list \<Rightarrow> bool" where
  "by_prio xs \<longleftrightarrow> sorted_wrt (\<lambda>a b. task_prio b \<le> task_prio a) (filter waiting xs)"

text \<open>Only the task at the head of the queue is the first or the running one; all others wait.\<close>

definition head_only :: "engine_task list \<Rightarrow> bool" where
  "head_only xs \<longleftrightarrow> (case xs of [] \<Rightarrow> True | x # ys \<Rightarrow> \<not> waiting x \<and> (\<forall>y \<in> set ys. waiting y))"

definition task_inv :: "task_state \<Rightarrow> bool" where
  "task_inv s \<longleftrightarrow> by_prio (run_task_list s) \<and> head_only (run_task_list s) \<and> del_task_list s = [] \<and>
     (\<forall>x \<in> set (run_task_list s). task_status x = TASK_INIT \<or> task_status x = TASK_RELEASE)"

definition fresh :: "engine_task \<Rightarrow> bool" where
  "fresh x \<longleftrightarrow> task_status x = TASK_INIT \<and> running x = 0 \<and> is_first_task x = 0"

inductive task_step :: "task_state \<Rightarrow> task_state \<Rightarrow> bool" where
  insert: "fresh x \<Longrightarrow> task_step s (cedardev_insert_task j x s)"
| del: "cedardev_del_task j i s = (r, s') \<Longrightarrow> task_step s s'"
| events: "task_step s (cedar_engine_for_events j ms s)"

inductive task_reach :: "task_state \<Rightarrow> bool" where
  start: "task_reach \<lparr>run_task_list = [], del_task_list = [], cedar_engine_timer = None, cedar_engine_timer_rel = None, signals = []\<rparr>"
| step: "task_reach s \<Longrightarrow> task_step s s' \<Longrightarrow> task_reach s'"

lemma expire_loop_eq:
  "expire_loop j xs del = (filter (\<lambda>x. \<not> expired j x) xs,
     rev (map (\<lambda>x. if task_status x = TASK_INIT then x\<lparr>task_status := TASK_TIMEOUT\<rparr> else x) (filter (expired j) xs)) @ del)"
  by (induction xs arbitrary: del) auto

lemma filter_prio: "by_prio xs \<Longrightarrow> by_prio (filter P xs)"
proof -
  assume "by_prio xs"
  moreover have "filter waiting (filter P xs) = filter P (filter waiting xs)" by (induction xs) auto
  ultimately show ?thesis unfolding by_prio_def by (simp only: sorted_wrt_filter)
qed

lemma by_prio_upd:
  assumes "by_prio xs" "i < length xs" "waiting y \<longleftrightarrow> waiting (xs ! i)" "task_prio y = task_prio (xs ! i)"
  shows "by_prio (xs[i := y])"
proof -
  have split: "xs = take i xs @ xs ! i # drop (Suc i) xs" using assms(2) by (rule id_take_nth_drop)
  have "by_prio (take i xs @ xs ! i # drop (Suc i) xs)" using assms(1) split by simp
  then show ?thesis
    using assms(2-4) by (auto simp: upd_conv_take_nth_drop by_prio_def sorted_wrt_append)
qed

lemma scan_splits:
  fixes x :: engine_task and xs :: "engine_task list"
  defines "i \<equiv> scan (may_pass x) xs"
  assumes "by_prio xs"
  shows "\<forall>a \<in> set (take i xs). waiting a \<longrightarrow> task_prio x \<le> task_prio a"
    and "\<forall>b \<in> set (drop i xs). waiting b \<longrightarrow> task_prio b < task_prio x"
proof -
  show "\<forall>a \<in> set (take i xs). waiting a \<longrightarrow> task_prio x \<le> task_prio a"
    unfolding i_def using scan_before [of _ "may_pass x" xs] by (force simp: in_set_conv_nth may_pass_def waiting_def)
  have "task_prio b < task_prio x" if b: "b \<in> set (drop i xs)" "waiting b" for b
  proof -
    have i: "i < length xs" using b(1) by (metis drop_all empty_iff empty_set not_le)
    have y: "may_pass x (xs ! i)" using scan_nth i by (simp add: i_def)
    have d: "drop i xs = xs ! i # drop (Suc i) xs" using i by (rule Cons_nth_drop_Suc [symmetric])
    have "by_prio (take i xs @ xs ! i # drop (Suc i) xs)" using assms(2) d append_take_drop_id [of i xs] by simp
    then have "b = xs ! i \<or> task_prio b \<le> task_prio (xs ! i)"
      using b y d by (auto simp: by_prio_def sorted_wrt_append may_pass_def waiting_def)
    then show ?thesis using y by (auto simp: may_pass_def)
  qed
  then show "\<forall>b \<in> set (drop i xs). waiting b \<longrightarrow> task_prio b < task_prio x" by blast
qed

lemma by_prio_insert:
  assumes "by_prio xs" "waiting x"
  shows "by_prio (take (scan (may_pass x) xs) xs @ x # drop (scan (may_pass x) xs) xs)"
proof -
  let ?i = "scan (may_pass x) xs"
  have "sorted_wrt (\<lambda>a b. task_prio b \<le> task_prio a) (filter waiting (take ?i xs) @ filter waiting (drop ?i xs))"
    using assms(1) by (simp add: by_prio_def flip: filter_append)
  then show ?thesis
    using assms scan_splits [OF assms(1), of x] by (auto simp: by_prio_def sorted_wrt_append less_imp_le)
qed

lemma head_only_upd:
  assumes "head_only xs" "i < length xs" "waiting y \<longleftrightarrow> waiting (xs ! i)"
  shows "head_only (xs[i := y])"
  using assms set_update_subset_insert [of "tl xs" "i - 1" y] by (cases xs; cases i) (auto simp: head_only_def)

lemma scan_behind_head:
  assumes "head_only (y # ys)"
  shows "scan (may_pass x) (y # ys) = Suc (scan (may_pass x) ys)"
  using assms by (auto simp: head_only_def may_pass_def waiting_def)

lemma head_only_insert:
  assumes "head_only xs" "xs \<noteq> []" "waiting x"
  shows "head_only (take (scan (may_pass x) xs) xs @ x # drop (scan (may_pass x) xs) xs)"
proof -
  obtain y ys where xs: "xs = y # ys" using assms(2) by (cases xs) auto
  show ?thesis
    using assms(1,3) scan_behind_head [of y ys x] unfolding xs
    by (auto simp: head_only_def dest: in_set_takeD in_set_dropD)
qed

lemma insert_inv:
  assumes "task_inv s" "fresh x"
  shows "task_inv (cedardev_insert_task j x s)"
proof (cases "run_task_list s = []")
  case True
  with assms show ?thesis
    by (simp add: task_inv_def cedardev_insert_task_def by_prio_def fresh_def head_only_def waiting_def)
next
  case False
  have "waiting x" using assms(2) by (simp add: waiting_def fresh_def)
  with assms False by_prio_insert [of "run_task_list s" x] head_only_insert [of "run_task_list s" x] show ?thesis
    by (auto simp: task_inv_def cedardev_insert_task_def fresh_def Let_def dest: in_set_takeD in_set_dropD)
qed

lemma del_inv:
  assumes "task_inv s" "cedardev_del_task j i s = (r, s')"
  shows "task_inv s'"
proof -
  let ?xs = "run_task_list s" and ?i = "scan (\<lambda>x. task_ID x = i \<and> task_status x \<noteq> TASK_RELEASE) (run_task_list s)"
  let ?y = "(?xs ! ?i)\<lparr>task_status := TASK_RELEASE\<rparr>"
  have "by_prio (?xs[?i := ?y])" if "?i < length ?xs"
    using assms(1) that by (intro by_prio_upd) (simp_all add: task_inv_def waiting_def)
  moreover have "head_only (?xs[?i := ?y])" if "?i < length ?xs"
    using assms(1) that by (intro head_only_upd) (simp_all add: task_inv_def waiting_def)
  ultimately show ?thesis
    using assms set_update_subset_insert [of ?xs ?i ?y]
    by (auto simp: cedardev_del_task_def task_inv_def Let_def split: if_splits)
qed

lemma start_first_sel:
  "run_task_list (start_first j ms s) =
     (case run_task_list s of [] \<Rightarrow> [] | x # xs \<Rightarrow> (if running x = 0 then x\<lparr>running := 1\<rparr> else x) # xs)"
  "signals (start_first j ms s) = signals s @
     (case run_task_list s of [] \<Rightarrow> [] | x # xs \<Rightarrow> if running x = 0 then [(task_handle x, task_ID x, TASK_INIT)] else [])"
  "del_task_list (start_first j ms s) = del_task_list s"
  by (simp_all add: start_first_def Let_def split: list.splits)

lemma events_sel:
  fixes j ms s
  defines "keep \<equiv> filter (\<lambda>x. \<not> expired j x) (run_task_list s)"
  shows "run_task_list (cedar_engine_for_events j ms s) =
      (case keep of [] \<Rightarrow> [] | x # xs \<Rightarrow> (if running x = 0 then x\<lparr>running := 1\<rparr> else x) # xs)"
    and "del_task_list (cedar_engine_for_events j ms s) = []"
    and "signals (cedar_engine_for_events j ms s) = signals s @ concat (map del_signal (snd (expire_loop j (run_task_list s) (del_task_list s)))) @
      (case keep of [] \<Rightarrow> [] | x # xs \<Rightarrow> if running x = 0 then [(task_handle x, task_ID x, TASK_INIT)] else [])"
  by (simp_all add: cedar_engine_for_events_def Let_def start_first_sel expire_loop_eq keep_def split: list.splits)

lemma by_prio_start: "by_prio (x # xs) \<Longrightarrow> by_prio ((if running x = 0 then x\<lparr>running := 1\<rparr> else x) # xs)"
  by (auto simp: by_prio_def waiting_def split: if_splits)

lemma head_only_start:
  assumes "head_only xs" "filter P xs = y # ys"
  shows "head_only ((if running y = 0 then y\<lparr>running := 1\<rparr> else y) # ys)"
proof -
  have "set ys \<subseteq> set (tl xs)"
    using assms(2) by (cases xs) (auto split: if_splits simp: filter_eq_Cons_iff)
  then show ?thesis using assms(1) by (cases xs) (auto simp: head_only_def waiting_def)
qed

lemma events_inv:
  assumes "task_inv s"
  shows "task_inv (cedar_engine_for_events j ms s)"
proof -
  let ?keep = "filter (\<lambda>x. \<not> expired j x) (run_task_list s)"
  have p: "by_prio ?keep" using assms by (simp add: task_inv_def filter_prio)
  have st: "\<forall>x \<in> set ?keep. task_status x = TASK_INIT \<or> task_status x = TASK_RELEASE" using assms by (simp add: task_inv_def)
  show ?thesis
  proof (cases ?keep)
    case Nil
    then show ?thesis by (simp add: task_inv_def events_sel by_prio_def head_only_def)
  next
    case (Cons x xs)
    have "by_prio ((if running x = 0 then x\<lparr>running := 1\<rparr> else x) # xs)"
      using p unfolding Cons by (rule by_prio_start)
    moreover have "head_only ((if running x = 0 then x\<lparr>running := 1\<rparr> else x) # xs)"
      using assms Cons by (intro head_only_start [of "run_task_list s"]) (simp_all add: task_inv_def)
    ultimately show ?thesis using st unfolding task_inv_def events_sel Cons by auto
  qed
qed

lemma task_reach_inv: "task_reach s \<Longrightarrow> task_inv s"
proof (induction rule: task_reach.induct)
  case start
  show ?case by (simp add: task_inv_def by_prio_def head_only_def)
next
  case (step s s')
  from step.hyps(2) step.IH show ?case
    by cases (auto intro: insert_inv del_inv events_inv)
qed

text \<open>
  C30.  In every reachable state only the task at the head of the queue is running or was the first,
  and the tasks behind it wait in order of priority.  A new task is placed in a queue that is not
  empty behind the head, whatever the priorities, behind every waiting task of at least its priority
  (so equal priorities are served first come, first served) and before the rest: every task behind it
  waits and has a lower priority, so the running task is never passed over.  The tasks already
  queued keep their order.
\<close>

theorem insert_by_priority:
  assumes "task_reach s" "fresh x"
  shows "by_prio (run_task_list s) \<and> head_only (run_task_list s) \<and>
    (\<exists>ys zs x'. run_task_list (cedardev_insert_task j x s) = ys @ x' # zs \<and>
    run_task_list s = ys @ zs \<and> x' = (if run_task_list s = [] then x\<lparr>is_first_task := 1\<rparr> else x) \<and>
    (run_task_list s \<noteq> [] \<longrightarrow> ys \<noteq> [] \<and> \<not> waiting (hd ys)) \<and>
    (\<forall>a \<in> set (tl ys). waiting a \<and> task_prio x \<le> task_prio a) \<and> (\<forall>b \<in> set zs. waiting b \<and> task_prio b < task_prio x))"
proof -
  let ?xs = "run_task_list s" and ?i = "scan (may_pass x) (run_task_list s)"
  have p: "by_prio ?xs" "head_only ?xs" using task_reach_inv [OF assms(1)] by (simp_all add: task_inv_def)
  note split = scan_splits [OF p(1), of x]
  show ?thesis
  proof (cases ?xs)
    case Nil
    then show ?thesis using p by (simp add: cedardev_insert_task_def)
  next
    case (Cons h ts)
    have nm: "\<not> may_pass x h" using p(2) Cons by (auto simp: head_only_def may_pass_def waiting_def)
    have wait: "waiting b" if "b \<in> set ts" for b using p(2) Cons that by (simp add: head_only_def)
    have "waiting a \<and> task_prio x \<le> task_prio a" if "a \<in> set (take (scan (may_pass x) ts) ts)" for a
      using that split(1) wait [OF in_set_takeD [OF that]] nm unfolding Cons by simp
    moreover have "waiting b \<and> task_prio b < task_prio x" if "b \<in> set (drop (scan (may_pass x) ts) ts)" for b
      using that split(2) wait [OF in_set_dropD [OF that]] nm unfolding Cons by simp
    ultimately have "\<forall>a \<in> set (tl (take ?i ?xs)). waiting a \<and> task_prio x \<le> task_prio a"
      "\<forall>b \<in> set (drop ?i ?xs). waiting b \<and> task_prio b < task_prio x"
      using nm unfolding Cons by simp_all
    moreover have "\<not> waiting (hd (take ?i ?xs))" "take ?i ?xs \<noteq> []"
      using p(2) nm unfolding Cons by (simp_all add: head_only_def)
    ultimately show ?thesis using p Cons
      by (intro conjI exI [of _ "take ?i ?xs"] exI [of _ "drop ?i ?xs"] exI [of _ x])
        (simp_all add: cedardev_insert_task_def Let_def)
  qed
qed

definition ex_task :: "int \<Rightarrow> int \<Rightarrow> engine_task" where
  "ex_task prio i = \<lparr>task_prio = prio, task_ID = i, task_timeout = 1000, frametime = 40, task_handle = nat i,
     task_status = TASK_INIT, running = 0, is_first_task = 0\<rparr>"

definition ex_tasks :: task_state where
  "ex_tasks = cedardev_insert_task 0 (ex_task 1 2) (cedardev_insert_task 0 (ex_task 1 1)
     \<lparr>run_task_list = [], del_task_list = [], cedar_engine_timer = None, cedar_engine_timer_rel = None, signals = []\<rparr>)"

lemma ex_tasks_reach: "task_reach ex_tasks"
  unfolding ex_tasks_def
  by (intro task_reach.step [OF _ task_step.insert] task_reach.start) (simp_all add: fresh_def ex_task_def)

theorem insert_by_priority_witness:
  "\<exists>ys zs. run_task_list (cedardev_insert_task 0 (ex_task 5 3) ex_tasks) = ys @ ex_task 5 3 # zs \<and>
     ys \<noteq> [] \<and> \<not> waiting (hd ys) \<and> task_prio (hd ys) < 5 \<and>
     map task_ID (run_task_list (cedardev_insert_task 0 (ex_task 5 3) ex_tasks)) = [1, 3, 2]"
proof -
  have e: "run_task_list ex_tasks \<noteq> []" "task_prio (hd (run_task_list ex_tasks)) = 1"
    by (simp_all add: ex_tasks_def cedardev_insert_task_def ex_task_def may_pass_def)
  have "fresh (ex_task 5 3)" by (simp add: fresh_def ex_task_def)
  from insert_by_priority [OF ex_tasks_reach this, of 0] e(1) obtain ys zs where
    r: "run_task_list (cedardev_insert_task 0 (ex_task 5 3) ex_tasks) = ys @ ex_task 5 3 # zs"
    "run_task_list ex_tasks = ys @ zs" "ys \<noteq> []" "\<not> waiting (hd ys)"
    by auto
  moreover have "map task_ID (run_task_list (cedardev_insert_task 0 (ex_task 5 3) ex_tasks)) = [1, 3, 2]"
    by (simp add: cedardev_insert_task_def ex_tasks_def ex_task_def may_pass_def)
  ultimately show ?thesis using e(2) by auto
qed

text \<open>
  C31.  A run of the engine timer, in every reachable state: exactly the tasks that are released or
  whose time is up leave the queue, the others keep their order; every task that leaves is sent one
  signal with its number, \<open>TASK_RELEASE\<close> if it was released and \<open>TASK_TIMEOUT\<close> otherwise (the last in the
  queue first), and nothing else of the queue is signalled, except that the task now at the head is
  started with \<open>TASK_INIT\<close> if it was not running; it is running afterwards.
\<close>

theorem engine_events:
  fixes s :: task_state and j :: u64 and ms :: "nat \<Rightarrow> nat"
  assumes "task_reach s"
  defines "s' \<equiv> cedar_engine_for_events j ms s" and "keep \<equiv> filter (\<lambda>x. \<not> expired j x) (run_task_list s)"
  shows "map (\<lambda>x. x\<lparr>running := 0\<rparr>) (run_task_list s') = map (\<lambda>x. x\<lparr>running := 0\<rparr>) keep \<and>
    tl (run_task_list s') = tl keep \<and> (keep \<noteq> [] \<longrightarrow> running (hd (run_task_list s')) \<noteq> 0) \<and>
    signals s' = signals s @
      rev (map (\<lambda>x. (task_handle x, task_ID x, if task_status x = TASK_RELEASE then TASK_RELEASE else TASK_TIMEOUT))
        (filter (expired j) (run_task_list s))) @
      (if keep \<noteq> [] \<and> running (hd keep) = 0 then [(task_handle (hd keep), task_ID (hd keep), TASK_INIT)] else [])"
proof -
  have inv: "task_inv s" using assms(1) by (rule task_reach_inv)
  have sig: "concat (map del_signal (rev (map (\<lambda>x. if task_status x = TASK_INIT then x\<lparr>task_status := TASK_TIMEOUT\<rparr> else x) xs))) =
      rev (map (\<lambda>x. (task_handle x, task_ID x, if task_status x = TASK_RELEASE then TASK_RELEASE else TASK_TIMEOUT)) xs)"
    if "\<forall>x \<in> set xs. task_status x = TASK_INIT \<or> task_status x = TASK_RELEASE" for xs
    using that by (induction xs) (auto simp: del_signal_def task_defs)
  have "\<forall>x \<in> set (filter (expired j) (run_task_list s)). task_status x = TASK_INIT \<or> task_status x = TASK_RELEASE"
    "del_task_list s = []"
    using inv by (auto simp: task_inv_def)
  then show ?thesis
    unfolding s'_def events_sel expire_loop_eq snd_conv keep_def [symmetric]
    by (cases keep) (simp_all add: sig)
qed

theorem engine_events_witness:
  "signals (cedar_engine_for_events 10 id ex_tasks) = [(1, 1, TASK_INIT)]"
proof -
  have "filter (\<lambda>x. \<not> expired 10 x) (run_task_list ex_tasks) = run_task_list ex_tasks"
    "filter (expired 10) (run_task_list ex_tasks) = []"
    by (simp_all add: ex_tasks_def cedardev_insert_task_def ex_task_def may_pass_def expired_def task_defs time_after_def)
  moreover have "hd (run_task_list ex_tasks) = (ex_task 1 1)\<lparr>is_first_task := 1\<rparr>" "run_task_list ex_tasks \<noteq> []" "signals ex_tasks = []"
    by (simp_all add: ex_tasks_def cedardev_insert_task_def ex_task_def may_pass_def)
  ultimately show ?thesis using engine_events [OF ex_tasks_reach, of 10 id] by (simp add: ex_task_def)
qed

text \<open>
  C32.  The timer that should switch the clocks off when the queue is empty never returns: it takes the
  spin lock and then waits for it in \<open>disable_cedar_hw_clk\<close>.  With tasks left it returns, with the
  engine timer set and the lock free.
\<close>

theorem timer_rel_deadlock:
  assumes "\<not> spin_held c"
  shows "run_task_list s = [] \<and> cedar_engine_for_timer_rel iw12 j ms (s, c) = None \<or>
    run_task_list s \<noteq> [] \<and> cedar_engine_for_timer_rel iw12 j ms (s, c) =
      Some (s\<lparr>cedar_engine_timer := Some (j + of_nat (ms TIMER_CIRCLE))\<rparr>, c)"
  using assms by (cases c) (auto simp: cedar_engine_for_timer_rel_def disable_cedar_hw_clk_def spin_lock_def spin_unlock_def)

theorem timer_rel_deadlock_witness:
  "cedar_engine_for_timer_rel False 0 id (ex_tasks\<lparr>run_task_list := []\<rparr>, ex_clk) = None"
  using timer_rel_deadlock [of ex_clk "ex_tasks\<lparr>run_task_list := []\<rparr>" False 0 id] by (simp add: ex_clk_def)

end
