(* ===== verification/Cedar_Dev.thy ===== *)
theory Cedar_Dev
  imports Cedar_Lock "HOL-Library.Signed_Division"
begin

text \<open>
  Life cycle of the VE device: \<open>create_char_device\<close>, \<open>deal_with_resouce\<close>, \<open>cedardev_init\<close>,
  \<open>cedardev_exit\<close>, \<open>sunxi_cedar_probe\<close>, \<open>sunxi_cedar_remove\<close>, suspend and resume, and \<open>cedardev_mmap\<close>.
  The kernel's answers to the driver's requests are a record \<open>init_env\<close>; \<open>held\<close> lists what the driver
  has acquired and not given back (what \<open>devm\<close> functions return is the kernel's to release).
  \<open>cedar_devp\<close> is the global pointer, \<open>live\<close> the allocated device objects.  Freeing an object twice,
  using one after it was freed and giving back what is not held are recorded in \<open>misuse\<close>.
\<close>

datatype res = chrdev_region | char_device | dev_class | dev_node | irq_line | io_map nat | sysfs_group | debugfs_dir | proc_buffer
  | pm_enabled | pm_reference | regulator_ref

datatype misuse_kind = Double_Free nat | Use_After_Free nat | Not_Held res | Null_Deref

record ve_config =
  cfg_sun50iw12 :: bool
  cfg_sun8iw19 :: bool
  cfg_sun8iw20 :: bool
  cfg_power_manage :: bool
  cfg_debug_fs :: bool
  cfg_sun8i :: bool
  cfg_univw1 :: bool
  cfg_sun3iw1 :: bool

record init_env =
  e_kmalloc :: "nat option"
  e_register :: int
  e_alloc_region :: "int \<times> int \<times> int"
  e_cdev_add :: int
  e_class :: bool
  e_device :: bool
  e_irq :: int
  e_iomap :: "nat \<Rightarrow> bool"
  e_clk :: "string \<Rightarrow> bool"
  e_parent :: bool
  e_set_parent :: int
  e_reset :: "string option \<Rightarrow> bool"
  e_sysfs :: int
  e_debug_root :: bool
  e_dent :: bool
  e_procbuf :: bool
  e_regulator :: "int option"

record life_state =
  cedar_devp :: "nat option"
  live :: "nat set"
  held :: "res list"
  misuse :: "misuse_kind list"
  g_dev_major :: int
  g_dev_minor :: int
  init_end :: int
  voltage_mv :: int
  sys_io :: trace
  ccmu_io :: trace

definition acquire :: "res \<Rightarrow> life_state \<Rightarrow> life_state" where
  "acquire r s = s\<lparr>held := r # held s\<rparr>"

definition give_back :: "res \<Rightarrow> life_state \<Rightarrow> life_state" where
  "give_back r s = (if r \<in> set (held s) then s\<lparr>held := remove1 r (held s)\<rparr> else s\<lparr>misuse := misuse s @ [Not_Held r]\<rparr>)"

definition kfree_devp :: "nat \<Rightarrow> life_state \<Rightarrow> life_state" where
  "kfree_devp p s = (if p \<in> live s then s\<lparr>live := live s - {p}\<rparr> else s\<lparr>misuse := misuse s @ [Double_Free p]\<rparr>)"

section \<open>System registers\<close>

text \<open>
  \<open>regs_ccmu\<close> is a pointer to 32-bit registers, so an index stands for four bytes; \<open>regs_sys_cfg\<close> is a
  pointer to bytes.  \<open>rmw\<close> is the read-modify-write the code repeats.
\<close>

definition rmw :: "hw \<Rightarrow> u32 \<Rightarrow> (u32 \<Rightarrow> u32) \<Rightarrow> trace \<Rightarrow> trace" where
  "rmw hw off f t = (let (val, t) = readl hw off t in writel (f val) off t)"

definition set_ccmu_by_self :: "bool \<Rightarrow> hw \<Rightarrow> bool \<Rightarrow> trace \<Rightarrow> trace" where
  "set_ccmu_by_self univw1 hw regs_ccmu t =
     (if \<not> regs_ccmu then t
      else
        let t = rmw hw (4 * 6) (\<lambda>val. let val = val AND 0x7fff80f0
              in if univw1 then val OR 0x80000000 OR push_bit 8 8 else val OR 0x80000000 OR push_bit 8 49 OR 3) t;
            t = rmw hw (4 * 79) (\<lambda>val. val OR 0x80000000) t;
            t = rmw hw (4 * 25) (\<lambda>val. val OR 1) t;
            t = rmw hw (4 * 177) (\<lambda>val. val AND NOT 1) t;
            t = rmw hw (4 * 177) (\<lambda>val. val OR 1) t
        in rmw hw (4 * 64) (\<lambda>val. val OR 1) t)"

definition set_sys_cfg_by_self :: "bool \<Rightarrow> hw \<Rightarrow> bool \<Rightarrow> trace \<Rightarrow> trace" where
  "set_sys_cfg_by_self sun8i hw regs_sys_cfg t =
     (if \<not> regs_sys_cfg then t
      else if sun8i then
        let t = rmw hw 0 (\<lambda>val. val AND 0x80000000) t;
            t = rmw hw 0 (\<lambda>val. val OR 0x7fffffff) t
        in rmw hw 1 (\<lambda>val. val AND 0xfeffffff) t
      else
        let t = rmw hw 0 (\<lambda>val. val AND 0xfffffffe) t
        in rmw hw 4 (\<lambda>val. val AND 0xfeffffff) t)"

definition set_system_register :: "ve_config \<Rightarrow> hw \<Rightarrow> bool \<Rightarrow> bool \<Rightarrow> life_state \<Rightarrow> life_state" where
  "set_system_register c hw regs_sys_cfg regs_ccmu s =
     (let s = (if cfg_univw1 c \<or> cfg_sun3iw1 c then s\<lparr>ccmu_io := set_ccmu_by_self (cfg_univw1 c) hw regs_ccmu (ccmu_io s)\<rparr> else s)
      in s\<lparr>sys_io := set_sys_cfg_by_self (cfg_sun8i c) hw regs_sys_cfg (sys_io s)\<rparr>)"

section \<open>Resources\<close>

definition create_char_device :: "init_env \<Rightarrow> life_state \<Rightarrow> int \<times> life_state" where
  "create_char_device e s =
     (let (ret, s) = (if g_dev_major s \<noteq> 0 then (e_register e, s)
                      else let (ret, maj, min) = e_alloc_region e in (ret, s\<lparr>g_dev_major := maj, g_dev_minor := min\<rparr>))
      in if ret < 0 then (ret, s)
         else
           let s = acquire chrdev_region s;
               ret = e_cdev_add e
           in if ret \<noteq> 0 then (ret, give_back chrdev_region s)
              else
                let s = acquire char_device s
                in if \<not> e_class e then (- EINVAL, give_back chrdev_region (give_back char_device s))
                   else
                     let s = acquire dev_class s
                     in if \<not> e_device e
                        then (- EINVAL, give_back chrdev_region (give_back char_device (give_back dev_class s)))
                        else (ret, acquire dev_node s))"

fun get_clks :: "init_env \<Rightarrow> string list \<Rightarrow> bool" where
  "get_clks e [] = True"
| "get_clks e (c # cs) = (e_clk e c \<and> get_clks e cs)"

definition clk_names :: "ve_config \<Rightarrow> string list" where
  "clk_names c = ''ve'' # (if cfg_sun50iw12 c then [''bus_ve'', ''bus_ve3'', ''mbus_ve3''] else [''bus_ve'', ''mbus_ve''])"

definition get_resets :: "ve_config \<Rightarrow> init_env \<Rightarrow> bool" where
  "get_resets c e = (if cfg_sun50iw12 c then e_reset e (Some ''reset_ve3'') \<and> e_reset e (Some ''reset_ve'') else e_reset e None)"

definition map_regs :: "init_env \<Rightarrow> nat \<Rightarrow> life_state \<Rightarrow> life_state" where
  "map_regs e i s = (if e_iomap e i then acquire (io_map i) s else s)"

definition deal_with_resouce :: "ve_config \<Rightarrow> hw \<Rightarrow> init_env \<Rightarrow> life_state \<Rightarrow> int \<times> life_state" where
  "deal_with_resouce c hw e s =
     (if e_irq e < 0 then (- 1, s)
      else
        let s = acquire irq_line s
        in if \<not> e_iomap e 0 then (- 1, s)
           else
             let s = map_regs e 2 (map_regs e 1 (map_regs e 0 s));
                 s = (if cfg_power_manage c then map_regs e 3 s else s)
             in if \<not> get_clks e (clk_names c) then (- 1, s)
                else if \<not> e_parent e then (- 1, s)
                else if cfg_sun8iw19 c \<and> e_set_parent e \<noteq> 0 then (- 1, s)
                else if \<not> get_resets c e then (- 1, s)
                else (0, set_system_register c hw (e_iomap e 1) (e_iomap e 2) s))"

definition sunxi_ve_debug_register_driver :: "init_env \<Rightarrow> life_state \<Rightarrow> int \<times> life_state" where
  "sunxi_ve_debug_register_driver e s =
     (if \<not> e_debug_root e then (- ENOENT, s)
      else
        let s = acquire debugfs_dir s
        in if \<not> e_dent e then (- ENODEV, give_back debugfs_dir s) else (0, s))"

definition sunxi_ve_debug_unregister_driver :: "life_state \<Rightarrow> life_state" where
  "sunxi_ve_debug_unregister_driver s = (if debugfs_dir \<in> set (held s) then give_back debugfs_dir s else s)"

section \<open>Initialisation and exit\<close>

definition free_devp :: "nat \<Rightarrow> int \<Rightarrow> life_state \<Rightarrow> int \<times> life_state" where
  "free_devp p ret s = (ret, kfree_devp p s)"

definition init_debugfs :: "ve_config \<Rightarrow> init_env \<Rightarrow> life_state \<Rightarrow> int \<times> life_state" where
  "init_debugfs c e s =
     (if \<not> cfg_debug_fs c then (0, s)
      else
        let (ret, s) = sunxi_ve_debug_register_driver e s
        in if ret \<noteq> 0 then (- EINVAL, s)
           else if \<not> e_procbuf e then (- ENOMEM, s)
           else (0, acquire proc_buffer s))"

definition cedardev_init :: "ve_config \<Rightarrow> hw \<Rightarrow> init_env \<Rightarrow> life_state \<Rightarrow> int \<times> life_state" where
  "cedardev_init c hw e s =
     (let s = (case cedar_devp s of None \<Rightarrow> s | Some p \<Rightarrow> (kfree_devp p s)\<lparr>cedar_devp := None\<rparr>)
      in case e_kmalloc e of
           None \<Rightarrow> (- ENOMEM, s)
         | Some p \<Rightarrow>
             let s = s\<lparr>cedar_devp := Some p, live := insert p (live s), init_end := 0, voltage_mv := 0\<rparr>;
                 (ret, s) = create_char_device e s
             in if ret \<noteq> 0 then free_devp p (- EINVAL) s
                else
                  let (ret, s) = deal_with_resouce c hw e s
                  in if ret \<noteq> 0 then free_devp p (- EINVAL) s
                     else if e_sysfs e \<noteq> 0 then free_devp p (- EINVAL) s
                     else
                       let s = acquire sysfs_group s;
                           (ret, s) = init_debugfs c e s
                       in if ret \<noteq> 0 then free_devp p ret s
                          else
                            let s = acquire pm_enabled s;
                                s = (case e_regulator e of
                                       None \<Rightarrow> s
                                     | Some uv \<Rightarrow> (acquire regulator_ref s)\<lparr>voltage_mv := uv sdiv 1000\<rparr>)
                            in (0, s\<lparr>init_end := 1\<rparr>))"

text \<open>
  Destroying the device node removes its sysfs directory and with it the attribute group.  What follows
  an access through a null or freed \<open>cedar_devp\<close> is undefined; the model records the access and stops.
  The loop that frees the debug texts is \<open>free_debug_texts\<close> of the debug table.
\<close>

definition device_destroy :: "life_state \<Rightarrow> life_state" where
  "device_destroy s = (let s = give_back dev_node s in s\<lparr>held := removeAll sysfs_group (held s)\<rparr>)"

definition cedardev_exit :: "ve_config \<Rightarrow> life_state \<Rightarrow> life_state" where
  "cedardev_exit c s =
     (case cedar_devp s of
        None \<Rightarrow> s\<lparr>misuse := misuse s @ [Null_Deref]\<rparr>
      | Some p \<Rightarrow>
          if p \<notin> live s then s\<lparr>misuse := misuse s @ [Use_After_Free p]\<rparr>
          else
            let s = give_back irq_line s;
                s = give_back (io_map 0) s;
                s = give_back char_device s;
                s = device_destroy s;
                s = give_back dev_class s;
                s = give_back chrdev_region s;
                s = give_back pm_enabled s;
                s = (if cfg_debug_fs c then give_back proc_buffer (sunxi_ve_debug_unregister_driver s) else s);
                s = (if regulator_ref \<in> set (held s) then give_back regulator_ref s else s);
                s = kfree_devp p s
            in s\<lparr>misuse := misuse s @ [Use_After_Free p]\<rparr>)"

text \<open>
  \<open>alias_id\<close> is the number of the device's alias \<open>ve\<close> in the device tree, negative when it has none.
\<close>

definition sunxi_cedar_probe :: "ve_config \<Rightarrow> hw \<Rightarrow> init_env \<Rightarrow> int \<Rightarrow> life_state \<Rightarrow> int \<times> life_state" where
  "sunxi_cedar_probe c hw e alias_id s =
     (if alias_id = 1 then (0, s)
      else
        let s = (if cfg_sun8iw20 c then acquire pm_reference (acquire pm_enabled s) else s)
        in (0, snd (cedardev_init c hw e s)))"

definition sunxi_cedar_remove :: "ve_config \<Rightarrow> int \<Rightarrow> life_state \<Rightarrow> int \<times> life_state" where
  "sunxi_cedar_remove c alias_id s =
     (if alias_id = 1 then (0, s)
      else
        let s = (if cfg_sun8iw20 c then give_back pm_enabled s else s)
        in (0, cedardev_exit c s))"

section \<open>Suspend, resume and the register mapping\<close>



record vm_area =
  vm_start :: u64
  vm_end :: u64
  vm_pgoff :: u64

definition MACC_REGS_BASE :: u64 where
  "MACC_REGS_BASE = 0x01C0E000"

text \<open>
  The result is the value returned and what has been mapped: address, first page frame and size.
  \<open>remap\<close> says whether \<open>io_remap_pfn_range\<close> succeeds.
\<close>

definition cedardev_mmap :: "bool \<Rightarrow> vm_area \<Rightarrow> int \<times> (u64 \<times> u64 \<times> u64) option" where
  "cedardev_mmap remap vma =
     (if vm_end vma - vm_start vma = 0 then (0, None)
      else if vm_pgoff vma > drop_bit 12 (NOT 0) then (- EINVAL, None)
      else
        let temp_pfn = drop_bit 12 MACC_REGS_BASE
        in if remap then (0, Some (vm_start vma, temp_pfn, vm_end vma - vm_start vma)) else (- EAGAIN, None))"

section \<open>What initialisation leaves behind\<close>

lemma life_sel [simp]:
  "cedar_devp (acquire r s) = cedar_devp s" "live (acquire r s) = live s" "misuse (acquire r s) = misuse s"
  "held (acquire r s) = r # held s"
  "cedar_devp (give_back r s) = cedar_devp s" "live (give_back r s) = live s"
  "cedar_devp (kfree_devp p s) = cedar_devp s" "held (kfree_devp p s) = held s" "p \<notin> live (kfree_devp p s)"
  by (simp_all add: acquire_def give_back_def kfree_devp_def)

lemma give_back_acquired [simp]: "r \<in> set (held s) \<Longrightarrow> misuse (give_back r s) = misuse s"
  "r \<in> set (held s) \<Longrightarrow> held (give_back r s) = remove1 r (held s)"
  by (simp_all add: give_back_def)

lemma misuse_grows:
  "x \<in> set (misuse s) \<Longrightarrow> x \<in> set (misuse (give_back r s))" "x \<in> set (misuse s) \<Longrightarrow> x \<in> set (misuse (kfree_devp p s))"
  by (simp_all add: give_back_def kfree_devp_def)

lemma create_frame:
  "cedar_devp (snd (create_char_device e s)) = cedar_devp s" "live (snd (create_char_device e s)) = live s"
  "misuse (snd (create_char_device e s)) = misuse s"
  by (simp_all add: create_char_device_def Let_def split: prod.split)

lemma map_regs_sel [simp]:
  "cedar_devp (map_regs e i s) = cedar_devp s" "live (map_regs e i s) = live s" "misuse (map_regs e i s) = misuse s"
  "held (map_regs e i s) = (if e_iomap e i then [io_map i] else []) @ held s"
  by (simp_all add: map_regs_def)

lemma set_system_register_sel [simp]:
  "cedar_devp (set_system_register c hw a b s) = cedar_devp s" "live (set_system_register c hw a b s) = live s"
  "misuse (set_system_register c hw a b s) = misuse s" "held (set_system_register c hw a b s) = held s"
  by (simp_all add: set_system_register_def Let_def)

lemma resources_frame:
  "cedar_devp (snd (deal_with_resouce c hw e s)) = cedar_devp s" "live (snd (deal_with_resouce c hw e s)) = live s"
  "misuse (snd (deal_with_resouce c hw e s)) = misuse s"
  by (simp_all add: deal_with_resouce_def Let_def)

lemma resources_held:
  "set (held s) \<subseteq> set (held (snd (deal_with_resouce c hw e s)))"
  "0 \<le> e_irq e \<Longrightarrow> irq_line \<in> set (held (snd (deal_with_resouce c hw e s)))"
  by (auto simp: deal_with_resouce_def Let_def)

lemma debugfs_frame:
  "cedar_devp (snd (init_debugfs c e s)) = cedar_devp s" "live (snd (init_debugfs c e s)) = live s"
  "misuse (snd (init_debugfs c e s)) = misuse s" "set (held s) \<subseteq> set (held (snd (init_debugfs c e s)))"
  by (auto simp: init_debugfs_def sunxi_ve_debug_register_driver_def Let_def)

lemmas life_frames = create_frame resources_frame debugfs_frame

definition char_ok :: "init_env \<Rightarrow> life_state \<Rightarrow> bool" where
  "char_ok e s \<longleftrightarrow> g_dev_major s \<noteq> 0 \<and> e_register e = 0 \<and> e_cdev_add e = 0 \<and> e_class e \<and> e_device e"

lemma create_ok:
  assumes "char_ok e s"
  shows "create_char_device e s = (0, acquire dev_node (acquire dev_class (acquire char_device (acquire chrdev_region s))))"
  using assms by (simp add: create_char_device_def char_ok_def)

text \<open>
  A run of \<open>cedardev_init\<close> that fails after the device object was allocated ends with freeing the
  object in some state \<open>t\<close> that the steps before have led to.
\<close>

lemma init_failure:
  assumes "cedardev_init c hw e s = (r, s')" "r \<noteq> 0" "e_kmalloc e = Some p"
  obtains t where "s' = kfree_devp p t" "cedar_devp t = Some p" "p \<in> live t"
    "char_ok e s \<Longrightarrow> 0 \<le> e_irq e \<Longrightarrow> {irq_line, dev_node, dev_class, char_device, chrdev_region} \<subseteq> set (held t)"
proof -
  define s0 where "s0 = (case cedar_devp s of None \<Rightarrow> s | Some p \<Rightarrow> (kfree_devp p s)\<lparr>cedar_devp := None\<rparr>)
    \<lparr>cedar_devp := Some p, live := insert p (live (case cedar_devp s of None \<Rightarrow> s | Some p \<Rightarrow> (kfree_devp p s)\<lparr>cedar_devp := None\<rparr>)),
     init_end := 0, voltage_mv := 0\<rparr>"
  define t1 where "t1 = snd (create_char_device e s0)"
  define t2 where "t2 = snd (deal_with_resouce c hw e t1)"
  define t3 where "t3 = snd (init_debugfs c e (acquire sysfs_group t2))"
  have s0: "cedar_devp s0 = Some p" "p \<in> live s0" by (simp_all add: s0_def)
  have t: "cedar_devp t1 = Some p" "p \<in> live t1" "cedar_devp t2 = Some p" "p \<in> live t2" "cedar_devp t3 = Some p" "p \<in> live t3"
    using s0 by (simp_all add: t1_def t2_def t3_def life_frames)
  have "char_ok e s \<Longrightarrow> char_ok e s0" by (simp add: s0_def char_ok_def kfree_devp_def split: option.split)
  then have h1: "{dev_node, dev_class, char_device, chrdev_region} \<subseteq> set (held t1)" "fst (create_char_device e s0) = 0" if "char_ok e s"
    using that by (simp_all add: t1_def create_ok)
  have h2: "{irq_line, dev_node, dev_class, char_device, chrdev_region} \<subseteq> set (held t2)" if "char_ok e s" "0 \<le> e_irq e"
    using h1(1) [OF that(1)] resources_held(1) [of t1 c hw e] resources_held(2) [of e c hw t1] that(2) by (auto simp: t2_def)
  then have h3: "{irq_line, dev_node, dev_class, char_device, chrdev_region} \<subseteq> set (held t3)" if "char_ok e s" "0 \<le> e_irq e"
    using that debugfs_frame(4) [of "acquire sysfs_group t2" c e] by (auto simp: t3_def)
  have "s' = kfree_devp p t1 \<and> fst (create_char_device e s0) \<noteq> 0 \<or> s' = kfree_devp p t2 \<or> s' = kfree_devp p t3"
    using assms unfolding cedardev_init_def free_devp_def t1_def t2_def t3_def s0_def
    by (auto simp: Let_def split: prod.splits if_splits)
  then show thesis using that t h1(2) h2 h3 by blast
qed

lemma init_misuse_grows: "x \<in> set (misuse (case cedar_devp s of None \<Rightarrow> s | Some p \<Rightarrow> kfree_devp p s)) \<Longrightarrow> x \<in> set (misuse (snd (cedardev_init c hw e s)))"
  unfolding cedardev_init_def free_devp_def
  by (auto simp: Let_def split_beta life_frames misuse_grows(2) split: option.split)

text \<open>
  C39.  When initialisation fails after the device object was allocated, the object is freed but the
  global pointer keeps naming it, and, if the character device and the interrupt had been set up,
  both stay registered; \<open>sunxi_cedar_probe\<close> reports success all the same.  The next initialisation,
  whatever its outcome, frees the object a second time.
\<close>

theorem init_failure_dangling:
  assumes "cedardev_init c hw e s = (r, s')" "r \<noteq> 0" "e_kmalloc e = Some p" "alias_id \<noteq> 1" "\<not> cfg_sun8iw20 c"
  shows "sunxi_cedar_probe c hw e alias_id s = (0, s') \<and> cedar_devp s' = Some p \<and> p \<notin> live s' \<and>
    (char_ok e s \<and> 0 \<le> e_irq e \<longrightarrow> {irq_line, dev_node, dev_class, char_device, chrdev_region} \<subseteq> set (held s')) \<and>
    (\<forall>e'. Double_Free p \<in> set (misuse (snd (cedardev_init c hw e' s'))))"
proof -
  obtain t where t: "s' = kfree_devp p t" "cedar_devp t = Some p" "p \<in> live t"
    "char_ok e s \<Longrightarrow> 0 \<le> e_irq e \<Longrightarrow> {irq_line, dev_node, dev_class, char_device, chrdev_region} \<subseteq> set (held t)"
    using init_failure [OF assms(1-3)] by blast
  have dead: "cedar_devp s' = Some p" "p \<notin> live s'" using t(1,2) by simp_all
  then have "Double_Free p \<in> set (misuse (case cedar_devp s' of None \<Rightarrow> s' | Some p \<Rightarrow> kfree_devp p s'))"
    by (simp add: kfree_devp_def)
  then have "Double_Free p \<in> set (misuse (snd (cedardev_init c hw e' s')))" for e' by (rule init_misuse_grows)
  moreover have "sunxi_cedar_probe c hw e alias_id s = (0, s')" using assms by (simp add: sunxi_cedar_probe_def)
  ultimately show ?thesis using dead t(1,4) by simp
qed

definition ex_env :: init_env where
  "ex_env = \<lparr>e_kmalloc = Some 1, e_register = 0, e_alloc_region = (0, 240, 0), e_cdev_add = 0, e_class = True, e_device = True,
     e_irq = 0, e_iomap = (\<lambda>_. True), e_clk = (\<lambda>_. True), e_parent = True, e_set_parent = 0, e_reset = (\<lambda>_. True),
     e_sysfs = 0, e_debug_root = True, e_dent = True, e_procbuf = True, e_regulator = Some 920000\<rparr>"

definition ex_life :: life_state where
  "ex_life = \<lparr>cedar_devp = None, live = {}, held = [], misuse = [], g_dev_major = 150, g_dev_minor = 0, init_end = 0,
     voltage_mv = 0, sys_io = [], ccmu_io = []\<rparr>"

definition ex_config :: ve_config where
  "ex_config = \<lparr>cfg_sun50iw12 = False, cfg_sun8iw19 = False, cfg_sun8iw20 = False, cfg_power_manage = False, cfg_debug_fs = True,
     cfg_sun8i = False, cfg_univw1 = False, cfg_sun3iw1 = False\<rparr>"

theorem init_failure_dangling_witness:
  "\<exists>s'. sunxi_cedar_probe ex_config ex_ve_hw (ex_env\<lparr>e_sysfs := - 17\<rparr>) (- 1) ex_life = (0, s') \<and> cedar_devp s' = Some 1 \<and>
    live s' = {} \<and> irq_line \<in> set (held s') \<and> Double_Free 1 \<in> set (misuse (snd (cedardev_init ex_config ex_ve_hw ex_env s')))"
proof -
  let ?e = "ex_env\<lparr>e_sysfs := - 17\<rparr>"
  have run: "fst (cedardev_init ex_config ex_ve_hw ?e ex_life) \<noteq> 0" "live (snd (cedardev_init ex_config ex_ve_hw ?e ex_life)) \<subseteq> {1}"
    by (auto simp: cedardev_init_def ex_life_def ex_env_def create_ok char_ok_def deal_with_resouce_def ex_config_def clk_names_def
        get_resets_def free_devp_def kfree_devp_def errno_simps Let_def)
  obtain r s' where s': "cedardev_init ex_config ex_ve_hw ?e ex_life = (r, s')" by (metis surj_pair)
  have h: "r \<noteq> 0" "e_kmalloc ?e = Some 1" "(- 1 :: int) \<noteq> 1" "\<not> cfg_sun8iw20 ex_config" "char_ok ?e ex_life" "0 \<le> e_irq ?e" "live s' \<subseteq> {1}"
    using run s' by (simp_all add: ex_env_def ex_config_def char_ok_def ex_life_def)
  from init_failure_dangling [OF s' h(1-4)] h(5-7) show ?thesis by auto
qed

text \<open>
  C40.  On a fresh system where every request is granted, initialisation succeeds, holds everything it
  has asked for and marks the device as usable.  Exit gives all of it back except the mappings of the
  system configuration, clock and power registers, frees the device object, and then writes to it once
  more.
\<close>

definition all_granted :: "ve_config \<Rightarrow> init_env \<Rightarrow> bool" where
  "all_granted c e \<longleftrightarrow> 0 \<le> e_irq e \<and> e_iomap e 0 \<and> (\<forall>n. e_clk e n) \<and> e_parent e \<and> e_set_parent e = 0 \<and> (\<forall>n. e_reset e n) \<and>
     e_sysfs e = 0 \<and> e_debug_root e \<and> e_dent e \<and> e_procbuf e"

definition extra_maps :: "ve_config \<Rightarrow> init_env \<Rightarrow> res list" where
  "extra_maps c e = (if cfg_power_manage c \<and> e_iomap e 3 then [io_map 3] else []) @
     (if e_iomap e 2 then [io_map 2] else []) @ (if e_iomap e 1 then [io_map 1] else [])"

definition after_init :: "ve_config \<Rightarrow> init_env \<Rightarrow> res list" where
  "after_init c e = (if e_regulator e \<noteq> None then [regulator_ref] else []) @ [pm_enabled] @
     (if cfg_debug_fs c then [proc_buffer, debugfs_dir] else []) @ [sysfs_group] @ extra_maps c e @
     [io_map 0, irq_line, dev_node, dev_class, char_device, chrdev_region]"

lemma get_clks_all: "(\<forall>n. e_clk e n) \<Longrightarrow> get_clks e ns"
  by (induction ns) simp_all

lemma init_granted:
  assumes "all_granted c e" "char_ok e s" "cedar_devp s = None" "held s = []" "misuse s = []" "e_kmalloc e = Some p"
  shows "\<exists>s'. cedardev_init c hw e s = (0, s') \<and> held s' = after_init c e \<and> misuse s' = [] \<and> init_end s' = 1 \<and>
    cedar_devp s' = Some p \<and> live s' = insert p (live s)"
proof -
  let ?s0 = "s\<lparr>cedar_devp := Some p, live := insert p (live s), init_end := 0, voltage_mv := 0\<rparr>"
  have "char_ok e ?s0" using assms(2) by (simp add: char_ok_def)
  note create = create_ok [OF this]
  let ?s1 = "snd (create_char_device e ?s0)"
  obtain s2 where s2: "deal_with_resouce c hw e ?s1 = (0, s2)" "cedar_devp s2 = Some p" "live s2 = insert p (live s)" "misuse s2 = []"
    "held s2 = extra_maps c e @ [io_map 0, irq_line, dev_node, dev_class, char_device, chrdev_region]"
    using assms(1,4,5) by (simp add: deal_with_resouce_def all_granted_def get_clks_all get_resets_def create extra_maps_def Let_def)
  have dbg: "init_debugfs c e (acquire sysfs_group s2) =
      (0, if cfg_debug_fs c then acquire proc_buffer (acquire debugfs_dir (acquire sysfs_group s2)) else acquire sysfs_group s2)"
    using assms(1) by (simp add: init_debugfs_def sunxi_ve_debug_register_driver_def all_granted_def)
  show ?thesis
    using assms(1,3,6) create s2 dbg by (cases "e_regulator e") (simp_all add: cedardev_init_def all_granted_def after_init_def Let_def)
qed

lemma extra_maps_set: "r \<in> set (extra_maps c e) \<longleftrightarrow> (\<exists>i \<in> {1, 2, 3}. r = io_map i \<and> e_iomap e i \<and> (i = 3 \<longrightarrow> cfg_power_manage c))"
  by (auto simp: extra_maps_def)

lemma removeAll_extra: "removeAll sysfs_group (extra_maps c e) = extra_maps c e"
  by (simp add: extra_maps_def)

lemma give_back_list:
  "distinct rs \<Longrightarrow> set rs \<subseteq> set (held s) \<Longrightarrow> fold give_back rs s = s\<lparr>held := fold remove1 rs (held s)\<rparr>"
proof (induction rs arbitrary: s)
  case (Cons r rs)
  have "set rs \<subseteq> set (remove1 r (held s))" using Cons.prems by (metis distinct.simps(2) in_set_remove1 list.set_intros(2) subset_code(1))
  then show ?case using Cons.IH [of "give_back r s"] Cons.prems by (simp add: give_back_def)
qed simp

lemma exit_gives_back:
  assumes "held s = after_init c e" "cedar_devp s = Some p" "p \<in> live s"
  shows "held (cedardev_exit c s) = extra_maps c e \<and> misuse (cedardev_exit c s) = misuse s @ [Use_After_Free p] \<and>
    live (cedardev_exit c s) = live s - {p}"
proof -
  define rest where "rest = (if e_regulator e \<noteq> None then [regulator_ref] else []) @ [pm_enabled] @
    (if cfg_debug_fs c then [proc_buffer, debugfs_dir] else []) @ extra_maps c e @ [dev_class, chrdev_region]"
  define s1 where "s1 = s\<lparr>held := rest\<rparr>"
  have "set [irq_line, io_map 0, char_device, dev_node] \<subseteq> set (held s)" by (simp add: assms(1) after_init_def)
  then have "fold give_back [irq_line, io_map 0, char_device, dev_node] s =
      s\<lparr>held := fold remove1 [irq_line, io_map 0, char_device, dev_node] (after_init c e)\<rparr>"
    by (subst give_back_list) (simp_all add: assms(1))
  then have s1: "device_destroy (give_back char_device (give_back (io_map 0) (give_back irq_line s))) = s1"
    by (simp add: device_destroy_def s1_def rest_def after_init_def remove1_append extra_maps_set removeAll_extra)
  let ?fin = "[dev_class, chrdev_region, pm_enabled] @ (if cfg_debug_fs c then [debugfs_dir, proc_buffer] else []) @
    (if e_regulator e \<noteq> None then [regulator_ref] else [])"
  have fin: "fold give_back ?fin s1 = s\<lparr>held := extra_maps c e\<rparr>"
    by (subst give_back_list; cases "cfg_debug_fs c"; cases "e_regulator e")
      (simp_all add: s1_def rest_def remove1_append extra_maps_set)
  have reg: "regulator_ref \<in> set (held t) \<longleftrightarrow> e_regulator e \<noteq> None"
    if "t = fold give_back ([dev_class, chrdev_region, pm_enabled] @ (if cfg_debug_fs c then [debugfs_dir, proc_buffer] else [])) s1" for t
    unfolding that by (subst give_back_list; cases "cfg_debug_fs c"; cases "e_regulator e")
      (simp_all add: s1_def rest_def remove1_append extra_maps_set)
  have dbg: "debugfs_dir \<in> set (held (fold give_back [dev_class, chrdev_region, pm_enabled] s1))" if "cfg_debug_fs c"
    using that by (subst give_back_list) (simp_all add: s1_def rest_def remove1_append extra_maps_set)
  have "cedardev_exit c s = (let t = kfree_devp p (fold give_back ?fin s1) in t\<lparr>misuse := misuse t @ [Use_After_Free p]\<rparr>)"
    unfolding cedardev_exit_def Let_def s1
    using assms(2,3) reg [OF refl] dbg by (cases "cfg_debug_fs c") (simp_all add: sunxi_ve_debug_unregister_driver_def)
  then show ?thesis unfolding fin using assms(3) by (simp add: kfree_devp_def)
qed

theorem init_exit_balance:
  assumes "all_granted c e" "char_ok e s" "cedar_devp s = None" "held s = []" "misuse s = []" "e_kmalloc e = Some p" "p \<notin> live s"
  shows "\<exists>s'. cedardev_init c hw e s = (0, s') \<and> held s' = after_init c e \<and> misuse s' = [] \<and> init_end s' = 1 \<and>
    held (cedardev_exit c s') = extra_maps c e \<and> live (cedardev_exit c s') = live s \<and>
    misuse (cedardev_exit c s') = [Use_After_Free p]"
proof -
  obtain s' where s': "cedardev_init c hw e s = (0, s')" "held s' = after_init c e" "misuse s' = []" "init_end s' = 1"
    "cedar_devp s' = Some p" "live s' = insert p (live s)"
    using init_granted [OF assms(1-6)] by blast
  then have "p \<in> live s'" by simp
  with s' show ?thesis using exit_gives_back [OF s'(2,5)] assms(7) by auto
qed

theorem init_exit_balance_witness:
  "\<exists>s'. cedardev_init ex_config ex_ve_hw ex_env ex_life = (0, s') \<and> init_end s' = 1 \<and> irq_line \<in> set (held s') \<and>
    held (cedardev_exit ex_config s') = [io_map 2, io_map 1] \<and> misuse (cedardev_exit ex_config s') = [Use_After_Free 1]"
proof -
  have h: "all_granted ex_config ex_env" "char_ok ex_env ex_life" "cedar_devp ex_life = None" "held ex_life = []" "misuse ex_life = []"
    "e_kmalloc ex_env = Some 1" "1 \<notin> live ex_life"
    by (simp_all add: all_granted_def char_ok_def ex_env_def ex_life_def)
  show ?thesis using init_exit_balance [OF h, of ex_ve_hw] by (auto simp: after_init_def extra_maps_def ex_config_def ex_env_def)
qed



end
