(* ===== verification/Cedar_Ioctl.thy ===== *)
theory Cedar_Ioctl
  imports Cedar_Files Cedar_Debug Cedar_Dma Cedar_Tasks Cedar_Dev
begin

text \<open>
  The ioctl entry point of the VE device, \<open>compat_cedardev_ioctl\<close>: the commands of \<open>cedar_ve.h\<close> and what
  each of them does to the device, composed of the parts modelled before.  The device is \<open>ve_dev\<close>
  (clocks, interrupts, loads, locks) with the DMA buffers, the engine tasks, the published texts, the
  debug table, the power switch, the number of resets and the flushed cache ranges.  \<open>ioctl_env\<close>
  gives the build configuration, the answers of the kernel and what is read from user memory at
  \<open>arg\<close> (\<open>None\<close> when it cannot be read); \<open>u_writable\<close> says whether the answer can be written there;
  \<open>others_at\<close> is what happens to the interrupt records at each point of a waiting command.
\<close>

datatype IOCTL_CMD =
    IOCTL_UNKOWN | IOCTL_GET_ENV_INFO | IOCTL_WAIT_VE_DE | IOCTL_WAIT_VE_EN | IOCTL_RESET_VE | IOCTL_ENABLE_VE
  | IOCTL_DISABLE_VE | IOCTL_SET_VE_FREQ | IOCTL_CONFIG_AVS2 | IOCTL_GETVALUE_AVS2 | IOCTL_PAUSE_AVS2
  | IOCTL_START_AVS2 | IOCTL_RESET_AVS2 | IOCTL_ADJUST_AVS2 | IOCTL_ENGINE_REQ | IOCTL_ENGINE_REL
  | IOCTL_ENGINE_CHECK_DELAY | IOCTL_GET_IC_VER | IOCTL_ADJUST_AVS2_ABS | IOCTL_FLUSH_CACHE | IOCTL_SET_REFCOUNT
  | IOCTL_FLUSH_CACHE_ALL | IOCTL_TEST_VERSION | IOCTL_GET_LOCK | IOCTL_RELEASE_LOCK | IOCTL_SET_VOL
  | IOCTL_WAIT_JPEG_DEC | IOCTL_GET_REFCOUNT | IOCTL_GET_IOMMU_ADDR | IOCTL_FREE_IOMMU_ADDR | IOCTL_MAP_DMA_BUF
  | IOCTL_UNMAP_DMA_BUF | IOCTL_FLUSH_CACHE_RANGE | IOCTL_SET_PROC_INFO | IOCTL_STOP_PROC_INFO
  | IOCTL_COPY_PROC_INFO | IOCTL_SET_DRAM_HIGH_CHANNAL | IOCTL_PROC_INFO_COPY | IOCTL_PROC_INFO_STOP
  | IOCTL_POWER_SETUP | IOCTL_POWER_SHUTDOWN | IOCTL_GET_VE_DEFAULT_FREQ | IOCTL_UPDATE_CASE_LOAD_PARAM

definition ioctl_codes :: "(u32 \<times> IOCTL_CMD) list" where
  "ioctl_codes =
     zip [0x100, 0x101, 0x102, 0x103, 0x104, 0x105, 0x106, 0x107]
         [IOCTL_UNKOWN, IOCTL_GET_ENV_INFO, IOCTL_WAIT_VE_DE, IOCTL_WAIT_VE_EN, IOCTL_RESET_VE, IOCTL_ENABLE_VE,
          IOCTL_DISABLE_VE, IOCTL_SET_VE_FREQ] @
     zip [0x200, 0x201, 0x202, 0x203, 0x204, 0x205, 0x206, 0x207, 0x208, 0x209, 0x20a, 0x20b, 0x20c, 0x20d, 0x20e]
         [IOCTL_CONFIG_AVS2, IOCTL_GETVALUE_AVS2, IOCTL_PAUSE_AVS2, IOCTL_START_AVS2, IOCTL_RESET_AVS2, IOCTL_ADJUST_AVS2,
          IOCTL_ENGINE_REQ, IOCTL_ENGINE_REL, IOCTL_ENGINE_CHECK_DELAY, IOCTL_GET_IC_VER, IOCTL_ADJUST_AVS2_ABS,
          IOCTL_FLUSH_CACHE, IOCTL_SET_REFCOUNT, IOCTL_FLUSH_CACHE_ALL, IOCTL_TEST_VERSION] @
     [(0x310, IOCTL_GET_LOCK), (0x311, IOCTL_RELEASE_LOCK), (0x400, IOCTL_SET_VOL)] @
     zip [0x500, 0x501, 0x502, 0x503, 0x504, 0x505, 0x506, 0x507, 0x508, 0x509]
         [IOCTL_WAIT_JPEG_DEC, IOCTL_GET_REFCOUNT, IOCTL_GET_IOMMU_ADDR, IOCTL_FREE_IOMMU_ADDR, IOCTL_MAP_DMA_BUF,
          IOCTL_UNMAP_DMA_BUF, IOCTL_FLUSH_CACHE_RANGE, IOCTL_SET_PROC_INFO, IOCTL_STOP_PROC_INFO, IOCTL_COPY_PROC_INFO] @
     [(0x600, IOCTL_SET_DRAM_HIGH_CHANNAL), (0x610, IOCTL_PROC_INFO_COPY), (0x611, IOCTL_PROC_INFO_STOP),
      (0x700, IOCTL_POWER_SETUP), (0x701, IOCTL_POWER_SHUTDOWN), (0x710, IOCTL_GET_VE_DEFAULT_FREQ),
      (0x711, IOCTL_UPDATE_CASE_LOAD_PARAM)]"

record cedar = ve_dev +
  dma :: dma_state
  tasks :: task_state
  proc :: proc_state
  debug :: debug_state
  power :: "u32 \<times> trace"
  resets :: nat
  flushed :: "(u64 \<times> u64) list"

record ioctl_env =
  iw12 :: bool
  sun9iw1 :: bool
  dvfs_on :: bool
  max_freq_on :: bool
  power_on :: bool
  clk_ok :: "ve_clock \<Rightarrow> bool"
  ve_clk_valid :: bool
  set_rate :: "int \<Rightarrow> int option"
  intr :: bool
  others_at :: "nat \<Rightarrow> irq_state \<Rightarrow> irq_state"
  ve_hw :: hw
  ptr_size :: nat
  efuse_dvfs :: u32
  efuse_chip :: u32
  dma_requests :: dma_env
  tgid :: int
  vmalloc :: "nat option"
  u_load :: "ve_case_load_param option"
  u_head :: "(u32 \<times> u32 \<times> u32) option"
  u_bytes :: "u8 list"
  u_prio :: "int option"
  u_proc :: "(u8 \<times> u32) option"
  u_fd :: "int option"
  u_range :: "(u64 \<times> u64) option"
  u_writable :: bool

datatype answer = No_answer | Env_info | Delay u32 u32 | Dma_addr u32 | Range u64 u64

type_synonym 'a ioctl_result = "('a \<times> answer) outcome"

section \<open>Lifting a part to the device\<close>

fun lift :: "('s \<Rightarrow> 'c) \<Rightarrow> 's outcome \<Rightarrow> 'c ioctl_result" where
  "lift put (Ret r x) = Ret r (put x, No_answer)"
| "lift put Blocks = Blocks"
| "lift put Faults = Faults"

definition lift_clk :: "cedar \<Rightarrow> (int \<times> clk_state) option \<Rightarrow> cedar ioctl_result" where
  "lift_clk s r = (case r of None \<Rightarrow> Blocks | Some (r, k) \<Rightarrow> Ret r (s\<lparr>clk := k\<rparr>, No_answer))"

definition put_irq :: "cedar \<Rightarrow> u32 \<times> irq_state \<Rightarrow> cedar ioctl_result" where
  "put_irq s = (\<lambda>(v, q). Ret (uint v) (s\<lparr>irqs := q\<rparr>, No_answer))"

section \<open>Commands with parts of their own\<close>

definition ioctl_update_case_load :: "ioctl_env \<Rightarrow> nat \<Rightarrow> cedar \<Rightarrow> cedar ioctl_result" where
  "ioctl_update_case_load e f s =
     (if \<not> dvfs_on e then Ret 0 (s, No_answer)
      else case u_load e of
        None \<Rightarrow> Ret (- EFAULT) (s, No_answer)
      | Some load \<Rightarrow>
          (case files (locks s) f of
             None \<Rightarrow> Faults
           | Some info \<Rightarrow>
               let (_, d) = update_case_load_param_sun55iw3 load (process_channel_id info) (dvfs s);
                   (_, d) = adjust_ve_freq_by_case_load_sun55iw3 (set_rate e) d
               in Ret 0 (s\<lparr>dvfs := d\<rparr>, No_answer)))"

definition ioctl_check_delay :: "ioctl_env \<Rightarrow> cedar \<Rightarrow> cedar ioctl_result" where
  "ioctl_check_delay e s =
     (case u_prio e of
        None \<Rightarrow> Ret (- EFAULT) (s, No_answer)
      | Some prio \<Rightarrow>
          let (total_time, frame_time) = ioctl_engine_check_delay prio (tasks s)
          in if u_writable e then Ret 0 (s, Delay total_time frame_time) else Ret (- EFAULT) (s, No_answer))"

definition ioctl_set_ve_freq :: "ioctl_env \<Rightarrow> u64 \<Rightarrow> cedar \<Rightarrow> cedar ioctl_result" where
  "ioctl_set_ve_freq e arg s =
     (let arg_rate = sint (ucast arg :: u32);
          (ret, d) = setup_ve_freq (set_rate e) arg_rate (dvfs s)
      in Ret ret (s\<lparr>dvfs := d\<lparr>user_setting_ve_freq := sint (of_int ret :: u32) sdiv 1000000\<rparr>\<rparr>, No_answer))"

definition ioctl_map_dma :: "ioctl_env \<Rightarrow> nat \<Rightarrow> cedar \<Rightarrow> cedar ioctl_result" where
  "ioctl_map_dma e f s =
     (let s = s\<lparr>dma := (dma s)\<lparr>bMemDevAttachFlag := True\<rparr>\<rparr> in
      case u_fd e of
        None \<Rightarrow> Ret (- EFAULT) (s, No_answer)
      | Some fd \<Rightarrow>
          let ((ret, adr), d) = map_dma_buf_addr (dma_requests e) fd (tgid e) f (dma s);
              s = s\<lparr>dma := d\<rparr>
          in if ret \<noteq> 0 then Ret (- EFAULT) (s, No_answer)
             else if u_writable e then Ret 0 (s, case adr of None \<Rightarrow> No_answer | Some a \<Rightarrow> Dma_addr a)
             else Ret (- EFAULT) (s, No_answer))"

definition ioctl_unmap_dma :: "ioctl_env \<Rightarrow> nat \<Rightarrow> cedar \<Rightarrow> cedar ioctl_result" where
  "ioctl_unmap_dma e f s =
     (case u_fd e of
        None \<Rightarrow> Ret (- EFAULT) (s, No_answer)
      | Some fd \<Rightarrow>
          (case unmap_dma_buf_addr False fd (tgid e) f (dma s) of
             None \<Rightarrow> Faults
           | Some d \<Rightarrow> Ret 0 (s\<lparr>dma := d\<rparr>, No_answer)))"

definition IS_ERR_OR_NULL :: "u64 \<Rightarrow> bool" where
  "IS_ERR_OR_NULL p \<longleftrightarrow> p = 0 \<or> p \<ge> - 4095"

definition ioctl_flush_cache_range :: "ioctl_env \<Rightarrow> cedar \<Rightarrow> cedar ioctl_result" where
  "ioctl_flush_cache_range e s =
     (case u_range e of
        None \<Rightarrow> Ret (- EFAULT) (s, No_answer)
      | Some (a, b) \<Rightarrow>
          if IS_ERR_OR_NULL a \<or> IS_ERR_OR_NULL b then Ret (- EFAULT) (s, No_answer)
          else
            let s = s\<lparr>flushed := flushed s @ [(a, b)]\<rparr>
            in if u_writable e then Ret 0 (s, Range a b) else Ret (- EFAULT) (s, No_answer))"

section \<open>The switch\<close>

fun cedar_command :: "ioctl_env \<Rightarrow> nat \<Rightarrow> u64 \<Rightarrow> cedar \<Rightarrow> IOCTL_CMD \<Rightarrow> cedar ioctl_result" where
  "cedar_command e f arg s IOCTL_UPDATE_CASE_LOAD_PARAM = ioctl_update_case_load e f s"
| "cedar_command e f arg s IOCTL_GET_VE_DEFAULT_FREQ =
     Ret (if max_freq_on e then sint (map_max_ve_freq_by_vf_sun55iw3 (efuse_dvfs e) (efuse_chip e) (dvfs s)) else 0) (s, No_answer)"
| "cedar_command e f arg s IOCTL_PROC_INFO_COPY =
     lift (\<lambda>d. s\<lparr>debug := d\<rparr>) (ioctl_proc_info_copy (u_head e) (u_bytes e) (vmalloc e) (debug s))"
| "cedar_command e f arg s IOCTL_PROC_INFO_STOP =
     lift (\<lambda>d. s\<lparr>debug := d\<rparr>) (ioctl_proc_info_stop (map_option (\<lambda>(pid, tid, _). (pid, tid)) (u_head e)) (debug s))"
| "cedar_command e f arg s IOCTL_ENGINE_REQ = lift_clk s (ioctl_engine_req (iw12 e) (clk_ok e) (intr e) (clk s))"
| "cedar_command e f arg s IOCTL_ENGINE_REL = lift_clk s (ioctl_engine_rel (iw12 e) (intr e) (clk s))"
| "cedar_command e f arg s IOCTL_ENGINE_CHECK_DELAY = ioctl_check_delay e s"
| "cedar_command e f arg s IOCTL_WAIT_VE_DE = put_irq s (ioctl_wait_ve_de (others_at e) (irqs s))"
| "cedar_command e f arg s IOCTL_WAIT_VE_EN = put_irq s (ioctl_wait_ve_en (others_at e) (irqs s))"
| "cedar_command e f arg s IOCTL_WAIT_JPEG_DEC = put_irq s (ioctl_wait_jpeg_dec (others_at e) (irqs s))"
| "cedar_command e f arg s IOCTL_ENABLE_VE = lift_clk s (Some (ioctl_enable_ve (clk_ok e) (clk s)))"
| "cedar_command e f arg s IOCTL_DISABLE_VE = lift_clk s (Some (ioctl_disable_ve (ve_clk_valid e) (clk s)))"
| "cedar_command e f arg s IOCTL_RESET_VE = Ret 0 (s\<lparr>resets := Suc (resets s)\<rparr>, No_answer)"
| "cedar_command e f arg s IOCTL_SET_DRAM_HIGH_CHANNAL = Ret 0 (s, No_answer)"
| "cedar_command e f arg s IOCTL_SET_VE_FREQ = ioctl_set_ve_freq e arg s"
| "cedar_command e f arg s IOCTL_GETVALUE_AVS2 = Ret 0 (s, No_answer)"
| "cedar_command e f arg s IOCTL_ADJUST_AVS2 = Ret 0 (s, No_answer)"
| "cedar_command e f arg s IOCTL_ADJUST_AVS2_ABS = Ret 0 (s, No_answer)"
| "cedar_command e f arg s IOCTL_CONFIG_AVS2 = Ret 0 (s, No_answer)"
| "cedar_command e f arg s IOCTL_RESET_AVS2 = Ret 0 (s, No_answer)"
| "cedar_command e f arg s IOCTL_PAUSE_AVS2 = Ret 0 (s, No_answer)"
| "cedar_command e f arg s IOCTL_START_AVS2 = Ret 0 (s, No_answer)"
| "cedar_command e f arg s IOCTL_GET_ENV_INFO = (if u_writable e then Ret 0 (s, Env_info) else Ret (- EFAULT) (s, No_answer))"
| "cedar_command e f arg s IOCTL_GET_IC_VER = Ret 0 (s, No_answer)"
| "cedar_command e f arg s IOCTL_SET_REFCOUNT = lift_clk s (Some (ioctl_set_refcount (sint (ucast arg :: u32)) (clk s)))"
| "cedar_command e f arg s IOCTL_SET_VOL = lift (\<lambda>s. s) (ioctl_set_vol (sun9iw1 e) (intr e) f (sint (ucast arg :: u32)) s)"
| "cedar_command e f arg s IOCTL_GET_LOCK = lift (\<lambda>l. s\<lparr>locks := l\<rparr>) (ioctl_get_lock f arg (locks s))"
| "cedar_command e f arg s IOCTL_SET_PROC_INFO =
     lift (\<lambda>(l, p). s\<lparr>locks := l, proc := p\<rparr>) (ioctl_set_proc_info f (u_proc e) (locks s, proc s))"
| "cedar_command e f arg s IOCTL_COPY_PROC_INFO =
     lift (\<lambda>(l, p). s\<lparr>locks := l, proc := p\<rparr>) (ioctl_copy_proc_info f (u_bytes e) (locks s, proc s))"
| "cedar_command e f arg s IOCTL_STOP_PROC_INFO = lift (\<lambda>p. s\<lparr>proc := p\<rparr>) (ioctl_stop_proc_info arg (proc s))"
| "cedar_command e f arg s IOCTL_RELEASE_LOCK = lift (\<lambda>l. s\<lparr>locks := l\<rparr>) (ioctl_release_lock f arg (locks s))"
| "cedar_command e f arg s IOCTL_GET_IOMMU_ADDR = ioctl_map_dma e f s"
| "cedar_command e f arg s IOCTL_FREE_IOMMU_ADDR = ioctl_unmap_dma e f s"
| "cedar_command e f arg s IOCTL_MAP_DMA_BUF = ioctl_map_dma e f s"
| "cedar_command e f arg s IOCTL_UNMAP_DMA_BUF = ioctl_unmap_dma e f s"
| "cedar_command e f arg s IOCTL_FLUSH_CACHE_RANGE = ioctl_flush_cache_range e s"
| "cedar_command e f arg s IOCTL_POWER_SETUP =
     (if power_on e then lift (\<lambda>(w, l). s\<lparr>power := w, locks := l\<rparr>) (ioctl_power_setup_locked (ve_hw e) (ptr_size e) f (power s, locks s))
      else Ret 0 (s, No_answer))"
| "cedar_command e f arg s IOCTL_POWER_SHUTDOWN =
     (if power_on e then lift (\<lambda>(w, l). s\<lparr>power := w, locks := l\<rparr>) (ioctl_power_shutdown_locked (ve_hw e) (ptr_size e) f (power s, locks s))
      else Ret 0 (s, No_answer))"
| "cedar_command e f arg s _ = Ret (- 1) (s, No_answer)"

definition compat_cedardev_ioctl :: "ioctl_env \<Rightarrow> nat \<Rightarrow> u32 \<Rightarrow> u64 \<Rightarrow> cedar \<Rightarrow> cedar ioctl_result" where
  "compat_cedardev_ioctl e f cmd arg s =
     (case map_of ioctl_codes cmd of None \<Rightarrow> Ret (- 1) (s, No_answer) | Some c \<Rightarrow> cedar_command e f arg s c)"

section \<open>What a command can touch\<close>

text \<open>
  Every field of the device is listed: a command leaves all of them alone except those it is for.
\<close>

definition changes :: "IOCTL_CMD \<Rightarrow> cedar \<Rightarrow> cedar \<Rightarrow> bool" where
  "changes c s s' \<longleftrightarrow>
     (clk s' \<noteq> clk s \<longrightarrow> c \<in> {IOCTL_ENGINE_REQ, IOCTL_ENGINE_REL, IOCTL_ENABLE_VE, IOCTL_DISABLE_VE, IOCTL_SET_REFCOUNT}) \<and>
     (irqs s' \<noteq> irqs s \<longrightarrow> c \<in> {IOCTL_WAIT_VE_DE, IOCTL_WAIT_VE_EN, IOCTL_WAIT_JPEG_DEC}) \<and>
     (dvfs s' \<noteq> dvfs s \<longrightarrow> c \<in> {IOCTL_UPDATE_CASE_LOAD_PARAM, IOCTL_SET_VE_FREQ}) \<and>
     (locks s' \<noteq> locks s \<longrightarrow> c \<in> {IOCTL_GET_LOCK, IOCTL_RELEASE_LOCK, IOCTL_SET_VOL, IOCTL_SET_PROC_INFO, IOCTL_COPY_PROC_INFO}) \<and>
     (voltages s' \<noteq> voltages s \<longrightarrow> c = IOCTL_SET_VOL) \<and>
     (dma s' \<noteq> dma s \<longrightarrow> c \<in> {IOCTL_GET_IOMMU_ADDR, IOCTL_FREE_IOMMU_ADDR, IOCTL_MAP_DMA_BUF, IOCTL_UNMAP_DMA_BUF}) \<and>
     (debug s' \<noteq> debug s \<longrightarrow> c \<in> {IOCTL_PROC_INFO_COPY, IOCTL_PROC_INFO_STOP}) \<and>
     (proc s' \<noteq> proc s \<longrightarrow> c \<in> {IOCTL_SET_PROC_INFO, IOCTL_COPY_PROC_INFO, IOCTL_STOP_PROC_INFO}) \<and>
     (power s' \<noteq> power s \<longrightarrow> c \<in> {IOCTL_POWER_SETUP, IOCTL_POWER_SHUTDOWN}) \<and>
     resets s' = (if c = IOCTL_RESET_VE then Suc (resets s) else resets s) \<and>
     (flushed s' \<noteq> flushed s \<longrightarrow> c = IOCTL_FLUSH_CACHE_RANGE \<and> (\<exists>a b. flushed s' = flushed s @ [(a, b)])) \<and>
     tasks s' = tasks s"

lemma lift_Ret: "lift put x = Ret r (s', a) \<longleftrightarrow> (\<exists>y. x = Ret r y \<and> s' = put y \<and> a = No_answer)"
  by (cases x) auto

lemma up_down: "0 < sem k \<Longrightarrow> up (k\<lparr>sem := sem k - Suc 0\<rparr>) = k"
  by (cases k) (simp add: up_def)

lemma set_vol_frame:
  assumes "ioctl_set_vol b i f v s = Ret r s'"
  shows "clk s' = clk s \<and> irqs s' = irqs s \<and> dvfs s' = dvfs s \<and> cedar.more s' = cedar.more s \<and> dma s' = dma s \<and> debug s' = debug s \<and>
    proc s' = proc s \<and> power s' = power s \<and> tasks s' = tasks s \<and> resets s' = resets s \<and> flushed s' = flushed s"
  using assms unfolding ioctl_set_vol_def down_interruptible_def by (auto simp: up_down split: option.splits if_splits)

text \<open>The power commands take the five engine locks one after the other and give them all back.\<close>

lemma engines_distinct: "distinct engine_mutexes"
  by (simp add: engine_mutexes_def)

lemma lock_all_engines:
  "lock_all f engine_mutexes l =
     (if \<exists>m \<in> set engine_mutexes. holder l m \<noteq> None then None
      else Some (l\<lparr>holder := (\<lambda>m. if m \<in> set engine_mutexes then Some f else holder l m)\<rparr>))"
proof -
  have "lock_all f ms l = (if \<exists>m \<in> set ms. holder l m \<noteq> None then None
      else Some (l\<lparr>holder := (\<lambda>m. if m \<in> set ms then Some f else holder l m)\<rparr>))" if "distinct ms" for ms
    using that by (induction ms arbitrary: l) (auto simp: mutex_lock_def fun_eq_iff intro!: arg_cong [where f = "\<lambda>h. l\<lparr>holder := h\<rparr>" for l])
  from this [OF engines_distinct] show ?thesis .
qed

lemma unlock_locked:
  assumes "\<forall>m \<in> set engine_mutexes. holder l m = None"
  shows "unlock_all f engine_mutexes (l\<lparr>holder := (\<lambda>m. if m \<in> set engine_mutexes then Some f else holder l m)\<rparr>) = l"
proof -
  have "unlock_all f ms (l\<lparr>holder := (\<lambda>m. if m \<in> set ms then Some f else holder l m)\<rparr>) = l"
    if "distinct ms" "\<forall>m \<in> set ms. holder l m = None" for ms
    using that
  proof (induction ms)
    case (Cons a ms)
    have "mutex_unlock f a (l\<lparr>holder := (\<lambda>m. if m \<in> set (a # ms) then Some f else holder l m)\<rparr>) =
        l\<lparr>holder := (\<lambda>m. if m \<in> set ms then Some f else holder l m)\<rparr>"
      using Cons.prems by (cases l) (auto simp: mutex_unlock_def fun_eq_iff)
    with Cons show ?case by (simp add: unlock_all_def)
  qed (simp add: unlock_all_def)
  from this [OF engines_distinct assms] show ?thesis .
qed

lemma power_locked:
  "ioctl_power_setup_locked hw n f (w, l) =
     (if fst w = 0 \<and> (\<exists>m \<in> set engine_mutexes. holder l m \<noteq> None) then Blocks else Ret 0 (ioctl_power_setup hw n w, l))"
  "ioctl_power_shutdown_locked hw n f (w, l) =
     (if fst w - 1 = 0 \<and> (\<exists>m \<in> set engine_mutexes. holder l m \<noteq> None) then Blocks else Ret 0 (ioctl_power_shutdown hw n w, l))"
  using unlock_locked [of l f]
  by (cases w; auto simp: ioctl_power_setup_locked_def ioctl_power_shutdown_locked_def lock_all_engines split_beta)+

lemma command_changes:
  assumes "cedar_command e f arg s c = Ret r (s', a)"
  shows "changes c s s'"
  using assms
  by (cases c) (auto simp: changes_def lift_Ret lift_clk_def put_irq_def ioctl_update_case_load_def ioctl_check_delay_def
      ioctl_set_ve_freq_def ioctl_map_dma_def ioctl_unmap_dma_def ioctl_flush_cache_range_def power_locked Let_def
      dest!: set_vol_frame split: option.splits if_splits prod.splits)

section \<open>The invariant of the device\<close>

definition clk_at :: "nat \<Rightarrow> clk_state \<Rightarrow> bool" where
  "clk_at n k \<longleftrightarrow> \<not> spin_held k \<and> sem k = n"

text \<open>
  Every part of the device is in order: the spin lock and the semaphore are free, the locks are held by
  the files that claim them, no two load parameters are for the same channel, the list of buffers is
  intact and nothing taken from the dma-buf framework is lost, every debug text has an area of its own
  and the channels lie within their buffer.
\<close>

definition cedar_ok :: "cedar \<Rightarrow> bool" where
  "cedar_ok s \<longleftrightarrow> clk_at 1 (clk s) \<and> lock_inv (locks s) \<and> dvfs_inv (dvfs s) \<and> (\<exists>ps. dma_inv (dma s) ps) \<and> debug_ok (debug s) \<and>
     proc_ok (proc s)"

text \<open>
  What the driver takes from its clients without checking it: one engine lock per call, a text of at most
  1024 bytes announced before it is copied, a channel below 16, a debug text that can be read and has
  an area and an owner; and what the kernel guarantees of a new buffer.
\<close>

fun client_ok :: "ioctl_env \<Rightarrow> nat \<Rightarrow> u64 \<Rightarrow> cedar \<Rightarrow> IOCTL_CMD \<Rightarrow> bool" where
  "client_ok e f arg s IOCTL_GET_LOCK = (\<exists>m \<in> set engine_mutexes. ucast arg = lock_bit m)"
| "client_ok e f arg s IOCTL_RELEASE_LOCK = (\<exists>m \<in> set engine_mutexes. ucast arg = lock_bit m)"
| "client_ok e f arg s IOCTL_SET_PROC_INFO = (case u_proc e of None \<Rightarrow> True | Some (_, n) \<Rightarrow> unat n \<le> 1024)"
| "client_ok e f arg s IOCTL_COPY_PROC_INFO =
     (holder (locks s) lock_proc = Some f \<and> unat (cur_channel_id (proc s)) < 16 \<and>
      proc_buf (proc s) ! unat (cur_channel_id (proc s)) \<noteq> None)"
| "client_ok e f arg s IOCTL_STOP_PROC_INFO = (unat (ucast arg :: u8) < 16)"
| "client_ok e f arg s IOCTL_PROC_INFO_COPY =
     (case u_head e of None \<Rightarrow> True
      | Some (pid, tid, n) \<Rightarrow> (pid, tid) \<noteq> (0, 0) \<and> n \<noteq> 0 \<and> unat n \<le> length (u_bytes e) \<and>
          (\<exists>a. vmalloc e = Some a \<and> vmem (debug s) a = None))"
| "client_ok e f arg s IOCTL_PROC_INFO_STOP = (case u_head e of None \<Rightarrow> True | Some (pid, tid, _) \<Rightarrow> (pid, tid) \<noteq> (0, 0))"
| "client_ok e f arg s IOCTL_GET_IOMMU_ADDR = env_ok (dma_requests e) (dma s)"
| "client_ok e f arg s IOCTL_MAP_DMA_BUF = env_ok (dma_requests e) (dma s)"
| "client_ok e f arg s _ = True"

text \<open>The commands that can wait for another file, and for which mutex.\<close>

definition waits_for :: "ioctl_env \<Rightarrow> u64 \<Rightarrow> cedar \<Rightarrow> IOCTL_CMD \<Rightarrow> ve_mutex set" where
  "waits_for e arg s c =
     (if c = IOCTL_GET_LOCK then {m \<in> set engine_mutexes. ucast arg = lock_bit m}
      else if c = IOCTL_SET_PROC_INFO \<and> debug_root (proc s) then {lock_proc}
      else if c = IOCTL_POWER_SETUP \<and> power_on e \<and> fst (power s) = 0 \<or>
        c = IOCTL_POWER_SHUTDOWN \<and> power_on e \<and> fst (power s) = 1 then set engine_mutexes
      else {})"

definition held :: "cedar \<Rightarrow> ve_mutex set \<Rightarrow> bool" where
  "held s M \<longleftrightarrow> (\<exists>m \<in> M. holder (locks s) m \<noteq> None)"

text \<open>A result that is in order: the call returns, or it waits for a mutex that is held.\<close>

definition result_ok :: "ioctl_env \<Rightarrow> u64 \<Rightarrow> cedar \<Rightarrow> IOCTL_CMD \<Rightarrow> cedar ioctl_result \<Rightarrow> bool" where
  "result_ok e arg s c x \<longleftrightarrow>
     (case x of Faults \<Rightarrow> False | Blocks \<Rightarrow> held s (waits_for e arg s c)
      | Ret r (s', a) \<Rightarrow> \<not> held s (waits_for e arg s c) \<and> cedar_ok s')"

lemma enable_gates_at: "clk_at n s \<Longrightarrow> clk_at n (snd (enable_gates ok cs s))"
  by (induction ok cs s rule: enable_gates.induct) (auto simp: clk_at_def)

lemma disable_gates_at: "clk_at n (disable_gates cs s) \<longleftrightarrow> clk_at n s"
  by (induction cs s rule: disable_gates.induct) (auto simp: clk_at_def)

lemma enable_hw_at:
  assumes "clk_at n k"
  obtains r k' where "enable_cedar_hw_clk b ok k = Some (r, k')" "clk_at n k'"
proof -
  let ?x = "deassert_resets b (k\<lparr>clk_status := 1, spin_held := False, pm_cnt := pm_cnt k + 1\<rparr>)"
  have "clk_at n ?x" using assms by (simp add: clk_at_def deassert_resets_def Let_def)
  then have "clk_at n (snd (enable_gates ok (gates b) ?x))" by (rule enable_gates_at)
  moreover have "enable_cedar_hw_clk b ok k =
      Some (if bInitEndFlag k \<noteq> 1 then (- EINVAL, k) else if clk_status k = 1 then (0, k\<lparr>spin_held := False\<rparr>)
        else enable_gates ok (gates b) ?x)"
    using assms by (simp add: enable_cedar_hw_clk_def clk_at_def clk_defs)
  moreover have "clk_at n (k\<lparr>spin_held := False\<rparr>)" using assms by (simp add: clk_at_def)
  ultimately show thesis
    using assms that by (cases "enable_gates ok (gates b) ?x") (simp split: if_splits)
qed

lemma disable_hw_at:
  assumes "clk_at n k"
  obtains k' where "disable_cedar_hw_clk b k = Some (0, k')" "clk_at n k'"
proof -
  let ?x = "disable_gates (rev (gates b)) (k\<lparr>clk_status := 0, spin_held := False\<rparr>)"
  have "clk_at n ?x" using assms unfolding disable_gates_at by (simp add: clk_at_def)
  then have "clk_at n ((assert_resets b ?x)\<lparr>pm_cnt := m\<rparr>)" for m by (cases b) (simp_all add: clk_at_def assert_resets_def Let_def)
  moreover have "clk_at n (k\<lparr>spin_held := False\<rparr>)" using assms by (simp add: clk_at_def)
  moreover have "disable_cedar_hw_clk b k = Some (0, if clk_status k = 0 then k\<lparr>spin_held := False\<rparr>
      else (assert_resets b ?x)\<lparr>pm_cnt := pm_cnt (assert_resets b ?x) - 1\<rparr>)"
    using assms by (simp add: disable_cedar_hw_clk_def clk_at_def clk_defs)
  ultimately show thesis using that by presburger
qed

lemma clk_at_simps:
  "clk_at n (k\<lparr>ref_count := i\<rparr>) = clk_at n k" "clk_at n (k\<lparr>last_min_freq := i\<rparr>) = clk_at n k"
  "clk_at n (k\<lparr>clk_cnt := m\<rparr>) = clk_at n k" "clk_at (Suc n) (up k) = clk_at n k" "clk_at n (k\<lparr>sem := n\<rparr>) = (\<not> spin_held k)"
  by (auto simp: clk_at_def up_def)

lemma down_at: "clk_at 1 k \<Longrightarrow> down_interruptible i k = Some (if i then (- 4, k) else (0, k\<lparr>sem := 0\<rparr>))"
  by (simp add: down_interruptible_def clk_at_def)

lemma engine_req_at:
  assumes "clk_at 1 k"
  shows "\<exists>r k'. ioctl_engine_req b ok i k = Some (r, k') \<and> clk_at 1 k'"
proof -
  have free: "\<not> spin_held k" using assms by (simp add: clk_at_def)
  then have "clk_at 0 (k\<lparr>sem := 0, ref_count := 1, last_min_freq := 0\<rparr>)" by (simp add: clk_at_def)
  then obtain r k' where "enable_cedar_hw_clk b ok (k\<lparr>sem := 0, ref_count := 1, last_min_freq := 0\<rparr>) = Some (r, k')" "clk_at 0 k'"
    by (rule enable_hw_at)
  then show ?thesis
    using assms free by (simp add: ioctl_engine_req_def down_at clk_at_simps Let_def)
qed

lemma engine_rel_at:
  assumes "clk_at 1 k"
  shows "\<exists>r k'. ioctl_engine_rel b i k = Some (r, k') \<and> clk_at 1 k'"
proof -
  have free: "\<not> spin_held k" using assms by (simp add: clk_at_def)
  then have "clk_at 0 (k\<lparr>sem := 0, ref_count := 0\<rparr>)" by (simp add: clk_at_def)
  then obtain k' where "disable_cedar_hw_clk b (k\<lparr>sem := 0, ref_count := 0\<rparr>) = Some (0, k')" "clk_at 0 k'"
    by (rule disable_hw_at)
  then show ?thesis
    using assms free by (simp add: ioctl_engine_rel_def down_at clk_at_simps Let_def)
qed

text \<open>The load parameters stay in order when the rate is adjusted to them.\<close>

lemma setup_freq_infos: "load_infos (snd (setup_ve_freq sr v d)) = load_infos d"
  by (auto simp: setup_ve_freq_def Let_def split: option.split)

lemma adjust_infos: "load_infos (snd (adjust_ve_freq_by_case_load_sun55iw3 sr d)) = map fix_frame_rate (load_infos d)"
  by (simp add: adjust_ve_freq_by_case_load_sun55iw3_def setup_freq_infos Let_def)

lemma dvfs_inv_fixed:
  assumes "dvfs_inv d" "load_infos d' = map fix_frame_rate (load_infos d)"
  shows "dvfs_inv d'"
proof -
  have "is_used (fix_frame_rate x) = is_used x" "load_hit k (fix_frame_rate x) = load_hit k x" for x k
    by (simp_all add: fix_frame_rate_def load_hit_def)
  then show ?thesis using assms by (auto simp: dvfs_inv_def load.unique_def)
qed

lemma dvfs_inv_same: "dvfs_inv d \<Longrightarrow> load_infos d' = load_infos d \<Longrightarrow> dvfs_inv d'"
  by (simp add: dvfs_inv_def)

section \<open>Every command keeps the device in order\<close>

text \<open>
  The invariant depends on six parts of the device only.
\<close>

lemma cedar_okD:
  assumes "cedar_ok s"
  shows "clk_at 1 (clk s)" "lock_inv (locks s)" "dvfs_inv (dvfs s)" "\<exists>ps. dma_inv (dma s) ps" "debug_ok (debug s)" "proc_ok (proc s)"
  using assms by (simp_all add: cedar_ok_def)

lemma cedar_ok_put:
  assumes "cedar_ok s"
  shows "clk_at 1 k \<Longrightarrow> cedar_ok (s\<lparr>clk := k\<rparr>)" "lock_inv l \<Longrightarrow> cedar_ok (s\<lparr>locks := l\<rparr>)" "dvfs_inv d \<Longrightarrow> cedar_ok (s\<lparr>dvfs := d\<rparr>)"
    "\<exists>ps. dma_inv m ps \<Longrightarrow> cedar_ok (s\<lparr>dma := m\<rparr>)" "debug_ok g \<Longrightarrow> cedar_ok (s\<lparr>debug := g\<rparr>)" "proc_ok p \<Longrightarrow> cedar_ok (s\<lparr>proc := p\<rparr>)"
    "lock_inv l \<Longrightarrow> proc_ok p \<Longrightarrow> cedar_ok (s\<lparr>locks := l, proc := p\<rparr>)"
    "cedar_ok (s\<lparr>irqs := q\<rparr>)" "cedar_ok (s\<lparr>power := w\<rparr>)" "cedar_ok (s\<lparr>resets := n\<rparr>)" "cedar_ok (s\<lparr>flushed := fl\<rparr>)"
  using assms by (simp_all add: cedar_ok_def)

lemma lift_clk_ok:
  assumes "cedar_ok s" "\<exists>r k. x = Some (r, k) \<and> clk_at 1 k" "\<not> held s (waits_for e arg s c)"
  shows "result_ok e arg s c (lift_clk s x)"
  using assms by (auto simp: result_ok_def lift_clk_def cedar_ok_put)

lemma no_wait: "waits_for e arg s c = {} \<Longrightarrow> \<not> held s (waits_for e arg s c)"
  by (simp add: held_def)

lemma get_lock_ok:
  assumes ok: "cedar_ok s" and f: "files (locks s) f \<noteq> None" and c: "client_ok e f arg s IOCTL_GET_LOCK"
  shows "result_ok e arg s IOCTL_GET_LOCK (cedar_command e f arg s IOCTL_GET_LOCK)"
proof -
  obtain m where m: "engine_mutex m" "ucast arg = lock_bit m" using c by (auto simp: engine_mutex_def)
  have w: "waits_for e arg s IOCTL_GET_LOCK = {m}"
    using m type_of_mutex unfolding waits_for_def engine_mutex_def by auto (metis option.inject)
  obtain vi where vi: "files (locks s) f = Some vi" using f by blast
  show ?thesis
    using get_refines [OF cedar_okD(2) [OF ok] vi m] ok w
    by (cases "ioctl_get_lock f arg (locks s)")
      (auto simp: result_ok_def held_def spec_get_def cedar_ok_put split: if_splits)
qed

lemma release_lock_ok:
  assumes ok: "cedar_ok s" and f: "files (locks s) f \<noteq> None" and c: "client_ok e f arg s IOCTL_RELEASE_LOCK"
  shows "result_ok e arg s IOCTL_RELEASE_LOCK (cedar_command e f arg s IOCTL_RELEASE_LOCK)"
proof -
  obtain m where m: "engine_mutex m" "ucast arg = lock_bit m" using c by (auto simp: engine_mutex_def)
  obtain vi where vi: "files (locks s) f = Some vi" using f by blast
  show ?thesis
    using rel_refines [OF cedar_okD(2) [OF ok] vi m] ok
    by (cases "ioctl_release_lock f arg (locks s)")
      (auto simp: result_ok_def held_def waits_for_def spec_rel_def cedar_ok_put split: if_splits)
qed

lemma set_vol_ok:
  assumes ok: "cedar_ok s" and f: "files (locks s) f \<noteq> None"
  shows "result_ok e arg s IOCTL_SET_VOL (cedar_command e f arg s IOCTL_SET_VOL)"
proof -
  obtain vi where vi: "files (locks s) f = Some vi" using f by blast
  have "lock_inv ((locks s)\<lparr>files := (files (locks s))(f \<mapsto> vi\<lparr>set_vol_flag := 1\<rparr>)\<rparr>)"
    using cedar_okD(2) [OF ok] vi by (auto simp: lock_inv_def claims_def)
  then show ?thesis
    using ok vi by (auto simp: result_ok_def held_def waits_for_def ioctl_set_vol_def down_at clk_at_simps cedar_ok_def clk_at_def up_def)
qed

lemma set_proc_ok:
  assumes ok: "cedar_ok s" and f: "files (locks s) f \<noteq> None" and c: "client_ok e f arg s IOCTL_SET_PROC_INFO"
  shows "result_ok e arg s IOCTL_SET_PROC_INFO (cedar_command e f arg s IOCTL_SET_PROC_INFO)"
proof (cases "ioctl_set_proc_info f (u_proc e) (locks s, proc s)")
  case (Ret r lp)
  obtain l p where lp: "lp = (l, p)" by (cases lp)
  have "lock_inv l" using announce_inv [OF cedar_okD(2) [OF ok]] Ret lp by blast
  moreover have "proc_ok p"
    using Ret cedar_okD(6) [OF ok] c unfolding lp
    by (auto simp: ioctl_set_proc_info_def proc_ok_def nth_list_update debugfs_defs split: if_splits option.splits prod.splits)
  moreover have "debug_root (proc s) \<longrightarrow> holder (locks s) lock_proc = None"
    using Ret by (auto simp: ioctl_set_proc_info_def mutex_lock_def split: if_splits)
  ultimately show ?thesis
    using ok Ret lp by (simp add: result_ok_def held_def waits_for_def cedar_ok_put)
next
  case Blocks
  then show ?thesis
    by (auto simp: result_ok_def held_def waits_for_def ioctl_set_proc_info_def mutex_lock_def split: if_splits option.splits prod.splits)
next
  case Faults
  then show ?thesis
    using f by (auto simp: ioctl_set_proc_info_def mutex_lock_def split: if_splits option.splits prod.splits)
qed

lemma copy_proc_ok:
  assumes ok: "cedar_ok s" and f: "files (locks s) f \<noteq> None" and c: "client_ok e f arg s IOCTL_COPY_PROC_INFO"
  shows "result_ok e arg s IOCTL_COPY_PROC_INFO (cedar_command e f arg s IOCTL_COPY_PROC_INFO)"
proof (cases "debug_root (proc s)")
  case False
  then show ?thesis using ok by (simp add: result_ok_def held_def waits_for_def ioctl_copy_proc_info_def)
next
  case True
  let ?p = "proc s" and ?ch = "unat (cur_channel_id (proc s))"
  obtain vi where vi: "files (locks s) f = Some vi" using f by blast
  obtain off where off: "proc_buf ?p ! ?ch = Some off" and ch: "?ch < 16" using c by auto
  let ?n = "unat (proc_len ?p ! ?ch)" and ?bs = "snd (copy_from_user (u_bytes e) (unat (proc_len ?p ! ?ch)))"
  have pk: "length (proc_len ?p) = 16" "length (proc_buf ?p) = 16" "length (proc_data ?p) = 16384" "off = ?ch * 1024" "?n \<le> 1024"
    using cedar_okD(6) [OF ok] off ch by (auto simp: proc_ok_def)
  have len: "length ?bs = ?n" by (simp add: copy_from_user_def)
  then obtain d where d: "write_at off ?bs (proc_data ?p) = Some d" "length d = 16384"
    using pk ch by (simp add: write_at_def)
  define l where "l = mutex_unlock f lock_proc (set_flags f vi (lock_flags vi AND NOT VE_LOCK_PROC_INFO) (locks s))"
  have run: "\<exists>r. ioctl_copy_proc_info f (u_bytes e) (locks s, ?p) = Ret r (l, ?p\<lparr>proc_data := d\<rparr>)"
    using True vi ch pk off d(1) by (simp add: ioctl_copy_proc_info_def l_def split_beta Let_def)
  then have "lock_inv l" using copy_inv [OF cedar_okD(2) [OF ok]] c by auto
  moreover have "proc_ok (?p\<lparr>proc_data := d\<rparr>)" using cedar_okD(6) [OF ok] d(2) by (simp add: proc_ok_def)
  ultimately show ?thesis
    using ok run by (auto simp: result_ok_def held_def waits_for_def cedar_ok_put)
qed

lemma stop_proc_ok:
  assumes ok: "cedar_ok s" and c: "client_ok e f arg s IOCTL_STOP_PROC_INFO"
  shows "result_ok e arg s IOCTL_STOP_PROC_INFO (cedar_command e f arg s IOCTL_STOP_PROC_INFO)"
proof -
  have "proc_ok ((proc s)\<lparr>proc_buf := (proc_buf (proc s))[i := None]\<rparr>)" if "i < 16" for i
    using that cedar_okD(6) [OF ok] by (auto simp: proc_ok_def nth_list_update split: if_splits)
  then show ?thesis
    using ok c cedar_okD(6) [OF ok]
    by (auto simp: result_ok_def held_def waits_for_def ioctl_stop_proc_info_def proc_ok_def [of "proc s"] cedar_ok_put Let_def)
qed

lemma debug_ok_index: "debug_ok (s\<lparr>debug_info_cur_index := i\<rparr>) \<longleftrightarrow> debug_ok s"
  by (simp add: debug_ok_def slot_ok_def)

lemma debug_copy_ok:
  assumes ok: "cedar_ok s" and c: "client_ok e f arg s IOCTL_PROC_INFO_COPY"
  shows "result_ok e arg s IOCTL_PROC_INFO_COPY (cedar_command e f arg s IOCTL_PROC_INFO_COPY)"
proof -
  have g: "debug_ok (debug s)" by (rule cedar_okD(5) [OF ok])
  have "\<exists>r g'. ioctl_proc_info_copy (u_head e) (u_bytes e) (vmalloc e) (debug s) = Ret r g' \<and> debug_ok g'"
  proof (cases "u_head e")
    case None
    then show ?thesis using g by (simp add: ioctl_proc_info_copy_def debug_ok_index)
  next
    case (Some h)
    obtain pid tid n where h: "h = (pid, tid, n)" by (cases h)
    then obtain a where a: "vmalloc e = Some a" "(pid, tid) \<noteq> (0, 0)" "n \<noteq> 0" "unat n \<le> length (u_bytes e)" "vmem (debug s) a = None"
      using c Some by auto
    show ?thesis
    proof (cases "dbg.slot_for (pid, tid) (debug_info (debug s))")
      case None
      then show ?thesis using copy_full [OF g None] Some h g by (simp add: debug_ok_index)
    next
      case (Some i)
      then show ?thesis using copy_refines [OF g a(2-5) Some] \<open>u_head e = Some h\<close> h a(1) by auto
    qed
  qed
  then show ?thesis using ok by (auto simp: result_ok_def held_def waits_for_def cedar_ok_put)
qed

lemma debug_stop_ok:
  assumes ok: "cedar_ok s" and c: "client_ok e f arg s IOCTL_PROC_INFO_STOP"
  shows "result_ok e arg s IOCTL_PROC_INFO_STOP (cedar_command e f arg s IOCTL_PROC_INFO_STOP)"
proof (cases "u_head e")
  case None
  then show ?thesis using ok by (simp add: result_ok_def held_def waits_for_def ioctl_proc_info_stop_def)
next
  case (Some h)
  obtain pid tid n where h: "h = (pid, tid, n)" by (cases h)
  then have "(pid, tid) \<noteq> (0, 0)" using c Some by auto
  from stop_refines [OF cedar_okD(5) [OF ok] this] obtain g where
    "ioctl_proc_info_stop (Some (pid, tid)) (debug s) = Ret 0 g" "debug_ok g" by blast
  then show ?thesis using ok Some h by (simp add: result_ok_def held_def waits_for_def cedar_ok_put)
qed

lemma dma_flag:
  "dma_inv (d\<lparr>bMemDevAttachFlag := True\<rparr>) ps \<longleftrightarrow> dma_inv d ps" "env_ok q (d\<lparr>bMemDevAttachFlag := True\<rparr>) \<longleftrightarrow> env_ok q d"
  by (simp_all add: dma_inv_def holds_def buffers_def env_ok_def)

lemma unmap_returns:
  assumes "dma_inv d ps"
  shows "\<exists>d'. unmap_dma_buf_addr a fd tg filp d = Some d'"
  using assms unmap_correct_dma [of d ps a fd tg filp] by (cases "bMemDevAttachFlag d") (auto simp: dma_inv_def unmap_dma_buf_addr_def)

lemma map_dma_ok:
  assumes ok: "cedar_ok s" and q: "env_ok (dma_requests e) (dma s)" and w: "waits_for e arg s c = {}"
  shows "result_ok e arg s c (ioctl_map_dma e f s)"
proof -
  let ?d = "(dma s)\<lparr>bMemDevAttachFlag := True\<rparr>"
  obtain ps where d: "dma_inv ?d ps" using cedar_okD(4) [OF ok] by (auto simp: dma_flag)
  have q': "env_ok (dma_requests e) ?d" using q by (simp add: dma_flag)
  have "\<exists>ps. dma_inv (snd (map_dma_buf_addr (dma_requests e) fd (tgid e) f ?d)) ps" for fd
    using map_inv [OF d q' prod.collapse [symmetric]] .
  moreover have "\<exists>ps. dma_inv ?d ps" using d ..
  ultimately show ?thesis
    using ok no_wait [OF w] unfolding result_ok_def ioctl_map_dma_def Let_def split_beta
    by (auto simp: cedar_ok_def split: option.split)
qed

lemma unmap_dma_ok:
  assumes ok: "cedar_ok s" and w: "waits_for e arg s c = {}"
  shows "result_ok e arg s c (ioctl_unmap_dma e f s)"
proof -
  obtain ps where d: "dma_inv (dma s) ps" using cedar_okD(4) [OF ok] by blast
  show ?thesis
  proof (cases "u_fd e")
    case None
    then show ?thesis using ok no_wait [OF w] by (simp add: result_ok_def ioctl_unmap_dma_def)
  next
    case (Some fd)
    obtain d' where d': "unmap_dma_buf_addr False fd (tgid e) f (dma s) = Some d'" using unmap_returns [OF d] by blast
    then have "cedar_ok (s\<lparr>dma := d'\<rparr>)" using cedar_ok_put(4) [OF ok] unmap_inv [OF d] by blast
    then show ?thesis using Some d' no_wait [OF w] by (simp add: result_ok_def ioctl_unmap_dma_def)
  qed
qed

lemma update_load_ok:
  assumes ok: "cedar_ok s" and f: "files (locks s) f \<noteq> None" and w: "waits_for e arg s c = {}"
  shows "result_ok e arg s c (ioctl_update_case_load e f s)"
proof -
  have d: "dvfs_inv (dvfs s)" by (rule cedar_okD(3) [OF ok])
  have "dvfs_inv (snd (adjust_ve_freq_by_case_load_sun55iw3 (set_rate e) (snd (update_case_load_param_sun55iw3 p ch (dvfs s)))))" for p ch
    using update_load_map [OF d prod.collapse [symmetric]] adjust_infos dvfs_inv_fixed by blast
  then show ?thesis
    using ok f no_wait [OF w] by (auto simp: result_ok_def ioctl_update_case_load_def cedar_ok_put split_beta Let_def split: option.split)
qed

lemma set_freq_ok:
  assumes ok: "cedar_ok s" and w: "waits_for e arg s c = {}"
  shows "result_ok e arg s c (ioctl_set_ve_freq e arg s)"
proof -
  have "dvfs_inv ((snd (setup_ve_freq (set_rate e) v (dvfs s)))\<lparr>user_setting_ve_freq := u\<rparr>)" for u v
    using dvfs_inv_same [OF cedar_okD(3) [OF ok]] setup_freq_infos by simp
  then show ?thesis
    using ok no_wait [OF w] by (simp add: result_ok_def ioctl_set_ve_freq_def cedar_ok_put split_beta Let_def)
qed

lemma irq_wait_ok: "cedar_ok s \<Longrightarrow> waits_for e arg s c = {} \<Longrightarrow> result_ok e arg s c (put_irq s x)"
  using no_wait by (simp add: result_ok_def put_irq_def cedar_ok_put split_beta)

lemma same_ok: "cedar_ok s \<Longrightarrow> waits_for e arg s c = {} \<Longrightarrow> result_ok e arg s c (Ret r (s, a))"
  using no_wait by (simp add: result_ok_def)

lemma power_ok:
  assumes "cedar_ok s" "c = IOCTL_POWER_SETUP \<or> c = IOCTL_POWER_SHUTDOWN"
  shows "result_ok e arg s c (cedar_command e f arg s c)"
  using assms by (auto simp: result_ok_def power_locked waits_for_def held_def cedar_ok_put)

lemma flush_ok: "cedar_ok s \<Longrightarrow> waits_for e arg s c = {} \<Longrightarrow> result_ok e arg s c (ioctl_flush_cache_range e s)"
  using no_wait by (auto simp: result_ok_def ioctl_flush_cache_range_def cedar_ok_put Let_def split: option.split)

lemma check_delay_ok: "cedar_ok s \<Longrightarrow> waits_for e arg s c = {} \<Longrightarrow> result_ok e arg s c (ioctl_check_delay e s)"
  using no_wait by (auto simp: result_ok_def ioctl_check_delay_def split_beta Let_def split: option.split)

lemma waits_none:
  "c \<notin> {IOCTL_GET_LOCK, IOCTL_SET_PROC_INFO, IOCTL_POWER_SETUP, IOCTL_POWER_SHUTDOWN} \<Longrightarrow> waits_for e arg s c = {}"
  by (simp add: waits_for_def)

lemma command_ok:
  assumes ok: "cedar_ok s" and f: "files (locks s) f \<noteq> None" and c: "client_ok e f arg s c"
  shows "result_ok e arg s c (cedar_command e f arg s c)"
proof -
  have clk: "clk_at 1 (clk s)" by (rule cedar_okD(1) [OF ok])
  have nw: "\<not> held s (waits_for e arg s c)"
    if "c \<notin> {IOCTL_GET_LOCK, IOCTL_SET_PROC_INFO, IOCTL_POWER_SETUP, IOCTL_POWER_SHUTDOWN}" for c
    using no_wait [OF waits_none [OF that]] .
  show ?thesis
  proof (cases c)
    case IOCTL_ENGINE_REQ
    then show ?thesis using lift_clk_ok [OF ok engine_req_at [OF clk] nw] by simp
  next
    case IOCTL_ENGINE_REL
    then show ?thesis using lift_clk_ok [OF ok engine_rel_at [OF clk] nw] by simp
  next
    case IOCTL_ENABLE_VE
    then show ?thesis using lift_clk_ok [OF ok _ nw] clk by (simp add: ioctl_enable_ve_def clk_at_simps)
  next
    case IOCTL_DISABLE_VE
    then show ?thesis using lift_clk_ok [OF ok _ nw] clk by (simp add: ioctl_disable_ve_def clk_at_simps)
  next
    case IOCTL_SET_REFCOUNT
    then show ?thesis using lift_clk_ok [OF ok _ nw] clk by (simp add: ioctl_set_refcount_def clk_at_simps)
  next
    case IOCTL_RESET_VE
    then show ?thesis using ok nw by (simp add: result_ok_def cedar_ok_put)
  next
    case IOCTL_GET_ENV_INFO
    then show ?thesis using same_ok [OF ok waits_none] by simp
  next
    case IOCTL_POWER_SETUP
    then show ?thesis using power_ok [OF ok] by blast
  next
    case IOCTL_POWER_SHUTDOWN
    then show ?thesis using power_ok [OF ok] by blast
  next
    case IOCTL_GET_VE_DEFAULT_FREQ
    then show ?thesis using same_ok [OF ok waits_none] by simp
  next
    case IOCTL_UPDATE_CASE_LOAD_PARAM
    then show ?thesis using update_load_ok [OF ok f waits_none] by simp
  qed (use get_lock_ok [OF ok f] release_lock_ok [OF ok f] set_vol_ok [OF ok f] set_proc_ok [OF ok f] copy_proc_ok [OF ok f]
      stop_proc_ok [OF ok] debug_copy_ok [OF ok] debug_stop_ok [OF ok] c in simp;
    simp add: map_dma_ok unmap_dma_ok set_freq_ok irq_wait_ok same_ok flush_ok check_delay_ok waits_none ok f)+
qed

text \<open>
  C13.  On a device in order, called through an open file, by a client that keeps to \<open>client_ok\<close>: no ioctl
  touches memory out of bounds, and none waits except for a mutex that another call has left held, so
  none deadlocks on its own locks or on the semaphore; every ioctl that returns, on whatever error
  path, leaves every part of the device in order, with the semaphore, the spin lock and the engine
  locks it took given back, and leaves every field of the device alone except those the command is for.
  A number that is not in the list, and the commands that have no case, are answered with \<open>-1\<close> and
  change nothing at all.
\<close>

theorem ioctl_keeps_device:
  assumes "cedar_ok s" "files (locks s) f \<noteq> None"
  shows "case map_of ioctl_codes cmd of
      None \<Rightarrow> compat_cedardev_ioctl e f cmd arg s = Ret (- 1) (s, No_answer)
    | Some c \<Rightarrow>
        (c \<in> {IOCTL_UNKOWN, IOCTL_FLUSH_CACHE, IOCTL_FLUSH_CACHE_ALL, IOCTL_TEST_VERSION, IOCTL_GET_REFCOUNT} \<longrightarrow>
          compat_cedardev_ioctl e f cmd arg s = Ret (- 1) (s, No_answer)) \<and>
        (client_ok e f arg s c \<longrightarrow>
          (case compat_cedardev_ioctl e f cmd arg s of
             Faults \<Rightarrow> False
           | Blocks \<Rightarrow> held s (waits_for e arg s c)
           | Ret r (s', a) \<Rightarrow> \<not> held s (waits_for e arg s c) \<and> cedar_ok s' \<and> changes c s s'))"
proof (cases "map_of ioctl_codes cmd")
  case (Some c)
  have run: "compat_cedardev_ioctl e f cmd arg s = cedar_command e f arg s c" by (simp add: compat_cedardev_ioctl_def Some)
  have "client_ok e f arg s c \<Longrightarrow> result_ok e arg s c (cedar_command e f arg s c)" by (rule command_ok [OF assms])
  moreover have "cedar_command e f arg s c = Ret r (s', a) \<Longrightarrow> changes c s s'" for r s' a by (rule command_changes)
  ultimately show ?thesis
    unfolding Some run by (auto simp: result_ok_def split: outcome.splits)
qed (simp add: compat_cedardev_ioctl_def)

definition ex_cedar :: cedar where
  "ex_cedar = ve_dev.extend ex_three \<lparr>dma = ex_dma, tasks = ex_tasks, proc = ex_proc, debug = ex_debug, power = (0, []), resets = 0, flushed = []\<rparr>"

definition ex_ioctl :: ioctl_env where
  "ex_ioctl = \<lparr>iw12 = False, sun9iw1 = False, dvfs_on = False, max_freq_on = False, power_on = False, clk_ok = (\<lambda>_. True),
     ve_clk_valid = True, set_rate = Some, intr = False, others_at = (\<lambda>_ q. q), ve_hw = ex_ve_hw, ptr_size = 8, efuse_dvfs = 0,
     efuse_chip = 0, dma_requests = ex_dma_env 0x9000, tgid = 1, vmalloc = None, u_load = None, u_head = None, u_bytes = [],
     u_prio = None, u_proc = None, u_fd = None, u_range = None, u_writable = True\<rparr>"

lemma ex_cedar_ok: "cedar_ok ex_cedar"
proof -
  have "dma_reach ex_dma" unfolding ex_dma_def by (rule dma_reach.init)
  then show ?thesis
    using dma_reach_inv ex_three_inv ex_dvfs_inv ex_debug_ok ex_proc_ok
    by (simp add: cedar_ok_def ex_cedar_def clk_at_def ex_three_def ex_dev_def ex_clk_def ve_dev.defs)
qed

text \<open>
  File 1 holds the decoder lock; file 2 is given the encoder lock, waits for the decoder lock, and stops
  the clock without the engine being reset.
\<close>

theorem ioctl_keeps_device_witness:
  "compat_cedardev_ioctl ex_ioctl 2 0x999 0 ex_cedar = Ret (- 1) (ex_cedar, No_answer) \<and>
   compat_cedardev_ioctl ex_ioctl 2 0x310 1 ex_cedar = Blocks \<and>
   (\<exists>s'. compat_cedardev_ioctl ex_ioctl 2 0x310 2 ex_cedar = Ret 0 (s', No_answer) \<and> cedar_ok s' \<and> holder (locks s') lock_venc = Some 2) \<and>
   (\<exists>s'. compat_cedardev_ioctl ex_ioctl 2 0x106 0 ex_cedar = Ret 0 (s', No_answer) \<and> cedar_ok s' \<and> resets s' = 0 \<and> flushed s' = [])"
proof -
  have codes: "map_of ioctl_codes 0x999 = None" "map_of ioctl_codes 0x310 = Some IOCTL_GET_LOCK"
    "map_of ioctl_codes 0x106 = Some IOCTL_DISABLE_VE"
    by (simp_all add: ioctl_codes_def)
  have f: "files (locks ex_cedar) 2 \<noteq> None" by (simp add: ex_cedar_def ex_three_def ex_dev_def ve_dev.defs)
  note k = ioctl_keeps_device [OF ex_cedar_ok f, of ex_ioctl]
  have t: "mutex_of_type 2 = Some lock_venc" "mutex_of_type 1 = Some lock_vdec" by (simp_all add: mutex_of_type_def lock_type_defs)
  have b: "lock_venc \<in> set engine_mutexes" "ucast (2 :: u64) = lock_bit lock_venc" by (simp_all add: engine_mutexes_def lock_bit_def lock_type_defs)
  have r: "compat_cedardev_ioctl ex_ioctl 2 0x310 1 ex_cedar = Blocks"
    "\<exists>s'. compat_cedardev_ioctl ex_ioctl 2 0x310 2 ex_cedar = Ret 0 (s', No_answer) \<and> holder (locks s') lock_venc = Some 2"
    "\<exists>s'. compat_cedardev_ioctl ex_ioctl 2 0x106 0 ex_cedar = Ret 0 (s', No_answer)"
    by (simp_all add: compat_cedardev_ioctl_def codes ioctl_get_lock_def ex_cedar_def ex_three_def ex_dev_def t mutex_lock_def
        set_flags_def ve_dev.defs lift_clk_def ioctl_disable_ve_def ex_ioctl_def)
  have lock: "cedar_ok s'" if "compat_cedardev_ioctl ex_ioctl 2 0x310 2 ex_cedar = Ret 0 (s', No_answer)" for s'
    using k [of "0x310" 2] that b by (auto simp: codes)
  have dis: "cedar_ok s' \<and> resets s' = 0 \<and> flushed s' = []"
    if "compat_cedardev_ioctl ex_ioctl 2 0x106 0 ex_cedar = Ret 0 (s', No_answer)" for s'
  proof -
    have "cedar_ok s' \<and> changes IOCTL_DISABLE_VE ex_cedar s'" using k [of "0x106" 0] that by (simp add: codes)
    then show ?thesis by (simp add: changes_def) (simp add: ex_cedar_def ve_dev.defs)
  qed
  show ?thesis using k [of "0x999" 0] r lock dis by (simp add: codes) blast
qed

end
