(* ===== verification/Cedar_Engine.thy ===== *)
theory Cedar_Engine
  imports Cedar_Power Cedar_Tasks "HOL-Library.Signed_Division"
begin

text \<open>
  The parts of \<open>cedar_ve.c\<close> that the source switches off: the request and the release of the engine
  under \<open>USE_CEDAR_ENGINE\<close>, which go through the task queue, and \<open>setVeFreqByReg\<close> under
  \<open>SET_VE_FREQ_BY_REG\<close>.  They show what building them would give.
\<close>

section \<open>Requests through the queue\<close>

record cedarv_task =
  req_prio :: int
  req_ID :: int
  req_timeout :: u64
  req_frametime :: u32
  req_block_mode :: u32

definition CEDAR_RUN_LIST_NONULL :: int where "CEDAR_RUN_LIST_NONULL = - 1"
definition CEDAR_NONBLOCK_TASK :: u32 where "CEDAR_NONBLOCK_TASK = 0"

definition engine_task_of :: "u64 \<Rightarrow> (nat \<Rightarrow> nat) \<Rightarrow> nat \<Rightarrow> cedarv_task \<Rightarrow> engine_task" where
  "engine_task_of j ms current r =
     \<lparr>task_prio = req_prio r, task_ID = req_ID r,
      task_timeout = j + of_nat (ms (unat (ucast (1000 * req_timeout r) :: u32))),
      frametime = req_frametime r, task_handle = current, task_status = TASK_INIT, running = 0, is_first_task = 0\<rparr>"

text \<open>
  \<open>copied\<close> is what \<open>copy_from_user\<close> delivers, \<open>mem\<close> whether there is memory for the task.  The result
  of a failing allocation is the error number in a null pointer, which is zero.
\<close>

definition ioctl_engine_req_task ::
  "bool \<Rightarrow> (ve_clock \<Rightarrow> bool) \<Rightarrow> u64 \<Rightarrow> (nat \<Rightarrow> nat) \<Rightarrow> nat \<Rightarrow> cedarv_task option \<Rightarrow> bool \<Rightarrow>
   task_state \<times> clk_state \<Rightarrow> (int \<times> task_state \<times> clk_state) option" where
  "ioctl_engine_req_task iw12 ok j ms current copied mem = (\<lambda>(s, c).
     case copied of None \<Rightarrow> Some (- EFAULT, s, c)
     | Some r \<Rightarrow> do {
         c \<leftarrow> spin_lock c;
         if run_task_list s \<noteq> [] \<and> req_block_mode r = CEDAR_NONBLOCK_TASK
         then Some (CEDAR_RUN_LIST_NONULL, s, spin_unlock c)
         else let c = spin_unlock c in
           if \<not> mem then Some (0, s, c)
           else do {
             c \<leftarrow> spin_lock c;
             let s = cedardev_insert_task j (engine_task_of j ms current r) s;
             let c = spin_unlock c;
             (ret, c) \<leftarrow> enable_cedar_hw_clk iw12 ok c;
             if ret < 0 then Some (- EFAULT, s, c) else Some (0, s, c)
           }
       })"

definition ioctl_engine_rel_task :: "u64 \<Rightarrow> int \<Rightarrow> task_state \<Rightarrow> int \<times> task_state" where
  "ioctl_engine_rel_task j arg s = cedardev_del_task j (sint (of_int arg :: u32)) s"

section \<open>The clock by register\<close>

text \<open>
  The index counts in \<open>int\<close>s but divides by the size of a pointer, as in the power switch.
\<close>

definition ve_pll_reg :: "nat \<Rightarrow> u32" where
  "ve_pll_reg psize = of_nat (4 * (0x58 div psize))"

fun freq_poll :: "hw \<Rightarrow> u32 \<Rightarrow> nat \<Rightarrow> u32 \<Rightarrow> trace \<Rightarrow> u32 \<times> trace" where
  "freq_poll hw off 0 r t = (r, t)"
| "freq_poll hw off (Suc n) r t =
     (let (r, t) = readl hw off (t @ replicate 5 Udelay); r = r AND push_bit 28 1
      in if r = 0 then freq_poll hw off n r t else (r, t))"

definition setVeFreqByReg :: "hw \<Rightarrow> nat \<Rightarrow> int \<Rightarrow> trace \<Rightarrow> int \<times> trace" where
  "setVeFreqByReg hw psize fq t =
     (let off = ve_pll_reg psize;
          (r, t) = readl hw off t;
          (r, t) = readl hw off t;
          r = r AND 0x7ffa0000;
          fq = of_int (fq sdiv 6 - 1);
          t = writel (r AND NOT (push_bit 29 1)) off t;
          (r, t) = readl hw off t;
          t = writel (r OR push_bit 8 fq OR push_bit 1 1 OR 1) off t;
          (r, t) = readl hw off t;
          t = writel (r OR push_bit 31 1) off t;
          (r, t) = readl hw off t;
          t = writel (r OR push_bit 29 1) off t;
          (r, t) = readl hw off t;
          (r, t) = freq_poll hw off 10000 r t;
          (r, t) = readl hw off t
      in (0, t @ replicate 20 Udelay))"

section \<open>What a request does\<close>

lemma insert_reaches: "task_reach s \<Longrightarrow> task_reach (cedardev_insert_task j (engine_task_of j ms current r) s)"
  by (rule task_reach.intros) (auto intro!: task_step.insert simp: fresh_def engine_task_of_def)

lemma enable_gates_spin: "spin_held (snd (enable_gates ok cs c)) = spin_held c"
  by (induction cs arbitrary: c) auto

lemma enable_gates_ret: "fst (enable_gates ok cs c) \<in> {0, - EINVAL}"
  by (induction cs arbitrary: c) auto

lemma enable_returns:
  assumes "\<not> spin_held c"
  shows "\<exists>ret c'. enable_cedar_hw_clk iw12 ok c = Some (ret, c') \<and> \<not> spin_held c' \<and> ret \<in> {0, - EINVAL}"
proof -
  have gates_end: "\<exists>ret c'. enable_gates ok cs x = (ret, c') \<and> \<not> spin_held c' \<and> ret \<in> {0, - EINVAL}" if "\<not> spin_held x" for cs x
    using enable_gates_spin [of ok cs x] enable_gates_ret [of ok cs x] that by (cases "enable_gates ok cs x") auto
  show ?thesis
    using assms gates_end by (auto simp: enable_cedar_hw_clk_def spin_lock_def spin_unlock_def deassert_resets_def Let_def)
qed

text \<open>
  With the lock free a request returns, gives the lock back, and leaves a queue that the handlers can
  deal with.
\<close>

lemma req_task_returns:
  assumes "\<not> spin_held c"
  shows "\<exists>ret s' c'. ioctl_engine_req_task iw12 ok j ms current copied mem (s, c) = Some (ret, s', c') \<and>
    \<not> spin_held c' \<and> ret \<in> {0, - 1, - EFAULT} \<and> (task_reach s \<longrightarrow> task_reach s')"
proof -
  obtain ret c' where e: "enable_cedar_hw_clk iw12 ok (c\<lparr>spin_held := False\<rparr>) = Some (ret, c')" "\<not> spin_held c'"
    using enable_returns [of "c\<lparr>spin_held := False\<rparr>" iw12 ok] by auto
  show ?thesis
    using assms e insert_reaches
    by (cases copied) (auto simp: ioctl_engine_req_task_def spin_lock_def spin_unlock_def CEDAR_RUN_LIST_NONULL_def Let_def)
qed

text \<open>
  Only a request that does not want to wait is turned away, and only when a task is in the queue.
\<close>

lemma req_task_busy:
  assumes "\<not> spin_held c"
  shows "(\<exists>s' c'. ioctl_engine_req_task iw12 ok j ms current (Some r) mem (s, c) = Some (CEDAR_RUN_LIST_NONULL, s', c')) \<longleftrightarrow>
    run_task_list s \<noteq> [] \<and> req_block_mode r = CEDAR_NONBLOCK_TASK"
proof -
  obtain ret c' where e: "enable_cedar_hw_clk iw12 ok (c\<lparr>spin_held := False\<rparr>) = Some (ret, c')"
    using enable_returns [of "c\<lparr>spin_held := False\<rparr>" iw12 ok] by auto
  show ?thesis
    using assms e
    by (auto simp: ioctl_engine_req_task_def spin_lock_def spin_unlock_def CEDAR_RUN_LIST_NONULL_def errno_simps Let_def)
qed

text \<open>
  Without memory the request reports success though no task was queued and no clock enabled; when the
  clocks cannot be enabled it reports failure though the task stays in the queue.
\<close>

lemma req_task_no_memory:
  assumes "\<not> spin_held c" "req_block_mode r \<noteq> CEDAR_NONBLOCK_TASK"
  shows "ioctl_engine_req_task iw12 ok j ms current (Some r) False (s, c) = Some (0, s, c)"
  using assms by (cases c) (auto simp: ioctl_engine_req_task_def spin_lock_def spin_unlock_def Let_def)

lemma req_task_clock_failure:
  assumes "\<not> spin_held c" "req_block_mode r \<noteq> CEDAR_NONBLOCK_TASK" "bInitEndFlag c \<noteq> 1"
  shows "ioctl_engine_req_task iw12 ok j ms current (Some r) True (s, c) =
    Some (- EFAULT, cedardev_insert_task j (engine_task_of j ms current r) s, c)"
  using assms by (cases c) (auto simp: ioctl_engine_req_task_def spin_lock_def spin_unlock_def enable_cedar_hw_clk_def errno_simps Let_def)

section \<open>What the clock register holds\<close>

text \<open>
  On a register that keeps what is written, the clock ends up with the bits of the mask it had, the new factor
  above bit 8, and the enables; the function reports success whether the clock locks or not.
\<close>

definition keeps :: "hw \<Rightarrow> u32 \<Rightarrow> bool" where
  "keeps hw off \<longleftrightarrow> (\<forall>t x. reg hw (t @ [Wr off x]) off = x) \<and> (\<forall>t. reg hw (t @ [Rd off]) off = reg hw t off) \<and>
     (\<forall>t. reg hw (t @ [Udelay]) off = reg hw t off)"

definition ve_writes :: "trace \<Rightarrow> (u32 \<times> u32) list" where
  "ve_writes t = concat (map (\<lambda>e. case e of Wr a v \<Rightarrow> [(a, v)] | _ \<Rightarrow> []) t)"

lemma ve_writes_simps [simp]:
  "ve_writes (s @ t) = ve_writes s @ ve_writes t" "ve_writes (Wr a v # t) = (a, v) # ve_writes t"
  "ve_writes (Rd a # t) = ve_writes t" "ve_writes (replicate n Udelay) = []" "ve_writes [] = []"
  by (induction n) (simp_all add: ve_writes_def)

fun last_value :: "u32 \<Rightarrow> trace \<Rightarrow> u32" where
  "last_value v [] = v"
| "last_value v (Wr a x # t) = last_value x t"
| "last_value v (e # t) = last_value v t"

lemma kept_value:
  assumes "keeps hw off" "set es \<subseteq> insert (Rd off) (range (Wr off))"
  shows "reg hw (t @ es) off = last_value (reg hw t off) es"
  using assms(2)
proof (induction es arbitrary: t)
  case (Cons e es)
  then have "reg hw ((t @ [e]) @ es) off = last_value (reg hw (t @ [e]) off) es" by (intro Cons.IH) auto
  with Cons.prems assms(1) show ?case by (auto simp: keeps_def)
qed simp

lemma freq_poll_writes: "ve_writes (snd (freq_poll hw off n r t)) = ve_writes t"
proof (induction n arbitrary: r t)
  case (Suc n)
  then show ?case using Suc.IH by (auto simp: readl_def Let_def simp flip: append_assoc)
qed simp

lemma set_freq_writes:
  fixes fq :: int and psize :: nat
  assumes "keeps hw (ve_pll_reg psize)"
  defines "off \<equiv> ve_pll_reg psize" and "f \<equiv> of_int (fq sdiv 6 - 1) :: u32"
  shows "\<exists>t'. setVeFreqByReg hw psize fq t = (0, t') \<and>
    (let r0 = reg hw t off AND 0x5ffa0000; r1 = r0 OR push_bit 8 f OR 3; r2 = r1 OR push_bit 31 1
     in ve_writes t' = ve_writes t @ [(off, r0), (off, r1), (off, r2), (off, r2 OR push_bit 29 1)])"
proof -
  have m: "(w AND 0x7ffa0000) AND NOT (push_bit 29 1) = w AND 0x5ffa0000" for w :: u32
    by (simp add: and.assoc)
  have o: "w OR push_bit 8 f OR push_bit 1 1 OR 1 = w OR push_bit 8 f OR 3" for w :: u32
    by (simp add: or.assoc)
  note kept = kept_value [OF assms(1), folded off_def]
  show ?thesis
    by (simp add: setVeFreqByReg_def readl_def writel_def Let_def split_beta freq_poll_writes kept m o
        flip: off_def del: push_bit_of_1) (simp add: f_def)
qed

end
