(* ===== verification/Bitops.thy ===== *)
theory Bitops
  imports Cedar_Irq
begin

text \<open>
  The register helpers of \<open>bsp/include/sunxi-bitops.h\<close>, over the register accesses of \<open>Cedar_Irq\<close>.
  \<open>rv\<close> is \<open>CONFIG_AW_REG_VERIFY\<close>; \<open>poll cond addr timeout\<close> stands for the kernel's macro
  \<open>readl_poll_timeout_atomic\<close> (or \<open>readl_poll_timeout\<close> for the sleeping variants), which reads the
  register until the condition holds or the time is up, and returns zero or an error.
\<close>

unbundle bit_operations_syntax

type_synonym poll = "(u32 \<Rightarrow> bool) \<Rightarrow> u32 \<Rightarrow> nat \<Rightarrow> trace \<Rightarrow> int \<times> trace"

definition GENMASK :: "nat \<Rightarrow> nat \<Rightarrow> u64" where
  "GENMASK h l = push_bit l (mask (h - l + 1))"

definition BITS_WIDTH :: "nat \<Rightarrow> nat \<Rightarrow> u64" where
  "BITS_WIDTH bit_start bit_width = GENMASK (bit_start + bit_width - 1) bit_start"

definition BITS :: "nat \<Rightarrow> nat \<Rightarrow> u64" where
  "BITS bit_start bit_end = GENMASK bit_end bit_start"

section \<open>Whole bits\<close>

definition verify :: "bool \<Rightarrow> hw \<Rightarrow> u32 \<Rightarrow> u32 \<Rightarrow> trace \<Rightarrow> bool \<times> trace" where
  "verify rv hw val addr t =
     (if rv then let (valr, t) = readl hw addr t in (valr = val, t) else (True, t))"

definition verify_bits :: "bool \<Rightarrow> hw \<Rightarrow> u32 \<Rightarrow> u32 \<Rightarrow> u32 \<Rightarrow> trace \<Rightarrow> bool \<times> trace" where
  "verify_bits rv hw val addr bits t =
     (if rv then let (valr, t) = readl hw addr t in (valr AND bits = val AND bits, t) else (True, t))"

text \<open>
  The helpers discard the result of the verification, which prints a message; it is kept here as the
  first component.
\<close>

definition writel_verify :: "bool \<Rightarrow> hw \<Rightarrow> u32 \<Rightarrow> u32 \<Rightarrow> trace \<Rightarrow> bool \<times> trace" where
  "writel_verify rv hw val addr t = verify rv hw val addr (writel val addr t)"

definition get_bits :: "hw \<Rightarrow> u32 \<Rightarrow> u32 \<Rightarrow> trace \<Rightarrow> u32 \<times> trace" where
  "get_bits hw addr bits t = (let (v, t) = readl hw addr t in (v AND bits, t))"

definition set_bits :: "bool \<Rightarrow> hw \<Rightarrow> u32 \<Rightarrow> u32 \<Rightarrow> trace \<Rightarrow> bool \<times> trace" where
  "set_bits rv hw addr bits t =
     (let (v, t) = readl hw addr t in verify_bits rv hw bits addr bits (writel (v OR bits) addr t))"

definition clear_bits :: "bool \<Rightarrow> hw \<Rightarrow> u32 \<Rightarrow> u32 \<Rightarrow> trace \<Rightarrow> bool \<times> trace" where
  "clear_bits rv hw addr bits t =
     (let (v, t) = readl hw addr t in verify_bits rv hw 0 addr bits (writel (v AND NOT bits) addr t))"

definition change_bits :: "bool \<Rightarrow> hw \<Rightarrow> u32 \<Rightarrow> u32 \<Rightarrow> trace \<Rightarrow> bool \<times> trace" where
  "change_bits rv hw addr bits t =
     (let (v, t) = readl hw addr t in verify_bits rv hw (NOT bits) addr bits (writel (v XOR bits) addr t))"

definition test_bits_set :: "hw \<Rightarrow> u32 \<Rightarrow> u32 \<Rightarrow> trace \<Rightarrow> bool \<times> trace" where
  "test_bits_set hw addr bits t = (let (v, t) = get_bits hw addr bits t in (v AND bits = bits, t))"

definition test_bits_cleared :: "hw \<Rightarrow> u32 \<Rightarrow> u32 \<Rightarrow> trace \<Rightarrow> bool \<times> trace" where
  "test_bits_cleared hw addr bits t = (let (v, t) = get_bits hw addr bits t in (v AND bits = 0, t))"

definition test_bits_equ :: "hw \<Rightarrow> u32 \<Rightarrow> u32 \<Rightarrow> u32 \<Rightarrow> trace \<Rightarrow> bool \<times> trace" where
  "test_bits_equ hw addr bits val t = (let (v, t) = get_bits hw addr bits t in (v = val, t))"

definition wait_bits_set :: "poll \<Rightarrow> u32 \<Rightarrow> u32 \<Rightarrow> nat \<Rightarrow> trace \<Rightarrow> int \<times> trace" where
  "wait_bits_set poll addr bits timeout_us t = poll (\<lambda>val. val AND bits = bits) addr timeout_us t"

definition wait_bits_cleared :: "poll \<Rightarrow> u32 \<Rightarrow> u32 \<Rightarrow> nat \<Rightarrow> trace \<Rightarrow> int \<times> trace" where
  "wait_bits_cleared poll addr bits timeout_us t = poll (\<lambda>val. val AND bits = 0) addr timeout_us t"

definition wait_bits_equ :: "poll \<Rightarrow> u32 \<Rightarrow> u32 \<Rightarrow> u32 \<Rightarrow> nat \<Rightarrow> trace \<Rightarrow> int \<times> trace" where
  "wait_bits_equ poll addr bits val timeout_us t = poll (\<lambda>read_val. read_val AND bits = val) addr timeout_us t"

definition wait_bits_set_maysleep :: "(nat \<Rightarrow> poll) \<Rightarrow> u32 \<Rightarrow> u32 \<Rightarrow> nat \<Rightarrow> nat \<Rightarrow> trace \<Rightarrow> int \<times> trace" where
  "wait_bits_set_maysleep poll addr bits sleep_us timeout_us t = poll sleep_us (\<lambda>val. val AND bits = bits) addr timeout_us t"

definition wait_bits_cleared_maysleep :: "(nat \<Rightarrow> poll) \<Rightarrow> u32 \<Rightarrow> u32 \<Rightarrow> nat \<Rightarrow> nat \<Rightarrow> trace \<Rightarrow> int \<times> trace" where
  "wait_bits_cleared_maysleep poll addr bits sleep_us timeout_us t = poll sleep_us (\<lambda>val. val AND bits = 0) addr timeout_us t"

section \<open>Fields\<close>

text \<open>
  The loop that looks for the lowest bit of a mask that is not zero.
\<close>

function low_bit :: "u32 \<Rightarrow> nat \<Rightarrow> nat" where
  "low_bit bits i = (if i < 32 \<and> bits AND push_bit i 1 = 0 then low_bit bits (Suc i) else i)"
  by pat_completeness auto
termination by (relation "measure (\<lambda>(bits, i). 32 - i)") auto

declare low_bit.simps [simp del]

definition get_data_field :: "u32 \<Rightarrow> u32 \<Rightarrow> u32" where
  "get_data_field data bits = (if bits = 0 then 0 else drop_bit (low_bit bits 0) (data AND bits))"

definition get_field :: "hw \<Rightarrow> u32 \<Rightarrow> u32 \<Rightarrow> trace \<Rightarrow> u32 \<times> trace" where
  "get_field hw addr bits t = (let (v, t) = readl hw addr t in (get_data_field v bits, t))"

definition set_field :: "bool \<Rightarrow> hw \<Rightarrow> u32 \<Rightarrow> u32 \<Rightarrow> u32 \<Rightarrow> trace \<Rightarrow> bool \<times> trace" where
  "set_field rv hw addr bits val_on_bits t =
     (if bits = 0 then (True, t)
      else let i = low_bit bits 0;
               (v, t) = readl hw addr t;
               tmp = v AND NOT bits;
               tmp = tmp OR (push_bit i val_on_bits AND bits)
           in verify_bits rv hw tmp addr bits (writel tmp addr t))"

definition test_field_equ :: "hw \<Rightarrow> u32 \<Rightarrow> u32 \<Rightarrow> u32 \<Rightarrow> trace \<Rightarrow> bool \<times> trace" where
  "test_field_equ hw addr bits val_on_bits t = (let (v, t) = get_field hw addr bits t in (v = val_on_bits, t))"

definition wait_field_equ :: "poll \<Rightarrow> u32 \<Rightarrow> u32 \<Rightarrow> u32 \<Rightarrow> nat \<Rightarrow> trace \<Rightarrow> int \<times> trace" where
  "wait_field_equ poll addr bits val_on_bits timeout_us t =
     (if bits = 0 then (- EINVAL, t)
      else poll (\<lambda>read_val. read_val AND bits = push_bit (low_bit bits 0) val_on_bits) addr timeout_us t)"

section \<open>What a field holds\<close>

lemma and_single: "(w :: u32) AND push_bit i 1 = 0 \<longleftrightarrow> \<not> bit w i"
  by (simp add: bit_iff_and_push_bit_not_eq_0 push_bit_eq_mult)

lemma low_bit_least:
  assumes "bit (bits :: u32) j" "i \<le> j"
  shows "bit bits (low_bit bits i) \<and> low_bit bits i \<le> j \<and> (\<forall>k. i \<le> k \<and> k < low_bit bits i \<longrightarrow> \<not> bit bits k)"
  using assms
proof (induction bits i rule: low_bit.induct)
  case (1 bits i)
  have "j < 32" using 1(2) by (auto dest: bit_imp_le_length)
  then have i: "i < 32" using 1(3) by simp
  show ?case
  proof (cases "bit bits i")
    case True
    then have "low_bit bits i = i" by (subst low_bit.simps) (simp add: and_single del: push_bit_of_1)
    with True 1(3) show ?thesis by auto
  next
    case False
    then have z: "bits AND push_bit i 1 = 0" by (simp only: and_single) simp
    have "i \<noteq> j" using False 1(2) by auto
    then have "Suc i \<le> j" using 1(3) by simp
    note IH = 1(1) [OF conjI [OF i z] 1(2) this]
    have "low_bit bits i = low_bit bits (Suc i)" using i z by (subst low_bit.simps) (simp del: push_bit_of_1)
    with IH False show ?thesis by (metis Suc_leI le_eq_less_or_eq)
  qed
qed

lemma low_bit_bits:
  assumes "(bits :: u32) \<noteq> 0"
  shows "bit bits (low_bit bits 0)" "\<And>k. bit bits k \<Longrightarrow> low_bit bits 0 \<le> k"
proof -
  obtain j where "bit bits j" using assms by (auto simp: bit_eq_iff)
  from low_bit_least [OF this, of 0] show "bit bits (low_bit bits 0)" by simp
  show "low_bit bits 0 \<le> k" if "bit bits k" for k using low_bit_least [OF that, of 0] by simp
qed

text \<open>
  Reading a field from the value that \<open>set_field\<close> writes gives the bits of the argument under the
  shifted mask; the bits outside the mask are those read before.
\<close>

definition field_value :: "u32 \<Rightarrow> u32 \<Rightarrow> u32 \<Rightarrow> u32" where
  "field_value old bits x = (old AND NOT bits) OR (push_bit (low_bit bits 0) x AND bits)"

lemma field_roundtrip:
  assumes "bits \<noteq> 0"
  shows "get_data_field (field_value old bits x) bits = x AND drop_bit (low_bit bits 0) bits"
    "field_value old bits x AND NOT bits = old AND NOT bits"
  using assms by (auto simp: get_data_field_def field_value_def bit_eq_iff bit_simps dest: bit_imp_le_length)

lemma contiguous_field:
  assumes "0 < w" "lo + w \<le> 32" "unat x < 2 ^ w"
  shows "get_data_field (field_value old (push_bit lo (mask w)) x) (push_bit lo (mask w)) = x"
proof -
  let ?m = "push_bit lo (mask w) :: u32"
  have b: "bit ?m k \<longleftrightarrow> lo \<le> k \<and> k < lo + w" for k
    using assms(1,2) by (auto simp: bit_simps)
  have "bit ?m lo" using assms(1) b by simp
  then have nz: "?m \<noteq> 0" by auto
  have low: "low_bit ?m 0 = lo" using low_bit_bits [OF nz] b \<open>bit ?m lo\<close> by (metis antisym)
  have "unat (take_bit w x) = unat x" using assms(3) by (simp add: unsigned_take_bit_eq take_bit_nat_eq_self)
  then have t: "take_bit w x = x" by (simp only: word_unat_eq_iff)
  have "x AND drop_bit lo ?m = take_bit w x" using assms(2)
    by (intro bit_word_eqI) (auto simp: bit_simps b)
  with t have "x AND drop_bit lo ?m = x"
    by simp
  then show ?thesis using field_roundtrip(1) [OF nz, of old x] low by simp
qed

lemma set_field_writes:
  assumes "bits \<noteq> 0"
  shows "snd (set_field False hw addr bits x t) = t @ [Rd addr, Wr addr (field_value (reg hw t addr) bits x)]"
  using assms by (simp add: set_field_def verify_bits_def readl_def writel_def field_value_def Let_def)

section \<open>Verification\<close>

text \<open>
  On a register that keeps what is written, the verification of \<open>set_bits\<close> and \<open>clear_bits\<close> succeeds;
  that of \<open>change_bits\<close> compares with the complement of the mask and so succeeds only when all bits
  were set before.
\<close>

lemma verify_set_clear:
  assumes "\<And>x. reg hw (t @ [Rd addr, Wr addr x]) addr = x"
  shows "fst (set_bits True hw addr bits t)" "fst (clear_bits True hw addr bits t)"
  using assms by (auto simp: set_bits_def clear_bits_def verify_bits_def readl_def writel_def Let_def bit_eq_iff bit_simps)

lemma verify_change:
  assumes "\<And>x. reg hw (t @ [Rd addr, Wr addr x]) addr = x"
  shows "fst (change_bits True hw addr bits t) \<longleftrightarrow> reg hw t addr AND bits = bits"
  using assms by (auto simp: change_bits_def verify_bits_def readl_def writel_def Let_def bit_eq_iff bit_simps)

lemma tests_agree:
  "fst (test_bits_set hw addr bits t) = fst (test_bits_equ hw addr bits bits t)"
  "fst (test_bits_cleared hw addr bits t) = fst (test_bits_equ hw addr bits 0 t)"
  by (auto simp: test_bits_set_def test_bits_cleared_def test_bits_equ_def get_bits_def readl_def Let_def and.assoc)

end
