(* ===== verification/Rawnand.thy ===== *)
theory Rawnand
  imports Prelude
begin

text \<open>
  The raw NAND interface of \<open>bsp/include/linux/mtd/aw-rawnand.h\<close>: the requests that its macros build for
  the flash controller, the address bytes of a request, and the checks that the MTD operations make
  of a request before they touch the chip.  Pointers are addresses, zero being \<open>NULL\<close>; fields that an
  initialiser leaves out are zero.
\<close>

unbundle bit_operations_syntax

section \<open>Options of a chip\<close>

definition RAWNAND_ITF_SDR :: u32 where "RAWNAND_ITF_SDR = 2 ^ 0"
definition RAWNAND_ITF_ONFI_DDR :: u32 where "RAWNAND_ITF_ONFI_DDR = 2 ^ 1"
definition RAWNAND_ITF_ONFI_DDR2 :: u32 where "RAWNAND_ITF_ONFI_DDR2 = 2 ^ 2"
definition RAWNAND_ITF_TOGGLE_DDR :: u32 where "RAWNAND_ITF_TOGGLE_DDR = 2 ^ 3"
definition RAWNAND_ITF_TOGGLE_DDR2 :: u32 where "RAWNAND_ITF_TOGGLE_DDR2 = 2 ^ 4"
definition RAWNAND_TOGGLE_SUPPORT_ONLY :: u32 where "RAWNAND_TOGGLE_SUPPORT_ONLY = 2 ^ 5"
definition RAWNAND_CACHEPRG :: u32 where "RAWNAND_CACHEPRG = 2 ^ 8"
definition RAWNAND_MULTI_WRITE :: u32 where "RAWNAND_MULTI_WRITE = 2 ^ 10"
definition RAWNAND_MULTI_READ :: u32 where "RAWNAND_MULTI_READ = 2 ^ 11"
definition RAWNAND_MULTI_ERASE :: u32 where "RAWNAND_MULTI_ERASE = 2 ^ 12"
definition RAWNAND_MULTI_ONFI_ERASE :: u32 where "RAWNAND_MULTI_ONFI_ERASE = 2 ^ 13"
definition RAWNAND_JEDEC_MULTI_WRITE :: u32 where "RAWNAND_JEDEC_MULTI_WRITE = 2 ^ 14"
definition RAWNAND_ROW_ADDR_2 :: u32 where "RAWNAND_ROW_ADDR_2 = 2 ^ 16"
definition RAWNAND_TOGGLE_DDR_TO_SDR :: u32 where "RAWNAND_TOGGLE_DDR_TO_SDR = 2 ^ 29"
definition RAWNAND_NFC_RANDOM :: u32 where "RAWNAND_NFC_RANDOM = 2 ^ 30"

definition RAWNAND_HAS_ONLY_TWO_ADDR :: "u32 \<Rightarrow> bool" where
  "RAWNAND_HAS_ONLY_TWO_ADDR options = (options AND RAWNAND_ROW_ADDR_2 \<noteq> 0)"
definition RAWNAND_HAS_CACHEPROG :: "u32 \<Rightarrow> bool" where
  "RAWNAND_HAS_CACHEPROG options = (options AND RAWNAND_CACHEPRG \<noteq> 0)"
definition RAWNAND_HAS_MULTI_WRITE :: "u32 \<Rightarrow> bool" where
  "RAWNAND_HAS_MULTI_WRITE options = (options AND RAWNAND_MULTI_WRITE \<noteq> 0)"
definition RAWNAND_HAS_JEDEC_MULTI_WRITE :: "u32 \<Rightarrow> bool" where
  "RAWNAND_HAS_JEDEC_MULTI_WRITE options = (options AND RAWNAND_JEDEC_MULTI_WRITE \<noteq> 0)"
definition RAWNAND_HAS_MULTI_READ :: "u32 \<Rightarrow> bool" where
  "RAWNAND_HAS_MULTI_READ options = (options AND RAWNAND_MULTI_READ \<noteq> 0)"
definition RAWNAND_HAS_ITF_SDR :: "u32 \<Rightarrow> bool" where
  "RAWNAND_HAS_ITF_SDR options = (options AND RAWNAND_ITF_SDR \<noteq> 0)"
definition RAWNAND_HAS_ITF_ONFI_DDR :: "u32 \<Rightarrow> bool" where
  "RAWNAND_HAS_ITF_ONFI_DDR options = (options AND RAWNAND_ITF_ONFI_DDR \<noteq> 0)"
definition RAWNAND_HAS_ITF_ONFI_DDR2 :: "u32 \<Rightarrow> bool" where
  "RAWNAND_HAS_ITF_ONFI_DDR2 options = (options AND RAWNAND_ITF_ONFI_DDR2 \<noteq> 0)"
definition RAWNAND_HAS_ITF_TOGGLE_DDR :: "u32 \<Rightarrow> bool" where
  "RAWNAND_HAS_ITF_TOGGLE_DDR options = (options AND RAWNAND_ITF_TOGGLE_DDR \<noteq> 0)"
definition RAWNAND_HAS_ITF_TOGGLE_DDR2 :: "u32 \<Rightarrow> bool" where
  "RAWNAND_HAS_ITF_TOGGLE_DDR2 options = (options AND RAWNAND_ITF_TOGGLE_DDR2 \<noteq> 0)"
definition RAWNAND_HAS_MULTI_ERASE :: "u32 \<Rightarrow> bool" where
  "RAWNAND_HAS_MULTI_ERASE options = (options AND RAWNAND_MULTI_ERASE \<noteq> 0)"
definition RAWNAND_HAS_MULTI_ONFI_ERASE :: "u32 \<Rightarrow> bool" where
  "RAWNAND_HAS_MULTI_ONFI_ERASE options = (options AND RAWNAND_MULTI_ONFI_ERASE \<noteq> 0)"
definition RAWNAND_HAS_ONLY_TOGGLE :: "u32 \<Rightarrow> bool" where
  "RAWNAND_HAS_ONLY_TOGGLE options = (options AND RAWNAND_TOGGLE_SUPPORT_ONLY \<noteq> 0)"
definition RAWNAND_NEED_CHANGE_TO_SDR :: "u32 \<Rightarrow> bool" where
  "RAWNAND_NEED_CHANGE_TO_SDR options = (options AND RAWNAND_TOGGLE_DDR_TO_SDR \<noteq> 0)"
definition RAWNAND_NFC_NEED_RANDOM :: "u32 \<Rightarrow> bool" where
  "RAWNAND_NFC_NEED_RANDOM options = (options AND RAWNAND_NFC_RANDOM \<noteq> 0)"

text \<open>
  The interface types, numbered as in the file.
\<close>

datatype rawnand_data_interface_type =
  RAWNAND_SDR_IFACE | RAWNAND_ONFI_DDR | RAWNAND_ONFI_DDR2 | RAWNAND_TOGGLE_DDR | RAWNAND_TOGGLE_DDR2

definition NAND_DATA_ITF_TYPE_TOGGLE_DDR1_2 :: "rawnand_data_interface_type \<Rightarrow> bool" where
  "NAND_DATA_ITF_TYPE_TOGGLE_DDR1_2 ty = (ty = RAWNAND_TOGGLE_DDR \<or> ty = RAWNAND_TOGGLE_DDR2)"

text \<open>
  From a chip to the MTD device inside it and back; \<open>off\<close> is the offset that the compiler gives the member.
\<close>

definition awnand_chip_to_mtd :: "u64 \<Rightarrow> u64 \<Rightarrow> u64" where "awnand_chip_to_mtd off chip = chip + off"
definition awnand_mtd_to_chip :: "u64 \<Rightarrow> u64 \<Rightarrow> u64" where "awnand_mtd_to_chip off mtd = mtd - off"
definition awnand_nfc_to_host :: "u64 \<Rightarrow> u64 \<Rightarrow> u64" where "awnand_nfc_to_host off nfc = nfc - off"

lemma chip_mtd_inverse:
  "awnand_mtd_to_chip off (awnand_chip_to_mtd off chip) = chip" "awnand_chip_to_mtd off (awnand_mtd_to_chip off mtd) = mtd"
  by (simp_all add: awnand_chip_to_mtd_def awnand_mtd_to_chip_def)

section \<open>Requests with a command and an address\<close>

datatype op_type = FLASH_READ | FLASH_WRITE | FLASH_CACHE_READ | FLASH_CACHE_WRITE | FLASH_MULTI_READ
  | FLASH_MULTI_WRITE | FLASH_ULTI_CACHE_READ | FLASH_MULTI_CACHE_WRITE
datatype normal_req_type = CMD | CMD_WITH_ADDR | CMD_WITH_ADDR_DATA
datatype ecc_layout = INTERLEAVE | SEQUENCE
datatype data_type = MAINSPARE | ONLY_SPARE
datatype plane_ab = PLANE_A | PLANE_B

definition MAX_CYCLE :: nat where "MAX_CYCLE = 5"

record cmd_with_addr =
  ca_code :: u8
  ca_addr :: "u8 list"
  ca_addr_cycles :: u8

record cmd_with_addr_data = cmd_with_addr +
  direct :: op_type
  cad_len :: int
  cad_in :: u64
  cad_out :: u64

datatype normal_op = Op_cmd u8 | Op_with_addr cmd_with_addr | Op_with_data u8 int u64 | Op_with_addr_data cmd_with_addr_data

record aw_nfc_normal_req =
  nr_type :: normal_req_type
  wait_rb :: bool
  nr_op :: normal_op

definition no_addr :: "u8 list" where "no_addr = replicate MAX_CYCLE 0"

text \<open>
  The designated initialisers \<open>.addr[i] = v\<close>: an index outside the array makes the initialiser
  ill-formed.
\<close>

fun init_addr :: "(nat \<times> u8) list \<Rightarrow> u8 list \<Rightarrow> u8 list option" where
  "init_addr [] a = Some a"
| "init_addr ((i, v) # ivs) a = (if i < length a then init_addr ivs (a[i := v]) else None)"

definition NORMAL_REQ_CMD_WITH_ADDR1_DATA_OUT :: "u8 \<Rightarrow> u8 \<Rightarrow> u64 \<Rightarrow> int \<Rightarrow> aw_nfc_normal_req option" where
  "NORMAL_REQ_CMD_WITH_ADDR1_DATA_OUT cmd addr data len = map_option
     (\<lambda>a. \<lparr>nr_type = CMD_WITH_ADDR_DATA, wait_rb = False, nr_op = Op_with_addr_data
        \<lparr>ca_code = cmd, ca_addr = a, ca_addr_cycles = 1, direct = FLASH_WRITE, cad_len = len, cad_in = 0, cad_out = data\<rparr>\<rparr>)
     (init_addr [(0, addr)] no_addr)"

definition NORMAL_REQ_CMD_WITH_ADDR0_DATA_IN :: "u8 \<Rightarrow> u64 \<Rightarrow> int \<Rightarrow> aw_nfc_normal_req option" where
  "NORMAL_REQ_CMD_WITH_ADDR0_DATA_IN cmd data len = map_option
     (\<lambda>a. \<lparr>nr_type = CMD_WITH_ADDR_DATA, wait_rb = False, nr_op = Op_with_addr_data
        \<lparr>ca_code = cmd, ca_addr = a, ca_addr_cycles = 0, direct = FLASH_READ, cad_len = len, cad_in = data, cad_out = 0\<rparr>\<rparr>)
     (init_addr [] no_addr)"

definition NORMAL_REQ_CMD_WITH_ADDR1_DATA_IN :: "u8 \<Rightarrow> u8 \<Rightarrow> u64 \<Rightarrow> int \<Rightarrow> aw_nfc_normal_req option" where
  "NORMAL_REQ_CMD_WITH_ADDR1_DATA_IN cmd addr data len = map_option
     (\<lambda>a. \<lparr>nr_type = CMD_WITH_ADDR_DATA, wait_rb = False, nr_op = Op_with_addr_data
        \<lparr>ca_code = cmd, ca_addr = a, ca_addr_cycles = 1, direct = FLASH_READ, cad_len = len, cad_in = data, cad_out = 0\<rparr>\<rparr>)
     (init_addr [(0, addr)] no_addr)"

definition NORMAL_REQ_CMD :: "u8 \<Rightarrow> aw_nfc_normal_req" where
  "NORMAL_REQ_CMD code = \<lparr>nr_type = CMD, wait_rb = False, nr_op = Op_cmd code\<rparr>"

definition NORMAL_REQ_CMD_WAIT_RB :: "u8 \<Rightarrow> aw_nfc_normal_req" where
  "NORMAL_REQ_CMD_WAIT_RB code = \<lparr>nr_type = CMD, wait_rb = True, nr_op = Op_cmd code\<rparr>"

definition with_addr :: "u8 \<Rightarrow> u8 \<Rightarrow> u8 list \<Rightarrow> aw_nfc_normal_req" where
  "with_addr code cycles a = \<lparr>nr_type = CMD_WITH_ADDR, wait_rb = False,
     nr_op = Op_with_addr \<lparr>ca_code = code, ca_addr = a, ca_addr_cycles = cycles\<rparr>\<rparr>"

definition NORMAL_REQ_CMD_WITH_ADDR_N1 :: "u8 \<Rightarrow> u8 \<Rightarrow> aw_nfc_normal_req option" where
  "NORMAL_REQ_CMD_WITH_ADDR_N1 code a1 = map_option (with_addr code 1) (init_addr [(0, a1)] no_addr)"

definition NORMAL_REQ_CMD_WITH_ADDR_N2 :: "u8 \<Rightarrow> u8 \<Rightarrow> u8 \<Rightarrow> aw_nfc_normal_req option" where
  "NORMAL_REQ_CMD_WITH_ADDR_N2 code a1 a2 = map_option (with_addr code 2) (init_addr [(0, a1), (1, a2)] no_addr)"

definition NORMAL_REQ_CMD_WITH_ADDR_N3 :: "u8 \<Rightarrow> u8 \<Rightarrow> u8 \<Rightarrow> u8 \<Rightarrow> aw_nfc_normal_req option" where
  "NORMAL_REQ_CMD_WITH_ADDR_N3 code a1 a2 a3 =
     map_option (with_addr code 3) (init_addr [(0, a1), (1, a2), (2, a3)] no_addr)"

definition NORMAL_REQ_CMD_WITH_ADDR_N4 :: "u8 \<Rightarrow> u8 \<Rightarrow> u8 \<Rightarrow> u8 \<Rightarrow> u8 \<Rightarrow> aw_nfc_normal_req option" where
  "NORMAL_REQ_CMD_WITH_ADDR_N4 code a1 a2 a3 a4 =
     map_option (with_addr code 4) (init_addr [(0, a1), (1, a2), (2, a3), (3, a4)] no_addr)"

definition NORMAL_REQ_CMD_WITH_ADDR_N5 :: "u8 \<Rightarrow> u8 \<Rightarrow> u8 \<Rightarrow> u8 \<Rightarrow> u8 \<Rightarrow> u8 \<Rightarrow> aw_nfc_normal_req option" where
  "NORMAL_REQ_CMD_WITH_ADDR_N5 code a1 a2 a3 a4 a5 =
     map_option (with_addr code 5) (init_addr [(0, a1), (1, a2), (2, a3), (3, a4), (4, a5), (5, a5)] no_addr)"

text \<open>
  The two address registers of a request: its first four bytes go to the low one, the others to the
  high one.  The macro counts with its argument but takes the bytes from the variable \<open>req\<close> of the
  place where it is used, so both are arguments here.  \<open>None\<close> is a read outside the array.
\<close>

fun get_addr_loop :: "u8 list \<Rightarrow> nat list \<Rightarrow> u32 \<times> u32 \<Rightarrow> (u32 \<times> u32) option" where
  "get_addr_loop addr [] r = Some r"
| "get_addr_loop addr (i # is) (low, high) =
     (if i \<ge> length addr then None
      else get_addr_loop addr is
        (if i < 4 then (low OR push_bit (i * 8) (ucast (addr ! i)), high)
         else (low, high OR push_bit ((i - 4) * 8) (ucast (addr ! i)))))"

definition NORMAL_REQ_GET_ADDR :: "cmd_with_addr \<Rightarrow> cmd_with_addr \<Rightarrow> u32 \<Rightarrow> u32 \<Rightarrow> (u32 \<times> u32) option" where
  "NORMAL_REQ_GET_ADDR p_req req addr_low addr_high =
     get_addr_loop (ca_addr req) [0..<unat (ca_addr_cycles p_req)] (addr_low, addr_high)"

section \<open>Requests in batch mode\<close>

datatype batch_cmd =
    Cmd_r u8 u8 u8 u8 | Cmd_w u8 u8 u8 | Cmd_cw u8 u8 u8 | Cmd_mw u8 u8 u8 | Cmd_mr u8 u8 u8 u8

record aw_nfc_batch_req =
  br_type :: op_type
  layout :: ecc_layout
  plane :: plane_ab
  br_cmd :: batch_cmd
  br_page :: u32
  row_cycles :: u8
  data_kind :: data_type
  main_len :: int
  spare_len :: int
  main_ptr :: u64
  spare_ptr :: u64

definition RAWNAND_CMD_READ0 :: u8 where "RAWNAND_CMD_READ0 = 0"
definition RAWNAND_CMD_RNDOUT :: u8 where "RAWNAND_CMD_RNDOUT = 5"
definition RAWNAND_CMD_PAGEPROG :: u8 where "RAWNAND_CMD_PAGEPROG = 0x10"
definition RAWNAND_CMD_SEQIN :: u8 where "RAWNAND_CMD_SEQIN = 0x80"
definition RAWNAND_CMD_JEDEC_SEQIN :: u8 where "RAWNAND_CMD_JEDEC_SEQIN = 0x81"
definition RAWNAND_CMD_RNDIN :: u8 where "RAWNAND_CMD_RNDIN = 0x85"
definition RAWNAND_CMD_READSTART :: u8 where "RAWNAND_CMD_READSTART = 0x30"
definition RAWNAND_CMD_RNDOUTSTART :: u8 where "RAWNAND_CMD_RNDOUTSTART = 0xE0"
definition RAWNAND_CMD_CACHEDPROG :: u8 where "RAWNAND_CMD_CACHEDPROG = 0x15"
definition RAWNAND_CMD_MULTIPROG :: u8 where "RAWNAND_CMD_MULTIPROG = 0x11"
definition RAWNAND_CMD_MULTIPREADSTART :: u8 where "RAWNAND_CMD_MULTIPREADSTART = 0x32"

definition BATCH_REQ_READ :: "u32 \<Rightarrow> u8 \<Rightarrow> u64 \<Rightarrow> int \<Rightarrow> u64 \<Rightarrow> int \<Rightarrow> aw_nfc_batch_req" where
  "BATCH_REQ_READ page row mdata mlen sdata slen =
     \<lparr>br_type = FLASH_READ, layout = INTERLEAVE, plane = PLANE_A,
      br_cmd = Cmd_r RAWNAND_CMD_READ0 RAWNAND_CMD_READSTART RAWNAND_CMD_RNDOUT RAWNAND_CMD_RNDOUTSTART,
      br_page = page, row_cycles = row, data_kind = MAINSPARE, main_len = mlen, spare_len = slen,
      main_ptr = mdata, spare_ptr = sdata\<rparr>"

definition BATCH_REQ_MULTI_READ :: "u32 \<Rightarrow> u8 \<Rightarrow> u64 \<Rightarrow> int \<Rightarrow> u64 \<Rightarrow> int \<Rightarrow> aw_nfc_batch_req" where
  "BATCH_REQ_MULTI_READ page row mdata mlen sdata slen =
     \<lparr>br_type = FLASH_MULTI_READ, layout = INTERLEAVE, plane = PLANE_A,
      br_cmd = Cmd_mr RAWNAND_CMD_READ0 RAWNAND_CMD_MULTIPREADSTART RAWNAND_CMD_RNDOUT RAWNAND_CMD_RNDOUTSTART,
      br_page = page, row_cycles = row, data_kind = MAINSPARE, main_len = mlen, spare_len = slen,
      main_ptr = mdata, spare_ptr = sdata\<rparr>"

definition BATCH_REQ_READ_SEQ :: "u32 \<Rightarrow> u8 \<Rightarrow> u64 \<Rightarrow> int \<Rightarrow> u64 \<Rightarrow> int \<Rightarrow> aw_nfc_batch_req" where
  "BATCH_REQ_READ_SEQ page row mdata mlen sdata slen =
     \<lparr>br_type = FLASH_READ, layout = SEQUENCE, plane = PLANE_A,
      br_cmd = Cmd_r RAWNAND_CMD_READ0 RAWNAND_CMD_READSTART RAWNAND_CMD_RNDOUT RAWNAND_CMD_RNDOUTSTART,
      br_page = page, row_cycles = row, data_kind = MAINSPARE, main_len = mlen, spare_len = slen,
      main_ptr = mdata, spare_ptr = sdata\<rparr>"

definition BATCH_REQ_READ_ONLY_SPARE :: "u32 \<Rightarrow> u8 \<Rightarrow> u64 \<Rightarrow> int \<Rightarrow> aw_nfc_batch_req" where
  "BATCH_REQ_READ_ONLY_SPARE page row sdata slen =
     \<lparr>br_type = FLASH_READ, layout = INTERLEAVE, plane = PLANE_A,
      br_cmd = Cmd_r RAWNAND_CMD_READ0 RAWNAND_CMD_READSTART RAWNAND_CMD_RNDOUT RAWNAND_CMD_RNDOUTSTART,
      br_page = page, row_cycles = row, data_kind = ONLY_SPARE, main_len = 0, spare_len = slen,
      main_ptr = 0, spare_ptr = sdata\<rparr>"

definition BATCH_REQ_WRITE :: "u32 \<Rightarrow> u8 \<Rightarrow> u64 \<Rightarrow> int \<Rightarrow> u64 \<Rightarrow> int \<Rightarrow> aw_nfc_batch_req" where
  "BATCH_REQ_WRITE page row mdata mlen sdata slen =
     \<lparr>br_type = FLASH_WRITE, layout = INTERLEAVE, plane = PLANE_A,
      br_cmd = Cmd_w RAWNAND_CMD_SEQIN RAWNAND_CMD_PAGEPROG RAWNAND_CMD_RNDIN,
      br_page = page, row_cycles = row, data_kind = MAINSPARE, main_len = mlen, spare_len = slen,
      main_ptr = mdata, spare_ptr = sdata\<rparr>"

definition BATCH_REQ_JEDEC_WRITE :: "u32 \<Rightarrow> u8 \<Rightarrow> u64 \<Rightarrow> int \<Rightarrow> u64 \<Rightarrow> int \<Rightarrow> aw_nfc_batch_req" where
  "BATCH_REQ_JEDEC_WRITE page row mdata mlen sdata slen =
     \<lparr>br_type = FLASH_WRITE, layout = INTERLEAVE, plane = PLANE_A,
      br_cmd = Cmd_w RAWNAND_CMD_JEDEC_SEQIN RAWNAND_CMD_PAGEPROG RAWNAND_CMD_RNDIN,
      br_page = page, row_cycles = row, data_kind = MAINSPARE, main_len = mlen, spare_len = slen,
      main_ptr = mdata, spare_ptr = sdata\<rparr>"

definition BATCH_REQ_MULTI_WRITE :: "u32 \<Rightarrow> u8 \<Rightarrow> u64 \<Rightarrow> int \<Rightarrow> u64 \<Rightarrow> int \<Rightarrow> plane_ab \<Rightarrow> aw_nfc_batch_req" where
  "BATCH_REQ_MULTI_WRITE page row mdata mlen sdata slen pl =
     \<lparr>br_type = FLASH_MULTI_WRITE, layout = INTERLEAVE, plane = pl,
      br_cmd = Cmd_mw RAWNAND_CMD_SEQIN RAWNAND_CMD_MULTIPROG RAWNAND_CMD_RNDIN,
      br_page = page, row_cycles = row, data_kind = MAINSPARE, main_len = mlen, spare_len = slen,
      main_ptr = mdata, spare_ptr = sdata\<rparr>"

definition BATCH_REQ_CACHE_WRITE :: "u32 \<Rightarrow> u8 \<Rightarrow> u64 \<Rightarrow> int \<Rightarrow> u64 \<Rightarrow> int \<Rightarrow> aw_nfc_batch_req" where
  "BATCH_REQ_CACHE_WRITE page row mdata mlen sdata slen =
     \<lparr>br_type = FLASH_CACHE_WRITE, layout = INTERLEAVE, plane = PLANE_A,
      br_cmd = Cmd_cw RAWNAND_CMD_SEQIN RAWNAND_CMD_CACHEDPROG RAWNAND_CMD_RNDIN,
      br_page = page, row_cycles = row, data_kind = MAINSPARE, main_len = mlen, spare_len = slen,
      main_ptr = mdata, spare_ptr = sdata\<rparr>"

definition BATCH_REQ_WRITE_SEQ :: "u32 \<Rightarrow> u8 \<Rightarrow> u64 \<Rightarrow> int \<Rightarrow> u64 \<Rightarrow> int \<Rightarrow> aw_nfc_batch_req" where
  "BATCH_REQ_WRITE_SEQ page row mdata mlen sdata slen =
     \<lparr>br_type = FLASH_WRITE, layout = SEQUENCE, plane = PLANE_A,
      br_cmd = Cmd_w RAWNAND_CMD_SEQIN RAWNAND_CMD_PAGEPROG RAWNAND_CMD_RNDIN,
      br_page = page, row_cycles = row, data_kind = MAINSPARE, main_len = mlen, spare_len = slen,
      main_ptr = mdata, spare_ptr = sdata\<rparr>"

section \<open>The checks of a request\<close>

text \<open>
  What the checks read of the chip and of the MTD device.  The masks of a page have the type \<open>int\<close> and
  are extended with their sign, that of an erase block is unsigned; an offset has 64 bits, and the sum
  of an offset and a length is unsigned and wraps.
\<close>

record nand_geometry =
  pagesize_mask :: u32
  erasesize_mask :: u32
  mtd_size :: u64
  mtd_oobsize :: u32

record mtd_oob_ops =
  ops_len :: u64
  ooblen :: u64
  ooboffs :: u32
  datbuf :: bool
  oobbuf :: bool

definition check_offs_len :: "nand_geometry \<Rightarrow> u64 \<Rightarrow> u64 \<Rightarrow> int" where
  "check_offs_len g ofs len =
     (if ofs AND ucast (erasesize_mask g) \<noteq> 0 \<or> len AND ucast (erasesize_mask g) \<noteq> 0 \<or> ofs + len > mtd_size g
      then - EINVAL else 0)"

definition check_ofs_mtd_oob_ops :: "nand_geometry \<Rightarrow> u64 \<Rightarrow> mtd_oob_ops \<Rightarrow> int" where
  "check_ofs_mtd_oob_ops g ofs ops =
     (if datbuf ops \<and> ofs + ops_len ops > mtd_size g then - EINVAL
      else if oobbuf ops \<and> ucast (ooboffs ops) + ooblen ops > ucast (mtd_oobsize g) then - EINVAL
      else if ofs AND scast (pagesize_mask g) \<noteq> 0 \<or> ops_len ops AND scast (pagesize_mask g) \<noteq> 0 then 0
      else 0)"

definition check_from_len :: "nand_geometry \<Rightarrow> u64 \<Rightarrow> u64 \<Rightarrow> int" where
  "check_from_len g from len =
     (if from + len > mtd_size g then - EINVAL
      else if from AND scast (pagesize_mask g) \<noteq> 0 then - EINVAL
      else 0)"

definition check_to_len :: "nand_geometry \<Rightarrow> u64 \<Rightarrow> u64 \<Rightarrow> int" where
  "check_to_len g to len =
     (if to + len > mtd_size g then - EINVAL
      else if to AND scast (pagesize_mask g) \<noteq> 0 \<or> len AND scast (pagesize_mask g) \<noteq> 0 then - EINVAL
      else 0)"

section \<open>What the requests hold\<close>

lemmas normal_reqs = NORMAL_REQ_CMD_WITH_ADDR1_DATA_OUT_def NORMAL_REQ_CMD_WITH_ADDR0_DATA_IN_def
  NORMAL_REQ_CMD_WITH_ADDR1_DATA_IN_def NORMAL_REQ_CMD_WITH_ADDR_N1_def NORMAL_REQ_CMD_WITH_ADDR_N2_def
  NORMAL_REQ_CMD_WITH_ADDR_N3_def NORMAL_REQ_CMD_WITH_ADDR_N4_def NORMAL_REQ_CMD_WITH_ADDR_N5_def
  no_addr_def MAX_CYCLE_def

lemma no_addr_cells: "replicate 5 x = [x, x, x, x, x]"
  by (simp add: numeral_eq_Suc)

lemma init_addr_length: "init_addr ivs a = Some b \<Longrightarrow> length b = length a"
  by (induction ivs a rule: init_addr.induct) (auto split: if_splits)

text \<open>
  A request with five address bytes cannot be built: the macro also initialises a sixth.
\<close>

lemma addr_n5_out_of_bounds: "NORMAL_REQ_CMD_WITH_ADDR_N5 code a1 a2 a3 a4 a5 = None"
  by (simp add: normal_reqs no_addr_cells)

lemma addr_n:
  "NORMAL_REQ_CMD_WITH_ADDR_N1 code a1 = Some (with_addr code 1 [a1, 0, 0, 0, 0])"
  "NORMAL_REQ_CMD_WITH_ADDR_N2 code a1 a2 = Some (with_addr code 2 [a1, a2, 0, 0, 0])"
  "NORMAL_REQ_CMD_WITH_ADDR_N3 code a1 a2 a3 = Some (with_addr code 3 [a1, a2, a3, 0, 0])"
  "NORMAL_REQ_CMD_WITH_ADDR_N4 code a1 a2 a3 a4 = Some (with_addr code 4 [a1, a2, a3, a4, 0])"
  by (simp_all add: normal_reqs no_addr_cells)

lemma addr_array_kept:
  assumes "r \<in> {NORMAL_REQ_CMD_WITH_ADDR_N1 code a1, NORMAL_REQ_CMD_WITH_ADDR_N2 code a1 a2,
      NORMAL_REQ_CMD_WITH_ADDR_N3 code a1 a2 a3, NORMAL_REQ_CMD_WITH_ADDR_N4 code a1 a2 a3 a4}"
  shows "\<exists>ca. map_option nr_op r = Some (Op_with_addr ca) \<and> length (ca_addr ca) = MAX_CYCLE \<and>
    unat (ca_addr_cycles ca) < MAX_CYCLE \<and> (\<forall>i. unat (ca_addr_cycles ca) \<le> i \<and> i < MAX_CYCLE \<longrightarrow> ca_addr ca ! i = 0)"
  using assms by (auto simp: addr_n with_addr_def MAX_CYCLE_def nth_Cons split: nat.splits)

text \<open>
  The registers hold the bytes of the request, the first one lowest, and zeros above them.
\<close>

lemma get_addr_bytes:
  assumes "length (ca_addr req) = MAX_CYCLE" "unat (ca_addr_cycles req) = n" "n \<le> MAX_CYCLE"
  shows "\<exists>low high. NORMAL_REQ_GET_ADDR req req 0 0 = Some (low, high) \<and>
    (\<forall>i < 4. ucast (drop_bit (i * 8) low) = (if i < n then ca_addr req ! i else 0)) \<and>
    high = (if n = 5 then ucast (ca_addr req ! 4) else 0)"
proof -
  obtain a b c d e where a: "ca_addr req = [a, b, c, d, e]"
    using assms(1) by (auto simp: MAX_CYCLE_def numeral_eq_Suc length_Suc_conv)
  have n: "n \<in> {0, 1, 2, 3, 4, 5}" using assms(3) by (auto simp: MAX_CYCLE_def)
  have four: "(\<forall>i < 4. P i) \<longleftrightarrow> P 0 \<and> P 1 \<and> P 2 \<and> P 3" for P :: "nat \<Rightarrow> bool"
    by (auto simp: less_Suc_eq numeral_eq_Suc)
  have beyond: "\<not> bit (x :: u8) (8 + i)" "\<not> bit x (16 + i)" "\<not> bit x (24 + i)" for x i
    by (auto dest: bit_imp_le_length)
  show ?thesis
    unfolding NORMAL_REQ_GET_ADDR_def a assms(2) four
    by ((insert n, elim insertE emptyE); simp add: upt_rec; intro conjI bit_word_eqI; auto simp: bit_simps beyond)
qed

lemma get_addr_out_of_bounds:
  assumes "length (ca_addr req) < unat (ca_addr_cycles p_req)"
  shows "NORMAL_REQ_GET_ADDR p_req req low high = None"
proof -
  have "get_addr_loop a is r = None" if "\<exists>i \<in> set is. length a \<le> i" for a "is" r
    using that by (induction a "is" r rule: get_addr_loop.induct) fastforce+
  then show ?thesis using assms by (force simp: NORMAL_REQ_GET_ADDR_def)
qed

lemmas batch_reqs = BATCH_REQ_READ_def BATCH_REQ_MULTI_READ_def BATCH_REQ_READ_SEQ_def
  BATCH_REQ_READ_ONLY_SPARE_def BATCH_REQ_WRITE_def BATCH_REQ_JEDEC_WRITE_def BATCH_REQ_MULTI_WRITE_def
  BATCH_REQ_CACHE_WRITE_def BATCH_REQ_WRITE_SEQ_def

lemmas nand_cmds = RAWNAND_CMD_READ0_def RAWNAND_CMD_RNDOUT_def RAWNAND_CMD_PAGEPROG_def RAWNAND_CMD_SEQIN_def
  RAWNAND_CMD_JEDEC_SEQIN_def RAWNAND_CMD_RNDIN_def RAWNAND_CMD_READSTART_def RAWNAND_CMD_RNDOUTSTART_def
  RAWNAND_CMD_CACHEDPROG_def RAWNAND_CMD_MULTIPROG_def RAWNAND_CMD_MULTIPREADSTART_def

text \<open>
  The controller can tell the nine requests apart whatever they are about.
\<close>

lemma batch_requests_distinct:
  "distinct (map (\<lambda>r. (br_type r, layout r, br_cmd r, data_kind r))
    [BATCH_REQ_READ pg row m ml s sl, BATCH_REQ_MULTI_READ pg row m ml s sl, BATCH_REQ_READ_SEQ pg row m ml s sl,
     BATCH_REQ_READ_ONLY_SPARE pg row s sl, BATCH_REQ_WRITE pg row m ml s sl, BATCH_REQ_JEDEC_WRITE pg row m ml s sl,
     BATCH_REQ_MULTI_WRITE pg row m ml s sl pl, BATCH_REQ_CACHE_WRITE pg row m ml s sl, BATCH_REQ_WRITE_SEQ pg row m ml s sl])"
  by (simp add: batch_reqs nand_cmds)

section \<open>What the checks accept\<close>

lemma and_mask_dvd: "(w :: u64) AND mask k = 0 \<longleftrightarrow> 2 ^ k dvd unat w"
  using aligned_unat [of k w] by (simp add: aligned_def take_bit_eq_mask)

lemma ucast_mask_32: "k \<le> 32 \<Longrightarrow> ucast (mask k :: u32) = (mask k :: u64)"
  by (intro bit_word_eqI) (auto simp: bit_simps)

lemma scast_mask_31: "k \<le> 31 \<Longrightarrow> scast (mask k :: u32) = (mask k :: u64)"
  by (intro bit_word_eqI) (auto simp: bit_simps)

lemma sum_beyond:
  assumes "unat (a :: u64) + unat b < 2 ^ 64"
  shows "a + b > s \<longleftrightarrow> unat a + unat b > unat s"
  using assms by (simp add: word_less_nat_alt unat_word_ariths)

text \<open>
  As long as the end of a request has 64 bits, the checks say what they should: a block-aligned request
  within the device, a page-aligned one within the device.
\<close>

lemma check_offs_len_iff:
  assumes "erasesize_mask g = mask k" "k \<le> 32" "unat ofs + unat len < 2 ^ 64"
  shows "check_offs_len g ofs len = 0 \<longleftrightarrow>
    2 ^ k dvd unat ofs \<and> 2 ^ k dvd unat len \<and> unat ofs + unat len \<le> unat (mtd_size g)"
  using assms by (auto simp: check_offs_len_def ucast_mask_32 and_mask_dvd sum_beyond errno_simps)

lemma check_to_len_iff:
  assumes "pagesize_mask g = mask k" "k \<le> 31" "unat to + unat len < 2 ^ 64"
  shows "check_to_len g to len = 0 \<longleftrightarrow>
    2 ^ k dvd unat to \<and> 2 ^ k dvd unat len \<and> unat to + unat len \<le> unat (mtd_size g)"
  using assms by (auto simp: check_to_len_def scast_mask_31 and_mask_dvd sum_beyond errno_simps)

lemma check_from_len_iff:
  assumes "pagesize_mask g = mask k" "k \<le> 31" "unat from + unat len < 2 ^ 64"
  shows "check_from_len g from len = 0 \<longleftrightarrow> 2 ^ k dvd unat from \<and> unat from + unat len \<le> unat (mtd_size g)"
  using assms by (auto simp: check_from_len_def scast_mask_31 and_mask_dvd sum_beyond errno_simps)

lemma writable_is_readable: "check_to_len g ofs len = 0 \<Longrightarrow> check_from_len g ofs len = 0"
  by (auto simp: check_to_len_def check_from_len_def errno_simps split: if_splits)

text \<open>
  The sum wraps: a length that reaches beyond 64 bits is accepted, though its end is not on the device.
\<close>

lemma check_offs_len_wraps:
  "check_offs_len \<lparr>pagesize_mask = 0x7FF, erasesize_mask = 0x1FFFF, mtd_size = 0x8000000, mtd_oobsize = 64\<rparr>
    0x20000 0xFFFFFFFFFFFE0000 = 0"
  by (simp add: check_offs_len_def)

text \<open>
  The check of a request with spare data only reports a position that is not aligned to a page and accepts it;
  without a data buffer it accepts any position.
\<close>

lemma oob_alignment_ignored: "check_ofs_mtd_oob_ops (g\<lparr>pagesize_mask := m\<rparr>) ofs ops = check_ofs_mtd_oob_ops g ofs ops"
  by (simp add: check_ofs_mtd_oob_ops_def)

lemma unat_ucast_64: "unat (ucast (w :: u32) :: u64) = unat w"
  using unsigned_less [of w, where ?'a = nat] by (simp add: unsigned_ucast_eq take_bit_nat_eq_self)

lemma oob_accepts_iff:
  assumes "unat ofs + unat (ops_len ops) < 2 ^ 64" "unat (ooblen ops) < 2 ^ 63"
  shows "check_ofs_mtd_oob_ops g ofs ops = 0 \<longleftrightarrow>
    (datbuf ops \<longrightarrow> unat ofs + unat (ops_len ops) \<le> unat (mtd_size g)) \<and>
    (oobbuf ops \<longrightarrow> unat (ooboffs ops) + unat (ooblen ops) \<le> unat (mtd_oobsize g))"
proof -
  have "unat (ooboffs ops) < 2 ^ 32" using unsigned_less [of "ooboffs ops", where ?'a = nat] by simp
  then have "unat (ucast (ooboffs ops) :: u64) + unat (ooblen ops) < 2 ^ 64" using assms(2) by (simp add: unat_ucast_64)
  from sum_beyond [OF this, of "ucast (mtd_oobsize g)"] sum_beyond [OF assms(1), of "mtd_size g"]
  show ?thesis by (auto simp: check_ofs_mtd_oob_ops_def errno_simps unat_ucast_64)
qed

end
