(* ===== verification/Tsn.thy ===== *)
theory Tsn
  imports Prelude
begin

text \<open>
  Time-sensitive networking: \<open>bsp/include/sunxi-tsn.h\<close> and the test shim of \<open>bsp/include/sunxi-avb.h\<close>.
  The header of a stream frame with its bit fields as the bytes they occupy on a little-endian
  machine, the header that the test shim puts behind it, and the link with its lock, its state and
  its buffer flag.  A pointer that may be \<open>NULL\<close> is an option.
\<close>

unbundle bit_operations_syntax

section \<open>Words as bytes\<close>

definition le_bytes :: "nat \<Rightarrow> 'a :: len word \<Rightarrow> u8 list" where
  "le_bytes n w = map (\<lambda>i. ucast (drop_bit (8 * i) w)) [0..<n]"

fun le_word :: "u8 list \<Rightarrow> 'a :: len word" where
  "le_word [] = 0"
| "le_word (b # bs) = ucast b OR push_bit 8 (le_word bs)"

lemma length_le_bytes [simp]: "length (le_bytes n w) = n"
  by (simp add: le_bytes_def)

lemma le_bytes_Suc: "le_bytes (Suc n) w = ucast w # le_bytes n (drop_bit 8 w)"
  by (simp add: le_bytes_def upt_conv_Cons map_Suc_upt [symmetric] add.commute del: upt_Suc)

lemma le_word_le_bytes: "le_word (le_bytes n (w :: 'a :: len word)) = take_bit (8 * n) w"
proof (induction n arbitrary: w)
  case 0
  then show ?case by (simp add: le_bytes_def)
next
  case (Suc n)
  have "ucast (ucast w :: u8) OR push_bit 8 (take_bit (8 * n) (drop_bit 8 w)) = take_bit (8 * Suc n) w"
    by (intro bit_word_eqI) (auto simp: bit_simps)
  then show ?case by (simp add: le_bytes_Suc Suc.IH)
qed

lemma le_word_of_bytes [simp]:
  "le_word (le_bytes 2 (x :: u16)) = x" "le_word (le_bytes 4 (y :: u32)) = y" "le_word (le_bytes 8 (z :: u64)) = z"
  by (simp_all add: le_word_le_bytes take_bit_word_eq_self)

section \<open>The header of a stream frame\<close>

record avtpdu_header =
  subtype :: "7 word"
  cd :: bool
  tv :: bool
  gv :: bool
  reserved_r :: bool
  mr :: bool
  avtp_version :: "3 word"
  sv :: bool
  seqnr :: u8
  tu :: bool
  r2 :: "7 word"
  stream_id :: u64
  avtp_timestamp :: u32
  gateway_info :: u32
  sd_len :: u16
  psh :: u16

definition flag :: "nat \<Rightarrow> bool \<Rightarrow> u8" where
  "flag i b = (if b then push_bit i 1 else 0)"

definition avtpdu_bytes :: "avtpdu_header \<Rightarrow> u8 list" where
  "avtpdu_bytes h =
     [ucast (subtype h) OR flag 7 (cd h),
      flag 0 (tv h) OR flag 1 (gv h) OR flag 2 (reserved_r h) OR flag 3 (mr h) OR
        push_bit 4 (ucast (avtp_version h)) OR flag 7 (sv h),
      seqnr h,
      flag 0 (tu h) OR push_bit 1 (ucast (r2 h))] @
     le_bytes 8 (stream_id h) @ le_bytes 4 (avtp_timestamp h) @ le_bytes 4 (gateway_info h) @
     le_bytes 2 (sd_len h) @ le_bytes 2 (psh h)"

definition avtpdu_size :: nat where "avtpdu_size = 24"

definition read_avtpdu :: "u8 list \<Rightarrow> avtpdu_header" where
  "read_avtpdu bs =
     (let at = \<lambda>off n. take n (drop off bs)
      in \<lparr>subtype = ucast (bs ! 0), cd = bit (bs ! 0) 7,
          tv = bit (bs ! 1) 0, gv = bit (bs ! 1) 1, reserved_r = bit (bs ! 1) 2, mr = bit (bs ! 1) 3,
          avtp_version = ucast (drop_bit 4 (bs ! 1)), sv = bit (bs ! 1) 7,
          seqnr = bs ! 2, tu = bit (bs ! 3) 0, r2 = ucast (drop_bit 1 (bs ! 3)),
          stream_id = le_word (at 4 8), avtp_timestamp = le_word (at 12 4), gateway_info = le_word (at 16 4),
          sd_len = le_word (at 20 2), psh = le_word (at 22 2)\<rparr>)"

text \<open>
  The subtypes of the file and their numbers, of which a header keeps the lowest seven bits.
\<close>

datatype avtp_subtype = TSN_61883_IIDC | TSN_MMA_STREAM | TSN_AAF | TSN_CVF | TSN_CRF
  | TSN_TSCF | TSN_SVF | TSN_RVF | TSN_AEF_CONTINOUS | TSN_VSF_STREAM
  | TSN_EF_STREAM | TSN_NTSCF | TSN_ESCF | TSN_EECF | TSN_AEF_DISCRETE
  | TSN_ADP | TSN_AECP | TSN_ACMP | TSN_MAAP | TSN_EF_CONTROL

fun avtp_subtype_value :: "avtp_subtype \<Rightarrow> nat" where
  "avtp_subtype_value TSN_61883_IIDC = 0"
| "avtp_subtype_value TSN_MMA_STREAM = 1"
| "avtp_subtype_value TSN_AAF = 2"
| "avtp_subtype_value TSN_CVF = 3"
| "avtp_subtype_value TSN_CRF = 4"
| "avtp_subtype_value TSN_TSCF = 5"
| "avtp_subtype_value TSN_SVF = 6"
| "avtp_subtype_value TSN_RVF = 7"
| "avtp_subtype_value TSN_AEF_CONTINOUS = 0x6e"
| "avtp_subtype_value TSN_VSF_STREAM = 0x6f"
| "avtp_subtype_value TSN_EF_STREAM = 0x7f"
| "avtp_subtype_value TSN_NTSCF = 0x82"
| "avtp_subtype_value TSN_ESCF = 0xec"
| "avtp_subtype_value TSN_EECF = 0xed"
| "avtp_subtype_value TSN_AEF_DISCRETE = 0xee"
| "avtp_subtype_value TSN_ADP = 0xfa"
| "avtp_subtype_value TSN_AECP = 0xfb"
| "avtp_subtype_value TSN_ACMP = 0xfc"
| "avtp_subtype_value TSN_MAAP = 0xfe"
| "avtp_subtype_value TSN_EF_CONTROL = 0xff"

section \<open>The header of the test shim\<close>

text \<open>
  A frame is the header and the payload behind it.  A store beyond the frame is \<open>None\<close>.
\<close>

definition AVB_TEST_HEADER_MAGIC :: u32 where "AVB_TEST_HEADER_MAGIC = 0xdeadbeef"

definition store_bytes :: "nat \<Rightarrow> u8 list \<Rightarrow> u8 list \<Rightarrow> u8 list option" where
  "store_bytes off bs frame =
     (if off + length bs \<le> length frame then Some (take off frame @ bs @ drop (off + length bs) frame) else None)"

definition load_bytes :: "nat \<Rightarrow> nat \<Rightarrow> u8 list \<Rightarrow> u8 list option" where
  "load_bytes off n frame = (if off + n \<le> length frame then Some (take n (drop off frame)) else None)"

definition avb_hdr_size :: nat where "avb_hdr_size = 8"

definition avb_assemble_header :: "u64 \<Rightarrow> u8 list \<Rightarrow> u8 list option" where
  "avb_assemble_header bytes frame =
     Option.bind (store_bytes avtpdu_size (le_bytes 4 AVB_TEST_HEADER_MAGIC) frame)
       (store_bytes (avtpdu_size + 4) (le_bytes 4 (ucast bytes :: u32)))"

definition avb_validate_header :: "u8 list \<Rightarrow> int option" where
  "avb_validate_header frame =
     map_option (\<lambda>bs. if (le_word bs :: u32) \<noteq> AVB_TEST_HEADER_MAGIC then - EINVAL else 0)
       (load_bytes avtpdu_size 4 frame)"

definition avb_get_payload_data :: "nat \<Rightarrow> nat" where
  "avb_get_payload_data header = header + avtpdu_size + avb_hdr_size"

section \<open>Links\<close>

datatype sr_class = SR_CLASS_A | SR_CLASS_B | SR_CLASS_LAST | SR_CLASS_ERR
datatype link_states = LINK_OFF | LINK_RUNNING | LINK_ERROR

record tsn_nic =
  pcp_a :: "3 word"
  pcp_b :: "3 word"

text \<open>
  Addresses and pointers are words; the lists and configuration entries the link hangs in are left out.
\<close>

record tsn_link =
  tlock :: bool
  llock :: bool
  lflags :: bool
  is_synced :: bool
  link_state :: link_states
  frames_sent :: u64
  ts_net_ns :: u64
  ts_delta_ns :: u64
  ts_exp_avg :: u64
  ts_exp_alpha :: u16
  media_chip :: u64
  link_stream_id :: u64
  max_payload_size :: u16
  shim_header_size :: u16
  buffer_size :: u64
  used_buffer_size :: u64
  available_bytes :: u64
  old_skb :: u64
  buffer_active :: int
  buffer_start :: u64
  buffer_head :: u64
  buffer_tail :: u64
  buffer_end :: u64
  low_water_mark :: u64
  high_water_mark :: u64
  estype_talker :: bool
  external_buffer :: u8
  last_seqnr :: u8
  link_class :: sr_class
  vlan_id :: u16
  remote_mac :: "u8 list"

text \<open>
  The lock of a talker leaves interrupts alone; that of a listener saves in the link whether they are
  enabled (the first component) and disables them.  \<open>None\<close> is a lock that is held already, or an unlock of
  one that is not held.
\<close>

definition tsn_lock :: "bool \<times> tsn_link \<Rightarrow> (bool \<times> tsn_link) option" where
  "tsn_lock = (\<lambda>(irqs, link).
     if estype_talker link
     then (if tlock link then None else Some (irqs, link\<lparr>tlock := True\<rparr>))
     else (if llock link then None else Some (False, link\<lparr>lflags := irqs, llock := True\<rparr>)))"

definition tsn_unlock :: "bool \<times> tsn_link \<Rightarrow> (bool \<times> tsn_link) option" where
  "tsn_unlock = (\<lambda>(irqs, link).
     if estype_talker link
     then (if tlock link then Some (irqs, link\<lparr>tlock := False\<rparr>) else None)
     else (if llock link then Some (lflags link, link\<lparr>llock := False\<rparr>) else None))"

definition tsn_link_on :: "tsn_link option \<Rightarrow> tsn_link option" where
  "tsn_link_on = map_option (link_state_update (\<lambda>_. LINK_RUNNING))"

definition tsn_link_off :: "tsn_link option \<Rightarrow> tsn_link option" where
  "tsn_link_off = map_option (link_state_update (\<lambda>_. LINK_OFF))"

definition tsn_link_err :: "tsn_link option \<Rightarrow> tsn_link option" where
  "tsn_link_err = map_option (link_state_update (\<lambda>_. LINK_ERROR))"

definition tsn_link_is_off :: "tsn_link option \<Rightarrow> bool" where
  "tsn_link_is_off link = (case link of Some l \<Rightarrow> link_state l = LINK_OFF | None \<Rightarrow> False)"

definition tsn_link_is_err :: "tsn_link option \<Rightarrow> bool" where
  "tsn_link_is_err link = (case link of Some l \<Rightarrow> link_state l = LINK_ERROR | None \<Rightarrow> False)"

definition tsn_link_is_on :: "tsn_link option \<Rightarrow> bool" where
  "tsn_link_is_on link = (case link of Some l \<Rightarrow> link_state l = LINK_RUNNING | None \<Rightarrow> False)"

definition tsn_lb_enable :: "tsn_link option \<Rightarrow> tsn_link option" where
  "tsn_lb_enable = map_option (\<lambda>l. l\<lparr>is_synced := False, available_bytes := 0, buffer_active := 1\<rparr>)"

definition tsn_lb_disable :: "tsn_link option \<Rightarrow> tsn_link option" where
  "tsn_lb_disable = map_option (\<lambda>l. l\<lparr>buffer_active := 0, is_synced := False, available_bytes := 0\<rparr>)"

definition tsn_lb :: "tsn_link option \<Rightarrow> int" where
  "tsn_lb link = (case link of Some l \<Rightarrow> buffer_active l | None \<Rightarrow> 0)"

section \<open>Callbacks of the shim\<close>

text \<open>
  The callbacks are arguments; that for the header may be missing.  The results have the type \<open>size_t\<close>.
\<close>

definition tsn_shim_get_framesize :: "(tsn_link \<Rightarrow> u64) \<Rightarrow> tsn_link \<Rightarrow> u64" where
  "tsn_shim_get_framesize copy_size link = copy_size link"

definition tsn_shim_get_hdr_size :: "(tsn_link \<Rightarrow> u64) option \<Rightarrow> tsn_link option \<Rightarrow> u64" where
  "tsn_shim_get_hdr_size hdr_size link =
     (case link of None \<Rightarrow> of_int (- EINVAL)
      | Some l \<Rightarrow> (case hdr_size of None \<Rightarrow> of_int (- EINVAL)
         | Some f \<Rightarrow> (let ret = f l in if ret > ucast (max_payload_size l) then of_int (- EINVAL) else ret)))"

definition sr_class_to_pcp :: "tsn_nic option \<Rightarrow> sr_class \<Rightarrow> u8" where
  "sr_class_to_pcp nic cl =
     (case nic of None \<Rightarrow> 0
      | Some n \<Rightarrow> (case cl of SR_CLASS_A \<Rightarrow> ucast (pcp_a n) | SR_CLASS_B \<Rightarrow> ucast (pcp_b n) | _ \<Rightarrow> 0))"

section \<open>Frames\<close>

lemma length_avtpdu_bytes [simp]: "length (avtpdu_bytes h) = avtpdu_size"
  by (simp add: avtpdu_bytes_def avtpdu_size_def)

lemma flag_bit_iff [simp]: "bit (flag i b) j \<longleftrightarrow> b \<and> i = j \<and> j < 8"
  by (auto simp: flag_def bit_simps)

text \<open>
  The bit fields neither overlap nor are truncated: a header is read back as it was written.
\<close>

lemma avtpdu_roundtrip: "read_avtpdu (avtpdu_bytes h @ rest) = h"
proof -
  have "(ucast (ucast (s :: 7 word) OR flag 7 c) :: 7 word) = s" for s c
    by (intro bit_word_eqI) (auto simp: bit_simps)
  moreover have "bit (ucast (s :: 7 word) OR flag 7 c :: u8) 7 \<longleftrightarrow> c" for s c
    by (auto simp: bit_simps dest: bit_imp_le_length)
  moreover have "(ucast (drop_bit 4 (flag 0 a OR flag 1 b OR flag 2 c OR flag 3 d OR push_bit 4 (ucast (v :: 3 word)) OR flag 7 e)) :: 3 word) = v" for a b c d e v
    by (intro bit_word_eqI) (auto simp: bit_simps)
  moreover have "bit (flag 0 a OR flag 1 b OR flag 2 c OR flag 3 d OR push_bit 4 (ucast (v :: 3 word)) OR flag 7 e) i \<longleftrightarrow>
      (if i = 0 then a else if i = 1 then b else if i = 2 then c else if i = 3 then d else e)" if "i \<in> {0, 1, 2, 3, 7}" for a b c d e v i
    using that by (auto simp: bit_simps dest: bit_imp_le_length)
  moreover have "bit (flag 0 a OR push_bit 1 (ucast (v :: 7 word))) 0 \<longleftrightarrow> a" for a v
    by (simp only: bit_or_iff bit_push_bit_iff flag_bit_iff) simp
  moreover have "(ucast (drop_bit 1 (flag 0 a OR push_bit 1 (ucast (v :: 7 word)))) :: 7 word) = v" for a v
    by (intro bit_word_eqI) (auto simp: bit_simps simp del: push_bit_Suc One_nat_def)
  ultimately show ?thesis
    by (simp add: read_avtpdu_def avtpdu_bytes_def Let_def)
qed

text \<open>
  The comment asks for a subtype of the enumeration; the values from \<open>0x80\<close> on lose their highest bit, which
  is the place of the control flag.
\<close>

lemma subtype_values_distinct: "avtp_subtype_value s = avtp_subtype_value s' \<longleftrightarrow> s = s'"
  by (cases s; cases s'; simp)

lemma subtype_value_bound: "avtp_subtype_value s < 256"
  by (cases s) simp_all

lemma subtype_truncates:
  assumes "s < 256"
  shows "unat (of_nat s :: 7 word) = (if s < 128 then s else s - 128)"
  using assms by (simp add: unat_of_nat take_bit_eq_mod mod_if)

lemma control_subtype_byte:
  assumes "128 \<le> s" "s < 256"
  shows "ucast (of_nat s :: 7 word) OR flag 7 True = (of_nat s :: u8)"
proof (intro bit_word_eqI)
  fix i assume i: "i < LENGTH(8)"
  have "s div 128 = 1" using assms by (simp add: div_if)
  then have 7: "bit s 7" by (simp add: bit_iff_odd)
  show "bit (ucast (of_nat s :: 7 word) OR flag 7 True) i = bit (of_nat s :: u8) i"
    using i 7 by (cases "i = 7") (auto simp: bit_simps)
qed

lemma store_bytes_length: "store_bytes off bs f = Some g \<Longrightarrow> length g = length f"
  by (auto simp: store_bytes_def split: if_splits)

lemma load_store:
  assumes "store_bytes off bs f = Some g"
  shows "load_bytes off (length bs) g = Some bs"
    "off' + n \<le> off \<Longrightarrow> load_bytes off' n g = load_bytes off' n f"
    "off + length bs \<le> off' \<Longrightarrow> load_bytes off' n g = load_bytes off' n f"
proof -
  have g: "g = take off f @ bs @ drop (off + length bs) f" and l: "off + length bs \<le> length f"
    using assms by (auto simp: store_bytes_def split: if_splits)
  show "load_bytes off (length bs) g = Some bs"
    using l by (simp add: g load_bytes_def)
  show "load_bytes off' n g = load_bytes off' n f" if "off' + n \<le> off"
  proof -
    have "drop off' g = take (off - off') (drop off' f) @ bs @ drop (off + length bs) f"
      using l that by (simp add: g drop_take)
    moreover have "n \<le> off - off'" "off - off' \<le> length f - off'" using l that by auto
    moreover have "length g = length f" using l by (simp add: g)
    ultimately show ?thesis by (simp add: load_bytes_def min_absorb1 min_absorb2)
  qed
  show "load_bytes off' n g = load_bytes off' n f" if "off + length bs \<le> off'"
    using l that by (simp add: g load_bytes_def)
qed

text \<open>
  A frame with a shim header is accepted; the stream header and the payload are as before, and the length
  is kept modulo \<open>2 ^ 32\<close>.
\<close>

lemma avb_assemble_validates:
  assumes "avb_assemble_header bytes frame = Some frame'"
  shows "avb_validate_header frame' = Some 0"
    "load_bytes 0 avtpdu_size frame' = load_bytes 0 avtpdu_size frame"
    "load_bytes (avb_get_payload_data 0) n frame' = load_bytes (avb_get_payload_data 0) n frame"
    "map_option le_word (load_bytes (avtpdu_size + 4) 4 frame') = Some (ucast bytes :: u32)"
proof -
  obtain mid where 1: "store_bytes avtpdu_size (le_bytes 4 AVB_TEST_HEADER_MAGIC) frame = Some mid"
    and 2: "store_bytes (avtpdu_size + 4) (le_bytes 4 (ucast bytes :: u32)) mid = Some frame'"
    using assms by (auto simp: avb_assemble_header_def bind_eq_Some_conv)
  note ls = load_store [OF 1] load_store [OF 2]
  show "avb_validate_header frame' = Some 0"
    using ls(1) ls(5) [of avtpdu_size 4] by (simp add: avb_validate_header_def)
  show "load_bytes 0 avtpdu_size frame' = load_bytes 0 avtpdu_size frame"
    using ls(2) [of 0 avtpdu_size] ls(5) [of 0 avtpdu_size] by simp
  show "load_bytes (avb_get_payload_data 0) n frame' = load_bytes (avb_get_payload_data 0) n frame"
    using ls(3) [of "avtpdu_size + 8" n] ls(6) [of "avtpdu_size + 8" n]
    by (simp add: avb_get_payload_data_def avb_hdr_size_def)
  show "map_option le_word (load_bytes (avtpdu_size + 4) 4 frame') = Some (ucast bytes :: u32)"
    using ls(4) by simp
qed

lemma avb_assemble_defined: "avb_assemble_header bytes frame \<noteq> None \<longleftrightarrow> avb_get_payload_data 0 \<le> length frame"
  by (auto simp: avb_assemble_header_def store_bytes_def avb_get_payload_data_def avb_hdr_size_def split: if_splits)

section \<open>The lock, the state and the buffer of a link\<close>

text \<open>
  Taking and giving back the lock restores the lock and the interrupts, for both kinds of link, and no second
  taker gets it in between; a change of the kind while the lock is held would give back the other lock.
\<close>

lemma tsn_lock_unlock:
  assumes "tsn_lock (irqs, link) = Some s"
  shows "tsn_lock s = None"
    "\<exists>link'. tsn_unlock s = Some (irqs, link') \<and> tlock link' = tlock link \<and> llock link' = llock link \<and>
      link_state link' = link_state link"
    "\<not> estype_talker link \<Longrightarrow> \<not> fst s"
  using assms by (auto simp: tsn_lock_def tsn_unlock_def split: if_splits)

lemma kind_change_breaks_unlock:
  assumes "tsn_lock (irqs, link) = Some (irqs', link')" "\<not> tlock link" "\<not> llock link"
  shows "tsn_unlock (irqs', link'\<lparr>estype_talker := \<not> estype_talker link'\<rparr>) = None"
  using assms by (auto simp: tsn_lock_def tsn_unlock_def split: if_splits)

text \<open>
  The operations on a link as a transition system: at each moment exactly one of the three queries holds, the
  buffer flag is a truth value, and a buffer that was enabled or disabled starts empty and not synchronised.
\<close>

inductive link_step :: "tsn_link \<Rightarrow> tsn_link \<Rightarrow> bool" where
  on: "tsn_link_on (Some l) = Some l' \<Longrightarrow> link_step l l'"
| off: "tsn_link_off (Some l) = Some l' \<Longrightarrow> link_step l l'"
| err: "tsn_link_err (Some l) = Some l' \<Longrightarrow> link_step l l'"
| enable: "tsn_lb_enable (Some l) = Some l' \<Longrightarrow> link_step l l'"
| disable: "tsn_lb_disable (Some l) = Some l' \<Longrightarrow> link_step l l'"

lemmas link_ops = tsn_link_on_def tsn_link_off_def tsn_link_err_def tsn_lb_enable_def tsn_lb_disable_def
  tsn_link_is_on_def tsn_link_is_off_def tsn_link_is_err_def tsn_lb_def

lemma one_state:
  "length (filter id [tsn_link_is_off (Some l), tsn_link_is_on (Some l), tsn_link_is_err (Some l)]) = 1"
  by (cases "link_state l") (simp_all add: link_ops)

lemma null_link_inert:
  "tsn_link_on None = None" "tsn_link_off None = None" "tsn_link_err None = None" "tsn_lb_enable None = None"
  "tsn_lb_disable None = None" "\<not> tsn_link_is_off None" "\<not> tsn_link_is_on None" "\<not> tsn_link_is_err None" "tsn_lb None = 0"
  by (simp_all add: link_ops)

lemma link_steps_keep:
  assumes "link_step\<^sup>*\<^sup>* l l'"
  shows "buffer_active l \<in> {0, 1} \<Longrightarrow> tsn_lb (Some l') \<in> {0, 1}"
    "tlock l' = tlock l" "llock l' = llock l" "estype_talker l' = estype_talker l"
    "max_payload_size l' = max_payload_size l"
  using assms by (induction rule: rtranclp_induct) (auto elim!: link_step.cases simp: link_ops)

lemma buffer_starts_empty:
  assumes "op \<in> {tsn_lb_enable, tsn_lb_disable}" "op (Some l) = Some l'"
  shows "available_bytes l' = 0 \<and> \<not> is_synced l' \<and> link_state l' = link_state l"
  using assms by (auto simp: link_ops)

text \<open>
  The size of the shim's header fits the payload or is the error number; the comment promises the like for the
  size of the next frame, which is passed on unchecked.
\<close>

lemma hdr_size_bounded:
  "tsn_shim_get_hdr_size f (Some l) = of_int (- EINVAL) \<or> tsn_shim_get_hdr_size f (Some l) \<le> ucast (max_payload_size l)"
  by (auto simp: tsn_shim_get_hdr_size_def Let_def split: option.splits)

lemma hdr_size_error_apart: "ucast (max_payload_size l) < (of_int (- EINVAL) :: u64)"
proof -
  have "unat (max_payload_size l) < 2 ^ 16" using unsigned_less [of "max_payload_size l", where ?'a = nat] by simp
  moreover have "unat (of_int (- EINVAL) :: u64) = 2 ^ 64 - 22" by (simp add: errno_simps)
  ultimately show ?thesis by (simp add: word_less_nat_alt unsigned_ucast_eq take_bit_nat_eq_self)
qed

lemma framesize_unchecked: "tsn_shim_get_framesize (\<lambda>_. 0x10000) l > ucast (max_payload_size l)"
proof -
  have "unat (max_payload_size l) < 2 ^ 16" using unsigned_less [of "max_payload_size l", where ?'a = nat] by simp
  then show ?thesis
    by (simp add: tsn_shim_get_framesize_def word_less_nat_alt unsigned_ucast_eq take_bit_nat_eq_self)
qed

lemma pcp_bounded: "unat (sr_class_to_pcp nic cl) < 8"
proof -
  have "unat (w :: 3 word) < 8" for w using unsigned_less [of w, where ?'a = nat] by simp
  then show ?thesis
    by (auto simp: sr_class_to_pcp_def unsigned_ucast_eq take_bit_eq_mod intro: le_less_trans [OF mod_less_eq_dividend] split: option.splits sr_class.splits)
qed

end
