(* ===== verification/Bsp_Headers.thy ===== *)
theory Bsp_Headers
  imports Prelude "HOL-Library.Signed_Division"
begin

text \<open>
  The code of the smaller headers of the board support: pin numbers and their names
  (\<open>sunxi-gpio.h\<close>), wake-up sources and calls of the secure firmware (\<open>sunxi-sip.h\<close>), registers of more than one byte
  (\<open>power/axp2101.h\<close>) and the stop watch of \<open>sunxi-common.h\<close>.
\<close>

unbundle bit_operations_syntax

section \<open>Pins\<close>

definition SUNXI_BANK_SIZE :: int where "SUNXI_BANK_SIZE = 32"
definition AXP_PIN_BASE :: int where "AXP_PIN_BASE = 1024"
definition SUNXI_PIN_NAME_MAX_LEN :: nat where "SUNXI_PIN_NAME_MAX_LEN = 8"

definition IS_AXP_PIN :: "int \<Rightarrow> bool" where "IS_AXP_PIN pin = (pin \<ge> AXP_PIN_BASE)"

definition GPIO_BANK :: "nat \<Rightarrow> int \<Rightarrow> int" where
  "GPIO_BANK bank n = SUNXI_BANK_SIZE * int bank + n"

definition GPIO_AXP :: "int \<Rightarrow> int" where "GPIO_AXP n = AXP_PIN_BASE + n"

datatype sunxi_pin_data_status = SUNXI_PIN_DATA_LOW | SUNXI_PIN_DATA_HIGH

definition SUNXI_DATA_LOW :: int where "SUNXI_DATA_LOW = 0"
definition SUNXI_DATA_HIGH :: int where "SUNXI_DATA_HIGH = 0"

text \<open>
  The configuration of a pin in one word.
\<close>

definition SUNXI_PINCFG_PACK :: "u32 \<Rightarrow> u32 \<Rightarrow> u32" where
  "SUNXI_PINCFG_PACK ty v = push_bit 8 v OR (ty AND 0xFF)"

definition SUNXI_PINCFG_UNPACK_TYPE :: "u32 \<Rightarrow> u32" where
  "SUNXI_PINCFG_UNPACK_TYPE cfg = cfg AND 0xFF"

definition SUNXI_PINCFG_UNPACK_VALUE :: "u32 \<Rightarrow> u32" where
  "SUNXI_PINCFG_UNPACK_VALUE cfg = drop_bit 8 (cfg AND 0xFFFFFF00)"

text \<open>
  Names of pins, as \<open>sprintf\<close> prints them (\<open>%d\<close> and \<open>%c\<close>); the buffer is the argument, \<open>None\<close> for \<open>NULL\<close>.  Division
  rounds to zero as in C.
\<close>

fun show_nat :: "nat \<Rightarrow> string" where
  "show_nat n = (if n < 10 then [char_of (48 + n)] else show_nat (n div 10) @ [char_of (48 + n mod 10)])"

declare show_nat.simps [simp del]

definition show_int :: "int \<Rightarrow> string" where
  "show_int i = (if i < 0 then CHR ''-'' # show_nat (nat (- i)) else show_nat (nat i))"

definition sunxi_gpio_to_name :: "int \<Rightarrow> string option \<Rightarrow> int \<times> string option" where
  "sunxi_gpio_to_name gpio name =
     (case name of None \<Rightarrow> (- EINVAL, None)
      | Some _ \<Rightarrow>
        if IS_AXP_PIN gpio
        then let index = gpio - AXP_PIN_BASE in (0, Some (''GPIO'' @ show_int index))
        else let bank = gpio sdiv SUNXI_BANK_SIZE; index = gpio smod SUNXI_BANK_SIZE
             in (0, Some (CHR ''P'' # char_of (nat ((65 + bank) mod 256)) # show_int index)))"

section \<open>Firmware calls\<close>

definition SET_ROOT_WAKEUP_SOURCE :: "u32 \<Rightarrow> u32" where
  "SET_ROOT_WAKEUP_SOURCE root_irq = root_irq"

definition SET_SEC_WAKEUP_SOURCE :: "u32 \<Rightarrow> u32 \<Rightarrow> u32" where
  "SET_SEC_WAKEUP_SOURCE root_irq secondary_irq = push_bit 30 1 OR push_bit 10 secondary_irq OR root_irq"

definition SET_WAKEUP_TIME_MS :: "u32 \<Rightarrow> u32" where
  "SET_WAKEUP_TIME_MS ms = push_bit 30 3 OR ms"

definition ARM_SVC_BASE :: u64 where "ARM_SVC_BASE = 0xc0000000"
definition SUNXI_BASE :: u64 where "SUNXI_BASE = 0x10"
definition CLEAR_WAKEUP_SRC :: u64 where "CLEAR_WAKEUP_SRC = ARM_SVC_BASE + (SUNXI_BASE + 0x15)"
definition SET_WAKEUP_SRC :: u64 where "SET_WAKEUP_SRC = ARM_SVC_BASE + (SUNXI_BASE + 0x16)"
definition CLEAR_DRAM_KEEP_RUNNING :: u64 where "CLEAR_DRAM_KEEP_RUNNING = ARM_SVC_BASE + (SUNXI_BASE + 0x17)"
definition SET_DRAM_KEEP_RUNNING :: u64 where "SET_DRAM_KEEP_RUNNING = ARM_SVC_BASE + (SUNXI_BASE + 0x18)"
definition SET_DEBUG_DRAM_CRC_PARAS :: u64 where "SET_DEBUG_DRAM_CRC_PARAS = ARM_SVC_BASE + (SUNXI_BASE + 0x54)"
definition ARM_SVC_SUNXI_CRASHDUMP_START :: u64 where "ARM_SVC_SUNXI_CRASHDUMP_START = ARM_SVC_BASE + (SUNXI_BASE + 0x85)"
definition ARM_SVC_SUNXI_DDRFREQ :: u64 where "ARM_SVC_SUNXI_DDRFREQ = ARM_SVC_BASE + (SUNXI_BASE + 0x86)"

text \<open>
  The call on a 64-bit kernel: \<open>smc\<close> is the firmware's answer in the first register to the eight
  arguments, of which the caller sees the lowest 32 bits.
\<close>

definition invoke_scp_fn_smc :: "(u64 list \<Rightarrow> u64) \<Rightarrow> u64 \<Rightarrow> u64 \<Rightarrow> u64 \<Rightarrow> u64 \<Rightarrow> int" where
  "invoke_scp_fn_smc smc function_id arg1 arg2 arg3 =
     sint (ucast (smc [function_id, arg1, arg2, arg3, 0, 0, 0, 0]) :: u32)"

section \<open>Registers of the power chip\<close>

text \<open>
  \<open>regmap_read\<close> answers a read with an error or with zero and the value.  A shift by the width of the type
  or more is not defined in C.
\<close>

definition axp20x_read_variable_width :: "(u32 \<Rightarrow> int \<times> u32) \<Rightarrow> u32 \<Rightarrow> u32 \<Rightarrow> int option" where
  "axp20x_read_variable_width regmap_read reg width =
     (let (err, reg_val) = regmap_read reg
      in if err \<noteq> 0 then Some err
         else if width - 8 \<ge> 32 then None
         else let result = push_bit (unat (width - 8)) reg_val;
                  (err, reg_val) = regmap_read (reg + 1)
              in if err \<noteq> 0 then Some err
                 else Some (sint (result OR reg_val)))"

section \<open>The stop watch\<close>

text \<open>
  Times are in nanoseconds; the static variable \<open>old\<close> is the state.  \<open>sdiv\<close> rounds to zero.
\<close>

definition get_elapsed_time_ns :: "int \<Rightarrow> int \<Rightarrow> int \<times> int" where
  "get_elapsed_time_ns now old = (let old = (if old = 0 then now else old) in (now - old, now))"

definition get_elapsed_time_us :: "int \<Rightarrow> int \<Rightarrow> int \<times> int" where
  "get_elapsed_time_us now old = (let (d, old) = get_elapsed_time_ns now old in (d sdiv 1000, old))"

definition get_elapsed_time_ms :: "int \<Rightarrow> int \<Rightarrow> int \<times> int" where
  "get_elapsed_time_ms now old = (let (d, old) = get_elapsed_time_us now old in (d sdiv 1000, old))"

fun elapsed_all :: "int list \<Rightarrow> int \<Rightarrow> int list \<times> int" where
  "elapsed_all [] old = ([], old)"
| "elapsed_all (now # nows) old =
     (let (d, old) = get_elapsed_time_ns now old; (ds, old) = elapsed_all nows old in (d # ds, old))"

section \<open>Names of pins\<close>

lemma show_nat_nonempty: "show_nat n \<noteq> []"
  by (subst show_nat.simps) simp

lemma show_nat_chars: "c \<in> set (show_nat n) \<Longrightarrow> of_char c \<in> {48 :: nat..57}"
  by (induction n rule: show_nat.induct) (subst (asm) (2) show_nat.simps, auto split: if_splits)

lemma show_nat_small: "n < 10 \<Longrightarrow> show_nat n = [char_of (48 + n)]"
  by (subst show_nat.simps) simp

lemma show_nat_big: "10 \<le> n \<Longrightarrow> show_nat n = show_nat (n div 10) @ [char_of (48 + n mod 10)]"
  by (subst show_nat.simps) simp

lemma show_nat_inj: "show_nat m = show_nat n \<Longrightarrow> m = n"
proof (induction m arbitrary: n rule: show_nat.induct)
  case (1 m)
  consider "m < 10" "n < 10" | "m < 10" "10 \<le> n" | "10 \<le> m" "n < 10" | "10 \<le> m" "10 \<le> n" by linarith
  then show ?case
  proof cases
    case 1
    with \<open>show_nat m = show_nat n\<close> show ?thesis by (simp add: show_nat_small)
  next
    case 2
    with \<open>show_nat m = show_nat n\<close> have "show_nat (n div 10) = []"
      by (simp add: show_nat_small show_nat_big [of n])
    then show ?thesis using show_nat_nonempty by blast
  next
    case 3
    with \<open>show_nat m = show_nat n\<close> have "show_nat (m div 10) = []"
      by (simp add: show_nat_small show_nat_big [of m])
    then show ?thesis using show_nat_nonempty by blast
  next
    case 4
    with \<open>show_nat m = show_nat n\<close> have "show_nat (m div 10) = show_nat (n div 10)" "m mod 10 = n mod 10"
      by (simp_all add: show_nat_big)
    moreover from this 1(1) 4 have "m div 10 = n div 10" by simp
    ultimately show ?thesis by (metis div_mult_mod_eq)
  qed
qed

lemma show_nat_less: "n < 10 ^ Suc k \<Longrightarrow> length (show_nat n) \<le> Suc k"
proof (induction k arbitrary: n)
  case 0
  then show ?case by (subst show_nat.simps) simp
next
  case (Suc k)
  then have "length (show_nat (n div 10)) \<le> Suc k" by (intro Suc.IH) (simp add: div_less_iff_less_mult)
  then show ?case by (subst show_nat.simps) simp
qed

text \<open>
  The pins of the banks \<open>A\<close> to \<open>Z\<close> are printed as their letter and their number in the bank, two of them never
  alike, and the name with its terminator fits the buffer.  A name of the power chip's pins is
  longer from the thousandth on.
\<close>

lemma bank_pin_name:
  assumes "bank < 26" "n < 32"
  shows "sunxi_gpio_to_name (GPIO_BANK bank (int n)) (Some buf) = (0, Some (CHR ''P'' # char_of (65 + bank) # show_nat n))"
proof -
  have "\<not> IS_AXP_PIN (GPIO_BANK bank (int n))"
    using assms by (simp add: IS_AXP_PIN_def GPIO_BANK_def SUNXI_BANK_SIZE_def AXP_PIN_BASE_def)
  moreover have "GPIO_BANK bank (int n) sdiv SUNXI_BANK_SIZE = int bank" "GPIO_BANK bank (int n) smod SUNXI_BANK_SIZE = int n"
    using assms by (auto simp: GPIO_BANK_def SUNXI_BANK_SIZE_def signed_divide_int_def signed_modulo_int_def sgn_if)
  moreover have "nat ((65 + int bank) mod 256) = 65 + bank" using assms by simp
  ultimately show ?thesis by (simp add: sunxi_gpio_to_name_def Let_def show_int_def)
qed

lemma bank_pin_names_distinct:
  assumes "bank < 26" "n < 32" "bank' < 26" "n' < 32"
    "sunxi_gpio_to_name (GPIO_BANK bank (int n)) (Some buf) = sunxi_gpio_to_name (GPIO_BANK bank' (int n')) (Some buf')"
  shows "GPIO_BANK bank (int n) = GPIO_BANK bank' (int n')"
proof -
  have "char_of (65 + bank) = (char_of (65 + bank') :: char)" "show_nat n = show_nat n'"
    using assms by (auto simp: bank_pin_name)
  then have "bank = bank'" "n = n'" using assms(1,3) by (auto dest: show_nat_inj)
  then show ?thesis by simp
qed

lemma bank_pin_name_fits:
  assumes "bank < 26" "n < 32"
  shows "\<exists>s. sunxi_gpio_to_name (GPIO_BANK bank (int n)) (Some buf) = (0, Some s) \<and> length s < SUNXI_PIN_NAME_MAX_LEN"
  using assms show_nat_less [of n 1] by (simp add: bank_pin_name SUNXI_PIN_NAME_MAX_LEN_def)

lemma axp_pin_name_too_long:
  "\<exists>s. sunxi_gpio_to_name (GPIO_AXP 1000) (Some buf) = (0, Some s) \<and> length s = SUNXI_PIN_NAME_MAX_LEN"
  by (simp add: sunxi_gpio_to_name_def IS_AXP_PIN_def GPIO_AXP_def show_int_def show_nat.simps SUNXI_PIN_NAME_MAX_LEN_def)

lemma unnamed_banks: "sunxi_gpio_to_name 832 (Some buf) = (0, Some ''P[0'')"
  by (simp add: sunxi_gpio_to_name_def IS_AXP_PIN_def AXP_PIN_BASE_def SUNXI_BANK_SIZE_def signed_divide_int_def
      signed_modulo_int_def show_int_def show_nat.simps Let_def) (simp add: char_of_eq_iff)

lemma pincfg_roundtrip:
  "SUNXI_PINCFG_UNPACK_TYPE (SUNXI_PINCFG_PACK ty v) = ty AND 0xFF"
  "SUNXI_PINCFG_UNPACK_VALUE (SUNXI_PINCFG_PACK ty v) = take_bit 24 v"
proof -
  have m: "(0xFF :: u32) = mask 8" "(0xFFFFFF00 :: u32) = push_bit 8 (mask 24)" by (simp_all add: mask_eq_exp_minus_1)
  show "SUNXI_PINCFG_UNPACK_TYPE (SUNXI_PINCFG_PACK ty v) = ty AND 0xFF"
    unfolding SUNXI_PINCFG_UNPACK_TYPE_def SUNXI_PINCFG_PACK_def m
    by (intro bit_word_eqI) (auto simp: bit_simps)
  show "SUNXI_PINCFG_UNPACK_VALUE (SUNXI_PINCFG_PACK ty v) = take_bit 24 v"
    unfolding SUNXI_PINCFG_UNPACK_VALUE_def SUNXI_PINCFG_PACK_def m
    by (intro bit_word_eqI) (auto simp: bit_simps)
qed

text \<open>
  Both values of the data type are zero, where the data status has two.
\<close>

lemma data_types_coincide: "SUNXI_DATA_HIGH = SUNXI_DATA_LOW"
  by (simp add: SUNXI_DATA_HIGH_def SUNXI_DATA_LOW_def)

section \<open>Wake-up sources\<close>

text \<open>
  With interrupt numbers of ten bits the kind and the numbers of a wake-up source can be read back.
\<close>

lemma wakeup_source_fields:
  assumes "unat root < 2 ^ 10" "unat sec < 2 ^ 10"
  shows "drop_bit 30 (SET_SEC_WAKEUP_SOURCE root sec) = 1" "take_bit 10 (SET_SEC_WAKEUP_SOURCE root sec) = root"
    "take_bit 10 (drop_bit 10 (SET_SEC_WAKEUP_SOURCE root sec)) = sec" "drop_bit 30 (SET_ROOT_WAKEUP_SOURCE root) = 0"
proof -
  have small: "take_bit 10 w = w" if "unat w < 2 ^ 10" for w :: u32
    using that by (simp add: word_unat_eq_iff unsigned_take_bit_eq take_bit_nat_eq_self)
  have high: "\<not> bit w (10 + i)" "\<not> bit w (20 + i)" "\<not> bit w (30 + i)" if "unat w < 2 ^ 10" for w :: u32 and i
  proof -
    have "bit w j \<Longrightarrow> j < 10" for j using small [OF that] by (metis bit_take_bit_iff)
    from this [of "10 + i"] this [of "20 + i"] this [of "30 + i"]
    show "\<not> bit w (10 + i)" "\<not> bit w (20 + i)" "\<not> bit w (30 + i)" by auto
  qed
  show "drop_bit 30 (SET_SEC_WAKEUP_SOURCE root sec) = 1"
    using assms by (intro bit_word_eqI) (auto simp: SET_SEC_WAKEUP_SOURCE_def bit_simps high)
  show "take_bit 10 (SET_SEC_WAKEUP_SOURCE root sec) = root"
    by (subst (2) small [OF assms(1), symmetric], intro bit_word_eqI) (auto simp: SET_SEC_WAKEUP_SOURCE_def bit_simps)
  show "take_bit 10 (drop_bit 10 (SET_SEC_WAKEUP_SOURCE root sec)) = sec"
    by (subst (2) small [OF assms(2), symmetric], intro bit_word_eqI) (auto simp: SET_SEC_WAKEUP_SOURCE_def bit_simps high [OF assms(1)] high [OF assms(2)])
  show "drop_bit 30 (SET_ROOT_WAKEUP_SOURCE root) = 0"
    using assms by (intro bit_word_eqI) (auto simp: SET_ROOT_WAKEUP_SOURCE_def bit_simps high)
qed

lemma svc_numbers_distinct:
  "distinct [CLEAR_WAKEUP_SRC, SET_WAKEUP_SRC, CLEAR_DRAM_KEEP_RUNNING, SET_DRAM_KEEP_RUNNING,
    SET_DEBUG_DRAM_CRC_PARAS, ARM_SVC_SUNXI_CRASHDUMP_START, ARM_SVC_SUNXI_DDRFREQ]"
  by (simp add: CLEAR_WAKEUP_SRC_def SET_WAKEUP_SRC_def CLEAR_DRAM_KEEP_RUNNING_def SET_DRAM_KEEP_RUNNING_def
      SET_DEBUG_DRAM_CRC_PARAS_def ARM_SVC_SUNXI_CRASHDUMP_START_def ARM_SVC_SUNXI_DDRFREQ_def ARM_SVC_BASE_def SUNXI_BASE_def)

section \<open>Registers and times\<close>

text \<open>
  A register of 8 to 16 bits whose low part has no more bits than its place is read as one number; any error
  of the two reads is returned.
\<close>

lemma sint_below:
  assumes "unat (w :: u32) = n" "int n < 2 ^ 31"
  shows "sint w = int n"
proof -
  have u: "uint w = int n" using assms(1) by auto
  have "sint w = signed_take_bit 31 (uint w)" by (simp add: sint_uint)
  also have "\<dots> = int n" unfolding u by (rule signed_take_bit_int_eq_self) (use assms(2) in auto)
  finally show ?thesis .
qed

lemma variable_width_value:
  assumes "regmap_read reg = (0, hi)" "regmap_read (reg + 1) = (0, lo)" "8 \<le> unat width" "unat width \<le> 16"
    "unat hi < 2 ^ 8" "unat lo < 2 ^ (unat width - 8)"
  shows "axp20x_read_variable_width regmap_read reg width = Some (int (unat hi * 2 ^ (unat width - 8) + unat lo))"
proof -
  define k where "k = unat width - 8"
  have k: "unat (width - 8) = k" "k \<le> 8" "\<not> width - 8 \<ge> 32"
    using assms(3,4) by (auto simp: k_def unat_sub word_le_nat_alt)
  have lo: "take_bit k lo = lo" using assms(6) by (simp add: k_def word_unat_eq_iff unsigned_take_bit_eq take_bit_nat_eq_self)
  have disj: "push_bit k hi AND lo = 0" by (subst lo [symmetric], intro bit_word_eqI) (auto simp: bit_simps)
  have "unat hi * 2 ^ k < 2 ^ 8 * 2 ^ 8"
    using assms(5) k(2) power_increasing [OF k(2), of "2 :: nat"] by (intro mult_less_le_imp_less) auto
  then have p: "unat (push_bit k hi) = unat hi * 2 ^ k"
    unfolding unsigned_push_bit_eq by (simp add: push_bit_eq_mult take_bit_nat_eq_self)
  have "unat lo < 2 ^ 8" using assms(6) k(2) by (metis k_def less_le_trans one_le_numeral power_increasing)
  have "push_bit k hi OR lo = push_bit k hi + lo" using disj by (simp add: disjunctive_add_eq_or)
  then have u: "unat (push_bit k hi OR lo) = unat hi * 2 ^ k + unat lo"
    using p \<open>unat hi * 2 ^ k < 2 ^ 8 * 2 ^ 8\<close> \<open>unat lo < 2 ^ 8\<close> by (simp add: unat_word_ariths)
  have "unat hi * 2 ^ k + unat lo < 2 ^ 31"
    using \<open>unat hi * 2 ^ k < 2 ^ 8 * 2 ^ 8\<close> \<open>unat lo < 2 ^ 8\<close> by simp
  then have "int (unat hi * 2 ^ k + unat lo) < 2 ^ 31"
    by (metis of_nat_less_iff of_nat_numeral of_nat_power)
  then have "sint (push_bit k hi OR lo) = int (unat hi * 2 ^ k + unat lo)"
    using u by (intro sint_below) simp_all
  then show ?thesis using assms(1,2) k by (simp add: axp20x_read_variable_width_def Let_def k_def)
qed

lemma variable_width_error:
  assumes "fst (regmap_read reg) = e" "e \<noteq> 0"
  shows "axp20x_read_variable_width regmap_read reg width = Some e"
  using assms by (cases "regmap_read reg") (simp add: axp20x_read_variable_width_def)

text \<open>
  The times of a stop watch that has been started add up to the time between the start and the last call.
\<close>

lemma elapsed_telescopes:
  assumes "old \<noteq> 0" "0 \<notin> set nows" "elapsed_all nows old = (ds, old')"
  shows "sum_list ds = old' - old \<and> old' = last (old # nows) \<and> length ds = length nows"
  using assms
  by (induction nows arbitrary: old ds) (auto simp: get_elapsed_time_ns_def Let_def split: prod.splits)

lemma elapsed_first: "fst (get_elapsed_time_ns now 0) = 0"
  by (simp add: get_elapsed_time_ns_def)

end
