(* ===== verification/Fan.thy ===== *)
theory Fan
  imports Prelude
begin

text \<open>
  The sketch of a fan driver, \<open>docs/peripheral/custom/fan_control_kernel_sketch.c\<close>: the duty curve
  with its hysteresis, the PWM settings and the cooling-device operations.  \<open>apply_pwm\<close>, the answer
  of \<open>pwm_apply_state\<close> to a setting, is an argument; what the driver does to the fan is recorded in order.
\<close>

section \<open>The curve\<close>

record fan_curve_point =
  temp_mc :: int
  duty_pct :: int

definition fan_curve :: "fan_curve_point list" where
  "fan_curve = map (\<lambda>(t, d). \<lparr>temp_mc = t, duty_pct = d\<rparr>)
     [(45000, 0), (50000, 25), (60000, 45), (70000, 65), (80000, 100)]"

definition FAN_HYSTERESIS_MC :: int where "FAN_HYSTERESIS_MC = 3000"
definition FAN_STARTUP_KICK_PCT :: int where "FAN_STARTUP_KICK_PCT = 100"
definition FAN_STARTUP_KICK_MS :: nat where "FAN_STARTUP_KICK_MS = 750"
definition FAN_PWM_PERIOD_NS :: int where "FAN_PWM_PERIOD_NS = 40000"

definition duty_for_temp :: "int \<Rightarrow> int \<Rightarrow> int" where
  "duty_for_temp t last_duty_pct =
     (let target = fold (\<lambda>p target. if t \<ge> temp_mc p then duty_pct p else target) fan_curve 0
      in if target < last_duty_pct then
           fold (\<lambda>p target. if last_duty_pct > duty_pct p \<and> t \<ge> temp_mc p - FAN_HYSTERESIS_MC
                            then max target (duty_pct p) else target) fan_curve target
         else target)"

section \<open>The driver\<close>

record pwm_state =
  period :: int
  duty_cycle :: int
  pwm_enabled :: bool

datatype fan_action = Apply pwm_state | Msleep nat | Lock | Unlock

record lpi3h_fan =
  current_duty_pct :: int
  fan_actions :: "fan_action list"

definition pwm_setting :: "int \<Rightarrow> pwm_state" where
  "pwm_setting d = \<lparr>period = FAN_PWM_PERIOD_NS, duty_cycle = FAN_PWM_PERIOD_NS * d div 100, pwm_enabled = (d > 0)\<rparr>"

definition lpi3h_fan_set_duty :: "(pwm_state \<Rightarrow> int) \<Rightarrow> int \<Rightarrow> lpi3h_fan \<Rightarrow> int \<times> lpi3h_fan" where
  "lpi3h_fan_set_duty apply_pwm d fan =
     (let state = pwm_setting d;
          fan = fan\<lparr>fan_actions := fan_actions fan @ [Apply state]\<rparr>;
          ret = apply_pwm state
      in if ret \<noteq> 0 then (ret, fan) else (0, fan\<lparr>current_duty_pct := d\<rparr>))"

definition act :: "fan_action \<Rightarrow> lpi3h_fan \<Rightarrow> lpi3h_fan" where
  "act a fan = fan\<lparr>fan_actions := fan_actions fan @ [a]\<rparr>"

definition lpi3h_fan_set_target :: "(pwm_state \<Rightarrow> int) \<Rightarrow> int \<Rightarrow> lpi3h_fan \<Rightarrow> int \<times> lpi3h_fan" where
  "lpi3h_fan_set_target apply_pwm t fan =
     (let fan = act Lock fan;
          target = duty_for_temp t (current_duty_pct fan);
          (ret, fan) = (if current_duty_pct fan = 0 \<and> target > 0
             then let (ret, fan) = lpi3h_fan_set_duty apply_pwm FAN_STARTUP_KICK_PCT fan
                  in if ret \<noteq> 0 then (ret, fan) else (0, act (Msleep FAN_STARTUP_KICK_MS) fan)
             else (0, fan));
          (ret, fan) = (if ret \<noteq> 0 then (ret, fan)
             else if target \<noteq> current_duty_pct fan then lpi3h_fan_set_duty apply_pwm target fan
             else (0, fan))
      in (ret, act Unlock fan))"

definition lpi3h_fan_get_max_state :: nat where
  "lpi3h_fan_get_max_state = length fan_curve - 1"

definition lpi3h_fan_get_cur_state :: "lpi3h_fan \<Rightarrow> nat" where
  "lpi3h_fan_get_cur_state fan =
     (case find (\<lambda>i. current_duty_pct fan \<ge> duty_pct (fan_curve ! i)) (rev [0..<length fan_curve]) of
        Some i \<Rightarrow> i | None \<Rightarrow> 0)"

definition lpi3h_fan_set_cur_state :: "(pwm_state \<Rightarrow> int) \<Rightarrow> nat \<Rightarrow> lpi3h_fan \<Rightarrow> int \<times> lpi3h_fan" where
  "lpi3h_fan_set_cur_state apply_pwm state fan =
     (if state \<ge> length fan_curve then (- EINVAL, fan)
      else lpi3h_fan_set_duty apply_pwm (duty_pct (fan_curve ! state)) fan)"

text \<open>
  \<open>devm_pwm_get\<close> and the registration of the cooling device answer with an error or succeed.
\<close>

definition lpi3h_fan_probe :: "bool \<Rightarrow> int \<Rightarrow> int \<Rightarrow> int \<times> lpi3h_fan option" where
  "lpi3h_fan_probe mem_ok pwm_err cdev_err =
     (if \<not> mem_ok then (- ENOMEM, None)
      else if pwm_err \<noteq> 0 then (pwm_err, None)
      else if cdev_err \<noteq> 0 then (cdev_err, None)
      else (0, Some \<lparr>current_duty_pct = 0, fan_actions = []\<rparr>))"

section \<open>What the curve does\<close>

definition level :: "int \<Rightarrow> int" where
  "level t = (if t < 50000 then 0 else if t < 60000 then 25 else if t < 70000 then 45 else if t < 80000 then 65 else 100)"

lemma curve_simps: "fan_curve = [\<lparr>temp_mc = 45000, duty_pct = 0\<rparr>, \<lparr>temp_mc = 50000, duty_pct = 25\<rparr>,
    \<lparr>temp_mc = 60000, duty_pct = 45\<rparr>, \<lparr>temp_mc = 70000, duty_pct = 65\<rparr>, \<lparr>temp_mc = 80000, duty_pct = 100\<rparr>]"
  by (simp add: fan_curve_def)

text \<open>
  The duty in closed form: when it falls, the fan stays at the highest level strictly below the last
  duty whose trip point is not more than the hysteresis above the temperature.
\<close>

definition held_level :: "int \<Rightarrow> int \<Rightarrow> int" where
  "held_level t d = (if d > 100 \<and> t \<ge> 77000 then 100 else if d > 65 \<and> t \<ge> 67000 then 65
     else if d > 45 \<and> t \<ge> 57000 then 45 else if d > 25 \<and> t \<ge> 47000 then 25 else 0)"

lemma duty_closed_form: "duty_for_temp t d = (if level t < d then max (level t) (held_level t d) else level t)"
  unfolding duty_for_temp_def curve_simps level_def held_level_def FAN_HYSTERESIS_MC_def Let_def
  by (simp add: max_def)

lemma duty_bounds: "0 \<le> duty_for_temp t d \<and> duty_for_temp t d \<le> 100"
  by (auto simp: duty_closed_form level_def held_level_def)

lemma duty_at_least_level: "level t \<le> duty_for_temp t d"
  by (simp add: duty_closed_form)

text \<open>
  The comment promises that the duty does not chatter at a trip boundary.  But the duty in force is
  no candidate, because the test asks for strictly less: a fan that runs at a level of the curve
  leaves it as soon as the temperature is below the trip point, at any temperature.
\<close>

lemma no_hysteresis:
  assumes "d \<in> {0, 25, 45, 65, 100}" "level t < d"
  shows "duty_for_temp t d < d"
  using assms by (auto simp: duty_closed_form level_def held_level_def split: if_splits)

lemma chatters_at_trip:
  "duty_for_temp 70000 45 = 65" "duty_for_temp 69999 65 = 45" "duty_for_temp 60000 25 = 45" "duty_for_temp 59999 45 = 25"
  by (simp_all add: duty_closed_form level_def held_level_def)

section \<open>What the driver does\<close>

lemma set_duty_effect:
  "lpi3h_fan_set_duty apply_pwm d fan = (apply_pwm (pwm_setting d),
     fan\<lparr>fan_actions := fan_actions fan @ [Apply (pwm_setting d)],
         current_duty_pct := if apply_pwm (pwm_setting d) = 0 then d else current_duty_pct fan\<rparr>)"
  by (cases fan) (simp add: lpi3h_fan_set_duty_def Let_def)

text \<open>
  A fan that stands still is started with a kick: full duty, the pause, then the target.
\<close>

lemma set_target_kicks:
  assumes "\<And>p. apply_pwm p = 0" "current_duty_pct fan = 0" "t \<ge> 50000" "t < 80000"
  shows "lpi3h_fan_set_target apply_pwm t fan = (0, \<lparr>current_duty_pct = level t,
    fan_actions = fan_actions fan @ [Lock, Apply (pwm_setting 100), Msleep 750, Apply (pwm_setting (level t)), Unlock]\<rparr>)"
  using assms
  by (cases fan) (auto simp: lpi3h_fan_set_target_def set_duty_effect duty_closed_form level_def act_def
      FAN_STARTUP_KICK_PCT_def FAN_STARTUP_KICK_MS_def Let_def)

lemma set_target_reaches:
  assumes "lpi3h_fan_set_target apply_pwm t fan = (0, fan')"
  shows "current_duty_pct fan' = duty_for_temp t (current_duty_pct fan)"
  using assms
  by (cases fan) (auto simp: lpi3h_fan_set_target_def set_duty_effect act_def Let_def split: if_splits)

text \<open>
  Whatever happens in between, the lock is taken first and given back last; the cooling device sets the duty
  without it, and without the kick.
\<close>

lemma set_target_locked:
  "\<exists>acts. fan_actions (snd (lpi3h_fan_set_target apply_pwm t fan)) = fan_actions fan @ Lock # acts @ [Unlock] \<and>
     set acts \<inter> {Lock, Unlock} = {}"
  by (cases fan) (auto simp: lpi3h_fan_set_target_def set_duty_effect act_def Let_def)

lemma cooling_unlocked:
  assumes "state \<le> lpi3h_fan_get_max_state"
  shows "fan_actions (snd (lpi3h_fan_set_cur_state apply_pwm state fan)) =
    fan_actions fan @ [Apply (pwm_setting (duty_pct (fan_curve ! state)))]"
  using assms by (auto simp: lpi3h_fan_set_cur_state_def set_duty_effect lpi3h_fan_get_max_state_def curve_simps)

text \<open>
  A cooling state that is set is the state read back.
\<close>

lemma state_roundtrip:
  assumes "state \<le> lpi3h_fan_get_max_state" "lpi3h_fan_set_cur_state apply_pwm state fan = (0, fan')"
  shows "lpi3h_fan_get_cur_state fan' = state"
proof -
  have "state \<in> {0, 1, 2, 3, 4}" using assms(1) by (auto simp: lpi3h_fan_get_max_state_def curve_simps)
  moreover have "current_duty_pct fan' = duty_pct (fan_curve ! state)"
    using assms by (auto simp: lpi3h_fan_set_cur_state_def set_duty_effect errno_simps split: if_splits)
  ultimately show ?thesis by (auto simp: lpi3h_fan_get_cur_state_def curve_simps upt_rec)
qed

end
