(* ===== verification/Spec2Isabelle.thy ===== *)
theory Spec2Isabelle
  imports Iommu_V2_Probe Iommu_Trace Iommu_Sweeps Cedar_Ioctl Cedar_Engine Bitops Rawnand Tsn Bsp_Headers Fan
begin

text \<open>
  Verification of the Allwinner drivers of this repository: the IOMMU of the H618 and its relatives
  (\<open>src/bsp/drivers/iommu\<close>), the video engine (\<open>src/bsp/drivers/ve/cedar-ve\<close>), and the code in the headers
  they come with (\<open>src/bsp/include\<close>).

  \<^bold>\<open>The program.\<close>  The repository builds a Linux 6.18 kernel for the LonganPi 3H.  Its own C code is
  two drivers.  The IOMMU driver keeps a two-level page table in memory (\<open>sunxi-iommu-pgtable.c\<close>),
  programs the unit's registers and answers the kernel's IOMMU core; there are three versions of it,
  of which the build selects one: \<open>sunxi-iommu-v1.c\<close> for the chips up to sun55iw3, among them the
  H618, \<open>sunxi-iommu-v2.c\<close> for hardware with two register sets of six masters each, and
  \<open>sunxi-iommu-v3.c\<close> for hardware with 34-bit fault addresses.  \<open>sunxi-iommu-common.c\<close> collects the address ranges that
  client devices reserve in the device tree.  The VE driver (\<open>cedar_ve.c\<close>) is a character device through
  which codecs in user space share the video engine: they request its clock, take locks, map DMA
  buffers, wait for interrupts and report their load.

  \<^bold>\<open>Machine and kernel.\<close>  \<open>Prelude\<close> has the C types as words, the error numbers and the arithmetic of
  aligned addresses; \<open>Mmio\<close> has register accesses as a trace and the device as a parameter that
  answers reads, with polling loops as partial functions in the option type; \<open>Slots\<close> has the fixed arrays
  that both searches by key and for a free entry go through (locale \<open>slot_table\<close>, interpreted in
  \<open>Cedar_Dvfs\<close> and \<open>Cedar_Debug\<close>).  Everything the drivers call of the kernel (allocators, clock,
  reset, regulator and dma-buf frameworks, the device tree, user memory) is a parameter that says how
  a request is answered; what is acquired and given back is recorded.  A value \<open>None\<close>, or \<open>Blocks\<close> and
  \<open>Faults\<close> where both occur, stands for a run that does not return, waits for a lock or accesses
  memory it must not.

  \<^bold>\<open>Page table.\<close>  \<open>Pgtable\<close> is \<open>sunxi-iommu-pgtable.h\<close> and \<open>.c\<close>, macro by macro and function by function,
  for both table formats, over a memory of 32-bit cells.  \<open>Pgtable_Entry\<close> (what an entry encodes),
  \<open>Pgtable_Walk\<close> (well-formed tables and their lookup function), \<open>Pgtable_Ops\<close>, \<open>Pgtable_Range\<close> and
  \<open>Pgtable_Delete\<close> (allocation, filling and clearing of ranges) lead to \<open>Pgtable_Interface\<close>: the
  locale \<open>page_table\<close> states the contract on a map from page numbers to entries, and the functions of
  the file are its interpretation \<open>pt\<close>.  \<open>Pgtable_Dump\<close> shows that the dump lists exactly the valid pages (C11).

  \<^bold>\<open>IOMMU driver.\<close>  \<open>Iommu_V1\<close> has the registers, TLB maintenance, map, unmap, domains, client devices
  and the interrupt handler; \<open>Iommu_Tlb\<close> the register sequences and their locking; \<open>Iommu_Map\<close> and
  \<open>Iommu_Map_Props\<close> the correctness of mapping and unmapping on translations (C1 to C4);
  \<open>Iommu_Life\<close> and \<open>Iommu_Steps\<close> the driver as a transition system with its invariant (C5), the bypass
  register (C6), the order of initialisation (C7), the interrupt handler (C8) and domains;
  \<open>Iommu_Common\<close> the reserved regions (C12); \<open>Iommu_Probe\<close> platform data, probe, remove, suspend,
  resume, groups, counters and what a failing probe leaves; \<open>Iommu_Debug\<close> the test bench
  \<open>sunxi-iommu-debug.c\<close>, whose test of the debug mode always restores the unit (C14).  \<open>Iommu_Example\<close> is the concrete
  driver state on which the hypotheses are discharged.

  \<^bold>\<open>IOMMU drivers v2 and v3.\<close>  \<open>Iommu_V2\<close> and \<open>Iommu_V3\<close> have the two files function by function, over the
  state of v1; names they share with v1 carry a suffix.  What the three have in common is stated
  once: the locale \<open>polling\<close> of \<open>Mmio\<close> shows that a wait on any condition that only reads registers
  returns, and is interpreted on v1's macro and used for v2's; the locale \<open>unmap_driver\<close> of \<open>Iommu_Map\<close> derives the
  correctness of \<open>unmap\<close> from its two invalidations, and its interpretations \<open>drv1\<close>, \<open>drv2\<close> and \<open>drv3\<close>
  are the three drivers; the locale \<open>driver_pair\<close> of \<open>Iommu_Drivers\<close> compares two of them, which makes
  them one page-table machine (C15).  \<open>Iommu_V2_Tlb\<close> and \<open>Iommu_V2_Props\<close> have the register
  sequences of v2: initialisation of both sets (C21) and the interrupt handler of one set (C28).
  \<open>Iommu_V2_Probe\<close> has what v2 and v3 ask of the kernel: platform data from the device tree (C9), probe
  (C10), remove, suspend, resume, groups, counters, dumps.  \<open>Iommu_Trace\<close> is the record of device
  addresses that all three can keep, two linked lists on a heap, which refine two lists whatever the
  memory held that \<open>kmalloc\<close> returns; where the lists end is part of the statement (C38).

  \<^bold>\<open>Video engine.\<close>  \<open>Ve_Mem_List\<close> is \<open>ve_mem_list.h\<close> (links as two maps; locale \<open>linked_list\<close>, interpretation
  \<open>dl\<close>); \<open>Cedar_Dma\<close> the buffers in that list (C17 to C19); \<open>Cedar_Dvfs\<close> load table and clock rates (C20,
  C22, C23); \<open>Cedar_Irq\<close> the interrupt handler and the waits, with the stores of other processors at every
  point of a wait (locale \<open>waitable\<close>, three interpretations; C24, C25); \<open>Cedar_Clk\<close> clocks, resets and the reference count (C26, C27); \<open>Cedar_Power\<close> the power switch
  (C29); \<open>Cedar_Tasks\<close> the engine's task queue and its timers (C30 to C32); \<open>Cedar_Lock\<close> open files and
  engine locks, \<open>Cedar_Files\<close> their runs (C33, C34); \<open>Cedar_Proc\<close> the debugfs texts (C35, C36);
  \<open>Cedar_Debug\<close> the debug table and its sysfs attribute (C37); \<open>Cedar_Dev\<close> initialisation, exit,
  probe, remove, suspend, resume and \<open>mmap\<close> (C16, C39, C40); \<open>Cedar_Ioctl\<close> the ioctl entry point that
  composes all of them, with the invariant of the whole device that every command keeps (C13).

  \<^bold>\<open>Fuel and bounds.\<close>  The only numeric bound of a loop is the code's own (\<open>max_count\<close> of the power
  switch).  Loops over registers are partial functions and are proved to return under \<open>clock_ok\<close>, a
  clock that advances with the delays.  Loops over lists and page ranges are recursive functions with
  a termination proof; the loop over the linked list of buffers is partial and is proved to return
  on every reachable list.  The engine's reference count is a C \<open>int\<close>: every \<open>++\<close> and \<open>--\<close> on it goes
  through \<open>cint\<close>, which wraps at 32 bits as the kernel's \<open>-fno-strict-overflow\<close> has it, and C26 covers the
  wrap.  The steps of the unmap loops are unsigned; the C \<open>int\<close> that \<open>sunxi_pgtable_delete_l2_tables\<close>
  returns differs from that only where the end of a range lies before its start, which no caller has.

  \<^bold>\<open>Code in headers.\<close>  \<open>Bitops\<close> is \<open>sunxi-bitops.h\<close>: register bits and fields, over the accesses of
  \<open>Cedar_Irq\<close> (a field is read back as it was set, and set without touching its neighbours).
  \<open>Rawnand\<close> is \<open>linux/mtd/aw-rawnand.h\<close>: the requests its macros build, their address registers, and the checks of
  offsets and lengths, exact as long as their sum has 64 bits.  \<open>Tsn\<close> is \<open>sunxi-tsn.h\<close> and \<open>sunxi-avb.h\<close>: frame headers
  as bytes, read back as written, and links with their lock and state.  \<open>Bsp_Headers\<close> has pin names (distinct, and
  within their buffer for the banks A to Z), wake-up sources, register pairs of the power chip and the stop watch.
  \<open>Fan\<close> is the sketch \<open>docs/peripheral/custom/fan_control_kernel_sketch.c\<close>, which the build leaves out: the duty
  curve in closed form, the locking, the kick from a stop and the states of the cooling device.

  \<^bold>\<open>Code that is switched off.\<close>  The build defines none of \<open>RAND_VA_SWEEP_TEST\<close>, \<open>TLB_STRESS_SWEEP_TEST\<close>,
  \<open>USE_CEDAR_ENGINE\<close> and \<open>SET_VE_FREQ_BY_REG\<close>.  \<open>Iommu_Sweeps\<close> has the two sweeps (one of them can never pass) and the sysfs files
  of the drivers; \<open>Cedar_Engine\<close> has the engine requests through the task queue and the clock by register.

  \<^bold>\<open>Not modelled.\<close>  The text that sysfs files print is debugging
  output; \<open>cedar_dma_flush_range\<close> is assembly; the other headers under
  \<open>src/bsp/include\<close> are constants, structures and declarations of drivers that are not part of the repository, and
  \<open>SET_THIRD_WAKEUP_SOURCE\<close> of \<open>sunxi-sip.h\<close> lacks an operator, so that it has no meaning.
  Kernel patches, scripts, firmware and packaging are not C code of this
  repository.  The preemption of one call by another is not interleaved inside critical sections: the
  locks that make a call atomic are part of the traces and states, and the theorems on lock use say
  that they are taken and released properly.  The interrupt handler of the VE takes no lock; its stores
  are placed freely inside the waits (C25), which are the only calls that share fields with it.
\<close>

end
